(* ===== verification/Prelude.thy ===== *)
theory Prelude
  imports Main "HOL-Library.AList" "HOL-Library.List_Lexorder" "HOL-Library.Multiset"
begin

text \<open>
  Shared vocabulary of the development: how Python values are represented, the
  collections of rewrite rules the component theories use, and the generic lemmas on
  strings, dictionaries and fallible computations.

  \<^item> A Python \<open>str\<close> is the list of its code points (\<open>pystr\<close>). Comparison of
    \<open>pystr\<close> is the lexicographic order of code points, as in Python.
  \<^item> A Python \<open>dict\<close> is an association list in insertion order (\<open>('k, 'v) dict\<close>):
    assigning to a present key keeps its position, a new key goes to the end.
  \<^item> A computation that may raise returns \<open>'e + 'a\<close>, \<open>Inl\<close> carrying the exception.
  \<^item> A \<open>datetime\<close> (UTC, naive) is a whole number of microseconds since the epoch; the
    limits of \<open>datetime.min\<close> and \<open>datetime.max\<close> are not modelled.
\<close>

named_theorems result_simps \<open>rewriting of fallible computations\<close>

section \<open>Strings\<close>

type_synonym pystr = "nat list"

type_synonym datetime = int

definition lit :: "string \<Rightarrow> pystr" where
  "lit s = map of_char s"

lemma lit_inject [simp]: "lit s = lit t \<longleftrightarrow> s = t"
  by (simp add: lit_def inj_map_eq_map inj_of_char)

lemma lit_Nil [simp]: "lit [] = []"
  by (simp add: lit_def)

lemma lit_eq_Nil [simp]: "lit s = [] \<longleftrightarrow> s = []" "[] = lit s \<longleftrightarrow> s = []"
  by (simp_all add: lit_def)

text \<open>The code points for which \<open>str.isspace\<close> holds; \<open>str.strip()\<close> removes them.\<close>

definition py_isspace :: "nat \<Rightarrow> bool" where
  "py_isspace c \<longleftrightarrow>
     9 \<le> c \<and> c \<le> 13 \<or> 28 \<le> c \<and> c \<le> 32 \<or> c = 133 \<or> c = 160 \<or> c = 5760 \<or>
     8192 \<le> c \<and> c \<le> 8202 \<or> c = 8232 \<or> c = 8233 \<or> c = 8239 \<or> c = 8287 \<or> c = 12288"

definition py_strip :: "pystr \<Rightarrow> pystr" where
  "py_strip s = rev (dropWhile py_isspace (rev (dropWhile py_isspace s)))"

lemma dropWhile_idem_hd: "xs = [] \<or> \<not> P (hd xs) \<Longrightarrow> dropWhile P xs = xs"
  by (cases xs) auto

lemma hd_dropWhile_not: "dropWhile P xs \<noteq> [] \<Longrightarrow> \<not> P (hd (dropWhile P xs))"
  by (rule hd_dropWhile)

lemma py_strip_Nil [simp]: "py_strip [] = []"
  by (simp add: py_strip_def)

text \<open>
  The suffix left by dropping white space from the right still starts with the same
  character, so stripping twice changes nothing.
\<close>

lemma hd_rev_dropWhile_rev:
  "rev (dropWhile P (rev ys)) \<noteq> [] \<Longrightarrow> hd (rev (dropWhile P (rev ys))) = hd ys"
proof -
  assume ne: "rev (dropWhile P (rev ys)) \<noteq> []"
  have "rev ys = takeWhile P (rev ys) @ dropWhile P (rev ys)" by simp
  then have "ys = rev (takeWhile P (rev ys) @ dropWhile P (rev ys))"
    by (metis rev_rev_ident)
  then have "ys = rev (dropWhile P (rev ys)) @ rev (takeWhile P (rev ys))"
    by (simp only: rev_append)
  with ne show ?thesis by (metis hd_append2)
qed

lemma py_strip_idem [simp]: "py_strip (py_strip s) = py_strip s"
proof -
  let ?d = "dropWhile py_isspace s"
  let ?t = "rev (dropWhile py_isspace (rev ?d))"
  have "?t = [] \<or> \<not> py_isspace (hd ?t)"
  proof (cases "?t = []")
    case False
    then have "hd ?t = hd ?d" by (rule hd_rev_dropWhile_rev)
    moreover have "?d \<noteq> []"
      using False by (metis dropWhile.simps(1) rev.simps(1))
    ultimately show ?thesis using hd_dropWhile_not [of py_isspace s] by simp
  qed simp
  then have "dropWhile py_isspace ?t = ?t" by (rule dropWhile_idem_hd)
  then show ?thesis by (simp add: py_strip_def)
qed

text \<open>
  Decimal digits of a natural number, as \<open>str(n)\<close> and format fields print it, and the
  reading of a digit string by \<open>int\<close>.
\<close>

fun py_digits :: "nat \<Rightarrow> pystr" where
  "py_digits n = (if n < 10 then [48 + n] else py_digits (n div 10) @ [48 + n mod 10])"

declare py_digits.simps [simp del]

definition is_digit :: "nat \<Rightarrow> bool" where
  "is_digit c \<longleftrightarrow> 48 \<le> c \<and> c \<le> 57"

definition digits_value :: "pystr \<Rightarrow> nat" where
  "digits_value s = foldl (\<lambda>v c. 10 * v + (c - 48)) 0 s"

lemma digits_value_snoc [simp]: "digits_value (s @ [c]) = 10 * digits_value s + (c - 48)"
  by (simp add: digits_value_def)

lemma py_digits_digits: "\<forall>c \<in> set (py_digits n). is_digit c"
proof (induction n rule: py_digits.induct)
  case (1 n)
  show ?case
  proof (cases "n < 10")
    case True
    then show ?thesis by (subst py_digits.simps) (simp add: is_digit_def)
  next
    case False
    have "n mod 10 < 10" by simp
    then have "n mod 10 \<le> 9" by linarith
    with False 1 show ?thesis by (subst py_digits.simps) (auto simp: is_digit_def)
  qed
qed

lemma py_digits_not_Nil [simp]: "py_digits n \<noteq> []"
  by (subst py_digits.simps) simp

lemma digits_value_py_digits [simp]: "digits_value (py_digits n) = n"
proof (induction n rule: py_digits.induct)
  case (1 n)
  show ?case
  proof (cases "n < 10")
    case True
    then show ?thesis by (subst py_digits.simps) (simp add: digits_value_def)
  next
    case False
    with 1 have "digits_value (py_digits (n div 10)) = n div 10" by simp
    with False show ?thesis by (subst py_digits.simps) simp
  qed
qed

lemma hd_py_digits_zero: "hd (py_digits n) = 48 \<Longrightarrow> n = 0"
proof (induction n rule: py_digits.induct)
  case (1 n)
  show ?case
  proof (cases "n < 10")
    case True
    with "1.prems" show ?thesis by (simp add: py_digits.simps [of n])
  next
    case False
    with "1.prems" have "hd (py_digits (n div 10)) = 48"
      by (simp add: py_digits.simps [of n])
    with False "1.IH" have "n div 10 = 0" by simp
    with False show ?thesis by simp
  qed
qed

section \<open>Dictionaries\<close>

type_synonym ('k, 'v) dict = "('k \<times> 'v) list"

abbreviation dict_get :: "('k, 'v) dict \<Rightarrow> 'k \<Rightarrow> 'v option" where
  "dict_get \<equiv> map_of"

abbreviation dict_set :: "'k \<Rightarrow> 'v \<Rightarrow> ('k, 'v) dict \<Rightarrow> ('k, 'v) dict" where
  "dict_set \<equiv> AList.update"

abbreviation dict_pop :: "'k \<Rightarrow> ('k, 'v) dict \<Rightarrow> ('k, 'v) dict" where
  "dict_pop \<equiv> AList.delete"

text \<open>\<open>d.get(k, default)\<close>\<close>

definition dict_get_default :: "('k, 'v) dict \<Rightarrow> 'k \<Rightarrow> 'v \<Rightarrow> 'v" where
  "dict_get_default d k v = (case dict_get d k of None \<Rightarrow> v | Some w \<Rightarrow> w)"

lemma find_SomeD: "find P xs = Some x \<Longrightarrow> x \<in> set xs \<and> P x"
  by (induction xs) (auto split: if_splits)

lemma find_snoc: "find P (xs @ [x]) = (case find P xs of None \<Rightarrow> if P x then Some x else None | r \<Rightarrow> r)"
  by (induction xs) auto

lemma find_distinct: "distinct (map f xs) \<Longrightarrow> x \<in> set xs \<Longrightarrow> find (\<lambda>y. f y = f x) xs = Some x"
  by (induction xs) auto

lemma find_ex: "x \<in> set xs \<Longrightarrow> P x \<Longrightarrow> \<exists>y \<in> set xs. find P xs = Some y \<and> P y"
  by (induction xs) auto

lemma dict_set_new: "k \<notin> fst ` set d \<Longrightarrow> dict_set k v d = d @ [(k, v)]"
  by (induction d) auto

lemma dict_get_set [simp]:
  "dict_get (dict_set k v d) k' = (if k' = k then Some v else dict_get d k')"
  by (auto simp: update_conv)

lemma dict_get_pop [simp]:
  "dict_get (dict_pop k d) k' = (if k' = k then None else dict_get d k')"
  by (auto simp: delete_conv)

lemma dict_get_default_set [simp]:
  "dict_get_default (dict_set k v d) k' w = (if k' = k then v else dict_get_default d k' w)"
  by (simp add: dict_get_default_def)

lemma dict_get_default_pop [simp]:
  "dict_get_default (dict_pop k d) k' w = (if k' = k then w else dict_get_default d k' w)"
  by (simp add: dict_get_default_def)

text \<open>\<open>tuple(dict.fromkeys(xs))\<close>: the first occurrences, in order.\<close>

definition dict_fromkeys :: "'a list \<Rightarrow> 'a list" where
  "dict_fromkeys xs = rev (remdups (rev xs))"

lemma set_dict_fromkeys [simp]: "set (dict_fromkeys xs) = set xs"
  by (simp add: dict_fromkeys_def)

lemma distinct_dict_fromkeys [simp]: "distinct (dict_fromkeys xs)"
  by (simp add: dict_fromkeys_def)

lemma dict_fromkeys_snoc [simp]:
  "dict_fromkeys (xs @ [x]) = (if x \<in> set xs then dict_fromkeys xs else dict_fromkeys xs @ [x])"
  by (simp add: dict_fromkeys_def)

lemma sort_key_twice [simp]: "sort_key f (sort_key f xs) = sort_key f xs"
  by (rule sort_key_id_if_sorted) simp

section \<open>Fallible computations\<close>

definition bind_result :: "'e + 'a \<Rightarrow> ('a \<Rightarrow> 'e + 'b) \<Rightarrow> 'e + 'b" where
  "bind_result r f = (case r of Inl e \<Rightarrow> Inl e | Inr x \<Rightarrow> f x)"

definition require :: "bool \<Rightarrow> 'e \<Rightarrow> 'e + 'a \<Rightarrow> 'e + 'a" where
  "require c e r = (if c then r else Inl e)"

lemma bind_result_simps [simp]:
  "bind_result (Inl e) f = Inl e"
  "bind_result (Inr x) f = f x"
  by (simp_all add: bind_result_def)

lemma bind_result_Inr [result_simps]:
  "bind_result r f = Inr y \<longleftrightarrow> (\<exists>x. r = Inr x \<and> f x = Inr y)"
  by (cases r) auto

lemma require_simps [simp]:
  "require True e r = r"
  "require False e r = Inl e"
  by (simp_all add: require_def)

lemma require_Inr [result_simps]: "require c e r = Inr y \<longleftrightarrow> c \<and> r = Inr y"
  by (simp add: require_def)

lemma require_Inl [result_simps]: "require c e r = Inl e' \<longleftrightarrow> (\<not> c \<and> e' = e) \<or> (c \<and> r = Inl e')"
  by (auto simp: require_def)

text \<open>Left-to-right evaluation of a comprehension whose body may raise.\<close>

fun map_result :: "('a \<Rightarrow> 'e + 'b) \<Rightarrow> 'a list \<Rightarrow> 'e + 'b list" where
  "map_result f [] = Inr []"
| "map_result f (x # xs) =
     bind_result (f x) (\<lambda>y. bind_result (map_result f xs) (\<lambda>ys. Inr (y # ys)))"

lemma map_result_cong [fundef_cong]:
  "xs = ys \<Longrightarrow> (\<And>x. x \<in> set ys \<Longrightarrow> f x = g x) \<Longrightarrow> map_result f xs = map_result g ys"
  by (induction ys arbitrary: xs) (auto simp: bind_result_def)

lemma map_result_Inr_length: "map_result f xs = Inr ys \<Longrightarrow> length ys = length xs"
  by (induction xs arbitrary: ys) (auto simp: result_simps)

lemma map_result_Inr_all:
  "map_result f xs = Inr ys \<longleftrightarrow> list_all2 (\<lambda>x y. f x = Inr y) xs ys"
  by (induction xs arbitrary: ys) (auto simp: result_simps list_all2_Cons1)

end
