(* ===== verification/Sandbox_Contracts.thy ===== *)
theory Sandbox_Contracts
  imports Prelude
begin

text \<open>
  The error values of the sandbox services (\<open>core/sandbox/contracts.py\<close>): the stable
  error codes and the exception \<open>SandboxServiceError\<close>. The human-readable summary of an
  error is represented by the constant that the code passes (one constructor per distinct
  message), the free-text hint is left out.
\<close>

datatype SandboxErrorCode =
    SANDBOX_NOT_ENABLED | AUTHORIZATION_FAILED | INVALID_PATH | INVALID_PATTERN
  | EDIT_CONFLICT | UNSUPPORTED_FILE_TYPE | WORKSPACE_QUOTA_EXCEEDED
  | RUNTIME_QUOTA_EXCEEDED | DISK_PRESSURE | SANDBOX_BUSY | RUNTIME_UNAVAILABLE
  | PROJECT_QUOTA_UNAVAILABLE | EXECUTION_TIMEOUT | OUTPUT_LIMIT_EXCEEDED
  | PROCESS_OOM_KILLED | ASSET_NOT_FOUND | ASSET_NOT_AUTHORIZED | ASSET_TOO_LARGE
  | ASSET_NAME_CONFLICT

datatype sandbox_summary =
    ProfileInvalid | ProfileBusy | LeaseBusy | CursorInvalid | PathInvalid
  | PatchInvalid | PatchWithoutChange | PatchNotText

record SandboxServiceError =
  code :: SandboxErrorCode
  summary :: sandbox_summary
  retryable :: bool
  stop :: bool

text \<open>The constructor with its defaults \<open>retryable=False\<close> and \<open>stop=True\<close>.\<close>

definition service_error :: "SandboxErrorCode \<Rightarrow> sandbox_summary \<Rightarrow> SandboxServiceError" where
  "service_error c m = \<lparr>code = c, summary = m, retryable = False, stop = True\<rparr>"

end
