(* ===== verification/Utf8.thy ===== *)
theory Utf8
  imports Prelude
begin

text \<open>
  UTF-8 as the source uses it: \<open>str.encode("utf-8")\<close>, which raises on a surrogate code
  point, and \<open>bytes.decode("utf-8", errors="replace")\<close>, which emits U+FFFD for every
  maximal ill-formed subsequence. A \<open>bytes\<close> object is a list of numbers below 256.
\<close>

type_synonym bytes = "nat list"

definition utf8_char :: "nat \<Rightarrow> bytes option" where
  "utf8_char c =
     (if c < 128 then Some [c]
      else if c < 2048 then Some [192 + c div 64, 128 + c mod 64]
      else if 55296 \<le> c \<and> c \<le> 57343 then None
      else if c < 65536 then Some [224 + c div 4096, 128 + c div 64 mod 64, 128 + c mod 64]
      else if c < 1114112 then
        Some [240 + c div 262144, 128 + c div 4096 mod 64, 128 + c div 64 mod 64, 128 + c mod 64]
      else None)"

fun utf8_encode :: "pystr \<Rightarrow> bytes option" where
  "utf8_encode [] = Some []"
| "utf8_encode (c # cs) =
     (case utf8_char c of
        None \<Rightarrow> None
      | Some b \<Rightarrow> (case utf8_encode cs of None \<Rightarrow> None | Some bs \<Rightarrow> Some (b @ bs)))"

definition utf8_cont :: "nat \<Rightarrow> bool" where
  "utf8_cont b \<longleftrightarrow> 128 \<le> b \<and> b < 192"

text \<open>The second byte that may follow a given lead byte of three or four bytes.\<close>

definition utf8_second :: "nat \<Rightarrow> nat \<Rightarrow> bool" where
  "utf8_second lead b \<longleftrightarrow> utf8_cont b \<and>
     (lead = 224 \<longrightarrow> 160 \<le> b) \<and> (lead = 237 \<longrightarrow> b < 160) \<and>
     (lead = 240 \<longrightarrow> 144 \<le> b) \<and> (lead = 244 \<longrightarrow> b < 144)"

function utf8_decode :: "bytes \<Rightarrow> pystr" where
  "utf8_decode [] = []"
| "utf8_decode (b # bs) =
     (if b < 128 then b # utf8_decode bs
      else if 194 \<le> b \<and> b < 224 then
        (case bs of
           c # cs \<Rightarrow> if utf8_cont c then ((b - 192) * 64 + (c - 128)) # utf8_decode cs
                      else 65533 # utf8_decode (c # cs)
         | [] \<Rightarrow> [65533])
      else if 224 \<le> b \<and> b < 240 then
        (case bs of
           c # cs \<Rightarrow>
             if utf8_second b c then
               (case cs of
                  d # ds \<Rightarrow>
                    if utf8_cont d
                    then ((b - 224) * 4096 + (c - 128) * 64 + (d - 128)) # utf8_decode ds
                    else 65533 # utf8_decode (d # ds)
                | [] \<Rightarrow> [65533])
             else 65533 # utf8_decode (c # cs)
         | [] \<Rightarrow> [65533])
      else if 240 \<le> b \<and> b < 245 then
        (case bs of
           c # cs \<Rightarrow>
             if utf8_second b c then
               (case cs of
                  d # ds \<Rightarrow>
                    if utf8_cont d then
                      (case ds of
                         e # es \<Rightarrow>
                           if utf8_cont e
                           then ((b - 240) * 262144 + (c - 128) * 4096 + (d - 128) * 64 + (e - 128))
                                  # utf8_decode es
                           else 65533 # utf8_decode (e # es)
                       | [] \<Rightarrow> [65533])
                    else 65533 # utf8_decode (d # ds)
                | [] \<Rightarrow> [65533])
             else 65533 # utf8_decode (c # cs)
         | [] \<Rightarrow> [65533])
      else 65533 # utf8_decode bs)"
  by pat_completeness auto
termination
  by (relation "measure length") auto

lemma utf8_decode_char:
  assumes "utf8_char c = Some b"
  shows "utf8_decode (b @ bs) = c # utf8_decode bs"
proof -
  let ?x = "c div 64" and ?y = "c div 4096" and ?z = "c div 262144"
  have y: "?y = ?x div 64" and z: "?z = ?y div 64"
    by (simp_all add: div_mult2_eq [symmetric])
  have x_eq: "?x * 64 + c mod 64 = c" by (rule div_mult_mod_eq)
  have y_eq: "?y * 64 + ?x mod 64 = ?x" unfolding y by (rule div_mult_mod_eq)
  have z_eq: "?z * 64 + ?y mod 64 = ?y" unfolding z by (rule div_mult_mod_eq)
  have parts: "?x * 64 + c mod 64 = c"
    "?y * 4096 + (?x mod 64) * 64 + c mod 64 = c"
    "?z * 262144 + (?y mod 64) * 4096 + (?x mod 64) * 64 + c mod 64 = c"
    using x_eq y_eq z_eq by linarith+
  consider (one) "c < 128" | (two) "128 \<le> c" "c < 2048"
    | (three) "2048 \<le> c" "c < 65536" "\<not> (55296 \<le> c \<and> c \<le> 57343)"
    | (four) "65536 \<le> c" "c < 1114112"
    using assms by (auto simp: utf8_char_def split: if_splits)
  then show ?thesis
  proof cases
    case one
    with assms show ?thesis by (auto simp: utf8_char_def)
  next
    case two
    then have "2 \<le> ?x" "?x < 32" using x_eq by linarith+
    with two assms parts show ?thesis by (auto simp: utf8_char_def utf8_cont_def)
  next
    case three
    then have "?y < 16" and "?y = 0 \<longrightarrow> 32 \<le> ?x mod 64" and "?y = 13 \<longrightarrow> ?x mod 64 < 32"
      using parts(2) mod_less_divisor [of 64 c] mod_less_divisor [of 64 ?x] by linarith+
    with three assms parts show ?thesis
      by (auto simp: utf8_char_def utf8_second_def utf8_cont_def)
  next
    case four
    then have "?z < 5" and "?z = 0 \<longrightarrow> 16 \<le> ?y mod 64" and "?z = 4 \<longrightarrow> ?y mod 64 < 16"
      using parts(3) mod_less_divisor [of 64 c] mod_less_divisor [of 64 ?x] by linarith+
    with four assms parts show ?thesis
      by (auto simp: utf8_char_def utf8_second_def utf8_cont_def)
  qed
qed

lemma utf8_decode_encode: "utf8_encode s = Some b \<Longrightarrow> utf8_decode b = s"
  by (induction s arbitrary: b) (auto simp: utf8_decode_char split: option.splits)

end
