(* ===== verification/Text_Lines.thy ===== *)
theory Text_Lines
  imports Utf8
begin

text \<open>
  The string operations of Python's standard library that the sandbox's text tools use:
  \<open>str.splitlines(keepends=True)\<close>, \<open>str.split(sep)\<close>, \<open>str.startswith\<close>,
  \<open>str.join\<close> and \<open>shlex.split\<close>.
\<close>

definition startswith :: "pystr \<Rightarrow> pystr \<Rightarrow> bool" where
  "startswith s p \<longleftrightarrow> take (length p) s = p"

definition endswith :: "pystr \<Rightarrow> pystr \<Rightarrow> bool" where
  "endswith s p \<longleftrightarrow> startswith (rev s) (rev p)"

lemma startswith_append [simp]: "startswith (p @ s) p"
  by (simp add: startswith_def)

text \<open>The line boundaries of \<open>str.splitlines\<close>; carriage return and line feed form one.\<close>

definition line_break :: "nat \<Rightarrow> bool" where
  "line_break c \<longleftrightarrow> 10 \<le> c \<and> c \<le> 13 \<or> 28 \<le> c \<and> c \<le> 30 \<or> c = 133 \<or> c = 8232 \<or> c = 8233"

fun splitlines_acc :: "pystr \<Rightarrow> pystr \<Rightarrow> pystr list" where
  "splitlines_acc acc [] = (if acc = [] then [] else [rev acc])"
| "splitlines_acc acc (c # cs) =
     (if c = 13 \<and> cs \<noteq> [] \<and> hd cs = 10 then rev (10 # 13 # acc) # splitlines_acc [] (tl cs)
      else if line_break c then rev (c # acc) # splitlines_acc [] cs
      else splitlines_acc (c # acc) cs)"

definition splitlines :: "pystr \<Rightarrow> pystr list" where
  "splitlines s = splitlines_acc [] s"

lemma concat_splitlines_acc: "concat (splitlines_acc acc s) = rev acc @ s"
proof (induction acc s rule: splitlines_acc.induct)
  case (2 acc c cs)
  then show ?case by (cases cs) auto
qed simp

lemma concat_splitlines [simp]: "concat (splitlines s) = s"
  by (simp add: splitlines_def concat_splitlines_acc)

lemma splitlines_acc_not_Nil: "[] \<notin> set (splitlines_acc acc s)"
  by (induction acc s rule: splitlines_acc.induct) auto

lemma splitlines_not_Nil: "[] \<notin> set (splitlines s)"
  by (simp add: splitlines_def splitlines_acc_not_Nil)

fun split_char :: "nat \<Rightarrow> pystr \<Rightarrow> pystr list" where
  "split_char sep [] = [[]]"
| "split_char sep (c # cs) =
     (if c = sep then [] # split_char sep cs
      else case split_char sep cs of [] \<Rightarrow> [[c]] | w # ws \<Rightarrow> (c # w) # ws)"

fun join_char :: "nat \<Rightarrow> pystr list \<Rightarrow> pystr" where
  "join_char sep [] = []"
| "join_char sep [w] = w"
| "join_char sep (w # v # ws) = w @ sep # join_char sep (v # ws)"

lemma split_char_not_Nil [simp]: "split_char sep s \<noteq> []"
  by (cases s) (auto split: list.split)

lemma join_split_char [simp]: "join_char sep (split_char sep s) = s"
proof (induction s)
  case (Cons c s)
  then show ?case
    by (cases "split_char sep s") (auto, metis join_char.simps(2) join_char.simps(3) neq_Nil_conv append_Cons)
qed simp

lemma sep_notin_split_char: "w \<in> set (split_char sep s) \<Longrightarrow> sep \<notin> set w"
  by (induction s arbitrary: w) (auto split: list.splits if_splits)

lemma split_char_no_sep: "sep \<notin> set w \<Longrightarrow> split_char sep w = [w]"
  by (induction w) auto

lemma split_char_append: "sep \<notin> set w \<Longrightarrow> split_char sep (w @ sep # s) = w # split_char sep s"
  by (induction w) auto

lemma split_join_char:
  "ws \<noteq> [] \<Longrightarrow> \<forall>w \<in> set ws. sep \<notin> set w \<Longrightarrow> split_char sep (join_char sep ws) = ws"
  by (induction sep ws rule: join_char.induct) (auto simp: split_char_no_sep split_char_append)

text \<open>
  \<open>shlex.split(s)\<close>: POSIX rules, no comments, words separated by white space. \<open>None\<close>
  is the \<open>ValueError\<close> for a missing closing quotation or a trailing escape character.
\<close>

datatype lex_state = LexBlank | LexWord | LexQuote nat | LexEscape | LexQuoteEscape

definition lex_space :: "nat \<Rightarrow> bool" where
  "lex_space c \<longleftrightarrow> c = 32 \<or> c = 9 \<or> c = 13 \<or> c = 10"

fun shlex_run :: "lex_state \<Rightarrow> pystr \<Rightarrow> bool \<Rightarrow> pystr \<Rightarrow> pystr list option" where
  "shlex_run st tok quoted [] =
     (case st of
        LexBlank \<Rightarrow> Some (if tok \<noteq> [] \<or> quoted then [tok] else [])
      | LexWord \<Rightarrow> Some (if tok \<noteq> [] \<or> quoted then [tok] else [])
      | _ \<Rightarrow> None)"
| "shlex_run st tok quoted (c # cs) =
     (case st of
        LexBlank \<Rightarrow>
          if lex_space c then
            (if tok \<noteq> [] \<or> quoted then map_option ((#) tok) (shlex_run LexBlank [] False cs)
             else shlex_run LexBlank tok quoted cs)
          else if c = 92 then shlex_run LexEscape tok quoted cs
          else if c = 34 \<or> c = 39 then shlex_run (LexQuote c) tok quoted cs
          else shlex_run LexWord [c] quoted cs
      | LexWord \<Rightarrow>
          if lex_space c then
            (if tok \<noteq> [] \<or> quoted then map_option ((#) tok) (shlex_run LexBlank [] False cs)
             else shlex_run LexBlank tok quoted cs)
          else if c = 34 \<or> c = 39 then shlex_run (LexQuote c) tok quoted cs
          else if c = 92 then shlex_run LexEscape tok quoted cs
          else shlex_run LexWord (tok @ [c]) quoted cs
      | LexQuote q \<Rightarrow>
          if c = q then shlex_run LexWord tok True cs
          else if c = 92 \<and> q = 34 then shlex_run LexQuoteEscape tok True cs
          else shlex_run (LexQuote q) (tok @ [c]) True cs
      | LexEscape \<Rightarrow> shlex_run LexWord (tok @ [c]) quoted cs
      | LexQuoteEscape \<Rightarrow>
          shlex_run (LexQuote 34) (tok @ (if c \<noteq> 92 \<and> c \<noteq> 34 then [92, c] else [c])) quoted cs)"

definition shlex_split :: "pystr \<Rightarrow> pystr list option" where
  "shlex_split s = shlex_run LexBlank [] False s"

end
