(* ===== verification/Unified_Patch.thy ===== *)
theory Unified_Patch
  imports Sandbox_Contracts Text_Lines
begin

text \<open>
  The strict single-file unified-diff applier of the sandbox daemon
  (\<open>sandboxd/unified_patch.py\<close>) with the path validation it uses
  (\<open>validate_relative_path\<close> of \<open>core/sandbox/paths.py\<close>).

  The loops over line indices are recursions over the remaining lines. \<open>int\<close> on a hunk
  number of more than 4300 digits raises \<open>ValueError\<close>, the interpreter's limit on decimal
  conversion, which nothing in the module catches. The specification is an edit script:
  the list of kept, deleted and added lines that the patch spells out.
\<close>

section \<open>Relative paths\<close>

datatype patch_exn = Raised SandboxServiceError | ValueError

definition invalid_path :: patch_exn where
  "invalid_path = Raised (service_error INVALID_PATH PathInvalid)"

definition bad_component :: "pystr \<Rightarrow> bool" where
  "bad_component w \<longleftrightarrow> w \<in> {[], lit ''.'', lit ''..''} \<or>
     (case utf8_encode w of None \<Rightarrow> True | Some b \<Rightarrow> length b > 255)"

definition validate_relative_path :: "pystr \<Rightarrow> bool \<Rightarrow> patch_exn + pystr list" where
  "validate_relative_path value allow_empty =
     (if 0 \<in> set value \<or> 92 \<in> set value then Inl invalid_path
      else if value \<in> {[], lit ''.''} then (if allow_empty then Inr [] else Inl invalid_path)
      else if startswith value (lit ''/'') \<or> endswith value (lit ''/'') then Inl invalid_path
      else case utf8_encode value of
        None \<Rightarrow> Inl invalid_path
      | Some raw \<Rightarrow>
          if length raw > 4096 then Inl invalid_path
          else let components = split_char 47 value
               in if list_ex bad_component components then Inl invalid_path else Inr components)"

section \<open>Headers\<close>

definition invalid_patch :: patch_exn where
  "invalid_patch = Raised (service_error AUTHORIZATION_FAILED PatchInvalid)"

definition normalized_path :: "pystr \<Rightarrow> patch_exn + pystr" where
  "normalized_path value =
     bind_result (validate_relative_path value False) (\<lambda>comps. Inr (join_char 47 comps))"

definition header_path :: "pystr \<Rightarrow> nat \<Rightarrow> patch_exn + pystr" where
  "header_path value prefix =
     (let raw0 = rev (dropWhile (\<lambda>c. c = 13 \<or> c = 10) (rev value));
          raw1 = takeWhile (\<lambda>c. c \<noteq> 9) raw0;
          raw2 = py_strip raw1;
          unquoted =
            (if startswith raw2 [34] \<and> endswith raw2 [34] then
               (case shlex_split raw2 of
                  Some [w] \<Rightarrow> Inr w
                | _ \<Rightarrow> Inl invalid_patch)
             else Inr raw2)
      in bind_result unquoted (\<lambda>raw3.
           normalized_path (if startswith raw3 [prefix, 47] then drop 2 raw3 else raw3)))"

definition without_line_ending :: "pystr \<Rightarrow> pystr" where
  "without_line_ending value =
     (if endswith value [13, 10] then butlast (butlast value)
      else if endswith value [10] \<or> endswith value [13] then butlast value
      else value)"

definition no_newline_marker :: pystr where
  "no_newline_marker = 92 # lit '' No newline at end of file''"

definition body_start :: "pystr \<Rightarrow> bool" where
  "body_start line \<longleftrightarrow> line \<noteq> [] \<and> hd line \<in> {32, 43, 45}"

text \<open>The loop of \<open>_preprocess_lines\<close>; \<open>result\<close> is the accumulated list.\<close>

fun preprocess_loop :: "pystr list \<Rightarrow> pystr list \<Rightarrow> patch_exn + pystr list" where
  "preprocess_loop result [] = Inr result"
| "preprocess_loop result (line # rest) =
     (if without_line_ending line = no_newline_marker then
        (if result = [] \<or> \<not> body_start (last result) then Inl invalid_patch
         else preprocess_loop (butlast result @ [without_line_ending (last result)]) rest)
      else preprocess_loop (result @ [line]) rest)"

definition preprocess_lines :: "pystr \<Rightarrow> patch_exn + pystr list" where
  "preprocess_lines patch =
     (if patch = [] \<or> 0 \<in> set patch then Inl invalid_patch
      else preprocess_loop [] (splitlines patch))"

definition hunk_start :: "pystr \<Rightarrow> bool" where
  "hunk_start line \<longleftrightarrow> startswith (without_line_ending line) (lit ''@@ '')"

text \<open>
  \<open>_validate_file_headers\<close> from line \<open>index\<close> on: the result is the list of lines from
  the first hunk on.
\<close>

fun validate_file_headers ::
  "pystr \<Rightarrow> nat \<Rightarrow> bool \<Rightarrow> bool \<Rightarrow> pystr list \<Rightarrow> patch_exn + pystr list" where
  "validate_file_headers path index saw_old saw_new [] =
     (if saw_old \<noteq> saw_new then Inl invalid_patch else Inr [])"
| "validate_file_headers path index saw_old saw_new (raw # rest) =
     (let line = without_line_ending raw
      in if startswith line (lit ''@@ '') then
           (if saw_old \<noteq> saw_new then Inl invalid_patch else Inr (raw # rest))
         else if startswith line (lit ''diff --git '') then
           (if index \<noteq> 0 then Inl invalid_patch
            else case shlex_split line of
              Some [w0, w1, a, b] \<Rightarrow>
                bind_result (header_path a 97) (\<lambda>pa.
                  require (pa = path) invalid_patch
                    (bind_result (header_path b 98) (\<lambda>pb.
                      require (pb = path) invalid_patch
                        (validate_file_headers path (Suc index) saw_old saw_new rest))))
            | _ \<Rightarrow> Inl invalid_patch)
         else if startswith line (lit ''index '') then
           (if index = 0 then Inl invalid_patch
            else validate_file_headers path (Suc index) saw_old saw_new rest)
         else if startswith line (lit ''--- '') then
           (if saw_old \<or> saw_new then Inl invalid_patch
            else bind_result (header_path (drop 4 line) 97) (\<lambda>p.
              require (p = path) invalid_patch
                (validate_file_headers path (Suc index) True saw_new rest)))
         else if startswith line (lit ''+++ '') then
           (if \<not> saw_old \<or> saw_new then Inl invalid_patch
            else bind_result (header_path (drop 4 line) 98) (\<lambda>p.
              require (p = path) invalid_patch
                (validate_file_headers path (Suc index) saw_old True rest)))
         else if line \<noteq> [] then Inl invalid_patch
         else validate_file_headers path (Suc index) saw_old saw_new rest)"

section \<open>Hunks\<close>

text \<open>
  The hunk header pattern
  \<open>@@ -old_start(,old_count)? +new_start(,new_count)? @@( .*)?\<close>. No character after a
  group of digits can be a digit, so each group is the longest run of digits.
\<close>

definition take_digits :: "pystr \<Rightarrow> (pystr \<times> pystr) option" where
  "take_digits s =
     (let ds = takeWhile is_digit s in if ds = [] then None else Some (ds, drop (length ds) s))"

definition take_range :: "pystr \<Rightarrow> (pystr \<times> pystr option \<times> pystr) option" where
  "take_range s =
     (case take_digits s of
        None \<Rightarrow> None
      | Some (start, rest) \<Rightarrow>
          if startswith rest (lit '','') then
            (case take_digits (drop 1 rest) of
               None \<Rightarrow> None
             | Some (cnt, rest') \<Rightarrow> Some (start, Some cnt, rest'))
          else Some (start, None, rest))"

definition match_hunk_header ::
  "pystr \<Rightarrow> (pystr \<times> pystr option \<times> pystr \<times> pystr option) option" where
  "match_hunk_header s =
     (if \<not> startswith s (lit ''@@ -'') then None
      else case take_range (drop 4 s) of
        None \<Rightarrow> None
      | Some (os, oc, rest) \<Rightarrow>
          if \<not> startswith rest (lit '' +'') then None
          else case take_range (drop 2 rest) of
            None \<Rightarrow> None
          | Some (ns, nc, rest') \<Rightarrow>
              if \<not> startswith rest' (lit '' @@'') then None
              else let tail = drop 3 rest'
                   in if tail = [] \<or> startswith tail (lit '' '') \<and> 10 \<notin> set tail
                      then Some (os, oc, ns, nc) else None)"

definition py_int :: "pystr \<Rightarrow> patch_exn + nat" where
  "py_int ds = (if length ds > 4300 then Inl ValueError else Inr (digits_value ds))"

definition py_count :: "pystr option \<Rightarrow> patch_exn + nat" where
  "py_count g = (case g of None \<Rightarrow> Inr 1 | Some ds \<Rightarrow> py_int ds)"

record patch_state =
  out_lines :: "pystr list"
  source_cursor :: nat
  hunk_count :: nat
  added_lines :: nat
  removed_lines :: nat
  changed :: bool

text \<open>
  The inner loop: body lines up to the next hunk header. The result carries the lines
  left over and the numbers of old and new lines seen.
\<close>

fun apply_body ::
  "pystr list \<Rightarrow> patch_state \<Rightarrow> nat \<Rightarrow> nat \<Rightarrow> pystr list
     \<Rightarrow> patch_exn + (patch_state \<times> nat \<times> nat \<times> pystr list)" where
  "apply_body src st old_seen new_seen [] = Inr (st, old_seen, new_seen, [])"
| "apply_body src st old_seen new_seen (line # rest) =
     (if hunk_start line then Inr (st, old_seen, new_seen, line # rest)
      else if line = [] \<or> hd line \<notin> {32, 43, 45} then Inl invalid_patch
      else
        let marker = hd line; body = tl line
        in if marker \<in> {32, 45} \<and>
              (source_cursor st \<ge> length src \<or> src ! source_cursor st \<noteq> body)
           then Inl invalid_patch
           else
             let st1 = (if marker \<in> {32, 45} then st\<lparr>source_cursor := source_cursor st + 1\<rparr> else st);
                 old1 = (if marker \<in> {32, 45} then old_seen + 1 else old_seen);
                 st2 = (if marker \<in> {32, 43} then st1\<lparr>out_lines := out_lines st1 @ [body]\<rparr> else st1);
                 new1 = (if marker \<in> {32, 43} then new_seen + 1 else new_seen);
                 st3 = (if marker = 43 then st2\<lparr>added_lines := added_lines st2 + 1, changed := True\<rparr>
                        else if marker = 45 then st2\<lparr>removed_lines := removed_lines st2 + 1, changed := True\<rparr>
                        else st2)
             in apply_body src st3 old1 new1 rest)"

lemma apply_body_shorter:
  "apply_body src st a b lines = Inr (st', a', b', rest) \<Longrightarrow> length rest \<le> length lines"
proof (induction src st a b lines rule: apply_body.induct)
  case (2 src st a b line lines)
  show ?case
  proof (cases "hunk_start line")
    case True
    with "2.prems" show ?thesis by simp
  next
    case False
    with 2 show ?thesis by (fastforce simp: Let_def split: if_splits)
  qed
qed simp

text \<open>The outer loop over hunks.\<close>

function apply_hunks :: "pystr list \<Rightarrow> patch_state \<Rightarrow> pystr list \<Rightarrow> patch_exn + patch_state" where
  "apply_hunks src st [] = Inr st"
| "apply_hunks src st (line # rest) =
     (case match_hunk_header (without_line_ending line) of
        None \<Rightarrow> Inl invalid_patch
      | Some (os, oc, ns, nc) \<Rightarrow>
          (case (py_int os, py_count oc, py_int ns, py_count nc) of
             (Inr old_start, Inr old_count, Inr new_start, Inr new_count) \<Rightarrow>
               let old_index = (if old_start = 0 then 0 else old_start - 1);
                   new_index = (if new_start = 0 then 0 else new_start - 1)
               in if old_index < source_cursor st \<or> old_index > length src \<or>
                     new_index \<noteq> length (out_lines st) + old_index - source_cursor st
                  then Inl invalid_patch
                  else
                    let st1 = st\<lparr>hunk_count := hunk_count st + 1,
                                 out_lines := out_lines st @ drop (source_cursor st) (take old_index src),
                                 source_cursor := old_index\<rparr>
                    in (case apply_body src st1 0 0 rest of
                          Inl e \<Rightarrow> Inl e
                        | Inr (st2, old_seen, new_seen, rest') \<Rightarrow>
                            if old_seen \<noteq> old_count \<or> new_seen \<noteq> new_count then Inl invalid_patch
                            else apply_hunks src st2 rest')
           | _ \<Rightarrow> Inl ValueError))"
  by pat_completeness auto
termination
  by (relation "measure (\<lambda>(src, st, lines). length lines)") (auto dest!: apply_body_shorter)

declare apply_hunks.simps(2) [simp del]

record AppliedPatch =
  content :: pystr
  ap_hunk_count :: nat
  ap_added_lines :: nat
  ap_removed_lines :: nat

definition apply_unified_patch :: "pystr \<Rightarrow> pystr \<Rightarrow> pystr \<Rightarrow> patch_exn + AppliedPatch" where
  "apply_unified_patch source patch path =
     bind_result (normalized_path path) (\<lambda>npath.
       require (0 \<notin> set source) (Raised (service_error UNSUPPORTED_FILE_TYPE PatchNotText))
         (bind_result (preprocess_lines patch) (\<lambda>lines.
           bind_result (validate_file_headers npath 0 False False lines) (\<lambda>hunks.
             let source_lines = splitlines source;
                 st0 = \<lparr>out_lines = [], source_cursor = 0, hunk_count = 0, added_lines = 0,
                        removed_lines = 0, changed = False\<rparr>
             in bind_result (apply_hunks source_lines st0 hunks) (\<lambda>st.
                  if hunk_count st = 0 \<or> \<not> changed st
                  then Inl (Raised (service_error AUTHORIZATION_FAILED PatchWithoutChange))
                  else Inr \<lparr>content = concat (out_lines st @ drop (source_cursor st) source_lines),
                            ap_hunk_count = hunk_count st, ap_added_lines = added_lines st,
                            ap_removed_lines = removed_lines st\<rparr>)))))"

end
