(* ===== verification/Process_Output.thy ===== *)
theory Process_Output
  imports Sandbox_Contracts Utf8
begin

text \<open>
  The bounded incremental output buffer of a sandbox process
  (\<open>sandboxd/process_output.py\<close>). A ring keeps the last \<open>capacity\<close> bytes of a stream
  together with the absolute offsets of its first and last byte; a reader resumes from the
  cursor the previous read returned.

  The specification is the history of the stream, the list of all bytes ever appended.
  The locale \<open>stream_window\<close> states what a reader may rely on, and the ring is its
  interpretation.
\<close>

section \<open>The ring\<close>

record ring =
  capacity :: nat
  ring_start :: nat
  ring_end :: nat
  ring_data :: bytes

definition ring_new :: "int \<Rightarrow> ring" where
  "ring_new c = \<lparr>capacity = nat (max 1 c), ring_start = 0, ring_end = 0, ring_data = []\<rparr>"

definition ring_append :: "ring \<Rightarrow> bytes \<Rightarrow> ring" where
  "ring_append r value =
     (if value = [] then r
      else
        let data = ring_data r @ value;
            r1 = r\<lparr>ring_data := data, ring_end := ring_end r + length value\<rparr>;
            overflow = int (length data) - int (capacity r)
        in if overflow > 0
           then r1\<lparr>ring_data := drop (nat overflow) data, ring_start := ring_start r + nat overflow\<rparr>
           else r1)"

definition cursor_error :: SandboxServiceError where
  "cursor_error = service_error AUTHORIZATION_FAILED CursorInvalid"

definition ring_read_from :: "ring \<Rightarrow> int \<Rightarrow> SandboxServiceError + (bytes \<times> bool)" where
  "ring_read_from r offset =
     (let requested = nat (max 0 offset);
          truncated = requested < ring_start r;
          effective = max requested (ring_start r)
      in if effective > ring_end r then Inl cursor_error
         else Inr (drop (effective - ring_start r) (ring_data r), truncated))"

definition ring_retained :: "ring \<Rightarrow> bytes \<times> bool" where
  "ring_retained r = (ring_data r, ring_start r > 0)"

section \<open>The two-stream buffer\<close>

record ProcessOutputBuffer =
  out_ring :: ring
  err_ring :: ring
  hard_limit_bytes :: nat
  hard_limit_exceeded :: bool

record ProcessOutputSlice =
  slice_stdout :: pystr
  slice_stderr :: pystr
  next_cursor :: pystr
  stdout_bytes :: nat
  stderr_bytes :: nat
  stdout_truncated :: bool
  stderr_truncated :: bool
  slice_hard_limit_exceeded :: bool

definition buffer_new :: "int \<Rightarrow> int \<Rightarrow> int \<Rightarrow> ProcessOutputBuffer" where
  "buffer_new stdout_limit stderr_limit hard_limit =
     \<lparr>out_ring = ring_new stdout_limit, err_ring = ring_new stderr_limit,
      hard_limit_bytes = nat (max 1 hard_limit), hard_limit_exceeded = False\<rparr>"

definition cursor :: "nat \<Rightarrow> nat \<Rightarrow> pystr" where
  "cursor a b = lit ''v1:'' @ py_digits a @ lit '':'' @ py_digits b"

text \<open>
  The group \<open>(0|[1-9][0-9]*)\<close> of the cursor pattern, and the full match of
  \<open>v1:(..):(..)\<close>: as no digit is a colon, the first group ends at the first colon.
\<close>

definition canonical_decimal :: "pystr \<Rightarrow> bool" where
  "canonical_decimal s \<longleftrightarrow>
     s \<noteq> [] \<and> list_all is_digit s \<and> (s = [48] \<or> hd s \<noteq> 48)"

definition match_cursor :: "pystr \<Rightarrow> (pystr \<times> pystr) option" where
  "match_cursor s =
     (if take 3 s = lit ''v1:'' then
        let rest = drop 3 s;
            a = takeWhile (\<lambda>c. c \<noteq> 58) rest;
            tail = dropWhile (\<lambda>c. c \<noteq> 58) rest
        in if canonical_decimal a \<and> tail \<noteq> [] \<and> canonical_decimal (tl tail)
           then Some (a, tl tail) else None
      else None)"

definition parse_cursor :: "pystr \<Rightarrow> SandboxServiceError + (nat \<times> nat)" where
  "parse_cursor value =
     (if value = [] then Inr (0, 0)
      else case match_cursor value of
        None \<Rightarrow> Inl cursor_error
      | Some (a, b) \<Rightarrow>
          if length value > 96 then Inl cursor_error
          else let stdout_offset = digits_value a; stderr_offset = digits_value b
               in if stdout_offset > 2 ^ 63 - 1 \<or> stderr_offset > 2 ^ 63 - 1
                  then Inl cursor_error
                  else Inr (stdout_offset, stderr_offset))"

definition feed :: "ProcessOutputBuffer \<Rightarrow> bytes option \<Rightarrow> bytes option \<Rightarrow> bool \<times> ProcessOutputBuffer" where
  "feed buf stdout stderr =
     (let out' = (case stdout of None \<Rightarrow> out_ring buf | Some b \<Rightarrow> if b \<noteq> [] then ring_append (out_ring buf) b else out_ring buf);
          err' = (case stderr of None \<Rightarrow> err_ring buf | Some b \<Rightarrow> if b \<noteq> [] then ring_append (err_ring buf) b else err_ring buf);
          exceeded = (if ring_end out' + ring_end err' > hard_limit_bytes buf then True
                      else hard_limit_exceeded buf)
      in (exceeded, buf\<lparr>out_ring := out', err_ring := err', hard_limit_exceeded := exceeded\<rparr>))"

definition slice_of :: "ProcessOutputBuffer \<Rightarrow> bytes \<times> bool \<Rightarrow> bytes \<times> bool \<Rightarrow> ProcessOutputSlice" where
  "slice_of buf so se =
     \<lparr>slice_stdout = utf8_decode (fst so), slice_stderr = utf8_decode (fst se),
      next_cursor = cursor (ring_end (out_ring buf)) (ring_end (err_ring buf)),
      stdout_bytes = ring_end (out_ring buf), stderr_bytes = ring_end (err_ring buf),
      stdout_truncated = snd so, stderr_truncated = snd se,
      slice_hard_limit_exceeded = hard_limit_exceeded buf\<rparr>"

definition snapshot ::
  "ProcessOutputBuffer \<Rightarrow> pystr \<Rightarrow> bool \<Rightarrow> SandboxServiceError + ProcessOutputSlice" where
  "snapshot buf cur full =
     (if full then Inr (slice_of buf (ring_retained (out_ring buf)) (ring_retained (err_ring buf)))
      else bind_result (parse_cursor cur) (\<lambda>(out_offset, err_offset).
        bind_result (ring_read_from (out_ring buf) (int out_offset)) (\<lambda>so.
          bind_result (ring_read_from (err_ring buf) (int err_offset)) (\<lambda>se.
            Inr (slice_of buf so se)))))"

section \<open>The interface: a window on a stream\<close>

text \<open>
  \<open>window s h\<close> says that \<open>s\<close> is a window on a stream whose whole history is \<open>h\<close>.
\<close>

locale stream_window =
  fixes window :: "'s \<Rightarrow> 'b list \<Rightarrow> bool"
    and size_limit :: "'s \<Rightarrow> nat"
    and push :: "'s \<Rightarrow> 'b list \<Rightarrow> 's"
    and lowest :: "'s \<Rightarrow> nat"
    and read :: "'s \<Rightarrow> nat \<Rightarrow> ('b list \<times> bool) option"
  assumes window_push: "window s h \<Longrightarrow> window (push s v) (h @ v)"
    and limit_push: "size_limit (push s v) = size_limit s"
    and lowest_eq: "window s h \<Longrightarrow> lowest s = length h - size_limit s"
    and read_eq: "window s h \<Longrightarrow>
      read s n = (if n \<le> length h then Some (drop (max n (lowest s)) h, n < lowest s) else None)"
begin

definition push_all :: "'s \<Rightarrow> 'b list list \<Rightarrow> 's" where
  "push_all s vs = foldl push s vs"

lemma window_push_all: "window s h \<Longrightarrow> window (push_all s vs) (h @ concat vs)"
proof (induction vs rule: rev_induct)
  case Nil
  then show ?case by (simp add: push_all_def)
next
  case (snoc v vs)
  then show ?case using window_push by (fastforce simp: push_all_def)
qed

lemma limit_push_all: "size_limit (push_all s vs) = size_limit s"
  by (induction vs rule: rev_induct) (simp_all add: push_all_def limit_push)

text \<open>
  A reader that resumes at the length the stream had sees exactly what was pushed since,
  provided that fits the window; otherwise it sees the last \<open>size_limit\<close> bytes and is told.
\<close>

lemma resume:
  assumes win: "window s h"
  shows "read (push_all s vs) (length h) =
    (if length (concat vs) \<le> size_limit s then Some (concat vs, False)
     else Some (drop (length (concat vs) - size_limit s) (concat vs), True))"
proof -
  let ?s = "push_all s vs"
  have win': "window ?s (h @ concat vs)" by (rule window_push_all [OF win])
  have low: "lowest ?s = length h + length (concat vs) - size_limit s"
    using lowest_eq [OF win'] by (simp add: limit_push_all)
  have read: "read ?s (length h) =
      Some (drop (max (length h) (lowest ?s)) (h @ concat vs), length h < lowest ?s)"
    using read_eq [OF win', of "length h"] by simp
  show ?thesis
  proof (cases "length (concat vs) \<le> size_limit s")
    case True
    then have "lowest ?s \<le> length h" using low by linarith
    with True read show ?thesis by (simp add: max_absorb1)
  next
    case False
    then have gt: "length h < lowest ?s" using low by linarith
    have "lowest ?s - length h = length (concat vs) - size_limit s" using False low by linarith
    with gt False read show ?thesis by (simp add: max_absorb2)
  qed
qed

end

section \<open>The ring implements the interface\<close>

definition ring_window :: "ring \<Rightarrow> bytes \<Rightarrow> bool" where
  "ring_window r h \<longleftrightarrow> 0 < capacity r \<and> ring_end r = length h \<and>
     ring_start r = length h - capacity r \<and> ring_data r = drop (length h - capacity r) h"

definition ring_read :: "ring \<Rightarrow> nat \<Rightarrow> (bytes \<times> bool) option" where
  "ring_read r n = (case ring_read_from r (int n) of Inl e \<Rightarrow> None | Inr x \<Rightarrow> Some x)"

lemma ring_window_new: "ring_window (ring_new c) []"
  by (simp add: ring_window_def ring_new_def)

lemma capacity_append [simp]: "capacity (ring_append r v) = capacity r"
  by (simp add: ring_append_def Let_def)

lemma ring_window_append: "ring_window r h \<Longrightarrow> ring_window (ring_append r v) (h @ v)"
proof -
  assume win: "ring_window r h"
  have len: "length (ring_data r @ v) = min (length h) (capacity r) + length v"
    using win by (simp add: ring_window_def)
  show ?thesis
  proof (cases "v = []")
    case True
    with win show ?thesis by (simp add: ring_append_def)
  next
    case False
    show ?thesis
    proof (cases "min (length h) (capacity r) + length v > capacity r")
      case True
      then have "nat (int (length (ring_data r @ v)) - int (capacity r)) =
          min (length h) (capacity r) + length v - capacity r"
        using len by linarith
      with True False win len show ?thesis
        by (auto simp: ring_append_def ring_window_def Let_def min_def add.commute [of "length v"]
            split: if_splits)
    next
      case fits: False
      with False win len have "length h + length v \<le> capacity r"
        by (auto simp: min_def split: if_splits)
      with False win len show ?thesis
        by (simp add: ring_append_def ring_window_def Let_def)
    qed
  qed
qed

interpretation rings: stream_window ring_window capacity ring_append ring_start ring_read
proof (unfold_locales, goal_cases)
  case (1 s h v)
  then show ?case by (rule ring_window_append)
next
  case (2 s v)
  show ?case by simp
next
  case (3 s h)
  then show ?case by (simp add: ring_window_def)
next
  case (4 s h n)
  then show ?case
    by (auto simp: ring_read_def ring_read_from_def ring_window_def Let_def max_def)
qed

section \<open>Whole runs of the buffer\<close>

definition feed_all :: "ProcessOutputBuffer \<Rightarrow> (bytes option \<times> bytes option) list \<Rightarrow> ProcessOutputBuffer" where
  "feed_all buf fs = foldl (\<lambda>b (x, y). snd (feed b x y)) buf fs"

definition opt_bytes :: "bytes option \<Rightarrow> bytes" where
  "opt_bytes v = (case v of None \<Rightarrow> [] | Some b \<Rightarrow> b)"

definition fed_out :: "(bytes option \<times> bytes option) list \<Rightarrow> bytes list" where
  "fed_out fs = map (opt_bytes \<circ> fst) fs"

definition fed_err :: "(bytes option \<times> bytes option) list \<Rightarrow> bytes list" where
  "fed_err fs = map (opt_bytes \<circ> snd) fs"

definition last_bytes :: "nat \<Rightarrow> bytes \<Rightarrow> bytes" where
  "last_bytes n xs = drop (length xs - n) xs"

lemma feed_rings:
  "out_ring (snd (feed buf x y)) = ring_append (out_ring buf) (opt_bytes x)"
  "err_ring (snd (feed buf x y)) = ring_append (err_ring buf) (opt_bytes y)"
  "hard_limit_bytes (snd (feed buf x y)) = hard_limit_bytes buf"
  by (simp_all add: feed_def Let_def opt_bytes_def ring_append_def split: option.split)

lemma feed_all_rings:
  "out_ring (feed_all buf fs) = rings.push_all (out_ring buf) (fed_out fs)"
  "err_ring (feed_all buf fs) = rings.push_all (err_ring buf) (fed_err fs)"
  "hard_limit_bytes (feed_all buf fs) = hard_limit_bytes buf"
proof (induction fs rule: rev_induct)
  case Nil
  { case 1 show ?case by (simp add: feed_all_def fed_out_def rings.push_all_def)
  next case 2 show ?case by (simp add: feed_all_def fed_err_def rings.push_all_def)
  next case 3 show ?case by (simp add: feed_all_def) }
next
  case (snoc f fs)
  { case 1 show ?case using snoc(1)
      by (cases f) (simp add: feed_all_def fed_out_def rings.push_all_def feed_rings)
  next case 2 show ?case using snoc(2)
      by (cases f) (simp add: feed_all_def fed_err_def rings.push_all_def feed_rings)
  next case 3 show ?case using snoc(3)
      by (cases f) (simp add: feed_all_def feed_rings) }
qed

lemma feed_all_windows:
  "ring_window (out_ring (feed_all (buffer_new a b h) fs)) (concat (fed_out fs))"
  "ring_window (err_ring (feed_all (buffer_new a b h) fs)) (concat (fed_err fs))"
  using rings.window_push_all [OF ring_window_new]
  by (fastforce simp: feed_all_rings buffer_new_def)+

lemma feed_all_ends:
  "ring_end (out_ring (feed_all (buffer_new a b h) fs)) = length (concat (fed_out fs))"
  "ring_end (err_ring (feed_all (buffer_new a b h) fs)) = length (concat (fed_err fs))"
  using feed_all_windows by (simp_all add: ring_window_def)

lemma feed_all_capacity:
  "capacity (out_ring (feed_all (buffer_new a b h) fs)) = nat (max 1 a)"
  "capacity (err_ring (feed_all (buffer_new a b h) fs)) = nat (max 1 b)"
  by (simp_all add: feed_all_rings rings.limit_push_all buffer_new_def ring_new_def)

lemma feed_all_append: "feed_all (feed_all buf fs) gs = feed_all buf (fs @ gs)"
  by (simp add: feed_all_def)

lemma ring_resume:
  assumes "ring_window r h"
  shows "ring_read_from (rings.push_all r vs) (int (length h)) =
    Inr (last_bytes (capacity r) (concat vs), length (concat vs) > capacity r)"
  using rings.resume [OF assms, of vs]
  by (auto simp: ring_read_def last_bytes_def split: sum.splits if_splits)

subsection \<open>Cursors\<close>

lemma length_py_digits: "0 < k \<Longrightarrow> n < 10 ^ k \<Longrightarrow> length (py_digits n) \<le> k"
proof (induction k arbitrary: n)
  case (Suc k)
  show ?case
  proof (cases "n < 10")
    case True
    then show ?thesis by (simp add: py_digits.simps [of n])
  next
    case False
    with Suc.prems have "k \<noteq> 0" by (cases k) auto
    moreover have "n div 10 < 10 ^ k" using Suc.prems by (simp add: less_mult_imp_div_less mult.commute)
    ultimately have "length (py_digits (n div 10)) \<le> k" using Suc.IH by simp
    with False show ?thesis by (simp add: py_digits.simps [of n])
  qed
qed simp

lemma canonical_py_digits: "canonical_decimal (py_digits n)"
proof -
  have "hd (py_digits n) = 48 \<Longrightarrow> py_digits n = [48]"
    using hd_py_digits_zero [of n] by (simp add: py_digits.simps [of 0])
  then show ?thesis
    using py_digits_digits [of n] by (auto simp: canonical_decimal_def list_all_iff)
qed

lemma is_digit_bounds: "is_digit c \<Longrightarrow> 48 \<le> c \<and> c - 48 < 10 \<and> c \<noteq> 58"
  by (auto simp: is_digit_def)

lemma canonical_decimal_butlast:
  assumes "canonical_decimal s" "length s > 1"
  shows "canonical_decimal (butlast s)" and "hd s \<noteq> 48"
proof -
  show hd: "hd s \<noteq> 48" using assms by (auto simp: canonical_decimal_def)
  obtain x y zs where s: "s = x # y # zs" using assms(2) by (cases s rule: list.exhaust; cases "tl s") auto
  with hd assms(1) show "canonical_decimal (butlast s)"
    by (auto simp: canonical_decimal_def list_all_iff dest: in_set_butlastD)
qed

lemma digits_value_pos: "s \<noteq> [] \<Longrightarrow> list_all is_digit s \<Longrightarrow> hd s \<noteq> 48 \<Longrightarrow> 0 < digits_value s"
proof (induction s rule: rev_induct)
  case (snoc c s)
  show ?case
  proof (cases "s = []")
    case True
    with snoc show ?thesis by (auto simp: digits_value_def is_digit_def)
  next
    case False
    with snoc show ?thesis by simp
  qed
qed simp

lemma py_digits_digits_value: "canonical_decimal s \<Longrightarrow> py_digits (digits_value s) = s"
proof (induction s rule: rev_induct)
  case Nil
  then show ?case by (simp add: canonical_decimal_def)
next
  case (snoc c s)
  have c: "48 \<le> c" "c - 48 < 10" using snoc.prems is_digit_bounds by (auto simp: canonical_decimal_def)
  show ?case
  proof (cases "s = []")
    case True
    with c show ?thesis by (simp add: digits_value_def py_digits.simps [of "c - 48"])
  next
    case False
    then have can: "canonical_decimal s" and hd: "hd (s @ [c]) \<noteq> 48"
      using canonical_decimal_butlast [OF snoc.prems] by simp_all
    have "0 < digits_value s"
      using digits_value_pos [of s] can hd False by (auto simp: canonical_decimal_def)
    moreover obtain d where d: "c = 48 + d" "d < 10" using c by (metis le_add_diff_inverse)
    ultimately show ?thesis
      using snoc.IH [OF can] by (simp add: py_digits.simps [of "10 * digits_value s + d"])
  qed
qed

lemma takeWhile_digits:
  "list_all is_digit ds \<Longrightarrow> takeWhile (\<lambda>c. c \<noteq> 58) (ds @ 58 # r) = ds \<and>
     dropWhile (\<lambda>c. c \<noteq> 58) (ds @ 58 # r) = 58 # r"
  by (induction ds) (auto dest: is_digit_bounds)

lemma match_cursor_cursor: "match_cursor (cursor a b) = Some (py_digits a, py_digits b)"
  using takeWhile_digits [of "py_digits a" "py_digits b"] canonical_py_digits [of a]
    canonical_py_digits [of b]
  by (simp add: match_cursor_def cursor_def lit_def canonical_decimal_def)

lemma match_cursor_Some:
  assumes "match_cursor s = Some (a, b)"
  shows "s = lit ''v1:'' @ a @ lit '':'' @ b \<and> canonical_decimal a \<and> canonical_decimal b"
proof -
  let ?rest = "drop 3 s"
  let ?tail = "dropWhile (\<lambda>c. c \<noteq> 58) ?rest"
  from assms have pre: "take 3 s = lit ''v1:''" and a: "a = takeWhile (\<lambda>c. c \<noteq> 58) ?rest"
    and ne: "?tail \<noteq> []" and b: "b = tl ?tail" and can: "canonical_decimal a" "canonical_decimal b"
    by (auto simp: match_cursor_def Let_def split: if_splits)
  have "hd ?tail = 58" using hd_dropWhile [OF ne] by simp
  then have "?tail = 58 # b" using ne b by (cases ?tail) auto
  then have "?rest = a @ 58 # b" unfolding a by (metis takeWhile_dropWhile_id)
  then have "s = lit ''v1:'' @ a @ 58 # b" using pre by (metis append_take_drop_id)
  with can show ?thesis by (simp add: lit_def)
qed

lemma cursor_parses:
  assumes "x < 2 ^ 63" "y < 2 ^ 63"
  shows "parse_cursor (cursor x y) = Inr (x, y)"
proof -
  have "x < 10 ^ 19" "y < 10 ^ 19" using assms by simp_all
  then have "length (py_digits x) \<le> 19" "length (py_digits y) \<le> 19"
    by (auto intro: length_py_digits)
  then have "length (cursor x y) \<le> 96" by (simp add: cursor_def lit_def)
  moreover have "cursor x y \<noteq> []" by (simp add: cursor_def)
  ultimately show ?thesis
    using assms by (simp add: parse_cursor_def match_cursor_cursor Let_def)
qed

lemma feed_all_hard_limit:
  "hard_limit_exceeded (feed_all (buffer_new a b h) fs) =
     (length (concat (fed_out fs)) + length (concat (fed_err fs)) > nat (max 1 h))"
proof (induction fs rule: rev_induct)
  case Nil
  show ?case by (simp add: feed_all_def buffer_new_def fed_out_def fed_err_def)
next
  case (snoc f fs)
  let ?b = "feed_all (buffer_new a b h) fs"
  have step: "hard_limit_exceeded (snd (feed buf x y)) \<longleftrightarrow>
      ring_end (out_ring (snd (feed buf x y))) + ring_end (err_ring (snd (feed buf x y)))
        > hard_limit_bytes buf \<or> hard_limit_exceeded buf" for buf x y
    by (simp add: feed_def Let_def)
  have all: "feed_all (buffer_new a b h) (fs @ [f]) = snd (feed ?b (fst f) (snd f))"
    by (cases f) (simp add: feed_all_def)
  have lim: "hard_limit_bytes ?b = nat (max 1 h)"
    by (simp add: feed_all_rings buffer_new_def)
  show ?case
    using step [of ?b "fst f" "snd f"] snoc
    unfolding all [symmetric] feed_all_ends lim by (auto simp: fed_out_def fed_err_def)
qed

section \<open>Properties\<close>

text \<open>
  C6. A reader that polls with the cursor of its previous read gets exactly the bytes the
  process wrote in between, on both streams: all of them when they fit the ring, otherwise
  the last \<open>capacity\<close> bytes with the truncation flag set.
\<close>

theorem snapshot_resumes:
  assumes first: "snapshot (feed_all (buffer_new a b h) fs) cur full = Inr sl"
    and small: "length (concat (fed_out fs)) < 2 ^ 63" "length (concat (fed_err fs)) < 2 ^ 63"
  shows "\<exists>sl'. snapshot (feed_all (buffer_new a b h) (fs @ gs)) (next_cursor sl) False = Inr sl' \<and>
    slice_stdout sl' = utf8_decode (last_bytes (nat (max 1 a)) (concat (fed_out gs))) \<and>
    slice_stderr sl' = utf8_decode (last_bytes (nat (max 1 b)) (concat (fed_err gs))) \<and>
    stdout_truncated sl' = (length (concat (fed_out gs)) > nat (max 1 a)) \<and>
    stderr_truncated sl' = (length (concat (fed_err gs)) > nat (max 1 b))"
proof -
  let ?b = "feed_all (buffer_new a b h) fs"
  let ?x = "length (concat (fed_out fs))" and ?y = "length (concat (fed_err fs))"
  have "next_cursor sl = cursor ?x ?y"
    using first
    by (auto simp: snapshot_def slice_of_def feed_all_ends bind_result_Inr split: if_splits)
  moreover have "parse_cursor (cursor ?x ?y) = Inr (?x, ?y)"
    by (rule cursor_parses [OF small])
  moreover have "out_ring (feed_all ?b gs) = rings.push_all (out_ring ?b) (fed_out gs)"
    "err_ring (feed_all ?b gs) = rings.push_all (err_ring ?b) (fed_err gs)"
    by (simp_all add: feed_all_rings(1) [of ?b] feed_all_rings(2) [of ?b])
  ultimately show ?thesis
    by (simp add: snapshot_def slice_of_def feed_all_append [symmetric]
        ring_resume [OF feed_all_windows(1)] ring_resume [OF feed_all_windows(2)] feed_all_capacity)
qed

theorem snapshot_resumes_witness:
  "\<exists>sl'. snapshot (feed_all (buffer_new 4 4 100) ([(Some [104], None)] @ [(Some [105, 33], None)]))
      (next_cursor (slice_of (feed_all (buffer_new 4 4 100) [(Some [104], None)]) ([104], False) ([], False)))
      False = Inr sl' \<and> slice_stdout sl' = [105, 33]"
proof -
  have "snapshot (feed_all (buffer_new 4 4 100) [(Some [104], None)]) [] False =
      Inr (slice_of (feed_all (buffer_new 4 4 100) [(Some [104], None)]) ([104], False) ([], False))"
    by (simp add: snapshot_def parse_cursor_def feed_all_def feed_def buffer_new_def ring_new_def
        ring_append_def ring_read_from_def)
  then obtain sl' where "snapshot (feed_all (buffer_new 4 4 100)
        ([(Some [104], None)] @ [(Some [105, 33], None)]))
      (next_cursor (slice_of (feed_all (buffer_new 4 4 100) [(Some [104], None)]) ([104], False) ([], False)))
      False = Inr sl'"
    "slice_stdout sl' = utf8_decode (last_bytes (nat (max 1 4))
       (concat (fed_out [(Some [105, 33], None)])))"
    using snapshot_resumes [of 4 4 100 "[(Some [104], None)]" "[]" False _ "[(Some [105, 33], None)]"]
    by (auto simp: fed_out_def fed_err_def opt_bytes_def)
  then show ?thesis by (auto simp: fed_out_def opt_bytes_def last_bytes_def)
qed

text \<open>
  A non-empty string is accepted as a cursor exactly when it is what \<open>_cursor\<close> prints
  for two offsets below \<open>2^63\<close>, and it is read back as those offsets.
\<close>

theorem parse_cursor_roundtrip:
  "value \<noteq> [] \<Longrightarrow> parse_cursor value = Inr (x, y) \<longleftrightarrow>
     value = cursor x y \<and> x < 2 ^ 63 \<and> y < 2 ^ 63"
proof
  assume ne: "value \<noteq> []" and ok: "parse_cursor value = Inr (x, y)"
  then obtain a b where ab: "match_cursor value = Some (a, b)" "x = digits_value a" "y = digits_value b"
    and lim: "x < 2 ^ 63" "y < 2 ^ 63"
    by (auto simp: parse_cursor_def Let_def split: option.splits if_splits)
  from match_cursor_Some [OF ab(1)] have "value = cursor x y"
    by (simp add: cursor_def ab py_digits_digits_value)
  with lim show "value = cursor x y \<and> x < 2 ^ 63 \<and> y < 2 ^ 63" by simp
next
  assume "value \<noteq> []" and "value = cursor x y \<and> x < 2 ^ 63 \<and> y < 2 ^ 63"
  then show "parse_cursor value = Inr (x, y)" using cursor_parses by blast
qed

theorem parse_cursor_roundtrip_witness:
  "parse_cursor (cursor 7 42) = Inr (7, 42)"
  using parse_cursor_roundtrip [of "cursor 7 42" 7 42] by (simp add: cursor_def)

text \<open>
  C7. The memory held for a stream never exceeds its soft limit, and the hard-limit flag
  is up exactly when the process has written more than the hard limit in total.
\<close>

theorem output_buffer_bounded:
  "length (ring_data (out_ring (feed_all (buffer_new a b h) fs))) \<le> nat (max 1 a) \<and>
   length (ring_data (err_ring (feed_all (buffer_new a b h) fs))) \<le> nat (max 1 b) \<and>
   hard_limit_exceeded (feed_all (buffer_new a b h) fs) =
     (length (concat (fed_out fs)) + length (concat (fed_err fs)) > nat (max 1 h))"
proof (intro conjI)
  show "length (ring_data (out_ring (feed_all (buffer_new a b h) fs))) \<le> nat (max 1 a)"
    using feed_all_windows(1) [of a b h fs] feed_all_capacity(1) [of a b h fs]
    by (simp add: ring_window_def)
  show "length (ring_data (err_ring (feed_all (buffer_new a b h) fs))) \<le> nat (max 1 b)"
    using feed_all_windows(2) [of a b h fs] feed_all_capacity(2) [of a b h fs]
    by (simp add: ring_window_def)
  show "hard_limit_exceeded (feed_all (buffer_new a b h) fs) =
     (length (concat (fed_out fs)) + length (concat (fed_err fs)) > nat (max 1 h))"
    by (rule feed_all_hard_limit)
qed

end
