(* ===== verification/Unified_Patch_Correct.thy ===== *)
theory Unified_Patch_Correct
  imports Unified_Patch Process_Output
begin

text \<open>
  Correctness of the patch applier against edit scripts: a patch that is accepted is an
  edit script whose old side is the file (soundness), and the diff printed from any edit
  script of newline-terminated lines is accepted and produces the new side (completeness).
\<close>

section \<open>Edit scripts\<close>

datatype edit = Keep pystr | Del pystr | Add pystr

fun edit_old :: "edit \<Rightarrow> pystr list" where
  "edit_old (Keep l) = [l]"
| "edit_old (Del l) = [l]"
| "edit_old (Add l) = []"

fun edit_new :: "edit \<Rightarrow> pystr list" where
  "edit_new (Keep l) = [l]"
| "edit_new (Del l) = []"
| "edit_new (Add l) = [l]"

fun edit_line :: "edit \<Rightarrow> pystr" where
  "edit_line (Keep l) = 32 # l"
| "edit_line (Del l) = 45 # l"
| "edit_line (Add l) = 43 # l"

fun is_add :: "edit \<Rightarrow> bool" where
  "is_add (Add l) = True" | "is_add _ = False"

fun is_del :: "edit \<Rightarrow> bool" where
  "is_del (Del l) = True" | "is_del _ = False"

definition old_side :: "edit list \<Rightarrow> pystr list" where
  "old_side ops = concat (map edit_old ops)"

definition new_side :: "edit list \<Rightarrow> pystr list" where
  "new_side ops = concat (map edit_new ops)"

definition adds :: "edit list \<Rightarrow> nat" where
  "adds ops = length (filter is_add ops)"

definition dels :: "edit list \<Rightarrow> nat" where
  "dels ops = length (filter is_del ops)"

lemmas edit_defs = old_side_def new_side_def adds_def dels_def

lemma edit_append [simp]:
  "old_side (xs @ ys) = old_side xs @ old_side ys"
  "new_side (xs @ ys) = new_side xs @ new_side ys"
  "adds (xs @ ys) = adds xs + adds ys"
  "dels (xs @ ys) = dels xs + dels ys"
  by (simp_all add: edit_defs)

lemma edit_Nil [simp]: "old_side [] = []" "new_side [] = []" "adds [] = 0" "dels [] = 0"
  by (simp_all add: edit_defs)

lemma edit_single [simp]:
  "old_side [e] = edit_old e" "new_side [e] = edit_new e"
  "adds [e] = (if is_add e then 1 else 0)" "dels [e] = (if is_del e then 1 else 0)"
  by (simp_all add: edit_defs)

lemma edit_Cons [simp]:
  "old_side (e # ops) = edit_old e @ old_side ops"
  "new_side (e # ops) = edit_new e @ new_side ops"
  "adds (e # ops) = (if is_add e then 1 else 0) + adds ops"
  "dels (e # ops) = (if is_del e then 1 else 0) + dels ops"
  by (simp_all add: edit_defs)

lemma keep_all [simp]:
  "old_side (map Keep ls) = ls" "new_side (map Keep ls) = ls"
  "adds (map Keep ls) = 0" "dels (map Keep ls) = 0"
  by (induction ls) simp_all

lemma no_change_same: "adds ops + dels ops = 0 \<Longrightarrow> old_side ops = new_side ops"
proof (induction ops)
  case (Cons e ops)
  then show ?case by (cases e) auto
qed simp

text \<open>The lines a patch adds and removes, read off its text.\<close>

definition marked :: "nat \<Rightarrow> pystr list \<Rightarrow> pystr list" where
  "marked m lines = map tl (filter (\<lambda>l. l \<noteq> [] \<and> hd l = m) lines)"

definition added_text :: "edit list \<Rightarrow> pystr list" where
  "added_text ops = concat (map (\<lambda>e. case e of Add l \<Rightarrow> [l] | _ \<Rightarrow> []) ops)"

definition removed_text :: "edit list \<Rightarrow> pystr list" where
  "removed_text ops = concat (map (\<lambda>e. case e of Del l \<Rightarrow> [l] | _ \<Rightarrow> []) ops)"

definition spells :: "edit list \<Rightarrow> pystr list \<Rightarrow> bool" where
  "spells ops lines \<longleftrightarrow> added_text ops = marked 43 lines \<and> removed_text ops = marked 45 lines"

lemma spells_Nil [simp]: "spells [] []"
  by (simp add: spells_def marked_def added_text_def removed_text_def)

lemma spells_append: "spells xs ls \<Longrightarrow> spells ys ms \<Longrightarrow> spells (xs @ ys) (ls @ ms)"
  by (simp add: spells_def marked_def added_text_def removed_text_def)

lemma spells_keep [simp]: "spells (map Keep ls) []"
  by (induction ls) (simp_all add: spells_def marked_def added_text_def removed_text_def)

lemma spells_edit_line: "spells [e] [edit_line e]"
  by (cases e) (simp_all add: spells_def marked_def added_text_def removed_text_def)

lemma spells_header: "l \<noteq> [] \<Longrightarrow> hd l = 64 \<Longrightarrow> spells [] [l]"
  by (simp add: spells_def marked_def added_text_def removed_text_def)

section \<open>Soundness\<close>

definition explains :: "pystr list \<Rightarrow> edit list \<Rightarrow> patch_state \<Rightarrow> bool" where
  "explains src ops st \<longleftrightarrow> source_cursor st \<le> length src \<and>
     old_side ops = take (source_cursor st) src \<and> new_side ops = out_lines st \<and>
     adds ops = added_lines st \<and> dels ops = removed_lines st \<and>
     changed st = (adds ops + dels ops > 0)"

definition edit_step :: "edit \<Rightarrow> patch_state \<Rightarrow> patch_state" where
  "edit_step e st =
     st\<lparr>source_cursor := source_cursor st + length (edit_old e),
        out_lines := out_lines st @ edit_new e,
        added_lines := added_lines st + (if is_add e then 1 else 0),
        removed_lines := removed_lines st + (if is_del e then 1 else 0),
        changed := (changed st \<or> is_add e \<or> is_del e)\<rparr>"

definition edit_fits :: "pystr list \<Rightarrow> edit \<Rightarrow> patch_state \<Rightarrow> bool" where
  "edit_fits src e st \<longleftrightarrow>
     take (length (edit_old e)) (drop (source_cursor st) src) = edit_old e"

text \<open>One line of the inner loop is one edit.\<close>

lemma hunk_start_hd: "hunk_start (c # l) \<Longrightarrow> c = 64"
  by (auto simp: hunk_start_def startswith_def lit_def without_line_ending_def take_Cons' butlast.simps
      split: if_splits)

lemma hunk_start_edit_line: "\<not> hunk_start (edit_line e)"
  by (cases e) (auto dest: hunk_start_hd)

lemma take_one_drop: "take (Suc 0) (drop n xs) = [x] \<longleftrightarrow> n < length xs \<and> xs ! n = x"
  by (cases "n < length xs") (auto simp: take_Suc_conv_app_nth)

lemma apply_body_edit:
  "apply_body src st a b (edit_line e # rest) =
     (if edit_fits src e st
      then apply_body src (edit_step e st) (a + length (edit_old e)) (b + length (edit_new e)) rest
      else Inl invalid_patch)"
  using hunk_start_edit_line [of e]
  by (cases e) (auto simp: edit_fits_def edit_step_def take_one_drop Let_def)

declare apply_body.simps(2) [simp del]

lemma body_line_edit: "l \<noteq> [] \<Longrightarrow> hd l \<in> {32, 43, 45} \<Longrightarrow> \<exists>e. l = edit_line e"
  by (cases l) (auto, metis edit_line.simps(1), metis edit_line.simps(3), metis edit_line.simps(2))

lemma explains_step:
  assumes ex: "explains src ops st" and fit: "edit_fits src e st"
  shows "explains src (ops @ [e]) (edit_step e st)"
proof -
  let ?k = "length (edit_old e)"
  have "?k \<le> length src - source_cursor st"
    using fit by (metis edit_fits_def length_drop length_take min.cobounded1)
  moreover have "take (source_cursor st + ?k) src = take (source_cursor st) src @ edit_old e"
    using fit by (simp add: edit_fits_def take_add)
  ultimately show ?thesis
    using ex by (auto simp: explains_def edit_step_def)
qed

lemma apply_body_sound:
  "apply_body src st a b lines = Inr (st', a', b', rest) \<Longrightarrow> explains src ops st \<Longrightarrow>
     \<exists>ops' body. lines = body @ rest \<and> spells ops' body \<and> explains src (ops @ ops') st' \<and>
       a' = a + length (old_side ops') \<and> b' = b + length (new_side ops')"
proof (induction lines arbitrary: st a b ops)
  case Nil
  then show ?case by (auto intro: exI [of _ "[]"])
next
  case (Cons line lines)
  show ?case
  proof (cases "hunk_start line")
    case True
    with Cons.prems show ?thesis by (auto simp: apply_body.simps(2) intro: exI [of _ "[]"])
  next
    case False
    with Cons.prems(1) have "line \<noteq> []" "hd line \<in> {32, 43, 45}"
      by (auto simp: apply_body.simps(2) split: if_splits)
    then obtain e where e: "line = edit_line e" using body_line_edit by blast
    with Cons.prems(1) have fit: "edit_fits src e st"
      and run: "apply_body src (edit_step e st) (a + length (edit_old e)) (b + length (edit_new e)) lines
        = Inr (st', a', b', rest)"
      by (auto simp: apply_body_edit split: if_splits)
    from Cons.IH [OF run explains_step [OF Cons.prems(2) fit]] obtain ops' body where
      IH: "lines = body @ rest" "spells ops' body" "explains src ((ops @ [e]) @ ops') st'"
        "a' = a + length (edit_old e) + length (old_side ops')"
        "b' = b + length (edit_new e) + length (new_side ops')"
      by blast
    have "spells (e # ops') (line # body)"
      using spells_append [OF spells_edit_line IH(2), of e] by (simp add: e)
    with IH show ?thesis by (intro exI [of _ "e # ops'"] exI [of _ "line # body"]) simp
  qed
qed

lemma match_hunk_header_hd: "match_hunk_header (without_line_ending line) \<noteq> None \<Longrightarrow> line \<noteq> [] \<and> hd line = 64"
  by (cases line)
     (auto simp: match_hunk_header_def startswith_def lit_def without_line_ending_def endswith_def
       take_Cons' split: if_splits)

lemma explains_gap:
  assumes "explains src ops st" "source_cursor st \<le> i" "i \<le> length src"
  shows "explains src (ops @ map Keep (drop (source_cursor st) (take i src)))
    (st\<lparr>hunk_count := h, out_lines := out_lines st @ drop (source_cursor st) (take i src), source_cursor := i\<rparr>)"
proof -
  have "take (source_cursor st) src @ drop (source_cursor st) (take i src) = take i src"
    using assms(2) by (metis append_take_drop_id min.absorb1 take_take)
  with assms show ?thesis by (simp add: explains_def)
qed

text \<open>
  A successful round of the outer loop, with everything it checked.
\<close>

lemma apply_hunks_Cons_Inr:
  assumes "apply_hunks src st (line # rest) = Inr st'"
  obtains i st2 n m rest' where
    "line \<noteq> []" "hd line = 64" "source_cursor st \<le> i" "i \<le> length src"
    "apply_body src (st\<lparr>hunk_count := hunk_count st + 1,
        out_lines := out_lines st @ drop (source_cursor st) (take i src), source_cursor := i\<rparr>) 0 0 rest
       = Inr (st2, n, m, rest')"
    "apply_hunks src st2 rest' = Inr st'"
proof -
  from assms obtain os oc ns nc where
    hdr: "match_hunk_header (without_line_ending line) = Some (os, oc, ns, nc)"
    by (auto simp: apply_hunks.simps(2) split: option.splits)
  moreover from hdr have "line \<noteq> []" "hd line = 64"
    using match_hunk_header_hd [of line] by auto
  moreover from assms hdr obtain w x y z where
    ints: "py_int os = Inr w" "py_count oc = Inr x" "py_int ns = Inr y" "py_count nc = Inr z"
    by (auto simp: apply_hunks.simps(2) split: sum.splits)
  moreover let ?i = "if w = 0 then 0 else w - 1"
  from assms have "source_cursor st \<le> ?i \<and> ?i \<le> length src"
    by (auto simp: apply_hunks.simps(2) hdr ints Let_def split: if_splits)
  moreover from assms obtain st2 rest' where
    "apply_body src (st\<lparr>hunk_count := hunk_count st + 1,
        out_lines := out_lines st @ drop (source_cursor st) (take ?i src), source_cursor := ?i\<rparr>) 0 0 rest
       = Inr (st2, x, z, rest')" "apply_hunks src st2 rest' = Inr st'"
    by (auto simp: apply_hunks.simps(2) hdr ints Let_def split: if_splits sum.splits)
  ultimately show thesis by (intro that [of ?i st2 x z rest']) auto
qed

lemma apply_hunks_sound:
  "apply_hunks src st lines = Inr st' \<Longrightarrow> explains src ops st \<Longrightarrow>
     \<exists>ops'. spells ops' lines \<and> explains src (ops @ ops') st'"
proof (induction "length lines" arbitrary: lines st ops rule: less_induct)
  case less
  show ?case
  proof (cases lines)
    case Nil
    with less.prems show ?thesis by (auto intro: exI [of _ "[]"])
  next
    case (Cons line rest)
    from less.prems(1) [unfolded Cons] obtain i st2 n m rest' where
      line: "line \<noteq> []" "hd line = 64" and i: "source_cursor st \<le> i" "i \<le> length src"
      and body: "apply_body src (st\<lparr>hunk_count := hunk_count st + 1,
          out_lines := out_lines st @ drop (source_cursor st) (take i src), source_cursor := i\<rparr>) 0 0 rest
         = Inr (st2, n, m, rest')"
      and more: "apply_hunks src st2 rest' = Inr st'"
      by (rule apply_hunks_Cons_Inr)
    let ?gap = "map Keep (drop (source_cursor st) (take i src))"
    from apply_body_sound [OF body explains_gap [OF less.prems(2) i]] obtain ops1 part where
      1: "rest = part @ rest'" "spells ops1 part" "explains src ((ops @ ?gap) @ ops1) st2"
      by blast
    have "length rest' < length lines" using 1(1) by (simp add: Cons)
    from less.hyps [OF this more 1(3)] obtain ops2 where
      2: "spells ops2 rest'" "explains src (((ops @ ?gap) @ ops1) @ ops2) st'"
      by blast
    have "spells (?gap @ [] @ ops1 @ ops2) ([] @ [line] @ part @ rest')"
      by (intro spells_append spells_keep spells_header line 1 2)
    then have "spells (?gap @ ops1 @ ops2) lines" by (simp add: Cons 1(1))
    with 2(2) show ?thesis by (intro exI [of _ "?gap @ ops1 @ ops2"]) simp
  qed
qed

section \<open>Completeness\<close>

text \<open>A newline-terminated line without NUL, and the one-hunk diff of an edit script.\<close>

definition text_line :: "pystr \<Rightarrow> bool" where
  "text_line l \<longleftrightarrow> (\<exists>b. l = b @ [10] \<and> list_all (\<lambda>c. \<not> line_break c \<and> c \<noteq> 0) b)"

fun edit_text :: "edit \<Rightarrow> pystr" where
  "edit_text (Keep l) = l" | "edit_text (Del l) = l" | "edit_text (Add l) = l"

definition hunk_header :: "nat \<Rightarrow> nat \<Rightarrow> pystr" where
  "hunk_header n m =
     lit ''@@ -1,'' @ py_digits n @ lit '' +1,'' @ py_digits m @ lit '' @@'' @ [10]"

definition render_diff :: "edit list \<Rightarrow> pystr" where
  "render_diff ops =
     hunk_header (length (old_side ops)) (length (new_side ops)) @ concat (map edit_line ops)"

lemma splitlines_text_line:
  assumes "text_line l"
  shows "splitlines (l @ s) = l # splitlines s"
proof -
  obtain b where l: "l = b @ [10]" and b: "list_all (\<lambda>c. \<not> line_break c \<and> c \<noteq> 0) b"
    using assms by (auto simp: text_line_def)
  have "splitlines_acc acc (b @ 10 # s) = (rev acc @ b @ [10]) # splitlines_acc [] s" for acc
    using b by (induction b arbitrary: acc) (auto simp: line_break_def)
  from this [of "[]"] show ?thesis by (simp add: splitlines_def l)
qed

lemma splitlines_text: "list_all text_line ls \<Longrightarrow> splitlines (concat ls) = ls"
  by (induction ls) (simp_all add: splitlines_text_line, simp add: splitlines_def)

lemma text_line_no_nul: "text_line l \<Longrightarrow> 0 \<notin> set l"
  by (auto simp: text_line_def list_all_iff)

lemma text_line_edit: "text_line (edit_text e) \<Longrightarrow> text_line (edit_line e)"
  by (cases e) (auto simp: text_line_def line_break_def intro: exI [of _ "_ # _"])

lemma text_lines_sides:
  assumes "list_all (text_line \<circ> edit_text) ops"
  shows "list_all text_line (old_side ops)" and "list_all text_line (map edit_line ops)"
proof -
  show "list_all text_line (old_side ops)" using assms
  proof (induction ops)
    case (Cons e ops)
    then show ?case by (cases e) auto
  qed simp
  show "list_all text_line (map edit_line ops)"
    using assms by (auto simp: list_all_iff intro: text_line_edit)
qed

lemma digit_not_break: "is_digit c \<Longrightarrow> \<not> line_break c \<and> c \<noteq> 0"
  by (auto simp: is_digit_def line_break_def)

lemma text_line_header: "text_line (hunk_header n m)"
proof -
  let ?b = "lit ''@@ -1,'' @ py_digits n @ lit '' +1,'' @ py_digits m @ lit '' @@''"
  have "list_all (\<lambda>c. \<not> line_break c \<and> c \<noteq> 0) ?b"
    using py_digits_digits [of n] py_digits_digits [of m] digit_not_break
    by (auto simp: list_all_iff lit_def line_break_def)
  moreover have "hunk_header n m = ?b @ [10]" by (simp add: hunk_header_def)
  ultimately show ?thesis unfolding text_line_def by blast
qed

lemma without_line_ending_text:
  assumes "text_line l"
  shows "without_line_ending l = butlast l"
proof -
  obtain b where l: "l = b @ [10]" and b: "list_all (\<lambda>c. \<not> line_break c \<and> c \<noteq> 0) b"
    using assms by (auto simp: text_line_def)
  have "\<not> endswith l [13, 10]"
    using b by (cases b rule: rev_cases) (auto simp: l endswith_def startswith_def line_break_def)
  moreover have "endswith l [10]" by (simp add: l endswith_def startswith_def)
  ultimately show ?thesis by (simp add: without_line_ending_def)
qed

lemma take_digits_py: "\<not> is_digit c \<Longrightarrow> take_digits (py_digits n @ c # r) = Some (py_digits n, c # r)"
proof -
  assume c: "\<not> is_digit c"
  have "takeWhile is_digit (py_digits n @ c # r) = py_digits n"
    using py_digits_digits [of n] c by (simp add: takeWhile_append)
  then show ?thesis by (simp add: take_digits_def)
qed

lemma match_hunk_header_header:
  "match_hunk_header (butlast (hunk_header n m)) = Some ([49], Some (py_digits n), [49], Some (py_digits m))"
proof -
  have r: "take_range (49 # 44 # py_digits k @ 32 # r) = Some ([49], Some (py_digits k), 32 # r)" for k r
    by (simp add: take_range_def take_digits_def [of "49 # _"] is_digit_def startswith_def lit_def
        take_digits_py)
  have "butlast (hunk_header n m) = [64, 64, 32, 45] @ 49 # 44 # py_digits n @ 32 #
      ([43] @ 49 # 44 # py_digits m @ 32 # [64, 64])"
    by (simp add: hunk_header_def lit_def butlast_append)
  then show ?thesis
    by (simp add: match_hunk_header_def startswith_def lit_def r)
qed

lemma py_count_digits: "n < 10 ^ 18 \<Longrightarrow> py_count (Some (py_digits n)) = Inr n"
  using length_py_digits [of 18 n] by (simp add: py_count_def py_int_def)

lemma apply_body_complete:
  assumes "explains src ops0 st" "drop (source_cursor st) src = old_side ops @ rest"
  shows "\<exists>st'. apply_body src st a b (map edit_line ops) =
      Inr (st', a + length (old_side ops), b + length (new_side ops), []) \<and>
    explains src (ops0 @ ops) st' \<and> hunk_count st' = hunk_count st"
  using assms
proof (induction ops arbitrary: st a b ops0)
  case Nil
  then show ?case by simp
next
  case (Cons e ops)
  have fit: "edit_fits src e st" using Cons.prems(2) by (simp add: edit_fits_def)
  have ex: "explains src (ops0 @ [e]) (edit_step e st)"
    by (rule explains_step [OF Cons.prems(1) fit])
  have "drop (source_cursor (edit_step e st)) src = old_side ops @ rest"
    using arg_cong [OF Cons.prems(2), of "drop (length (edit_old e))"]
    by (simp add: edit_step_def add.commute)
  from Cons.IH [OF ex this, of "a + length (edit_old e)" "b + length (edit_new e)"] fit
  show ?case by (auto simp: apply_body_edit edit_step_def)
qed

lemma sides_length: "length (old_side ops) \<le> length ops" "length (new_side ops) \<le> length ops"
proof (induction ops)
  case (Cons e ops)
  { case 1 show ?case using Cons by (cases e) simp_all
  next case 2 show ?case using Cons by (cases e) simp_all }
qed simp_all

definition patch_start :: patch_state where
  "patch_start = \<lparr>out_lines = [], source_cursor = 0, hunk_count = 0, added_lines = 0,
     removed_lines = 0, changed = False\<rparr>"

lemma explains_start: "explains src [] patch_start"
  by (simp add: explains_def patch_start_def)

lemma apply_hunks_complete:
  assumes len: "length ops < 10 ^ 18"
  shows "\<exists>st. apply_hunks (old_side ops) patch_start
      (hunk_header (length (old_side ops)) (length (new_side ops)) # map edit_line ops) = Inr st \<and>
    explains (old_side ops) ops st \<and> hunk_count st = 1 \<and> source_cursor st = length (old_side ops)"
proof -
  let ?src = "old_side ops" and ?n = "length (old_side ops)" and ?m = "length (new_side ops)"
  let ?h = "hunk_header ?n ?m" and ?st1 = "patch_start\<lparr>hunk_count := 1\<rparr>"
  have ex: "explains ?src [] ?st1" by (simp add: explains_def patch_start_def)
  have lim: "?n < 10 ^ 18" "?m < 10 ^ 18"
    using len sides_length [of ops] by linarith+
  from apply_body_complete [OF ex, of ops "[]" 0 0] obtain st where
    body: "apply_body ?src ?st1 0 0 (map edit_line ops) = Inr (st, ?n, ?m, [])"
    and st: "explains ?src ops st" "hunk_count st = 1"
    by (auto simp: patch_start_def)
  have "source_cursor st \<le> ?n" "length (take (source_cursor st) ?src) = ?n"
    using st(1) by (simp_all add: explains_def)
  then have "source_cursor st = ?n" by simp
  moreover have "apply_hunks ?src patch_start (?h # map edit_line ops) = Inr st"
    using body
    by (simp add: apply_hunks.simps(2) without_line_ending_text [OF text_line_header]
        match_hunk_header_header py_count_digits [OF lim(1)] py_count_digits [OF lim(2)]
        py_int_def digits_value_def patch_start_def)
  ultimately show ?thesis using st by blast
qed

lemma preprocess_loop_id:
  "\<forall>l \<in> set ls. without_line_ending l \<noteq> no_newline_marker \<Longrightarrow> preprocess_loop acc ls = Inr (acc @ ls)"
  by (induction ls arbitrary: acc) simp_all

lemma not_marker:
  assumes "l \<noteq> []" "hd l \<noteq> 92"
  shows "without_line_ending l \<noteq> no_newline_marker"
proof -
  obtain c r where l: "l = c # r" using assms(1) by (cases l) auto
  then have "hd (butlast l) = c \<or> butlast l = []" "hd (butlast (butlast l)) = c \<or> butlast (butlast l) = []"
    by (cases r; cases "tl r"; auto)+
  with assms l show ?thesis
    by (auto simp: without_line_ending_def no_newline_marker_def split: if_splits)
qed

lemma edit_line_hd: "edit_line e \<noteq> []" "hd (edit_line e) \<noteq> 92"
  by (cases e; simp)+

lemma preprocess_render:
  assumes "list_all (text_line \<circ> edit_text) ops"
  shows "preprocess_lines (render_diff ops) =
    Inr (hunk_header (length (old_side ops)) (length (new_side ops)) # map edit_line ops)"
proof -
  let ?h = "hunk_header (length (old_side ops)) (length (new_side ops))"
  have lines: "list_all text_line (?h # map edit_line ops)"
    using text_lines_sides(2) [OF assms] text_line_header by simp
  have render: "render_diff ops = concat (?h # map edit_line ops)"
    by (simp add: render_diff_def)
  have "0 \<notin> set (render_diff ops)"
    using lines text_line_no_nul unfolding render by (fastforce simp: list_all_iff)
  moreover have "hd ?h = 64" "?h \<noteq> []" by (simp_all add: hunk_header_def lit_def)
  then have "preprocess_loop [] (?h # map edit_line ops) = Inr (?h # map edit_line ops)"
    using preprocess_loop_id [of "?h # map edit_line ops" "[]"] not_marker edit_line_hd by auto
  moreover have "render_diff ops \<noteq> []" using \<open>?h \<noteq> []\<close> by (simp add: render_diff_def)
  ultimately show ?thesis
    unfolding preprocess_lines_def render by (simp only: splitlines_text [OF lines]) simp
qed

lemma headers_render:
  "validate_file_headers p i False False (hunk_header n m # ls) = Inr (hunk_header n m # ls)"
proof -
  have "startswith (without_line_ending (hunk_header n m)) (lit ''@@ '')"
    unfolding without_line_ending_text [OF text_line_header]
    by (simp add: hunk_header_def butlast_append startswith_def lit_def)
  then show ?thesis by (simp add: Let_def)
qed

declare validate_file_headers.simps(2) [simp del]

section \<open>Paths\<close>

definition safe_component :: "pystr \<Rightarrow> bool" where
  "safe_component w \<longleftrightarrow> w \<notin> {[], lit ''.'', lit ''..''} \<and> 0 \<notin> set w \<and> 92 \<notin> set w \<and> 47 \<notin> set w \<and>
     (\<exists>b. utf8_encode w = Some b \<and> length b \<le> 255)"

lemma in_join_char:
  "c \<noteq> sep \<Longrightarrow> c \<in> set (join_char sep ws) \<longleftrightarrow> (\<exists>w \<in> set ws. c \<in> set w)"
  by (induction sep ws rule: join_char.induct) auto

lemma validate_relative_path_Inr:
  assumes "validate_relative_path v allow = Inr comps" "comps \<noteq> []"
  shows "v = join_char 47 comps" and "\<forall>w \<in> set comps. safe_component w"
    and "\<exists>b. utf8_encode v = Some b \<and> length b \<le> 4096"
proof -
  from assms have v: "comps = split_char 47 v" and chars: "0 \<notin> set v" "92 \<notin> set v"
    and good: "\<forall>w \<in> set comps. \<not> bad_component w"
    and enc: "\<exists>b. utf8_encode v = Some b \<and> length b \<le> 4096"
    by (auto simp: validate_relative_path_def Let_def list_ex_iff split: if_splits option.splits)
  show join: "v = join_char 47 comps" by (simp add: v)
  show "\<exists>b. utf8_encode v = Some b \<and> length b \<le> 4096" by (rule enc)
  show "\<forall>w \<in> set comps. safe_component w"
  proof
    fix w assume w: "w \<in> set comps"
    then have "47 \<notin> set w" by (simp add: v sep_notin_split_char)
    moreover have "0 \<notin> set w" "92 \<notin> set w"
      using chars w in_join_char [of 0 47 comps] in_join_char [of 92 47 comps] join by auto
    ultimately show "safe_component w"
      using good w by (fastforce simp: safe_component_def bad_component_def split: option.splits)
  qed
qed

lemma split_char_snoc: "split_char sep (s @ [sep]) = split_char sep s @ [[]]"
  by (induction s) (auto split: list.split)

lemma validate_relative_path_complete:
  assumes ne: "comps \<noteq> []" and safe: "\<forall>w \<in> set comps. safe_component w"
    and enc: "utf8_encode (join_char 47 comps) = Some b" "length b \<le> 4096"
  shows "validate_relative_path (join_char 47 comps) False = Inr comps"
proof -
  let ?v = "join_char 47 comps"
  have split: "split_char 47 ?v = comps"
    using ne safe by (intro split_join_char) (auto simp: safe_component_def)
  have nil: "[] \<notin> set comps" "lit ''.'' \<notin> set comps" using safe by (auto simp: safe_component_def)
  have "?v \<noteq> []" "?v \<noteq> lit ''.''" using split nil by (auto simp: lit_def)
  moreover have "\<not> startswith ?v (lit ''/'')"
    using split nil by (cases ?v) (auto simp: startswith_def lit_def)
  moreover have "\<not> endswith ?v (lit ''/'')"
  proof
    assume "endswith ?v (lit ''/'')"
    then obtain r where "?v = r @ [47]"
      by (cases ?v rule: rev_cases) (auto simp: endswith_def startswith_def lit_def)
    then have "comps = split_char 47 r @ [[]]" using split split_char_snoc [of 47 r] by simp
    then have "[] \<in> set comps" by simp
    with nil show False by simp
  qed
  moreover have "0 \<notin> set ?v" "92 \<notin> set ?v"
    using safe by (auto simp: in_join_char safe_component_def)
  moreover have "\<not> list_ex bad_component comps"
    using safe by (auto simp: list_ex_iff bad_component_def safe_component_def)
  ultimately show ?thesis
    using enc by (simp add: validate_relative_path_def split Let_def)
qed

section \<open>Properties\<close>

text \<open>
  C8. A patch that is accepted is an edit script: its kept and removed lines are exactly
  the lines of the source file, in order; its added and removed lines are exactly the
  lines marked \<open>+\<close> and \<open>-\<close> in the patch; the new content is its new side; the counters
  are the numbers of added and removed lines, and at least one line changes.
\<close>

theorem apply_unified_patch_sound:
  assumes "apply_unified_patch source patch path = Inr r"
  shows "\<exists>npath lines hunks ops.
    normalized_path path = Inr npath \<and> preprocess_lines patch = Inr lines \<and>
    validate_file_headers npath 0 False False lines = Inr hunks \<and> spells ops hunks \<and>
    old_side ops = splitlines source \<and> content r = concat (new_side ops) \<and>
    ap_added_lines r = adds ops \<and> ap_removed_lines r = dels ops \<and> adds ops + dels ops > 0"
proof -
  from assms obtain npath lines hunks st where
    1: "normalized_path path = Inr npath" "preprocess_lines patch = Inr lines"
      "validate_file_headers npath 0 False False lines = Inr hunks"
    and st: "apply_hunks (splitlines source) patch_start hunks = Inr st" and ch: "changed st"
    and r: "r = \<lparr>content = concat (out_lines st @ drop (source_cursor st) (splitlines source)),
      ap_hunk_count = hunk_count st, ap_added_lines = added_lines st, ap_removed_lines = removed_lines st\<rparr>"
    by (auto simp: apply_unified_patch_def patch_start_def result_simps Let_def split: if_splits)
  from apply_hunks_sound [OF st explains_start] obtain ops where
    ops: "spells ops hunks" "explains (splitlines source) ops st" by auto
  let ?ops = "ops @ map Keep (drop (source_cursor st) (splitlines source))"
  have "spells ?ops hunks" using spells_append [OF ops(1) spells_keep] by simp
  moreover have "old_side ?ops = splitlines source" "content r = concat (new_side ?ops)"
    "ap_added_lines r = adds ?ops" "ap_removed_lines r = dels ?ops" "adds ?ops + dels ?ops > 0"
    using ops(2) ch by (auto simp: explains_def r)
  ultimately show ?thesis using 1 by blast
qed

lemma apply_render:
  assumes ops: "list_all (text_line \<circ> edit_text) ops" and change: "adds ops + dels ops > 0"
    and len: "length ops < 10 ^ 18" and path: "normalized_path path = Inr npath"
  shows "apply_unified_patch (concat (old_side ops)) (render_diff ops) path =
    Inr \<lparr>content = concat (new_side ops), ap_hunk_count = 1, ap_added_lines = adds ops,
         ap_removed_lines = dels ops\<rparr>"
proof -
  from apply_hunks_complete [OF len] obtain st where
    st: "apply_hunks (old_side ops) patch_start
        (hunk_header (length (old_side ops)) (length (new_side ops)) # map edit_line ops) = Inr st"
      "explains (old_side ops) ops st" "hunk_count st = 1" "source_cursor st = length (old_side ops)"
    by blast
  have "0 \<notin> set (concat (old_side ops))"
    using text_lines_sides(1) [OF ops] text_line_no_nul by (fastforce simp: list_all_iff)
  moreover have "splitlines (concat (old_side ops)) = old_side ops"
    by (rule splitlines_text [OF text_lines_sides(1) [OF ops]])
  ultimately show ?thesis
    using st path change
    by (simp add: apply_unified_patch_def preprocess_render [OF ops] headers_render
        patch_start_def [symmetric] explains_def)
qed

definition example_edits :: "edit list" where
  "example_edits = [Keep [97, 10], Del [98, 10], Add [99, 10], Add [100, 10]]"

lemma example_edits_ok:
  "list_all (text_line \<circ> edit_text) example_edits" "adds example_edits + dels example_edits > 0"
  "length example_edits < 10 ^ 18"
  by (simp_all add: example_edits_def text_line_def line_break_def)

lemma example_path_ok: "normalized_path (lit ''src/a.py'') = Inr (lit ''src/a.py'')"
  by (simp add: normalized_path_def validate_relative_path_def lit_def startswith_def endswith_def
      bad_component_def utf8_char_def)

text \<open>
  C9. The diff printed from an edit script of newline-terminated lines with at least one
  change is accepted on the script's old side, at any valid path, and yields its new side.
\<close>

theorem apply_unified_patch_complete:
  assumes "list_all (text_line \<circ> edit_text) ops" and "adds ops + dels ops > 0"
    and "length ops < 10 ^ 18" and "normalized_path path = Inr npath"
  shows "apply_unified_patch (concat (old_side ops)) (render_diff ops) path =
    Inr \<lparr>content = concat (new_side ops), ap_hunk_count = 1, ap_added_lines = adds ops,
         ap_removed_lines = dels ops\<rparr>"
  by (rule apply_render [OF assms])

theorem apply_unified_patch_complete_witness:
  "apply_unified_patch [97, 10, 98, 10] (render_diff example_edits) (lit ''src/a.py'') =
     Inr \<lparr>content = [97, 10, 99, 10, 100, 10], ap_hunk_count = 1, ap_added_lines = 2,
          ap_removed_lines = 1\<rparr>"
  using apply_unified_patch_complete [OF example_edits_ok example_path_ok]
  by (simp add: example_edits_def)

theorem apply_unified_patch_sound_witness:
  "\<exists>ops. old_side ops = splitlines [97, 10, 98, 10] \<and> concat (new_side ops) = [97, 10, 99, 10, 100, 10]"
proof -
  have "apply_unified_patch [97, 10, 98, 10] (render_diff example_edits) (lit ''src/a.py'') =
     Inr \<lparr>content = [97, 10, 99, 10, 100, 10], ap_hunk_count = 1, ap_added_lines = 2,
          ap_removed_lines = 1\<rparr>"
    using apply_render [OF example_edits_ok example_path_ok] by (simp add: example_edits_def)
  from apply_unified_patch_sound [OF this] show ?thesis by auto
qed

text \<open>
  C10. A path is accepted exactly when it is the slash-joined list of non-empty components,
  none of them dot or dot-dot, without NUL, backslash or slash, within the limits of 255
  bytes per component and 4096 bytes in all; the components returned are those. In
  particular no accepted path leaves the workspace.
\<close>

theorem validate_relative_path_iff:
  "validate_relative_path v False = Inr comps \<longleftrightarrow>
     comps \<noteq> [] \<and> v = join_char 47 comps \<and> list_all safe_component comps \<and>
     (\<exists>b. utf8_encode v = Some b \<and> length b \<le> 4096)"
proof
  assume ok: "validate_relative_path v False = Inr comps"
  then have "comps \<noteq> []"
    by (auto simp: validate_relative_path_def Let_def split: if_splits option.splits)
  with validate_relative_path_Inr [OF ok] show "comps \<noteq> [] \<and> v = join_char 47 comps \<and>
      list_all safe_component comps \<and> (\<exists>b. utf8_encode v = Some b \<and> length b \<le> 4096)"
    by (simp add: list_all_iff)
next
  assume "comps \<noteq> [] \<and> v = join_char 47 comps \<and> list_all safe_component comps \<and>
     (\<exists>b. utf8_encode v = Some b \<and> length b \<le> 4096)"
  then show "validate_relative_path v False = Inr comps"
    using validate_relative_path_complete [of comps] by (auto simp: list_all_iff)
qed

end
