(* ===== verification/Sandbox_Concurrency.thy ===== *)
theory Sandbox_Concurrency
  imports Sandbox_Contracts
begin

text \<open>
  The non-blocking concurrency gate of the sandbox daemon (\<open>sandboxd/concurrency.py\<close>):
  \<open>ProfileConcurrencyLimiter\<close> counts the running containers of a profile and the
  processes of a lease, \<open>ConcurrencyPermit\<close> is the handle whose release is idempotent.

  The interface is the locale \<open>permit_pool\<close>: a request occupies a set of slots, it is
  granted exactly when every one of them has room. Inside the locale the book-keeping of
  outstanding requests is proved once; the limiter is its interpretation, and the safety
  of every interleaving of acquisitions and releases follows.
\<close>

section \<open>The limiter\<close>

record ProfileConcurrencyLimiter =
  limits :: "(pystr, int \<times> int) dict"
  active_by_profile :: "(pystr, int) dict"
  active_by_lease :: "(pystr \<times> pystr, int) dict"

record ConcurrencyPermit =
  permit_profile_id :: pystr
  permit_lease_id :: pystr
  permit_released :: bool

text \<open>The fields of a catalog profile that the limiter reads.\<close>

record limiter_profile =
  lp_profile_id :: pystr
  lp_global_concurrency :: int
  lp_max_processes :: int

datatype underflow = ProfileUnderflow | LeaseUnderflow

definition limiter_init :: "limiter_profile list \<Rightarrow> ProfileConcurrencyLimiter" where
  "limiter_init profiles =
     \<lparr>limits = fold (\<lambda>p. dict_set (lp_profile_id p) (lp_global_concurrency p, lp_max_processes p))
                 profiles [],
      active_by_profile = [], active_by_lease = []\<rparr>"

definition busy_error :: "sandbox_summary \<Rightarrow> SandboxServiceError" where
  "busy_error m = (service_error SANDBOX_BUSY m)\<lparr>retryable := True, stop := False\<rparr>"

definition limiter_acquire ::
  "ProfileConcurrencyLimiter \<Rightarrow> pystr \<Rightarrow> pystr
     \<Rightarrow> SandboxServiceError + (ConcurrencyPermit \<times> ProfileConcurrencyLimiter)" where
  "limiter_acquire lim profile_id lease_id =
     (case dict_get (limits lim) profile_id of
        None \<Rightarrow> Inl (service_error AUTHORIZATION_FAILED ProfileInvalid)
      | Some (global_limit, lease_limit) \<Rightarrow>
          let profile_active = dict_get_default (active_by_profile lim) profile_id 0;
              lease_key = (profile_id, lease_id);
              lease_active = dict_get_default (active_by_lease lim) lease_key 0
          in if profile_active \<ge> global_limit then Inl (busy_error ProfileBusy)
             else if lease_id \<noteq> [] \<and> lease_active \<ge> lease_limit then Inl (busy_error LeaseBusy)
             else Inr (\<lparr>permit_profile_id = profile_id, permit_lease_id = lease_id,
                         permit_released = False\<rparr>,
                       lim\<lparr>active_by_lease :=
                              (if lease_id \<noteq> [] then dict_set lease_key (lease_active + 1) (active_by_lease lim)
                               else active_by_lease lim),
                            active_by_profile :=
                              dict_set profile_id (profile_active + 1) (active_by_profile lim)\<rparr>))"

text \<open>
  \<open>_release\<close> raises after it has already lowered the profile's counter when the lease's
  counter underflows, so the state is returned with the exception.
\<close>

definition limiter_release ::
  "ProfileConcurrencyLimiter \<Rightarrow> pystr \<Rightarrow> pystr \<Rightarrow> underflow option \<times> ProfileConcurrencyLimiter" where
  "limiter_release lim profile_id lease_id =
     (let profile_active = dict_get_default (active_by_profile lim) profile_id 0
      in if profile_active \<le> 0 then (Some ProfileUnderflow, lim)
         else
           let lim1 = lim\<lparr>active_by_profile :=
                 (if profile_active = 1 then dict_pop profile_id (active_by_profile lim)
                  else dict_set profile_id (profile_active - 1) (active_by_profile lim))\<rparr>
           in if lease_id = [] then (None, lim1)
              else
                let lease_key = (profile_id, lease_id);
                    lease_active = dict_get_default (active_by_lease lim1) lease_key 0
                in if lease_active \<le> 0 then (Some LeaseUnderflow, lim1)
                   else (None, lim1\<lparr>active_by_lease :=
                     (if lease_active = 1 then dict_pop lease_key (active_by_lease lim1)
                      else dict_set lease_key (lease_active - 1) (active_by_lease lim1))\<rparr>))"

definition permit_release ::
  "ProfileConcurrencyLimiter \<Rightarrow> ConcurrencyPermit
     \<Rightarrow> underflow option \<times> ConcurrencyPermit \<times> ProfileConcurrencyLimiter" where
  "permit_release lim pm =
     (if permit_released pm then (None, pm, lim)
      else case limiter_release lim (permit_profile_id pm) (permit_lease_id pm) of
             (Some e, lim') \<Rightarrow> (Some e, pm, lim')
           | (None, lim') \<Rightarrow> (None, pm\<lparr>permit_released := True\<rparr>, lim'))"

definition limiter_snapshot ::
  "ProfileConcurrencyLimiter \<Rightarrow> (pystr, int) dict \<times> (pystr, int) dict" where
  "limiter_snapshot lim =
     (active_by_profile lim,
      fold (\<lambda>((p, l), c). dict_set (p @ lit '':'' @ l) c) (active_by_lease lim) [])"

section \<open>The interface: a pool of slots\<close>

locale permit_pool =
  fixes invar :: "'s \<Rightarrow> bool"
    and slots :: "'k \<Rightarrow> 'r set"
    and cap :: "'s \<Rightarrow> 'r \<Rightarrow> nat"
    and used :: "'s \<Rightarrow> 'r \<Rightarrow> nat"
    and grant :: "'s \<Rightarrow> 'k \<Rightarrow> 's option"
    and give :: "'s \<Rightarrow> 'k \<Rightarrow> 's option"
  assumes grant_iff: "invar s \<Longrightarrow> grant s k \<noteq> None \<longleftrightarrow> (\<forall>r \<in> slots k. used s r < cap s r)"
    and grant_used: "invar s \<Longrightarrow> grant s k = Some s' \<Longrightarrow>
      used s' r = (if r \<in> slots k then Suc (used s r) else used s r)"
    and grant_cap: "grant s k = Some s' \<Longrightarrow> cap s' = cap s"
    and grant_invar: "invar s \<Longrightarrow> grant s k = Some s' \<Longrightarrow> invar s'"
    and give_ok: "invar s \<Longrightarrow> \<forall>r \<in> slots k. 0 < used s r \<Longrightarrow> give s k \<noteq> None"
    and give_used: "invar s \<Longrightarrow> give s k = Some s' \<Longrightarrow>
      used s' r = (if r \<in> slots k then used s r - 1 else used s r)"
    and give_cap: "give s k = Some s' \<Longrightarrow> cap s' = cap s"
    and give_invar: "invar s \<Longrightarrow> give s k = Some s' \<Longrightarrow> invar s'"
begin

definition accounts :: "'s \<Rightarrow> 'k multiset \<Rightarrow> bool" where
  "accounts s K \<longleftrightarrow> invar s \<and>
     (\<forall>r. used s r = size (filter_mset (\<lambda>k. r \<in> slots k) K)) \<and> (\<forall>r. used s r \<le> cap s r)"

lemma accounts_used: "accounts s K \<Longrightarrow> used s r = size (filter_mset (\<lambda>k. r \<in> slots k) K)"
  by (simp add: accounts_def)

lemma accounts_cap: "accounts s K \<Longrightarrow> used s r \<le> cap s r"
  unfolding accounts_def by blast

lemma accounts_invar: "accounts s K \<Longrightarrow> invar s"
  by (simp add: accounts_def)

lemma accounts_grant:
  assumes acc: "accounts s K" and grant: "grant s k = Some s'"
  shows "accounts s' (add_mset k K)"
proof -
  have inv: "invar s" using acc by (rule accounts_invar)
  have room: "\<forall>r \<in> slots k. used s r < cap s r"
    using grant_iff [OF inv, of k] grant by simp
  have "used s' r \<le> cap s' r" for r
    using room accounts_cap [OF acc, of r]
    by (simp add: grant_used [OF inv grant] grant_cap [OF grant] Suc_le_eq)
  moreover have "used s' r = size (filter_mset (\<lambda>k. r \<in> slots k) (add_mset k K))" for r
    by (simp add: grant_used [OF inv grant] accounts_used [OF acc])
  ultimately show ?thesis
    unfolding accounts_def using grant_invar [OF inv grant] by blast
qed

lemma accounts_give:
  assumes acc: "accounts s K" and held: "k \<in># K"
  shows "\<exists>s'. give s k = Some s' \<and> accounts s' (K - {#k#})"
proof -
  have inv: "invar s" using acc by (rule accounts_invar)
  have pos: "\<forall>r \<in> slots k. 0 < used s r"
    using acc held by (auto simp: accounts_def nonempty_has_size [symmetric])
  then obtain s' where s': "give s k = Some s'" using give_ok [OF inv] by blast
  have "accounts s' (K - {#k#})"
    unfolding accounts_def
  proof (intro conjI allI)
    show "invar s'" by (rule give_invar [OF inv s'])
  next
    fix r
    have "size (filter_mset (\<lambda>k. r \<in> slots k) (K - {#k#})) =
        (if r \<in> slots k then used s r - 1 else used s r)"
      using held by (simp add: accounts_used [OF acc] size_Diff_singleton)
    then show "used s' r = size (filter_mset (\<lambda>k. r \<in> slots k) (K - {#k#}))"
      by (simp add: give_used [OF inv s'])
  next
    fix r
    have "used s' r \<le> used s r" by (simp add: give_used [OF inv s'])
    then show "used s' r \<le> cap s' r"
      using accounts_cap [OF acc, of r] by (simp add: give_cap [OF s'])
  qed
  with s' show ?thesis by blast
qed

end

section \<open>The limiter implements the interface\<close>

datatype slot = ProfileSlot pystr | LeaseSlot pystr pystr

fun request_slots :: "pystr \<times> pystr \<Rightarrow> slot set" where
  "request_slots (p, l) = (if l = [] then {ProfileSlot p} else {ProfileSlot p, LeaseSlot p l})"

fun slot_cap :: "ProfileConcurrencyLimiter \<Rightarrow> slot \<Rightarrow> nat" where
  "slot_cap lim (ProfileSlot p) =
     (case dict_get (limits lim) p of None \<Rightarrow> 0 | Some (g, m) \<Rightarrow> nat g)"
| "slot_cap lim (LeaseSlot p l) =
     (case dict_get (limits lim) p of None \<Rightarrow> 0 | Some (g, m) \<Rightarrow> nat m)"

fun slot_used :: "ProfileConcurrencyLimiter \<Rightarrow> slot \<Rightarrow> nat" where
  "slot_used lim (ProfileSlot p) = nat (dict_get_default (active_by_profile lim) p 0)"
| "slot_used lim (LeaseSlot p l) = nat (dict_get_default (active_by_lease lim) (p, l) 0)"

definition counts_positive :: "ProfileConcurrencyLimiter \<Rightarrow> bool" where
  "counts_positive lim \<longleftrightarrow>
     (\<forall>p c. dict_get (active_by_profile lim) p = Some c \<longrightarrow> 0 < c) \<and>
     (\<forall>k c. dict_get (active_by_lease lim) k = Some c \<longrightarrow> 0 < c)"

definition grant_request ::
  "ProfileConcurrencyLimiter \<Rightarrow> pystr \<times> pystr \<Rightarrow> ProfileConcurrencyLimiter option" where
  "grant_request lim k =
     (case limiter_acquire lim (fst k) (snd k) of Inl e \<Rightarrow> None | Inr (pm, lim') \<Rightarrow> Some lim')"

definition give_request ::
  "ProfileConcurrencyLimiter \<Rightarrow> pystr \<times> pystr \<Rightarrow> ProfileConcurrencyLimiter option" where
  "give_request lim k =
     (case limiter_release lim (fst k) (snd k) of (None, lim') \<Rightarrow> Some lim' | (Some e, lim') \<Rightarrow> None)"

lemma counts_positive_default:
  assumes "counts_positive lim"
  shows "0 \<le> dict_get_default (active_by_profile lim) p 0"
    and "0 \<le> dict_get_default (active_by_lease lim) k 0"
  using assms
  by (fastforce simp: counts_positive_def dict_get_default_def split: option.split,
      cases k, fastforce simp: counts_positive_def dict_get_default_def split: option.split)

lemma grant_request_Some:
  "grant_request lim (p, l) = Some lim' \<longleftrightarrow>
     (\<exists>g m. dict_get (limits lim) p = Some (g, m) \<and>
        dict_get_default (active_by_profile lim) p 0 < g \<and>
        (l \<noteq> [] \<longrightarrow> dict_get_default (active_by_lease lim) (p, l) 0 < m) \<and>
        lim' = lim\<lparr>active_by_lease :=
            (if l \<noteq> [] then dict_set (p, l) (dict_get_default (active_by_lease lim) (p, l) 0 + 1)
                 (active_by_lease lim)
             else active_by_lease lim),
          active_by_profile :=
            dict_set p (dict_get_default (active_by_profile lim) p 0 + 1) (active_by_profile lim)\<rparr>)"
  by (auto simp: grant_request_def limiter_acquire_def Let_def split: option.splits)

lemma give_request_Some:
  "give_request lim (p, l) = Some lim' \<longleftrightarrow>
     (let a = dict_get_default (active_by_profile lim) p 0;
          b = dict_get_default (active_by_lease lim) (p, l) 0
      in 0 < a \<and> (l \<noteq> [] \<longrightarrow> 0 < b) \<and>
         lim' = lim\<lparr>active_by_profile :=
             (if a = 1 then dict_pop p (active_by_profile lim)
              else dict_set p (a - 1) (active_by_profile lim)),
           active_by_lease :=
             (if l = [] then active_by_lease lim
              else if b = 1 then dict_pop (p, l) (active_by_lease lim)
              else dict_set (p, l) (b - 1) (active_by_lease lim))\<rparr>)"
  by (auto simp: give_request_def limiter_release_def Let_def)

interpretation limiter: permit_pool counts_positive request_slots slot_cap slot_used
  grant_request give_request
proof (unfold_locales, goal_cases)
  case (1 lim k)
  obtain p l where k: "k = (p, l)" by fastforce
  show ?case
  proof (cases "dict_get (limits lim) p")
    case None
    then show ?thesis by (auto simp: k grant_request_def limiter_acquire_def)
  next
    case (Some gm)
    then show ?thesis
      using counts_positive_default(1) [OF 1, of p] counts_positive_default(2) [OF 1, of "(p, l)"]
      by (cases gm) (auto simp: k grant_request_def limiter_acquire_def Let_def)
  qed
next
  case (2 lim k lim' r)
  obtain p l where k: "k = (p, l)" by fastforce
  show ?case
    using 2 counts_positive_default [OF 2(1)]
    by (cases r) (auto simp: k grant_request_Some nat_add_distrib)
next
  case (3 lim k lim')
  show ?case
  proof
    fix r show "slot_cap lim' r = slot_cap lim r"
      using 3 by (cases k; cases r) (auto simp: grant_request_Some)
  qed
next
  case (4 lim k lim')
  then show ?case
    using counts_positive_default [OF 4(1)]
    by (cases k) (auto simp: grant_request_Some counts_positive_def split: if_splits
      intro: add_nonneg_pos)
next
  case (5 lim k)
  then show ?case by (cases k) (auto simp: give_request_Some Let_def split: if_splits)
next
  case (6 lim k lim' r)
  then show ?case
    by (cases k; cases r) (auto simp: give_request_Some Let_def nat_diff_distrib)
next
  case (7 lim k lim')
  show ?case
  proof
    fix r show "slot_cap lim' r = slot_cap lim r"
      using 7 by (cases k; cases r) (auto simp: give_request_Some Let_def)
  qed
next
  case (8 lim k lim')
  then show ?case
    by (cases k) (auto simp: give_request_Some counts_positive_def Let_def split: if_splits)
qed

section \<open>Interleavings of acquisitions and releases\<close>

text \<open>
  A pool is a limiter with every permit it has handed out. A step is one call under the
  lock: an acquisition (granted or refused) or the release of any permit handed out
  before, in any order and any number of times.
\<close>

record pool =
  pool_limiter :: ProfileConcurrencyLimiter
  pool_permits :: "ConcurrencyPermit list"

definition pool_acquire :: "pool \<Rightarrow> pystr \<Rightarrow> pystr \<Rightarrow> pool" where
  "pool_acquire s p l =
     (case limiter_acquire (pool_limiter s) p l of
        Inl e \<Rightarrow> s
      | Inr (pm, lim') \<Rightarrow> \<lparr>pool_limiter = lim', pool_permits = pool_permits s @ [pm]\<rparr>)"

definition pool_release :: "pool \<Rightarrow> nat \<Rightarrow> underflow option \<times> pool" where
  "pool_release s i =
     (case permit_release (pool_limiter s) (pool_permits s ! i) of
        (e, pm, lim') \<Rightarrow> (e, \<lparr>pool_limiter = lim', pool_permits = (pool_permits s)[i := pm]\<rparr>))"

inductive pool_reachable :: "limiter_profile list \<Rightarrow> pool \<Rightarrow> bool" for profiles where
  pool_start: "pool_reachable profiles \<lparr>pool_limiter = limiter_init profiles, pool_permits = []\<rparr>"
| pool_acquired: "pool_reachable profiles s \<Longrightarrow> pool_reachable profiles (pool_acquire s p l)"
| pool_released: "pool_reachable profiles s \<Longrightarrow> i < length (pool_permits s) \<Longrightarrow>
     pool_reachable profiles (snd (pool_release s i))"

definition permit_key :: "ConcurrencyPermit \<Rightarrow> pystr \<times> pystr" where
  "permit_key pm = (permit_profile_id pm, permit_lease_id pm)"

definition outstanding :: "ConcurrencyPermit list \<Rightarrow> (pystr \<times> pystr) multiset" where
  "outstanding pms = image_mset permit_key (mset (filter (\<lambda>pm. \<not> permit_released pm) pms))"

lemma outstanding_Nil [simp]: "outstanding [] = {#}"
  by (simp add: outstanding_def)

lemma outstanding_snoc [simp]:
  "outstanding (pms @ [pm]) =
     (if permit_released pm then outstanding pms else add_mset (permit_key pm) (outstanding pms))"
  by (simp add: outstanding_def)

lemma outstanding_update_released:
  assumes "i < length pms" "\<not> permit_released (pms ! i)" "permit_released pm'"
  shows "permit_key (pms ! i) \<in># outstanding pms"
    and "outstanding (pms[i := pm']) = outstanding pms - {#permit_key (pms ! i)#}"
proof -
  have "outstanding pms = outstanding (take i pms @ pms ! i # drop (Suc i) pms)"
    by (rule arg_cong [OF id_take_nth_drop [OF assms(1)]])
  then have old: "outstanding pms =
      add_mset (permit_key (pms ! i)) (outstanding (take i pms @ drop (Suc i) pms))"
    by (simp add: outstanding_def assms(2))
  have new: "outstanding (pms[i := pm']) = outstanding (take i pms @ drop (Suc i) pms)"
    using assms(1,3) by (simp add: outstanding_def upd_conv_take_nth_drop)
  show "permit_key (pms ! i) \<in># outstanding pms" unfolding old by simp
  show "outstanding (pms[i := pm']) = outstanding pms - {#permit_key (pms ! i)#}"
    unfolding old new by simp
qed

lemma limiter_acquire_Inr:
  "limiter_acquire lim p l = Inr (pm, lim') \<Longrightarrow>
     grant_request lim (p, l) = Some lim' \<and> permit_key pm = (p, l) \<and> \<not> permit_released pm"
  by (auto simp: grant_request_def limiter_acquire_def permit_key_def Let_def
      split: option.splits if_splits)

lemma pool_start_accounts: "limiter.accounts (limiter_init profiles) {#}"
proof -
  have "slot_used (limiter_init profiles) r = 0" for r
    by (cases r) (simp_all add: limiter_init_def dict_get_default_def)
  then show ?thesis
    by (simp add: limiter.accounts_def counts_positive_def limiter_init_def)
qed

lemma pool_release_accounts:
  assumes acc: "limiter.accounts (pool_limiter s) (outstanding (pool_permits s))"
    and i: "i < length (pool_permits s)"
  shows "fst (pool_release s i) = None \<and>
    limiter.accounts (pool_limiter (snd (pool_release s i)))
      (outstanding (pool_permits (snd (pool_release s i))))"
proof (cases "permit_released (pool_permits s ! i)")
  case True
  with acc show ?thesis by (simp add: pool_release_def permit_release_def)
next
  case False
  let ?pm = "pool_permits s ! i"
  note upd = outstanding_update_released [OF i False, of "?pm\<lparr>permit_released := True\<rparr>"]
  obtain lim' where lim': "give_request (pool_limiter s) (permit_key ?pm) = Some lim'"
    and acc': "limiter.accounts lim' (outstanding (pool_permits s) - {#permit_key ?pm#})"
    using limiter.accounts_give [OF acc upd(1)] by auto
  have "limiter_release (pool_limiter s) (permit_profile_id ?pm) (permit_lease_id ?pm) = (None, lim')"
    using lim' by (auto simp: give_request_def permit_key_def split: prod.splits option.splits)
  with False acc' upd(2) show ?thesis
    by (simp add: pool_release_def permit_release_def)
qed

lemma pool_reachable_accounts:
  "pool_reachable profiles s \<Longrightarrow>
     limiter.accounts (pool_limiter s) (outstanding (pool_permits s)) \<and>
     limits (pool_limiter s) = limits (limiter_init profiles)"
proof (induction rule: pool_reachable.induct)
  case pool_start
  then show ?case by (simp add: pool_start_accounts)
next
  case (pool_acquired s p l)
  then show ?case
    by (auto simp: pool_acquire_def dest!: limiter_acquire_Inr split: sum.split
        intro: limiter.accounts_grant)
       (auto simp: grant_request_Some)
next
  case (pool_released s i)
  have "limits (pool_limiter (snd (pool_release s i))) = limits (pool_limiter s)"
    by (auto simp: pool_release_def permit_release_def limiter_release_def Let_def
        split: prod.splits option.splits if_splits)
  with pool_released pool_release_accounts [of s i] show ?case by simp
qed

definition held_profile :: "pool \<Rightarrow> pystr \<Rightarrow> nat" where
  "held_profile s p =
     length (filter (\<lambda>pm. \<not> permit_released pm \<and> permit_profile_id pm = p) (pool_permits s))"

definition held_lease :: "pool \<Rightarrow> pystr \<Rightarrow> pystr \<Rightarrow> nat" where
  "held_lease s p l =
     length (filter (\<lambda>pm. \<not> permit_released pm \<and> permit_profile_id pm = p \<and> permit_lease_id pm = l)
       (pool_permits s))"

lemma size_outstanding:
  "size (filter_mset Q (outstanding pms)) =
     length (filter (\<lambda>pm. \<not> permit_released pm \<and> Q (permit_key pm)) pms)"
  by (induction pms) (auto simp: outstanding_def)

lemma pool_used_held:
  assumes "pool_reachable profiles s"
  shows "slot_used (pool_limiter s) (ProfileSlot p) = held_profile s p"
    and "l \<noteq> [] \<Longrightarrow> slot_used (pool_limiter s) (LeaseSlot p l) = held_lease s p l"
proof -
  note acc = pool_reachable_accounts [OF assms, THEN conjunct1]
  show "slot_used (pool_limiter s) (ProfileSlot p) = held_profile s p"
    unfolding limiter.accounts_used [OF acc] held_profile_def size_outstanding
    by (rule arg_cong [of _ _ length], rule filter_cong) (auto simp: permit_key_def)
  show "l \<noteq> [] \<Longrightarrow> slot_used (pool_limiter s) (LeaseSlot p l) = held_lease s p l"
    unfolding limiter.accounts_used [OF acc] held_lease_def size_outstanding
    by (rule arg_cong [of _ _ length], rule filter_cong) (auto simp: permit_key_def)
qed

section \<open>Properties\<close>

definition example_profiles :: "limiter_profile list" where
  "example_profiles =
     [\<lparr>lp_profile_id = lit ''developer'', lp_global_concurrency = 2, lp_max_processes = 1\<rparr>]"

definition example_pool :: pool where
  "example_pool =
     pool_acquire \<lparr>pool_limiter = limiter_init example_profiles, pool_permits = []\<rparr>
       (lit ''developer'') (lit ''lease-1'')"

lemma example_pool_reachable: "pool_reachable example_profiles example_pool"
  unfolding example_pool_def by (rule pool_acquired [OF pool_start])

lemma example_pool_eq:
  "pool_permits example_pool =
     [\<lparr>permit_profile_id = lit ''developer'', permit_lease_id = lit ''lease-1'',
       permit_released = False\<rparr>]"
  by (simp add: example_pool_def pool_acquire_def limiter_acquire_def limiter_init_def
      example_profiles_def dict_get_default_def)

lemma example_limits:
  "dict_get (limits (limiter_init example_profiles)) (lit ''developer'') = Some (2, 1)"
  by (simp add: limiter_init_def example_profiles_def)



text \<open>
  The answer of \<open>acquire\<close> is determined by the permits that are out: an unknown
  profile is refused as an authorization failure, a full profile and then a full lease are
  refused as busy and retryable, and every other request is granted.
\<close>

theorem limiter_acquire_complete:
  assumes "pool_reachable profiles s"
  shows "(case limiter_acquire (pool_limiter s) p l of Inl e \<Rightarrow> Some e | Inr _ \<Rightarrow> None) =
    (case dict_get (limits (limiter_init profiles)) p of
       None \<Rightarrow> Some (service_error AUTHORIZATION_FAILED ProfileInvalid)
     | Some (g, m) \<Rightarrow>
         if int (held_profile s p) \<ge> g then Some (busy_error ProfileBusy)
         else if l \<noteq> [] \<and> int (held_lease s p l) \<ge> m then Some (busy_error LeaseBusy)
         else None)"
proof -
  note inv = pool_reachable_accounts [OF assms]
  note pos = counts_positive_default [OF limiter.accounts_invar [OF inv [THEN conjunct1]]]
  have p: "dict_get_default (active_by_profile (pool_limiter s)) p 0 = int (held_profile s p)"
    using pool_used_held(1) [OF assms, of p] pos(1) [of p] by simp
  have l: "l \<noteq> [] \<Longrightarrow>
      dict_get_default (active_by_lease (pool_limiter s)) (p, l) 0 = int (held_lease s p l)"
    using pool_used_held(2) [OF assms, of l p] pos(2) [of "(p, l)"] by simp
  show ?thesis
    using inv p l by (auto simp: limiter_acquire_def Let_def split: option.split)
qed

theorem limiter_acquire_complete_witness:
  "(case limiter_acquire (pool_limiter example_pool) (lit ''developer'') (lit ''lease-1'') of
      Inl e \<Rightarrow> Some e | Inr _ \<Rightarrow> None) = Some (busy_error LeaseBusy)"
  by (simp add: limiter_acquire_complete [OF example_pool_reachable] example_limits
      held_profile_def held_lease_def example_pool_eq)

text \<open>
  Releasing a permit never underflows a counter, and releasing it again is accepted
  and changes nothing.
\<close>

theorem permit_release_idempotent:
  assumes "pool_reachable profiles s" and "i < length (pool_permits s)"
  shows "fst (pool_release s i) = None \<and>
    permit_released (pool_permits (snd (pool_release s i)) ! i) \<and>
    pool_release (snd (pool_release s i)) i = (None, snd (pool_release s i))"
proof -
  have ok: "fst (pool_release s i) = None"
    using pool_reachable_accounts [OF assms(1)] pool_release_accounts [OF _ assms(2)] by blast
  then have rel: "permit_released (pool_permits (snd (pool_release s i)) ! i)"
    using assms(2)
    by (auto simp: pool_release_def permit_release_def split: prod.splits option.splits if_splits)
  have "i < length (pool_permits (snd (pool_release s i)))"
    using assms(2) by (auto simp: pool_release_def split: prod.splits)
  then have "pool_release (snd (pool_release s i)) i = (None, snd (pool_release s i))"
    using rel by (simp add: pool_release_def [of "snd (pool_release s i)"] permit_release_def)
  with ok rel show ?thesis by simp
qed

theorem permit_release_idempotent_witness:
  "fst (pool_release example_pool 0) = None \<and>
   permit_released (pool_permits (snd (pool_release example_pool 0)) ! 0) \<and>
   pool_release (snd (pool_release example_pool 0)) 0 = (None, snd (pool_release example_pool 0))"
proof -
  have "0 < length (pool_permits example_pool)" by (simp add: example_pool_eq)
  then show ?thesis by (rule permit_release_idempotent [OF example_pool_reachable])
qed

end
