(* ===== verification/Py_Values.thy ===== *)
theory Py_Values
  imports Prelude Complex_Main
begin

text \<open>
  Dynamically typed Python values, for the code that inspects the type of what it is
  given. A \<open>float\<close> is a rational number, an infinity or a NaN: the rounding of binary
  arithmetic is not modelled. A member of a \<open>str\<close> or \<open>int\<close> enumeration is the string or
  number it is.
\<close>

datatype pyfloat = Finite rat | Infinite bool | NotANumber

definition isfinite :: "pyfloat \<Rightarrow> bool" where
  "isfinite x \<longleftrightarrow> (case x of Finite _ \<Rightarrow> True | _ \<Rightarrow> False)"

datatype pyval =
    PNone
  | PBool bool
  | PInt int
  | PFloat pyfloat
  | PStr pystr
  | PBytes "nat list"
  | PEnum pyval
  | PList "pyval list"
  | PTuple "pyval list"
  | PFrozenset "pyval list"
  | PDict "(pyval \<times> pyval) list"
  | PMappingProxy "(pyval \<times> pyval) list"
  | PDataclass bool "(pystr \<times> pyval) list"
  | PObject

text \<open>A JSON document.\<close>

datatype json =
    JNull
  | JBool bool
  | JInt int
  | JFloat pyfloat
  | JStr pystr
  | JList "json list"
  | JObject "(pystr \<times> json) list"

text \<open>Truth value testing, as in \<open>x or default\<close> and \<open>if x\<close>.\<close>

definition py_truthy :: "pyval \<Rightarrow> bool" where
  "py_truthy v \<longleftrightarrow>
     (case v of
        PNone \<Rightarrow> False | PBool b \<Rightarrow> b | PInt n \<Rightarrow> n \<noteq> 0
      | PFloat x \<Rightarrow> x \<noteq> Finite 0 | PStr s \<Rightarrow> s \<noteq> [] | PBytes b \<Rightarrow> b \<noteq> []
      | PEnum _ \<Rightarrow> True | PList xs \<Rightarrow> xs \<noteq> [] | PTuple xs \<Rightarrow> xs \<noteq> [] | PFrozenset xs \<Rightarrow> xs \<noteq> []
      | PDict d \<Rightarrow> d \<noteq> [] | PMappingProxy d \<Rightarrow> d \<noteq> [] | PDataclass _ _ \<Rightarrow> True | PObject \<Rightarrow> True)"

end
