(* ===== verification/Registry_Kernel.thy ===== *)
theory Registry_Kernel
  imports Py_Values
begin

text \<open>
  The registry kernel (\<open>core/registry\<close>): validation of descriptors, the isolated builder
  that is frozen into a snapshot with its descriptors in dependency order, and the atomic
  publication of generations.

  The text of an error message is reduced to what it names. The JSON text and its SHA-256
  digest are parameters of \<open>freeze\<close> (\<open>dumps\<close> renders a normalised document with sorted
  keys, \<open>sha256\<close> hashes the text); nothing is assumed about them.
\<close>

section \<open>Identifiers and values\<close>

datatype registry_error =
    RegistryValidationError
  | RegistryConflictError pystr
  | RegistryMissingDependency pystr "pystr list"
  | RegistrySelfDependency pystr
  | RegistryCycle "pystr list"
  | RegistryFrozenError
  | RegistryPublishConflictError

definition lower_alnum :: "nat \<Rightarrow> bool" where
  "lower_alnum c \<longleftrightarrow> 97 \<le> c \<and> c \<le> 122 \<or> 48 \<le> c \<and> c \<le> 57"

definition identifier_sep :: "bool \<Rightarrow> nat \<Rightarrow> bool" where
  "identifier_sep allow_path c \<longleftrightarrow> c = 46 \<or> c = 95 \<or> c = 45 \<or> (allow_path \<and> c = 47)"

text \<open>
  The patterns \<open>[a-z][a-z0-9]*(?:[._-][a-z0-9]+)*\<close> and, with paths, the same with the
  slash as a further separator, as a scanner; \<open>after_sep\<close> says that the previous
  character was a separator.
\<close>

fun identifier_tail :: "bool \<Rightarrow> bool \<Rightarrow> pystr \<Rightarrow> bool" where
  "identifier_tail allow_path after_sep [] = (\<not> after_sep)"
| "identifier_tail allow_path after_sep (c # cs) =
     (if lower_alnum c then identifier_tail allow_path False cs
      else identifier_sep allow_path c \<and> \<not> after_sep \<and> identifier_tail allow_path True cs)"

definition identifier_match :: "bool \<Rightarrow> pystr \<Rightarrow> bool" where
  "identifier_match allow_path s \<longleftrightarrow>
     s \<noteq> [] \<and> 97 \<le> hd s \<and> hd s \<le> 122 \<and> identifier_tail allow_path False (tl s)"

definition validate_identifier :: "pyval \<Rightarrow> bool \<Rightarrow> registry_error + pystr" where
  "validate_identifier value allow_path =
     (case value of
        PStr s \<Rightarrow>
          if s = [] then Inl RegistryValidationError
          else if length s > 64 then Inl RegistryValidationError
          else if \<not> identifier_match allow_path s then Inl RegistryValidationError
          else Inr s
      | _ \<Rightarrow> Inl RegistryValidationError)"

text \<open>\<open>_validate_immutable_value\<close>: \<open>True\<close> where the code returns, \<open>False\<close> where it raises.\<close>

fun immutable_value :: "pyval \<Rightarrow> bool" where
  "immutable_value PNone = True"
| "immutable_value (PStr s) = True"
| "immutable_value (PBytes b) = True"
| "immutable_value (PInt n) = True"
| "immutable_value (PFloat x) = True"
| "immutable_value (PBool b) = True"
| "immutable_value (PEnum v) = True"
| "immutable_value (PTuple xs) = list_all immutable_value xs"
| "immutable_value (PFrozenset xs) = list_all immutable_value xs"
| "immutable_value (PMappingProxy d) =
     list_all (\<lambda>p. immutable_value (fst p) \<and> immutable_value (snd p)) d"
| "immutable_value (PDataclass frozen fs) = (frozen \<and> list_all (\<lambda>p. immutable_value (snd p)) fs)"
| "immutable_value (PList xs) = False"
| "immutable_value (PDict d) = False"
| "immutable_value PObject = False"

lemma size_item: "p \<in> set d \<Longrightarrow> size (snd p) \<le> size_list (size_prod size size) d"
  by (induction d) auto

function normalize_json_value :: "pyval \<Rightarrow> registry_error + json" where
  "normalize_json_value PNone = Inr JNull"
| "normalize_json_value (PStr s) = Inr (JStr s)"
| "normalize_json_value (PBool b) = Inr (JBool b)"
| "normalize_json_value (PInt n) = Inr (JInt n)"
| "normalize_json_value (PFloat x) =
     (if isfinite x then Inr (JFloat x) else Inl RegistryValidationError)"
| "normalize_json_value (PEnum v) = normalize_json_value v"
| "normalize_json_value (PDict d) =
     (case map_result (\<lambda>(k, v). case k of
            PStr key \<Rightarrow> (case normalize_json_value v of Inl e \<Rightarrow> Inl e | Inr j \<Rightarrow> Inr (key, j))
          | _ \<Rightarrow> Inl RegistryValidationError) d of
        Inl e \<Rightarrow> Inl e | Inr items \<Rightarrow> Inr (JObject items))"
| "normalize_json_value (PMappingProxy d) =
     (case map_result (\<lambda>(k, v). case k of
            PStr key \<Rightarrow> (case normalize_json_value v of Inl e \<Rightarrow> Inl e | Inr j \<Rightarrow> Inr (key, j))
          | _ \<Rightarrow> Inl RegistryValidationError) d of
        Inl e \<Rightarrow> Inl e | Inr items \<Rightarrow> Inr (JObject items))"
| "normalize_json_value (PList xs) =
     (case map_result normalize_json_value xs of Inl e \<Rightarrow> Inl e | Inr js \<Rightarrow> Inr (JList js))"
| "normalize_json_value (PTuple xs) =
     (case map_result normalize_json_value xs of Inl e \<Rightarrow> Inl e | Inr js \<Rightarrow> Inr (JList js))"
| "normalize_json_value (PBytes b) = Inl RegistryValidationError"
| "normalize_json_value (PFrozenset xs) = Inl RegistryValidationError"
| "normalize_json_value (PDataclass frozen fs) = Inl RegistryValidationError"
| "normalize_json_value PObject = Inl RegistryValidationError"
  by pat_completeness auto
termination
proof (relation "measure size", goal_cases)
  case (3 d x k v s)
  then show ?case using size_item [of x d] by auto
next
  case (4 d x k v s)
  then show ?case using size_item [of x d] by auto
qed (auto simp: size_list_estimation' less_Suc_eq_le)

section \<open>Descriptors\<close>

text \<open>
  What \<open>validate_descriptor\<close> reads of an object: whether it is a frozen dataclass, its
  value, the attributes \<open>registry_namespace\<close>, \<open>registry_id\<close>, \<open>registry_dependencies\<close>
  (\<open>PNone\<close> when absent) and the result of \<open>registry_payload()\<close> (\<open>None\<close> when the
  attribute is missing or not callable).
\<close>

record descriptor =
  d_frozen :: bool
  d_value :: pyval
  d_namespace :: pyval
  d_id :: pyval
  d_dependencies :: pyval
  d_payload :: "pyval option"

definition is_mapping :: "pyval \<Rightarrow> bool" where
  "is_mapping v \<longleftrightarrow> (case v of PDict _ \<Rightarrow> True | PMappingProxy _ \<Rightarrow> True | _ \<Rightarrow> False)"

definition validate_descriptor ::
  "descriptor \<Rightarrow> pystr \<Rightarrow> registry_error + (pystr \<times> pystr list \<times> pyval)" where
  "validate_descriptor d expected_namespace =
     require (d_frozen d) RegistryValidationError
     (require (immutable_value (d_value d)) RegistryValidationError
     (bind_result (validate_identifier (d_namespace d) False) (\<lambda>namespace.
      require (namespace = expected_namespace) RegistryValidationError
     (bind_result (validate_identifier (d_id d) True) (\<lambda>descriptor_id.
      case d_dependencies d of
        PTuple deps \<Rightarrow>
          bind_result (map_result (\<lambda>dep. validate_identifier dep True) deps) (\<lambda>dependencies.
          require (distinct dependencies) RegistryValidationError
         (require (descriptor_id \<notin> set dependencies) (RegistrySelfDependency descriptor_id)
         (case d_payload d of
            None \<Rightarrow> Inl RegistryValidationError
          | Some payload \<Rightarrow>
              require (is_mapping payload) RegistryValidationError
             (bind_result (normalize_json_value payload) (\<lambda>_.
              Inr (descriptor_id, dependencies, payload))))))
      | _ \<Rightarrow> Inl RegistryValidationError)))))"

section \<open>Dependency order\<close>

type_synonym deps = "(pystr, pystr list) dict"

definition deps_of :: "deps \<Rightarrow> pystr \<Rightarrow> pystr list" where
  "deps_of d k = (case dict_get d k of None \<Rightarrow> [] | Some ds \<Rightarrow> ds)"

text \<open>The first check: the first descriptor with an unregistered dependency raises.\<close>

fun check_known :: "pystr set \<Rightarrow> deps \<Rightarrow> registry_error option" where
  "check_known known [] = None"
| "check_known known ((descriptor_id, dependencies) # rest) =
     (let missing = sort (remdups (filter (\<lambda>x. x \<notin> known) dependencies))
      in if missing \<noteq> [] then Some (RegistryMissingDependency descriptor_id missing)
         else check_known known rest)"

text \<open>
  The loop. \<open>remaining\<close> is a set in the source; it is kept as the list of its elements,
  and only its sorted filtration is observed.
\<close>

function resolve_loop :: "deps \<Rightarrow> pystr list \<Rightarrow> pystr list \<Rightarrow> registry_error + pystr list" where
  "resolve_loop d remaining resolved =
     (if remaining = [] then Inr resolved
      else
        let ready = sort (filter (\<lambda>x. set (deps_of d x) \<subseteq> set resolved) remaining)
        in if ready = [] then Inl (RegistryCycle (sort remaining))
           else resolve_loop d (filter (\<lambda>x. x \<notin> set ready) remaining) (resolved @ ready))"
  by pat_completeness auto
termination
proof (relation "measure (\<lambda>(d, remaining, resolved). length remaining)", goal_cases)
  case (2 d remaining resolved ready)
  then have ne: "ready \<noteq> []" and sub: "set ready \<subseteq> set remaining" by auto
  then obtain x where "x \<in> set remaining" "x \<in> set ready" using hd_in_set [OF ne] by blast
  then have "length (filter (\<lambda>x. x \<notin> set ready) remaining) < length remaining"
    by (intro length_filter_less) auto
  then show ?case by simp
qed simp

declare resolve_loop.simps [simp del]

definition resolve_dependency_order :: "deps \<Rightarrow> registry_error + pystr list" where
  "resolve_dependency_order d =
     (case check_known (fst ` set d) d of
        Some e \<Rightarrow> Inl e
      | None \<Rightarrow> resolve_loop d (map fst d) [])"

section \<open>Builder and snapshot\<close>

record RegistrySnapshot =
  snap_namespace :: pystr
  snap_generation :: nat
  snap_sha256 :: pystr
  snap_canonical_json :: pystr
  snap_ordered_ids :: "pystr list"
  snap_items :: "(pystr, descriptor) dict"

record RegistryBuilder =
  b_namespace :: pystr
  b_descriptors :: "(pystr, descriptor) dict"
  b_dependencies :: deps
  b_payloads :: "(pystr, pyval) dict"
  b_snapshot :: "RegistrySnapshot option"

definition builder_new :: "pyval \<Rightarrow> registry_error + RegistryBuilder" where
  "builder_new namespace =
     bind_result (validate_identifier namespace False) (\<lambda>ns.
       Inr \<lparr>b_namespace = ns, b_descriptors = [], b_dependencies = [], b_payloads = [],
            b_snapshot = None\<rparr>)"

definition register :: "RegistryBuilder \<Rightarrow> descriptor \<Rightarrow> registry_error + RegistryBuilder" where
  "register b desc =
     require (b_snapshot b = None) RegistryFrozenError
    (bind_result (validate_descriptor desc (b_namespace b)) (\<lambda>(descriptor_id, dependencies, payload).
     require (dict_get (b_descriptors b) descriptor_id = None) (RegistryConflictError descriptor_id)
    (Inr (b\<lparr>b_descriptors := dict_set descriptor_id desc (b_descriptors b),
            b_dependencies := dict_set descriptor_id dependencies (b_dependencies b),
            b_payloads := dict_set descriptor_id payload (b_payloads b)\<rparr>))))"

definition registry_content :: "RegistryBuilder \<Rightarrow> pyval" where
  "registry_content b =
     PDict [(PStr (lit ''schema_version''), PInt 1),
            (PStr (lit ''namespace''), PStr (b_namespace b)),
            (PStr (lit ''descriptors''),
             PList (map (\<lambda>k. PDict
               [(PStr (lit ''id''), PStr k),
                (PStr (lit ''dependencies''), PList (map PStr (sort (deps_of (b_dependencies b) k)))),
                (PStr (lit ''payload''), dict_get_default (b_payloads b) k PNone)])
               (sort (map fst (b_descriptors b)))))]"

definition freeze ::
  "(json \<Rightarrow> pystr) \<Rightarrow> (pystr \<Rightarrow> pystr) \<Rightarrow> RegistryBuilder \<Rightarrow> pyval
     \<Rightarrow> registry_error + (RegistrySnapshot \<times> RegistryBuilder)" where
  "freeze dumps sha256 b generation =
     (case b_snapshot b of
        Some snap \<Rightarrow> Inr (snap, b)
      | None \<Rightarrow>
          (case generation of
             PInt g \<Rightarrow>
               if g \<le> 0 then Inl RegistryValidationError
               else
                 bind_result (resolve_dependency_order (b_dependencies b)) (\<lambda>ordered_ids.
                 bind_result (normalize_json_value (registry_content b)) (\<lambda>content.
                   let encoded = dumps content;
                       snap = \<lparr>snap_namespace = b_namespace b, snap_generation = nat g,
                               snap_sha256 = sha256 encoded, snap_canonical_json = encoded,
                               snap_ordered_ids = ordered_ids, snap_items = b_descriptors b\<rparr>
                   in Inr (snap, b\<lparr>b_snapshot := Some snap\<rparr>)))
           | _ \<Rightarrow> Inl RegistryValidationError))"

definition snapshot_get :: "RegistrySnapshot \<Rightarrow> pystr \<Rightarrow> descriptor option" where
  "snapshot_get snap k = dict_get (snap_items snap) k"

text \<open>Iteration yields \<open>self._items[id]\<close>; a missing identifier would be a \<open>KeyError\<close>.\<close>

definition snapshot_iter :: "RegistrySnapshot \<Rightarrow> descriptor option list" where
  "snapshot_iter snap = map (snapshot_get snap) (snap_ordered_ids snap)"

section \<open>Publication of generations\<close>

text \<open>
  \<open>RegistryGeneration\<close> compares snapshots by identity, so a published snapshot carries the
  identity it got when it was built; \<open>next_object\<close> supplies fresh identities. A rebuild
  reads the current snapshot under the lock, builds without the lock, and publishes under
  the lock only if the current snapshot is still the one it read. \<open>outcome\<close> is what the
  build produced: the frozen candidate or the exception it raised.
\<close>

record 'a published =
  object_id :: nat
  pub_generation :: nat
  pub_content :: 'a

record 'a generation_state =
  gs_current :: "'a published option"
  next_object :: nat

definition rebuild_start :: "'a generation_state \<Rightarrow> 'a published option \<times> nat" where
  "rebuild_start gs =
     (gs_current gs, (case gs_current gs of None \<Rightarrow> 1 | Some p \<Rightarrow> pub_generation p + 1))"

definition same_object :: "'a published option \<Rightarrow> 'a published option \<Rightarrow> bool" where
  "same_object a b \<longleftrightarrow> map_option object_id a = map_option object_id b"

definition rebuild_publish ::
  "'a generation_state \<Rightarrow> 'a published option \<times> nat \<Rightarrow> registry_error + 'a
     \<Rightarrow> registry_error option \<times> 'a generation_state" where
  "rebuild_publish gs started outcome =
     (case outcome of
        Inl e \<Rightarrow> (Some e, gs)
      | Inr candidate \<Rightarrow>
          if \<not> same_object (gs_current gs) (fst started)
          then (Some RegistryPublishConflictError, gs\<lparr>next_object := next_object gs + 1\<rparr>)
          else (None,
            \<lparr>gs_current = Some \<lparr>object_id = next_object gs, pub_generation = snd started,
                                pub_content = candidate\<rparr>,
             next_object = next_object gs + 1\<rparr>))"

end
