(* ===== verification/Registry_Correct.thy ===== *)
theory Registry_Correct
  imports Registry_Kernel
begin

text \<open>
  Correctness of the registry kernel: the dependency order is a topological order and is
  found whenever there is one, it does not depend on the order of registration, frozen
  registries are immutable, and concurrent rebuilds publish consecutive generations.
\<close>

section \<open>Topological orders\<close>

definition prefix_ok :: "deps \<Rightarrow> pystr list \<Rightarrow> bool" where
  "prefix_ok d xs \<longleftrightarrow> (\<forall>i < length xs. set (deps_of d (xs ! i)) \<subseteq> set (take i xs))"

definition topological :: "deps \<Rightarrow> pystr list \<Rightarrow> bool" where
  "topological d order \<longleftrightarrow>
     distinct order \<and> set order = fst ` set d \<and> prefix_ok d order"

lemma prefix_ok_append:
  assumes "prefix_ok d xs" "\<forall>y \<in> set ys. set (deps_of d y) \<subseteq> set xs"
  shows "prefix_ok d (xs @ ys)"
  unfolding prefix_ok_def
proof (intro allI impI)
  fix i assume i: "i < length (xs @ ys)"
  show "set (deps_of d ((xs @ ys) ! i)) \<subseteq> set (take i (xs @ ys))"
  proof (cases "i < length xs")
    case True
    with assms(1) show ?thesis by (simp add: prefix_ok_def nth_append)
  next
    case False
    with i have "ys ! (i - length xs) \<in> set ys" by simp
    with assms(2) False show ?thesis by (auto simp: nth_append)
  qed
qed

lemma distinct_split:
  "distinct xs \<Longrightarrow> set ys = {x \<in> set xs. P x} \<Longrightarrow> distinct ys \<Longrightarrow>
     distinct (ys @ filter (\<lambda>x. x \<notin> set ys) xs)"
  by auto

lemma resolve_loop_sound:
  "resolve_loop d remaining resolved = Inr order \<Longrightarrow> prefix_ok d resolved \<Longrightarrow>
     distinct (resolved @ remaining) \<Longrightarrow>
     prefix_ok d order \<and> distinct order \<and> set order = set resolved \<union> set remaining"
proof (induction d remaining resolved rule: resolve_loop.induct)
  case (1 d remaining resolved)
  let ?ready = "sort (filter (\<lambda>x. set (deps_of d x) \<subseteq> set resolved) remaining)"
  show ?case
  proof (cases "remaining = []")
    case True
    with "1.prems" show ?thesis by (simp add: resolve_loop.simps)
  next
    case False
    with "1.prems"(1) have ready: "?ready \<noteq> []"
      by (auto simp: resolve_loop.simps [of d remaining] Let_def split: if_splits)
    with "1.prems"(1) False
    have run: "resolve_loop d (filter (\<lambda>x. x \<notin> set ?ready) remaining) (resolved @ ?ready) = Inr order"
      by (simp add: resolve_loop.simps [of d remaining] Let_def)
    have "prefix_ok d (resolved @ ?ready)"
      using "1.prems"(2) by (rule prefix_ok_append) auto
    moreover have "distinct ((resolved @ ?ready) @ filter (\<lambda>x. x \<notin> set ?ready) remaining)"
      using "1.prems"(3) by auto
    ultimately show ?thesis
      using "1.IH" [OF False refl ready run] by auto
  qed
qed

lemma first_index:
  assumes "xs \<noteq> []" "set xs \<subseteq> set order"
  obtains i where "i < length order" "order ! i \<in> set xs" "set (take i order) \<inter> set xs = {}"
proof -
  let ?P = "\<lambda>i. i < length order \<and> order ! i \<in> set xs"
  have "\<exists>i. ?P i" using assms by (metis hd_in_set in_set_conv_nth subsetD)
  then have least: "?P (LEAST i. ?P i)" by (rule LeastI_ex)
  have "set (take (LEAST i. ?P i) order) \<inter> set xs = {}"
  proof -
    have False if "x \<in> set (take (LEAST i. ?P i) order)" "x \<in> set xs" for x
    proof -
      from that(1) obtain j where "j < (LEAST i. ?P i)" "j < length order" "order ! j = x"
        by (auto simp: in_set_conv_nth)
      with that(2) not_less_Least [of j ?P] show False by simp
    qed
    then show ?thesis by blast
  qed
  with least show thesis using that by blast
qed

lemma resolve_loop_complete:
  "topological d order \<Longrightarrow> set resolved \<union> set remaining = set order \<Longrightarrow>
     \<exists>xs. resolve_loop d remaining resolved = Inr xs"
proof (induction d remaining resolved rule: resolve_loop.induct)
  case (1 d remaining resolved)
  let ?ready = "sort (filter (\<lambda>x. set (deps_of d x) \<subseteq> set resolved) remaining)"
  show ?case
  proof (cases "remaining = []")
    case True
    then show ?thesis by (simp add: resolve_loop.simps)
  next
    case False
    obtain i where i: "i < length order" "order ! i \<in> set remaining"
      and before: "set (take i order) \<inter> set remaining = {}"
      using first_index [OF False, of order] "1.prems"(2) by blast
    have "set (deps_of d (order ! i)) \<subseteq> set (take i order)"
      using "1.prems"(1) i(1) by (simp add: topological_def prefix_ok_def)
    also have "\<dots> \<subseteq> set resolved"
    proof
      fix x assume x: "x \<in> set (take i order)"
      then have "x \<in> set resolved \<union> set remaining" using "1.prems"(2) by (auto dest: in_set_takeD)
      with x before show "x \<in> set resolved" by auto
    qed
    finally have "order ! i \<in> set ?ready" using i(2) by simp
    then have ready: "?ready \<noteq> []" by (metis empty_iff list.set(1))
    have "set (resolved @ ?ready) \<union> set (filter (\<lambda>x. x \<notin> set ?ready) remaining) = set order"
      using "1.prems"(2) by auto
    from "1.IH" [OF False refl ready "1.prems"(1) this] ready False show ?thesis
      by (simp add: resolve_loop.simps [of d remaining] Let_def)
  qed
qed

lemma resolve_loop_error:
  "resolve_loop d remaining resolved = Inl e \<Longrightarrow>
     \<exists>stuck. e = RegistryCycle (sort stuck) \<and> stuck \<noteq> [] \<and> set stuck \<subseteq> set remaining \<and>
       (\<forall>x \<in> set stuck. \<exists>y \<in> set (deps_of d x). y \<notin> (set resolved \<union> set remaining) - set stuck)"
proof (induction d remaining resolved rule: resolve_loop.induct)
  case (1 d remaining resolved)
  let ?ready = "sort (filter (\<lambda>x. set (deps_of d x) \<subseteq> set resolved) remaining)"
  have ne: "remaining \<noteq> []" using "1.prems" by (auto simp: resolve_loop.simps)
  show ?case
  proof (cases "?ready = []")
    case True
    then have stuck: "\<not> set (deps_of d x) \<subseteq> set resolved" if "x \<in> set remaining" for x
    proof -
      have "filter (\<lambda>x. set (deps_of d x) \<subseteq> set resolved) remaining = []"
        using True by (metis length_0_conv length_sort)
      with that show ?thesis by (simp add: filter_empty_conv)
    qed
    from True ne "1.prems" have "e = RegistryCycle (sort remaining)"
      by (simp add: resolve_loop.simps [of d remaining] Let_def)
    with ne stuck show ?thesis by (intro exI [of _ remaining]) auto
  next
    case False
    with ne "1.prems"
    have run: "resolve_loop d (filter (\<lambda>x. x \<notin> set ?ready) remaining) (resolved @ ?ready) = Inl e"
      by (simp add: resolve_loop.simps [of d remaining] Let_def)
    have "set (resolved @ ?ready) \<union> set (filter (\<lambda>x. x \<notin> set ?ready) remaining) =
        set resolved \<union> set remaining" by auto
    with "1.IH" [OF ne refl False run] show ?thesis by (metis filter_is_subset order_trans)
  qed
qed

lemma check_known_None:
  "check_known known d = None \<longleftrightarrow> (\<forall>(k, ds) \<in> set d. set ds \<subseteq> known)"
proof (induction known d rule: check_known.induct)
  case (2 known k ds rest)
  have "sort (remdups (filter (\<lambda>x. x \<notin> known) ds)) = [] \<longleftrightarrow> set ds \<subseteq> known"
    by (metis (mono_tags, lifting) filter_empty_conv length_0_conv length_sort remdups_eq_nil_iff subset_code(1))
  with 2 show ?case by (auto simp: Let_def)
qed simp

lemma deps_of_entry: "distinct (map fst d) \<Longrightarrow> (k, ds) \<in> set d \<Longrightarrow> deps_of d k = ds"
  by (simp add: deps_of_def)

lemma topological_known:
  assumes "distinct (map fst d)" "topological d order"
  shows "check_known (fst ` set d) d = None"
  unfolding check_known_None
proof (clarify)
  fix k ds x assume entry: "(k, ds) \<in> set d" and x: "x \<in> set ds"
  then have "k \<in> set order" using assms(2) by (force simp: topological_def)
  then obtain i where "i < length order" "order ! i = k" by (auto simp: in_set_conv_nth)
  with assms(2) have "set (deps_of d k) \<subseteq> set (take i order)"
    unfolding topological_def prefix_ok_def by blast
  then have "set (deps_of d k) \<subseteq> set order" by (auto dest: in_set_takeD)
  with x deps_of_entry [OF assms(1) entry] assms(2) show "x \<in> fst ` set d"
    by (auto simp: topological_def)
qed

lemma resolve_topological:
  assumes "distinct (map fst d)"
  shows "resolve_dependency_order d = Inr order \<Longrightarrow> topological d order"
  using resolve_loop_sound [of d "map fst d" "[]" order] assms
  by (auto simp: resolve_dependency_order_def topological_def prefix_ok_def split: option.splits)

section \<open>Independence of the registration order\<close>

lemma sort_mset_eq: "mset xs = mset ys \<Longrightarrow> sort xs = sort (ys :: 'a :: linorder list)"
  by (metis properties_for_sort mset_sort sorted_sort)

lemma resolve_loop_cong:
  "(\<And>x. set (deps_of d x) = set (deps_of d' x)) \<Longrightarrow> mset remaining = mset remaining' \<Longrightarrow>
     resolve_loop d remaining resolved = resolve_loop d' remaining' resolved"
proof (induction d remaining resolved arbitrary: remaining' rule: resolve_loop.induct)
  case (1 d remaining resolved)
  let ?ready = "sort (filter (\<lambda>x. set (deps_of d x) \<subseteq> set resolved) remaining)"
  have ready: "sort (filter (\<lambda>x. set (deps_of d' x) \<subseteq> set resolved) remaining') = ?ready"
    using "1.prems" by (intro sort_mset_eq) simp
  have nil: "remaining = [] \<longleftrightarrow> remaining' = []" using "1.prems"(2) by (metis mset_zero_iff)
  have "mset (filter (\<lambda>x. x \<notin> set ?ready) remaining) = mset (filter (\<lambda>x. x \<notin> set ?ready) remaining')"
    using "1.prems"(2) by simp
  from "1.IH" [OF _ refl _ "1.prems"(1) this] nil ready sort_mset_eq [OF "1.prems"(2)]
  show ?case
    by (simp add: resolve_loop.simps [of d remaining] resolve_loop.simps [of d' remaining'] Let_def)
qed

lemma resolve_mset:
  assumes "mset d = mset d'" "distinct (map fst d)" "resolve_dependency_order d = Inr order"
  shows "resolve_dependency_order d' = Inr order"
proof -
  have dist': "distinct (map fst d')" by (metis assms(1,2) mset_eq_imp_distinct_iff mset_map)
  have "dict_get d k = dict_get d' k" for k
    by (metis assms(1,2) dist' map_of_inject_set mset_eq_setD)
  then have "deps_of d k = deps_of d' k" for k by (simp add: deps_of_def)
  moreover have "mset (map fst d) = mset (map fst d')" using assms(1) by simp
  ultimately have "resolve_loop d' (map fst d') [] = resolve_loop d (map fst d) []"
    by (metis resolve_loop_cong)
  moreover have "set d = set d'" by (metis assms(1) mset_eq_setD)
  ultimately show ?thesis
    using assms(3)
    by (auto simp: resolve_dependency_order_def check_known_None split: option.splits)
qed

section \<open>Builders\<close>

fun register_all :: "RegistryBuilder \<Rightarrow> descriptor list \<Rightarrow> registry_error + RegistryBuilder" where
  "register_all b [] = Inr b"
| "register_all b (d # ds) = bind_result (register b d) (\<lambda>b'. register_all b' ds)"

text \<open>
  The entry that a registered descriptor contributes, and the builder that holds a given
  list of entries.
\<close>

definition builder_holds :: "RegistryBuilder \<Rightarrow> (pystr \<times> descriptor \<times> pystr list \<times> pyval) list \<Rightarrow> bool" where
  "builder_holds b es \<longleftrightarrow> b_snapshot b = None \<and> distinct (map fst es) \<and>
     b_descriptors b = map (\<lambda>e. (fst e, fst (snd e))) es \<and>
     b_dependencies b = map (\<lambda>e. (fst e, fst (snd (snd e)))) es \<and>
     b_payloads b = map (\<lambda>e. (fst e, snd (snd (snd e)))) es \<and>
     (\<forall>e \<in> set es. validate_descriptor (fst (snd e)) (b_namespace b) = Inr (fst e, snd (snd e)))"

lemma builder_new_holds: "builder_new ns = Inr b \<Longrightarrow> builder_holds b []"
  by (auto simp: builder_new_def builder_holds_def result_simps)

lemma builder_holds_keys:
  assumes "builder_holds b es"
  shows "map fst (b_descriptors b) = map fst es" "map fst (b_dependencies b) = map fst es"
    "map fst (b_payloads b) = map fst es"
  using assms by (auto simp: builder_holds_def)

lemma register_holds:
  assumes holds: "builder_holds b es" and reg: "register b desc = Inr b'"
  obtains k ds p where "builder_holds b' (es @ [(k, desc, ds, p)])" "b_namespace b' = b_namespace b"
proof -
  from reg obtain k ds p where
    val: "validate_descriptor desc (b_namespace b) = Inr (k, ds, p)"
    and new: "dict_get (b_descriptors b) k = None"
    and b': "b' = b\<lparr>b_descriptors := dict_set k desc (b_descriptors b),
      b_dependencies := dict_set k ds (b_dependencies b), b_payloads := dict_set k p (b_payloads b)\<rparr>"
    by (auto simp: register_def result_simps)
  have "k \<notin> set (map fst es)"
    using new builder_holds_keys(1) [OF holds] by (metis list.set_map map_of_eq_None_iff)
  then have fresh: "k \<notin> fst ` set (b_descriptors b)" "k \<notin> fst ` set (b_dependencies b)"
    "k \<notin> fst ` set (b_payloads b)" and "k \<notin> fst ` set es"
    using builder_holds_keys [OF holds] by (metis list.set_map)+
  then have "builder_holds b' (es @ [(k, desc, ds, p)])"
    using holds val by (auto simp: builder_holds_def b' dict_set_new)
  moreover have "b_namespace b' = b_namespace b" by (simp add: b')
  ultimately show thesis using that by blast
qed

lemma register_all_holds:
  assumes "register_all b ds = Inr b'" "builder_holds b es"
  shows "\<exists>new. builder_holds b' (es @ new) \<and> b_namespace b' = b_namespace b \<and>
    map (\<lambda>e. fst (snd e)) new = ds"
  using assms
proof (induction ds arbitrary: b es)
  case Nil
  then show ?case by (auto intro: exI [of _ "[]"])
next
  case (Cons d ds)
  then obtain b1 where b1: "register b d = Inr b1" "register_all b1 ds = Inr b'"
    by (auto simp: result_simps)
  obtain k dps p where h1: "builder_holds b1 (es @ [(k, d, dps, p)])" "b_namespace b1 = b_namespace b"
    by (rule register_holds [OF Cons.prems(2) b1(1)])
  from Cons.IH [OF b1(2) h1(1)] obtain new where
    new: "builder_holds b' ((es @ [(k, d, dps, p)]) @ new)" "b_namespace b' = b_namespace b1"
      "map (\<lambda>e. fst (snd e)) new = ds"
    by blast
  then show ?case using h1(2) by (intro exI [of _ "(k, d, dps, p) # new"]) simp
qed

text \<open>Two builders that registered the same descriptors in different orders.\<close>

lemma entries_mset:
  assumes "builder_holds b es" "builder_holds b' es'" "b_namespace b = b_namespace b'"
    "mset (map (\<lambda>e. fst (snd e)) es) = mset (map (\<lambda>e. fst (snd e)) es')"
  shows "mset es = mset es'"
proof -
  let ?mk = "\<lambda>d. case validate_descriptor d (b_namespace b) of
      Inr x \<Rightarrow> (fst x, d, snd x) | Inl e \<Rightarrow> ([], d, [], PNone)"
  have mk: "map ?mk (map (\<lambda>e. fst (snd e)) xs) = xs"
    if "\<forall>e \<in> set xs. validate_descriptor (fst (snd e)) (b_namespace b) = Inr (fst e, snd (snd e))" for xs
    using that by (induction xs) auto
  have "es = map ?mk (map (\<lambda>e. fst (snd e)) es)"
    by (rule mk [symmetric]) (use assms(1) in \<open>simp add: builder_holds_def\<close>)
  then have 1: "mset es = image_mset ?mk (mset (map (\<lambda>e. fst (snd e)) es))"
    by (simp only: mset_map [symmetric])
  have "es' = map ?mk (map (\<lambda>e. fst (snd e)) es')"
    by (rule mk [symmetric]) (use assms(2,3) in \<open>simp add: builder_holds_def\<close>)
  then have 2: "mset es' = image_mset ?mk (mset (map (\<lambda>e. fst (snd e)) es'))"
    by (simp only: mset_map [symmetric])
  show ?thesis unfolding 1 2 assms(4) by (rule refl)
qed

lemma registry_content_mset:
  assumes h: "builder_holds b es" "builder_holds b' es'" and ns: "b_namespace b = b_namespace b'"
    and es: "mset es = mset es'"
  shows "registry_content b = registry_content b'"
proof -
  have set: "set es = set es'" using es by (rule mset_eq_setD)
  have dist: "distinct (map fst es)" "distinct (map fst es')" using h by (simp_all add: builder_holds_def)
  have deps: "deps_of (b_dependencies b) k = deps_of (b_dependencies b') k" for k
  proof -
    have "dict_get (b_dependencies b) = dict_get (b_dependencies b')"
      using dist builder_holds_keys(2) [OF h(1)] builder_holds_keys(2) [OF h(2)]
      by (intro map_of_inject_set [THEN iffD2]) (simp_all, use h set in \<open>simp add: builder_holds_def\<close>)
    then show ?thesis by (simp add: deps_of_def)
  qed
  have pay: "dict_get_default (b_payloads b) k v = dict_get_default (b_payloads b') k v" for k v
  proof -
    have "dict_get (b_payloads b) = dict_get (b_payloads b')"
      using dist builder_holds_keys(3) [OF h(1)] builder_holds_keys(3) [OF h(2)]
      by (intro map_of_inject_set [THEN iffD2]) (simp_all, use h set in \<open>simp add: builder_holds_def\<close>)
    then show ?thesis by (simp add: dict_get_default_def)
  qed
  have "sort (map fst (b_descriptors b)) = sort (map fst (b_descriptors b'))"
    using es builder_holds_keys(1) [OF h(1)] builder_holds_keys(1) [OF h(2)]
    by (intro sort_mset_eq) (simp only: mset_map)
  then show ?thesis by (simp add: registry_content_def ns deps pay)
qed

section \<open>Generations\<close>

text \<open>
  Any number of rebuilds run concurrently: a rebuild starts (and remembers what it read),
  and later publishes or fails. \<open>started\<close> is the list of rebuilds under way.
\<close>

record 'a registry_system =
  rs_state :: "'a generation_state"
  rs_started :: "('a published option \<times> nat) list"
  rs_log :: "'a published list"

inductive registry_reachable :: "'a registry_system \<Rightarrow> bool" where
  registry_init:
    "registry_reachable \<lparr>rs_state = \<lparr>gs_current = None, next_object = 0\<rparr>, rs_started = [], rs_log = []\<rparr>"
| registry_begin:
    "registry_reachable s \<Longrightarrow>
       registry_reachable (s\<lparr>rs_started := rs_started s @ [rebuild_start (rs_state s)]\<rparr>)"
| registry_finish:
    "registry_reachable s \<Longrightarrow> j < length (rs_started s) \<Longrightarrow>
       rebuild_publish (rs_state s) (rs_started s ! j) outcome = (e, gs') \<Longrightarrow>
       registry_reachable
         \<lparr>rs_state = gs', rs_started = rs_started s,
          rs_log = (case (e, gs_current gs') of (None, Some p) \<Rightarrow> rs_log s @ [p] | _ \<Rightarrow> rs_log s)\<rparr>"

definition started_ok :: "'a published list \<Rightarrow> 'a published option \<times> nat \<Rightarrow> bool" where
  "started_ok ps st \<longleftrightarrow>
     (case fst st of None \<Rightarrow> snd st = 1 | Some p \<Rightarrow> p \<in> set ps \<and> snd st = Suc (pub_generation p))"

lemma started_ok_append: "started_ok ps st \<Longrightarrow> started_ok (ps @ [p]) st"
  by (auto simp: started_ok_def split: option.splits)

definition registry_inv :: "'a registry_system \<Rightarrow> bool" where
  "registry_inv s \<longleftrightarrow>
     gs_current (rs_state s) = (if rs_log s = [] then None else Some (last (rs_log s))) \<and>
     (\<forall>i < length (rs_log s). pub_generation (rs_log s ! i) = Suc i) \<and>
     (\<forall>p \<in> set (rs_log s). object_id p < next_object (rs_state s)) \<and>
     distinct (map object_id (rs_log s)) \<and>
     (\<forall>st \<in> set (rs_started s). started_ok (rs_log s) st)"

lemma registry_inv_begin:
  assumes inv: "registry_inv s"
  shows "registry_inv (s\<lparr>rs_started := rs_started s @ [rebuild_start (rs_state s)]\<rparr>)"
proof (cases "rs_log s = []")
  case True
  with inv show ?thesis by (simp add: registry_inv_def rebuild_start_def started_ok_def)
next
  case False
  then have "last (rs_log s) \<in> set (rs_log s)" by simp
  with inv False show ?thesis by (simp add: registry_inv_def rebuild_start_def started_ok_def)
qed

lemma published_unique:
  "distinct (map object_id ps) \<Longrightarrow> p \<in> set ps \<Longrightarrow> q \<in> set ps \<Longrightarrow> object_id p = object_id q \<Longrightarrow> p = q"
  by (metis (no_types, lifting) distinct_map inj_onD)

text \<open>A publication that goes through extends the log by the next generation.\<close>

lemma publish_ok:
  assumes inv: "registry_inv s" and j: "(prev, g) \<in> set (rs_started s)"
    and same: "same_object (gs_current (rs_state s)) prev"
  shows "g = Suc (length (rs_log s))"
proof (cases prev)
  case None
  with same have "rs_log s = []" using inv by (simp add: registry_inv_def same_object_def split: if_splits)
  with inv j None show ?thesis by (fastforce simp: registry_inv_def started_ok_def)
next
  case (Some p)
  with inv j have p: "p \<in> set (rs_log s)" "g = Suc (pub_generation p)"
    by (fastforce simp: registry_inv_def started_ok_def)+
  then have ne: "rs_log s \<noteq> []" by auto
  with inv have "gs_current (rs_state s) = Some (last (rs_log s))" by (simp add: registry_inv_def)
  with same Some have "object_id (last (rs_log s)) = object_id p" by (simp add: same_object_def)
  with ne p(1) inv have "p = last (rs_log s)"
    using published_unique [of "rs_log s" p "last (rs_log s)"] by (simp add: registry_inv_def)
  moreover have "pub_generation (last (rs_log s)) = length (rs_log s)"
  proof -
    have "length (rs_log s) - 1 < length (rs_log s)" using ne by simp
    moreover have "\<forall>i < length (rs_log s). pub_generation (rs_log s ! i) = Suc i"
      using inv by (simp add: registry_inv_def)
    ultimately show ?thesis using ne by (simp add: last_conv_nth)
  qed
  ultimately show ?thesis using p(2) by simp
qed

lemma registry_inv_finish:
  assumes inv: "registry_inv s" and j: "j < length (rs_started s)"
    and pub: "rebuild_publish (rs_state s) (rs_started s ! j) outcome = (e, gs')"
  shows "registry_inv \<lparr>rs_state = gs', rs_started = rs_started s,
      rs_log = (case (e, gs_current gs') of (None, Some p) \<Rightarrow> rs_log s @ [p] | _ \<Rightarrow> rs_log s)\<rparr>"
proof -
  obtain prev g where pg: "rs_started s ! j = (prev, g)" by fastforce
  with j have mem: "(prev, g) \<in> set (rs_started s)" by (metis nth_mem)
  consider (raised) x where "outcome = Inl x"
    | (conflict) c where "outcome = Inr c" "\<not> same_object (gs_current (rs_state s)) prev"
    | (ok) c where "outcome = Inr c" "same_object (gs_current (rs_state s)) prev"
    by (cases outcome) auto
  then show ?thesis
  proof cases
    case raised
    with pub inv show ?thesis by (auto simp: rebuild_publish_def registry_inv_def)
  next
    case conflict
    then have "e = Some RegistryPublishConflictError"
      "gs' = (rs_state s)\<lparr>next_object := next_object (rs_state s) + 1\<rparr>"
      using pub by (auto simp: rebuild_publish_def pg)
    with inv show ?thesis by (auto simp: registry_inv_def less_Suc_eq)
  next
    case ok
    let ?p = "\<lparr>object_id = next_object (rs_state s), pub_generation = g, pub_content = c\<rparr>"
    have "e = None" "gs' = \<lparr>gs_current = Some ?p, next_object = next_object (rs_state s) + 1\<rparr>"
      using pub ok by (auto simp: rebuild_publish_def pg)
    moreover have "g = Suc (length (rs_log s))" by (rule publish_ok [OF inv mem ok(2)])
    ultimately show ?thesis
      using inv
      by (auto simp: registry_inv_def nth_append less_Suc_eq started_ok_append)
  qed
qed

lemma registry_reachable_inv: "registry_reachable s \<Longrightarrow> registry_inv s"
proof (induction rule: registry_reachable.induct)
  case registry_init
  show ?case by (simp add: registry_inv_def)
next
  case (registry_begin s)
  then show ?case by (blast intro: registry_inv_begin)
next
  case (registry_finish s j outcome e gs')
  then show ?case by (blast intro: registry_inv_finish)
qed

section \<open>Properties\<close>

text \<open>
  C11. The dependency resolution returns an order exactly when one exists, and the order
  returned lists every descriptor once, each after all its dependencies.
\<close>

theorem resolve_dependency_order_correct:
  assumes "distinct (map fst d)"
  shows "(\<forall>order. resolve_dependency_order d = Inr order \<longrightarrow> topological d order) \<and>
    ((\<exists>order. topological d order) \<longrightarrow> (\<exists>order. resolve_dependency_order d = Inr order))"
proof (intro conjI allI impI)
  show "topological d order" if "resolve_dependency_order d = Inr order" for order
    using that by (rule resolve_topological [OF assms])
next
  assume "\<exists>order. topological d order"
  then obtain order where top: "topological d order" by blast
  then have "\<exists>xs. resolve_loop d (map fst d) [] = Inr xs"
    by (intro resolve_loop_complete [OF top]) (simp add: topological_def)
  then show "\<exists>order. resolve_dependency_order d = Inr order"
    by (simp add: resolve_dependency_order_def topological_known [OF assms top])
qed

theorem resolve_dependency_order_correct_witness:
  "topological [([98], [[97]]), ([97], [])] [[97], [98]]"
proof -
  have "distinct (map fst [([98 :: nat], [[97 :: nat]]), ([97], [])])" by simp
  moreover have "resolve_dependency_order [([98], [[97]]), ([97], [])] = Inr [[97], [98]]"
    by (simp add: resolve_dependency_order_def resolve_loop.simps deps_of_def)
  ultimately show ?thesis using resolve_dependency_order_correct by blast
qed

text \<open>
  When resolution fails, it says why: either a descriptor names an unregistered
  dependency, or a non-empty group of registered descriptors each depends on a member of
  the group, so that no order exists.
\<close>

theorem resolve_dependency_order_error:
  assumes "resolve_dependency_order d = Inl e"
  shows "(\<exists>k missing. e = RegistryMissingDependency k missing) \<or>
    (\<exists>stuck. e = RegistryCycle (sort stuck) \<and> stuck \<noteq> [] \<and> set stuck \<subseteq> fst ` set d \<and>
       (\<forall>x \<in> set stuck. \<exists>y \<in> set (deps_of d x). y \<in> set stuck))"
proof (cases "check_known (fst ` set d) d")
  case (Some x)
  have "check_known known ds = Some y \<Longrightarrow> \<exists>k missing. y = RegistryMissingDependency k missing" for known ds y
    by (induction known ds rule: check_known.induct) (auto simp: Let_def split: if_splits)
  from this [OF Some] Some assms show ?thesis by (simp add: resolve_dependency_order_def)
next
  case None
  with assms have "resolve_loop d (map fst d) [] = Inl e" by (simp add: resolve_dependency_order_def)
  from resolve_loop_error [OF this] obtain stuck where stuck: "e = RegistryCycle (sort stuck)"
    "stuck \<noteq> []" "set stuck \<subseteq> fst ` set d"
    "\<forall>x \<in> set stuck. \<exists>y \<in> set (deps_of d x). y \<notin> fst ` set d - set stuck"
    by auto
  have "set (deps_of d x) \<subseteq> fst ` set d" for x
  proof (cases "dict_get d x")
    case (Some ds)
    then have "(x, ds) \<in> set d" by (rule map_of_SomeD)
    with None Some show ?thesis by (fastforce simp: check_known_None deps_of_def)
  qed (simp add: deps_of_def)
  with stuck have "\<forall>x \<in> set stuck. \<exists>y \<in> set (deps_of d x). y \<in> set stuck" by blast
  with stuck show ?thesis by blast
qed

theorem resolve_dependency_order_error_witness:
  "\<exists>stuck. RegistryCycle [[97], [98]] = RegistryCycle (sort stuck) \<and> stuck \<noteq> [] \<and>
     (\<forall>x \<in> set stuck. \<exists>y \<in> set (deps_of [([98], [[97]]), ([97], [[98]])] x). y \<in> set stuck)"
proof -
  have "resolve_dependency_order [([98], [[97]]), ([97], [[98]])] = Inl (RegistryCycle [[97], [98]])"
    by (simp add: resolve_dependency_order_def resolve_loop.simps deps_of_def)
  from resolve_dependency_order_error [OF this] show ?thesis by blast
qed

text \<open>
  C12. The frozen snapshot does not depend on the order in which the descriptors were
  registered: namespace, generation, dependency order, canonical JSON and digest agree.
\<close>

theorem freeze_order_independent:
  assumes new: "builder_new ns = Inr b0"
    and reg: "register_all b0 ds = Inr b" "register_all b0 ds' = Inr b'" and perm: "mset ds = mset ds'"
    and frz: "freeze dumps sha256 b g = Inr (snap, b1)"
  shows "\<exists>snap' b1'. freeze dumps sha256 b' g = Inr (snap', b1') \<and>
    snap_namespace snap' = snap_namespace snap \<and> snap_generation snap' = snap_generation snap \<and>
    snap_ordered_ids snap' = snap_ordered_ids snap \<and> snap_canonical_json snap' = snap_canonical_json snap \<and>
    snap_sha256 snap' = snap_sha256 snap"
proof -
  obtain es where es: "builder_holds b es" "b_namespace b = b_namespace b0" "map (\<lambda>e. fst (snd e)) es = ds"
    using register_all_holds [OF reg(1) builder_new_holds [OF new]] by auto
  obtain es' where es': "builder_holds b' es'" "b_namespace b' = b_namespace b0" "map (\<lambda>e. fst (snd e)) es' = ds'"
    using register_all_holds [OF reg(2) builder_new_holds [OF new]] by auto
  have ns: "b_namespace b = b_namespace b'" using es(2) es'(2) by simp
  have ents: "mset es = mset es'"
    by (rule entries_mset [OF es(1) es'(1) ns]) (simp only: es(3) es'(3) perm)
  have cont: "registry_content b' = registry_content b"
    by (rule registry_content_mset [OF es(1) es'(1) ns ents, symmetric])
  have dep: "mset (b_dependencies b) = mset (b_dependencies b')"
    using es(1) es'(1) ents by (simp add: builder_holds_def)
  have dist: "distinct (map fst (b_dependencies b))"
    unfolding builder_holds_keys(2) [OF es(1)] using es(1) by (simp add: builder_holds_def)
  have none: "b_snapshot b = None" "b_snapshot b' = None"
    using es(1) es'(1) by (simp_all add: builder_holds_def)
  from frz none(1) obtain n order content where
    ok: "g = PInt n" "\<not> n \<le> 0" "resolve_dependency_order (b_dependencies b) = Inr order"
      "normalize_json_value (registry_content b) = Inr content"
    and snap: "snap = \<lparr>snap_namespace = b_namespace b, snap_generation = nat n,
      snap_sha256 = sha256 (dumps content), snap_canonical_json = dumps content,
      snap_ordered_ids = order, snap_items = b_descriptors b\<rparr>"
    by (auto simp: freeze_def result_simps Let_def split: pyval.splits if_splits)
  have "resolve_dependency_order (b_dependencies b') = Inr order"
    by (rule resolve_mset [OF dep dist ok(3)])
  with ok none(2) cont ns snap show ?thesis by (simp add: freeze_def Let_def)
qed

definition example_descriptor :: "pystr \<Rightarrow> pystr list \<Rightarrow> descriptor" where
  "example_descriptor k ds =
     \<lparr>d_frozen = True, d_value = PDataclass True [], d_namespace = PStr [110], d_id = PStr k,
      d_dependencies = PTuple (map PStr ds), d_payload = Some (PDict [])\<rparr>"

lemmas example_registry_simps = example_descriptor_def builder_new_def validate_identifier_def
  identifier_match_def lower_alnum_def register_def validate_descriptor_def is_mapping_def

lemma example_registered:
  "builder_new (PStr [110]) = Inr \<lparr>b_namespace = [110], b_descriptors = [], b_dependencies = [],
     b_payloads = [], b_snapshot = None\<rparr>"
  "register_all \<lparr>b_namespace = [110], b_descriptors = [], b_dependencies = [], b_payloads = [],
      b_snapshot = None\<rparr> [example_descriptor [98] [[97]], example_descriptor [97] []] =
     Inr \<lparr>b_namespace = [110],
       b_descriptors = [([98], example_descriptor [98] [[97]]), ([97], example_descriptor [97] [])],
       b_dependencies = [([98], [[97]]), ([97], [])],
       b_payloads = [([98], PDict []), ([97], PDict [])], b_snapshot = None\<rparr>"
  "register_all \<lparr>b_namespace = [110], b_descriptors = [], b_dependencies = [], b_payloads = [],
      b_snapshot = None\<rparr> [example_descriptor [97] [], example_descriptor [98] [[97]]] =
     Inr \<lparr>b_namespace = [110],
       b_descriptors = [([97], example_descriptor [97] []), ([98], example_descriptor [98] [[97]])],
       b_dependencies = [([97], []), ([98], [[97]])],
       b_payloads = [([97], PDict []), ([98], PDict [])], b_snapshot = None\<rparr>"
  by (simp_all add: example_registry_simps)

theorem freeze_order_independent_witness:
  "\<exists>snap' b1'. freeze (\<lambda>_. []) (\<lambda>s. s)
      \<lparr>b_namespace = [110],
       b_descriptors = [([97], example_descriptor [97] []), ([98], example_descriptor [98] [[97]])],
       b_dependencies = [([97], []), ([98], [[97]])],
       b_payloads = [([97], PDict []), ([98], PDict [])], b_snapshot = None\<rparr> (PInt 1) = Inr (snap', b1') \<and>
    snap_ordered_ids snap' = [[97], [98]]"
proof -
  let ?b = "\<lparr>b_namespace = [110],
       b_descriptors = [([98], example_descriptor [98] [[97]]), ([97], example_descriptor [97] [])],
       b_dependencies = [([98], [[97]]), ([97], [])],
       b_payloads = [([98], PDict []), ([97], PDict [])], b_snapshot = None\<rparr>"
  have res: "resolve_dependency_order [([98], [[97]]), ([97], [])] = Inr [[97], [98]]"
    by (simp add: resolve_dependency_order_def resolve_loop.simps deps_of_def)
  have "\<exists>content. normalize_json_value (registry_content ?b) = Inr content"
    by (simp add: registry_content_def deps_of_def dict_get_default_def)
  then obtain snap b1 where frz: "freeze (\<lambda>_. []) (\<lambda>s. s) ?b (PInt 1) = Inr (snap, b1)"
    and ids: "snap_ordered_ids snap = [[97], [98]]"
    by (auto simp: freeze_def res Let_def)
  have "mset [example_descriptor [98] [[97]], example_descriptor [97] []] =
      mset [example_descriptor [97] [], example_descriptor [98] [[97]]]" by simp
  from freeze_order_independent [OF example_registered this frz] ids show ?thesis by auto
qed

text \<open>
  A frozen registry is immutable: registration is refused, freezing again (with any
  generation) returns the same snapshot and leaves the builder as it is, and every
  identifier of the dependency order is found in the snapshot.
\<close>

theorem freeze_immutable:
  assumes new: "builder_new ns = Inr b0" and reg: "register_all b0 ds = Inr b"
    and frz: "freeze dumps sha256 b g = Inr (snap, b1)"
  shows "register b1 desc = Inl RegistryFrozenError \<and> freeze dumps' sha256' b1 g' = Inr (snap, b1) \<and>
    None \<notin> set (snapshot_iter snap) \<and> length (snapshot_iter snap) = length ds"
proof -
  obtain es where es: "builder_holds b es" "map (\<lambda>e. fst (snd e)) es = ds"
    using register_all_holds [OF reg builder_new_holds [OF new]] by auto
  have none: "b_snapshot b = None" using es(1) by (simp add: builder_holds_def)
  from frz none have b1: "b_snapshot b1 = Some snap"
    and ids: "resolve_dependency_order (b_dependencies b) = Inr (snap_ordered_ids snap)"
    and items: "snap_items snap = b_descriptors b"
    by (auto simp: freeze_def result_simps Let_def split: pyval.splits if_splits)
  have frozen: "register b1 desc = Inl RegistryFrozenError" "freeze dumps' sha256' b1 g' = Inr (snap, b1)"
    by (simp_all add: register_def freeze_def b1)
  have dist: "distinct (map fst (b_dependencies b))"
    unfolding builder_holds_keys(2) [OF es(1)] using es(1) by (simp add: builder_holds_def)
  have top: "topological (b_dependencies b) (snap_ordered_ids snap)"
    by (rule resolve_topological [OF dist ids])
  then have set: "set (snap_ordered_ids snap) = set (map fst es)"
    using builder_holds_keys(2) [OF es(1)] by (metis list.set_map topological_def)
  have "snapshot_get snap k \<noteq> None" if "k \<in> set (map fst es)" for k
    using that builder_holds_keys(1) [OF es(1)]
    by (metis items list.set_map map_of_eq_None_iff snapshot_get_def)
  then have "None \<notin> set (snapshot_iter snap)"
    unfolding snapshot_iter_def set_map set by (metis imageE)
  moreover have "length (snap_ordered_ids snap) = length es"
    using top set es(1) unfolding topological_def builder_holds_def
    by (metis distinct_card length_map)
  ultimately have "None \<notin> set (snapshot_iter snap) \<and> length (snapshot_iter snap) = length ds"
    using es(2) by (auto simp: snapshot_iter_def)
  with frozen show ?thesis by blast
qed

theorem freeze_immutable_witness:
  "register (\<lparr>b_namespace = [110], b_descriptors = [], b_dependencies = [], b_payloads = [],
      b_snapshot = Some \<lparr>snap_namespace = [110], snap_generation = 1, snap_sha256 = [],
        snap_canonical_json = [], snap_ordered_ids = [], snap_items = []\<rparr>\<rparr>)
      (example_descriptor [97] []) = Inl RegistryFrozenError"
proof -
  have "freeze (\<lambda>_. []) (\<lambda>s. s) \<lparr>b_namespace = [110], b_descriptors = [], b_dependencies = [],
      b_payloads = [], b_snapshot = None\<rparr> (PInt 1) =
    Inr (\<lparr>snap_namespace = [110], snap_generation = 1, snap_sha256 = [],
        snap_canonical_json = [], snap_ordered_ids = [], snap_items = []\<rparr>,
      \<lparr>b_namespace = [110], b_descriptors = [], b_dependencies = [], b_payloads = [],
      b_snapshot = Some \<lparr>snap_namespace = [110], snap_generation = 1, snap_sha256 = [],
        snap_canonical_json = [], snap_ordered_ids = [], snap_items = []\<rparr>\<rparr>)"
    by (simp add: freeze_def resolve_dependency_order_def resolve_loop.simps registry_content_def Let_def)
  from freeze_immutable [OF example_registered(1) register_all.simps(1) this] show ?thesis by blast
qed



end
