(* ===== verification/Protocols.thy ===== *)
theory Protocols
  imports Prelude
begin

text \<open>
  The contracts that the durable components share, stated over an arbitrary step relation
  between stored states. A state is a table or a set of tables; a step is one committed
  call of one of the processes that share it.

  \<^item> \<open>preserved_invariant\<close>: what every step keeps holds in every reachable state.
  \<^item> \<open>write_once\<close>: an entry that has received a value keeps it.
  \<^item> \<open>monotone_counter\<close>: a number attached to an entry never falls.

  Each component interprets these locales on its own operations.
\<close>

inductive reach :: "('s \<Rightarrow> 's \<Rightarrow> bool) \<Rightarrow> 's \<Rightarrow> 's \<Rightarrow> bool" for step where
  reach_refl [intro]: "reach step s s"
| reach_step: "reach step s t \<Longrightarrow> step t u \<Longrightarrow> reach step s u"

lemma reach_trans:
  assumes "reach step s t" "reach step t u"
  shows "reach step s u"
  using assms(2,1) by (induction rule: reach.induct) (auto intro: reach_step)

lemma reach_single: "step s t \<Longrightarrow> reach step s t"
  by (blast intro: reach.intros)

locale preserved_invariant =
  fixes step :: "'s \<Rightarrow> 's \<Rightarrow> bool" and inv :: "'s \<Rightarrow> bool"
  assumes step_inv: "step s t \<Longrightarrow> inv s \<Longrightarrow> inv t"
begin

lemma reach_inv: "reach step s t \<Longrightarrow> inv s \<Longrightarrow> inv t"
  by (induction rule: reach.induct) (auto intro: step_inv)

end

locale write_once = preserved_invariant step inv
  for step :: "'s \<Rightarrow> 's \<Rightarrow> bool" and inv :: "'s \<Rightarrow> bool" +
  fixes entry :: "'s \<Rightarrow> 'k \<Rightarrow> 'v option"
  assumes step_keeps: "step s t \<Longrightarrow> inv s \<Longrightarrow> entry s k = Some v \<Longrightarrow> entry t k = Some v"
begin

lemma reach_keeps: "reach step s t \<Longrightarrow> inv s \<Longrightarrow> entry s k = Some v \<Longrightarrow> entry t k = Some v"
proof (induction rule: reach.induct)
  case (reach_step s t u)
  then show ?case using reach_inv step_keeps by blast
qed

lemma reach_agree:
  "reach step s t \<Longrightarrow> inv s \<Longrightarrow> entry s k = Some v \<Longrightarrow> entry t k = Some w \<Longrightarrow> v = w"
  using reach_keeps by fastforce

end

locale monotone_counter = preserved_invariant step inv
  for step :: "'s \<Rightarrow> 's \<Rightarrow> bool" and inv :: "'s \<Rightarrow> bool" +
  fixes counter :: "'s \<Rightarrow> 'k \<Rightarrow> int"
  assumes step_mono: "step s t \<Longrightarrow> inv s \<Longrightarrow> counter s k \<le> counter t k"
begin

lemma reach_mono: "reach step s t \<Longrightarrow> inv s \<Longrightarrow> counter s k \<le> counter t k"
proof (induction rule: reach.induct)
  case (reach_step s t u)
  then show ?case using reach_inv step_mono by (meson order_trans)
qed simp

end

end
