(* ===== verification/Python_Text.thy ===== *)
theory Python_Text
  imports Text_Lines Py_Values
begin

text \<open>
  Text helpers that several control-plane modules repeat: the control-character filter
  behind \<open>_safe_text\<close> and \<open>_text\<close>, \<open>str.lower\<close>, hexadecimal digests and
  \<open>timedelta(seconds=...)\<close>.
\<close>

section \<open>Normalised text fields\<close>

text \<open>
  \<open>str(value or "").strip()\<close>, every control character below 32 replaced by a space, cut to
  \<open>max_chars\<close>. Two modules hold the same function; \<open>None\<close> stands for the \<open>ValueError\<close>.
\<close>

definition no_control :: "nat \<Rightarrow> nat" where
  "no_control c = (if c \<ge> 32 then c else 32)"

definition safe_text :: "nat \<Rightarrow> pystr \<Rightarrow> pystr" where
  "safe_text max_chars value = take max_chars (map no_control (py_strip value))"

definition safe_text_required :: "nat \<Rightarrow> pystr \<Rightarrow> pystr option" where
  "safe_text_required max_chars value =
     (let normalized = safe_text max_chars value
      in if normalized = [] then None else Some normalized)"

text \<open>
  The function is not idempotent: a control character at the edge survives the strip and
  becomes a space, and cutting may leave a trailing space. \<open>clean_text\<close> describes the
  strings on which it is the identity.
\<close>

definition clean_text :: "nat \<Rightarrow> pystr \<Rightarrow> bool" where
  "clean_text max_chars s \<longleftrightarrow>
     s \<noteq> [] \<and> length s \<le> max_chars \<and> py_strip s = s \<and> (\<forall>c \<in> set s. c \<ge> 32)"

lemma safe_text_clean: "clean_text n s \<Longrightarrow> safe_text n s = s"
  by (simp add: clean_text_def safe_text_def no_control_def map_idI)

lemma safe_text_required_clean: "clean_text n s \<Longrightarrow> safe_text_required n s = Some s"
  by (simp add: safe_text_required_def safe_text_clean Let_def) (simp add: clean_text_def)

lemma safe_text_required_Some:
  "safe_text_required n s = Some t \<longleftrightarrow> t = safe_text n s \<and> t \<noteq> []"
  by (auto simp: safe_text_required_def Let_def)

lemma safe_text_length: "length (safe_text n s) \<le> n"
  by (simp add: safe_text_def)

lemma safe_text_printable: "c \<in> set (safe_text n s) \<Longrightarrow> c \<ge> 32"
  unfolding safe_text_def by (auto dest!: in_set_takeD simp: no_control_def split: if_splits)

lemma py_strip_visible: "\<forall>c \<in> set s. \<not> py_isspace c \<Longrightarrow> py_strip s = s"
proof -
  assume vis: "\<forall>c \<in> set s. \<not> py_isspace c"
  then have "dropWhile py_isspace s = s" by (cases s) auto
  moreover have "dropWhile py_isspace (rev s) = rev s" using vis by (cases "rev s") auto
  ultimately show ?thesis by (simp add: py_strip_def)
qed

section \<open>Lower case\<close>

text \<open>
  \<open>str.lower\<close> on the characters whose lower case has an ASCII letter: A to Z, the Kelvin
  sign (212A) and the dotted capital I (0130). The lower case of every other non-ASCII
  character has no ASCII character in it; it is left alone here, which no comparison with
  an ASCII word can tell apart.
\<close>

definition lower_char :: "nat \<Rightarrow> pystr" where
  "lower_char c =
     (if 65 \<le> c \<and> c \<le> 90 then [c + 32]
      else if c = 8490 then [107] else if c = 304 then [105, 775] else [c])"

definition py_lower :: "pystr \<Rightarrow> pystr" where
  "py_lower s = concat (map lower_char s)"

section \<open>Digests\<close>

definition hex_digit :: "nat \<Rightarrow> bool" where
  "hex_digit c \<longleftrightarrow> 48 \<le> c \<and> c \<le> 57 \<or> 97 \<le> c \<and> c \<le> 102"

definition hex64 :: "pystr \<Rightarrow> bool" where
  "hex64 s \<longleftrightarrow> length s = 64 \<and> list_all hex_digit s"

lemma hex_digit_visible: "hex_digit c \<Longrightarrow> \<not> py_isspace c \<and> c \<ge> 32"
  by (auto simp: hex_digit_def py_isspace_def)

lemma hex64_clean: "hex64 s \<Longrightarrow> clean_text 64 s"
  using py_strip_visible [of s] hex_digit_visible
  by (auto simp: hex64_def clean_text_def list_all_iff)

section \<open>Durations\<close>

text \<open>
  \<open>timedelta(seconds=s)\<close> in microseconds: rounded to the nearest, ties to even. The limit
  of \<open>timedelta.max\<close> is not modelled.
\<close>

definition round_half_even :: "rat \<Rightarrow> int" where
  "round_half_even x =
     (let f = \<lfloor>x\<rfloor>; d = x - of_int f
      in if d < 1 / 2 then f else if d > 1 / 2 then f + 1 else if even f then f else f + 1)"

definition timedelta_seconds :: "rat \<Rightarrow> int" where
  "timedelta_seconds s = round_half_even (s * 1000000)"

lemma round_half_even_int [simp]: "round_half_even (of_int n) = n"
  by (simp add: round_half_even_def Let_def)

lemma round_half_even_bounds:
  "x - 1 / 2 \<le> of_int (round_half_even x)" "of_int (round_half_even x) \<le> x + 1 / 2"
proof -
  have le: "of_int \<lfloor>x\<rfloor> \<le> x" and lt: "x < of_int \<lfloor>x\<rfloor> + 1" by linarith+
  consider "x - of_int \<lfloor>x\<rfloor> < 1 / 2" "round_half_even x = \<lfloor>x\<rfloor>"
    | "x - of_int \<lfloor>x\<rfloor> \<ge> 1 / 2" "round_half_even x = \<lfloor>x\<rfloor> + 1"
    | "x - of_int \<lfloor>x\<rfloor> = 1 / 2" "round_half_even x = \<lfloor>x\<rfloor>"
    unfolding round_half_even_def Let_def
    by (metis le_less_linear less_imp_le linorder_neqE_linordered_idom)
  then show "x - 1 / 2 \<le> of_int (round_half_even x)" "of_int (round_half_even x) \<le> x + 1 / 2"
    by (cases; use le lt in \<open>simp; linarith\<close>)+
qed

lemma timedelta_seconds_nonneg: "0 < s \<Longrightarrow> 0 \<le> timedelta_seconds s"
proof -
  assume "0 < s"
  then have "- (1 / 2) < s * 1000000 - (1 / 2 :: rat)" by simp
  also have "\<dots> \<le> of_int (timedelta_seconds s)"
    unfolding timedelta_seconds_def by (rule round_half_even_bounds(1))
  finally have "- 1 < (of_int (timedelta_seconds s) :: rat)" by linarith
  then show ?thesis by linarith
qed

lemma timedelta_seconds_pos: "1 \<le> s \<Longrightarrow> 0 < timedelta_seconds s"
proof -
  assume "1 \<le> s"
  then have "1 < s * 1000000 - (1 / 2 :: rat)" by simp
  also have "\<dots> \<le> of_int (timedelta_seconds s)"
    unfolding timedelta_seconds_def by (rule round_half_even_bounds(1))
  finally have "1 < (of_int (timedelta_seconds s) :: rat)" .
  then show ?thesis by linarith
qed

text \<open>\<open>_positive_seconds\<close>: a finite positive number of seconds.\<close>

definition positive_seconds :: "pyfloat \<Rightarrow> rat option" where
  "positive_seconds value =
     (case value of Finite s \<Rightarrow> if s \<le> 0 then None else Some s | _ \<Rightarrow> None)"

lemma positive_seconds_Some: "positive_seconds v = Some s \<longleftrightarrow> v = Finite s \<and> 0 < s"
  by (auto simp: positive_seconds_def split: pyfloat.splits)

section \<open>Dates\<close>

text \<open>Decimal numbers with leading zeros, and the proleptic Gregorian date of a day number.\<close>

definition zero_padded :: "nat \<Rightarrow> int \<Rightarrow> pystr" where
  "zero_padded width n =
     (let ds = py_digits (nat n) in replicate (width - length ds) 48 @ ds)"

definition civil_from_days :: "int \<Rightarrow> int \<times> int \<times> int" where
  "civil_from_days days =
     (let z = days + 719468;
          era = z div 146097;
          doe = z mod 146097;
          yoe = (doe - doe div 1460 + doe div 36524 - doe div 146096) div 365;
          doy = doe - (365 * yoe + yoe div 4 - yoe div 100);
          mp = (5 * doy + 2) div 153;
          day = doy - (153 * mp + 2) div 5 + 1;
          month = (if mp < 10 then mp + 3 else mp - 9);
          year = yoe + era * 400 + (if month \<le> 2 then 1 else 0)
      in (year, month, day))"

text \<open>\<open>datetime.isoformat()\<close> of an aware UTC time: the fraction is printed when it is not zero.\<close>

definition isoformat :: "datetime \<Rightarrow> pystr" where
  "isoformat t =
     (let secs = t div 1000000; ymd = civil_from_days (secs div 86400); rest = secs mod 86400
      in zero_padded 4 (fst ymd) @ 45 # zero_padded 2 (fst (snd ymd)) @ 45 # zero_padded 2 (snd (snd ymd)) @ 84 #
         zero_padded 2 (rest div 3600) @ 58 # zero_padded 2 (rest div 60 mod 60) @ 58 # zero_padded 2 (rest mod 60) @
         (if t mod 1000000 = 0 then [] else 46 # zero_padded 6 (t mod 1000000)) @ lit ''+00:00'')"

end
