(* ===== verification/Durable_Tasks.thy ===== *)
theory Durable_Tasks
  imports Protocols Python_Text
begin

text \<open>
  Durable execution control of one agent run: \<open>core/durable_tasks/contracts.py\<close>,
  \<open>core/durable_tasks/service.py\<close> and the table \<open>run_task_controls\<close> of
  \<open>core/db/models/durable_task.py\<close>.

  The table is a dictionary from run id to row. Several processes share it, so an operation
  that reads a row and later writes it is given two tables: \<open>seen\<close>, the one its
  \<open>db.get\<close> read, and \<open>db\<close>, the one its statement runs on. They coincide when nobody
  committed in between. An UPDATE with a WHERE clause re-reads the row it changes; assigning
  to an attribute of a loaded row changes those columns unconditionally. A CHECK constraint
  that fails raises \<open>IntegrityError\<close>.

  The token of \<open>secrets.token_hex(32)\<close>, the clock and SHA-256 are arguments. A status or
  kind column is typed by its enumeration, as the CHECK constraints on both columns demand.
\<close>

section \<open>Contracts\<close>

datatype RunTaskKind = CHAT | SCHEDULED | PROACTIVE | RESEARCH | BACKGROUND | RECOVERY

datatype RunTaskStatus = ACCEPTED | RUNNING | SUCCEEDED | FAILED | CANCELLED | TIMED_OUT | AMBIGUOUS

definition terminal :: "RunTaskStatus \<Rightarrow> bool" where
  "terminal s \<longleftrightarrow> s \<noteq> ACCEPTED \<and> s \<noteq> RUNNING"

datatype RunTaskHeartbeatReason =
  HB_RENEWED | HB_CANCEL_REQUESTED | HB_TIMED_OUT | HB_LEASE_LOST | HB_TERMINAL

datatype conflict =
  NoActiveLease | AlreadyExists | NotClaimable | TaskMissing | DifferentCancel | DifferentReceipt

datatype task_error = RunTaskConflict conflict | RunTaskLeaseLost | TaskValueError | IntegrityError

definition task_kind_value :: "RunTaskKind \<Rightarrow> pystr" where
  "task_kind_value k =
     (case k of CHAT \<Rightarrow> lit ''chat'' | SCHEDULED \<Rightarrow> lit ''scheduled''
      | PROACTIVE \<Rightarrow> lit ''proactive'' | RESEARCH \<Rightarrow> lit ''research''
      | BACKGROUND \<Rightarrow> lit ''background'' | RECOVERY \<Rightarrow> lit ''recovery'')"

definition task_status_value :: "RunTaskStatus \<Rightarrow> pystr" where
  "task_status_value s =
     (case s of ACCEPTED \<Rightarrow> lit ''accepted'' | RUNNING \<Rightarrow> lit ''running''
      | SUCCEEDED \<Rightarrow> lit ''succeeded'' | FAILED \<Rightarrow> lit ''failed''
      | CANCELLED \<Rightarrow> lit ''cancelled'' | TIMED_OUT \<Rightarrow> lit ''timed_out''
      | AMBIGUOUS \<Rightarrow> lit ''ambiguous'')"

text \<open>\<open>RunTaskKind(value)\<close> and \<open>RunTaskStatus(value)\<close>: look up the member by its value.\<close>

definition task_kinds :: "RunTaskKind list" where
  "task_kinds = [CHAT, SCHEDULED, PROACTIVE, RESEARCH, BACKGROUND, RECOVERY]"

definition task_statuses :: "RunTaskStatus list" where
  "task_statuses = [ACCEPTED, RUNNING, SUCCEEDED, FAILED, CANCELLED, TIMED_OUT, AMBIGUOUS]"

definition parse_task_kind :: "pystr \<Rightarrow> RunTaskKind option" where
  "parse_task_kind v = find (\<lambda>k. task_kind_value k = v) task_kinds"

definition parse_task_status :: "pystr \<Rightarrow> RunTaskStatus option" where
  "parse_task_status v = find (\<lambda>s. task_status_value s = v) task_statuses"

record RunTaskLease =
  lease_run_id :: pystr
  lease_holder :: pystr
  lease_secret :: pystr
  generation :: int
  attempt_no :: int
  expires_at :: datetime
  lease_timeout_at :: "datetime option"

definition RunTaskLease_post_init :: "RunTaskLease \<Rightarrow> task_error + RunTaskLease" where
  "RunTaskLease_post_init l =
     (case safe_text_required 160 (lease_run_id l) of
        None \<Rightarrow> Inl TaskValueError
      | Some rid \<Rightarrow>
     (case safe_text_required 128 (lease_holder l) of
        None \<Rightarrow> Inl TaskValueError
      | Some own \<Rightarrow>
     (case safe_text_required 64 (lease_secret l) of
        None \<Rightarrow> Inl TaskValueError
      | Some tok \<Rightarrow>
          require (generation l > 0) TaskValueError
            (require (attempt_no l > 0) TaskValueError
              (Inr (l\<lparr>lease_run_id := rid, lease_holder := own, lease_secret := tok\<rparr>))))))"

record RunTaskHeartbeat =
  renewed :: bool
  hb_reason :: RunTaskHeartbeatReason
  hb_lease :: "RunTaskLease option"

definition RunTaskHeartbeat_post_init :: "RunTaskHeartbeat \<Rightarrow> task_error + RunTaskHeartbeat" where
  "RunTaskHeartbeat_post_init h =
     require (renewed h = (hb_lease h \<noteq> None)) TaskValueError
       (require (\<not> (renewed h \<and> hb_reason h \<noteq> HB_RENEWED)) TaskValueError (Inr h))"

section \<open>The table\<close>

record RunTaskControl =
  run_id :: pystr
  task_kind :: RunTaskKind
  source_type :: pystr
  source_id :: pystr
  request_id_sha256 :: pystr
  idempotency_key_sha256 :: pystr
  status :: RunTaskStatus
  lease_owner :: pystr
  lease_token :: pystr
  lease_generation :: int
  attempt_count :: int
  lease_expires_at :: "datetime option"
  timeout_at :: "datetime option"
  cancel_requested_at :: "datetime option"
  cancel_reason :: pystr
  terminal_reason :: pystr
  result_ref :: pystr
  delivery_receipt_ref :: pystr
  created_at :: datetime
  updated_at :: datetime
  finished_at :: "datetime option"

type_synonym task_table = "(pystr, RunTaskControl) dict"

definition row_constraints :: "RunTaskControl \<Rightarrow> bool" where
  "row_constraints r \<longleftrightarrow>
     lease_generation r \<ge> 0 \<and> attempt_count r \<ge> 0 \<and>
     (status r = RUNNING \<and> lease_owner r \<noteq> [] \<and> lease_token r \<noteq> [] \<and>
        lease_expires_at r \<noteq> None \<and> lease_generation r > 0 \<and> attempt_count r > 0 \<or>
      status r \<noteq> RUNNING \<and> lease_owner r = [] \<and> lease_token r = [] \<and> lease_expires_at r = None)"

definition sql_insert :: "RunTaskControl \<Rightarrow> task_table \<Rightarrow> task_error + task_table" where
  "sql_insert r db =
     require (dict_get db (run_id r) = None \<and> row_constraints r) IntegrityError
       (Inr (dict_set (run_id r) r db))"

definition sql_update ::
  "pystr \<Rightarrow> (RunTaskControl \<Rightarrow> bool) \<Rightarrow> (RunTaskControl \<Rightarrow> RunTaskControl) \<Rightarrow> task_table
     \<Rightarrow> task_error + (nat \<times> task_table)" where
  "sql_update key cond f db =
     (case dict_get db key of
        None \<Rightarrow> Inr (0, db)
      | Some r \<Rightarrow>
          if cond r
          then require (row_constraints (f r)) IntegrityError (Inr (1, dict_set key (f r) db))
          else Inr (0, db))"

text \<open>A nullable time compared with \<open>>\<close> or \<open>\<le>\<close>: a comparison with NULL is not true.\<close>

definition after :: "datetime option \<Rightarrow> datetime \<Rightarrow> bool" where
  "after t now \<longleftrightarrow> (case t of None \<Rightarrow> False | Some x \<Rightarrow> x > now)"

definition due :: "datetime option \<Rightarrow> datetime \<Rightarrow> bool" where
  "due t now \<longleftrightarrow> (case t of None \<Rightarrow> False | Some x \<Rightarrow> x \<le> now)"

lemma after_due: "after t now \<Longrightarrow> \<not> due t now"
  by (auto simp: after_def due_def split: option.splits)

definition lease_of :: "RunTaskControl \<Rightarrow> task_error + RunTaskLease" where
  "lease_of r =
     (case lease_expires_at r of
        None \<Rightarrow> Inl (RunTaskConflict NoActiveLease)
      | Some e \<Rightarrow>
          require (status r = RUNNING) (RunTaskConflict NoActiveLease)
            (RunTaskLease_post_init
               \<lparr>lease_run_id = run_id r, lease_holder = lease_owner r, lease_secret = lease_token r,
                generation = lease_generation r, attempt_no = attempt_count r,
                expires_at = e, lease_timeout_at = timeout_at r\<rparr>))"

text \<open>The view is the row without its token, once both digests have the form of SHA-256.\<close>

definition view_of :: "RunTaskControl \<Rightarrow> task_error + RunTaskControl" where
  "view_of r =
     require (hex64 (request_id_sha256 r)) TaskValueError
       (require (hex64 (idempotency_key_sha256 r)) TaskValueError (Inr (r\<lparr>lease_token := []\<rparr>)))"

section \<open>The service\<close>

text \<open>\<open>hashlib.sha256(s.encode("utf-8")).hexdigest()\<close>; a surrogate does not encode.\<close>

definition sha256_text :: "(bytes \<Rightarrow> pystr) \<Rightarrow> pystr \<Rightarrow> task_error + pystr" where
  "sha256_text sha256 s =
     (case utf8_encode s of None \<Rightarrow> Inl TaskValueError | Some b \<Rightarrow> Inr (sha256 b))"

definition or_else :: "pystr \<Rightarrow> pystr \<Rightarrow> pystr" where
  "or_else a b = (if a \<noteq> [] then a else b)"

record admission =
  adm_run_id :: pystr
  adm_task_kind :: pystr
  adm_source_type :: pystr
  adm_source_id :: pystr
  adm_request_id :: pystr
  adm_idempotency_key :: pystr

definition of_option :: "'e \<Rightarrow> 'a option \<Rightarrow> 'e + 'a" where
  "of_option e x = (case x of None \<Rightarrow> Inl e | Some v \<Rightarrow> Inr v)"

text \<open>The identity columns of a new row, common to both kinds of admission.\<close>

definition new_row ::
  "(bytes \<Rightarrow> pystr) \<Rightarrow> admission \<Rightarrow> pystr \<Rightarrow> datetime \<Rightarrow> rat \<Rightarrow> task_error + RunTaskControl" where
  "new_row sha256 a rid now timeout =
     bind_result (of_option TaskValueError (parse_task_kind (adm_task_kind a))) (\<lambda>kind.
     bind_result (sha256_text sha256 (or_else (adm_request_id a) rid)) (\<lambda>req.
     bind_result (sha256_text sha256
                    (or_else (adm_idempotency_key a) (or_else (adm_request_id a) rid))) (\<lambda>key.
     Inr \<lparr>run_id = rid, task_kind = kind,
          source_type = safe_text 64 (adm_source_type a),
          source_id = safe_text 160 (adm_source_id a),
          request_id_sha256 = req, idempotency_key_sha256 = key,
          status = ACCEPTED, lease_owner = [], lease_token = [],
          lease_generation = 0, attempt_count = 0, lease_expires_at = None,
          timeout_at = Some (now + timedelta_seconds timeout),
          cancel_requested_at = None, cancel_reason = [], terminal_reason = [],
          result_ref = [], delivery_receipt_ref = [],
          created_at = now, updated_at = now, finished_at = None\<rparr>)))"

definition prepare_running ::
  "(bytes \<Rightarrow> pystr) \<Rightarrow> admission \<Rightarrow> pystr \<Rightarrow> pyfloat \<Rightarrow> pyfloat \<Rightarrow> pystr \<Rightarrow> pystr \<Rightarrow> datetime
     \<Rightarrow> task_table \<Rightarrow> task_error + RunTaskControl" where
  "prepare_running sha256 a owner lease_seconds timeout_seconds receipt token now seen =
     bind_result (of_option TaskValueError (positive_seconds lease_seconds)) (\<lambda>lease_duration.
     bind_result (of_option TaskValueError (positive_seconds timeout_seconds)) (\<lambda>timeout_duration.
     bind_result (of_option TaskValueError (safe_text_required 160 (adm_run_id a))) (\<lambda>rid.
     require (dict_get seen rid = None) (RunTaskConflict AlreadyExists)
     (bind_result (new_row sha256 a rid now timeout_duration) (\<lambda>row.
      bind_result (of_option TaskValueError (safe_text_required 128 owner)) (\<lambda>own.
      Inr (row\<lparr>status := RUNNING, lease_owner := own, lease_token := token,
               lease_generation := 1, attempt_count := 1,
               lease_expires_at := Some (now + timedelta_seconds lease_duration),
               delivery_receipt_ref := safe_text 512 receipt\<rparr>)))))))"

text \<open>
  The row is flushed before the lease is built from it, so a lease that is refused leaves
  the row in the transaction.
\<close>

definition admit_running ::
  "(bytes \<Rightarrow> pystr) \<Rightarrow> admission \<Rightarrow> pystr \<Rightarrow> pyfloat \<Rightarrow> pyfloat \<Rightarrow> pystr \<Rightarrow> pystr \<Rightarrow> datetime
     \<Rightarrow> task_table \<Rightarrow> task_table \<Rightarrow> (task_error + RunTaskLease) \<times> task_table" where
  "admit_running sha256 a owner lease_seconds timeout_seconds receipt token now seen db =
     (case bind_result (prepare_running sha256 a owner lease_seconds timeout_seconds receipt token
                          now seen)
             (\<lambda>row. bind_result (sql_insert row db) (\<lambda>db'. Inr (row, db'))) of
        Inl e \<Rightarrow> (Inl e, db)
      | Inr (row, db') \<Rightarrow> (lease_of row, db'))"

definition admit_prepared ::
  "(bytes \<Rightarrow> pystr) \<Rightarrow> admission \<Rightarrow> pyfloat \<Rightarrow> datetime \<Rightarrow> task_table \<Rightarrow> task_table
     \<Rightarrow> (task_error + RunTaskControl) \<times> task_table" where
  "admit_prepared sha256 a timeout_seconds now seen db =
     (case bind_result (of_option TaskValueError (positive_seconds timeout_seconds)) (\<lambda>timeout_duration.
           bind_result (of_option TaskValueError (safe_text_required 160 (adm_run_id a))) (\<lambda>rid.
           require (dict_get seen rid = None) (RunTaskConflict AlreadyExists)
           (bind_result (new_row sha256 a rid now timeout_duration) (\<lambda>row.
            bind_result (sql_insert row db) (\<lambda>db'. Inr (row, db')))))) of
        Inl e \<Rightarrow> (Inl e, db)
      | Inr (row, db') \<Rightarrow> (view_of row, db'))"

definition claimable :: "datetime \<Rightarrow> RunTaskControl \<Rightarrow> bool" where
  "claimable now r \<longleftrightarrow>
     status r = ACCEPTED \<and> cancel_requested_at r = None \<and>
     (timeout_at r = None \<or> after (timeout_at r) now)"

definition claim_prepared ::
  "pystr \<Rightarrow> pystr \<Rightarrow> pyfloat \<Rightarrow> pystr \<Rightarrow> datetime \<Rightarrow> task_table
     \<Rightarrow> (task_error + RunTaskLease) \<times> task_table" where
  "claim_prepared rid owner lease_seconds token now db =
     (case bind_result (of_option TaskValueError (positive_seconds lease_seconds)) (\<lambda>seconds.
           bind_result (of_option TaskValueError (safe_text_required 128 owner)) (\<lambda>own.
           sql_update rid (claimable now)
             (\<lambda>r. r\<lparr>status := RUNNING, lease_owner := own, lease_token := token,
                     lease_generation := lease_generation r + 1,
                     attempt_count := attempt_count r + 1,
                     lease_expires_at := Some (now + timedelta_seconds seconds),
                     updated_at := now\<rparr>) db)) of
        Inl e \<Rightarrow> (Inl e, db)
      | Inr (updated, db') \<Rightarrow>
          (case dict_get db' rid of
             None \<Rightarrow> (Inl (RunTaskConflict NotClaimable), db')
           | Some row \<Rightarrow>
               if updated \<noteq> 1 \<or> lease_token row \<noteq> token
               then (Inl (RunTaskConflict NotClaimable), db')
               else (lease_of row, db')))"

definition lease_matches :: "RunTaskControl \<Rightarrow> RunTaskLease \<Rightarrow> datetime \<Rightarrow> bool" where
  "lease_matches r l now \<longleftrightarrow>
     status r = RUNNING \<and> lease_owner r = lease_holder l \<and> lease_token r = lease_secret l \<and>
     lease_generation r = generation l \<and> attempt_count r = attempt_no l \<and>
     after (lease_expires_at r) now"

definition heartbeat_refused ::
  "RunTaskHeartbeatReason \<Rightarrow> task_table \<Rightarrow> (task_error + RunTaskHeartbeat) \<times> task_table" where
  "heartbeat_refused reason db =
     (RunTaskHeartbeat_post_init \<lparr>renewed = False, hb_reason = reason, hb_lease = None\<rparr>, db)"

definition heartbeat ::
  "RunTaskLease \<Rightarrow> pyfloat \<Rightarrow> datetime \<Rightarrow> task_table \<Rightarrow> task_table
     \<Rightarrow> (task_error + RunTaskHeartbeat) \<times> task_table" where
  "heartbeat l lease_seconds now seen db =
     (case positive_seconds lease_seconds of
        None \<Rightarrow> (Inl TaskValueError, db)
      | Some seconds \<Rightarrow>
     (case dict_get seen (lease_run_id l) of
        None \<Rightarrow> heartbeat_refused HB_LEASE_LOST db
      | Some row \<Rightarrow>
          if terminal (status row) then heartbeat_refused HB_TERMINAL db
          else if cancel_requested_at row \<noteq> None then heartbeat_refused HB_CANCEL_REQUESTED db
          else if due (timeout_at row) now then heartbeat_refused HB_TIMED_OUT db
          else if \<not> lease_matches row l now then heartbeat_refused HB_LEASE_LOST db
          else
            let expires = now + timedelta_seconds seconds
            in case sql_update (lease_run_id l)
                      (\<lambda>r. lease_matches r l now \<and> cancel_requested_at r = None \<and>
                           (timeout_at r = None \<or> after (timeout_at r) now))
                      (\<lambda>r. r\<lparr>lease_expires_at := Some expires, updated_at := now\<rparr>) db of
                 Inl e \<Rightarrow> (Inl e, db)
               | Inr (updated, db') \<Rightarrow>
                   if updated \<noteq> 1 then heartbeat_refused HB_LEASE_LOST db
                   else
                     (bind_result
                        (RunTaskLease_post_init
                           (l\<lparr>expires_at := expires, lease_timeout_at := timeout_at row\<rparr>))
                        (\<lambda>l'. RunTaskHeartbeat_post_init
                                \<lparr>renewed = True, hb_reason = HB_RENEWED, hb_lease = Some l'\<rparr>),
                      db')))"

definition settle ::
  "RunTaskLease \<Rightarrow> pystr \<Rightarrow> pystr \<Rightarrow> pystr \<Rightarrow> datetime \<Rightarrow> task_table \<Rightarrow> task_table
     \<Rightarrow> (task_error + RunTaskControl) \<times> task_table" where
  "settle l target_value reason ref now seen db =
     (case parse_task_status target_value of
        None \<Rightarrow> (Inl TaskValueError, db)
      | Some target \<Rightarrow>
          if \<not> terminal target then (Inl TaskValueError, db)
          else case dict_get seen (lease_run_id l) of
            None \<Rightarrow> (Inl RunTaskLeaseLost, db)
          | Some row \<Rightarrow>
              if \<not> lease_matches row l now then (Inl RunTaskLeaseLost, db)
              else case sql_update (lease_run_id l) (\<lambda>r. lease_matches r l now)
                          (\<lambda>r. r\<lparr>status := target, lease_owner := [], lease_token := [],
                                  lease_expires_at := None,
                                  terminal_reason := safe_text 128 reason,
                                  result_ref := safe_text 512 ref,
                                  updated_at := now, finished_at := Some now\<rparr>) db of
                     Inl e \<Rightarrow> (Inl e, db)
                   | Inr (updated, db') \<Rightarrow>
                       (case dict_get db' (lease_run_id l) of
                          None \<Rightarrow> (Inl RunTaskLeaseLost, db')
                        | Some settled \<Rightarrow>
                            if updated \<noteq> 1 then (Inl RunTaskLeaseLost, db')
                            else (view_of settled, db')))"

text \<open>Assigning to loaded attributes: the flush updates those columns of the stored row.\<close>

definition orm_flush ::
  "pystr \<Rightarrow> (RunTaskControl \<Rightarrow> RunTaskControl) \<Rightarrow> task_table \<Rightarrow> task_error + task_table" where
  "orm_flush key f db =
     bind_result (sql_update key (\<lambda>_. True) f db) (\<lambda>res. Inr (snd res))"

definition request_cancel ::
  "pystr \<Rightarrow> pystr \<Rightarrow> datetime \<Rightarrow> task_table \<Rightarrow> task_table
     \<Rightarrow> (task_error + RunTaskControl) \<times> task_table" where
  "request_cancel rid reason now seen db =
     (case dict_get seen rid of
        None \<Rightarrow> (Inl (RunTaskConflict TaskMissing), db)
      | Some row \<Rightarrow>
          if terminal (status row) then (view_of row, db)
          else case safe_text_required 128 reason of
            None \<Rightarrow> (Inl TaskValueError, db)
          | Some normalized \<Rightarrow>
              if cancel_requested_at row = None then
                let assign = (\<lambda>r. r\<lparr>cancel_requested_at := Some now, cancel_reason := normalized,
                                     updated_at := now\<rparr>)
                in case orm_flush rid assign db of
                     Inl e \<Rightarrow> (Inl e, db)
                   | Inr db' \<Rightarrow> (view_of (assign row), db')
              else if cancel_reason row \<noteq> normalized
              then (Inl (RunTaskConflict DifferentCancel), db)
              else (view_of row, db))"

definition attach_delivery_receipt ::
  "pystr \<Rightarrow> pystr \<Rightarrow> datetime \<Rightarrow> task_table \<Rightarrow> task_table
     \<Rightarrow> (task_error + RunTaskControl) \<times> task_table" where
  "attach_delivery_receipt rid receipt now seen db =
     (case dict_get seen rid of
        None \<Rightarrow> (Inl (RunTaskConflict TaskMissing), db)
      | Some row \<Rightarrow>
          (case safe_text_required 512 receipt of
             None \<Rightarrow> (Inl TaskValueError, db)
           | Some normalized \<Rightarrow>
               if delivery_receipt_ref row \<noteq> [] \<and> delivery_receipt_ref row \<noteq> normalized
               then (Inl (RunTaskConflict DifferentReceipt), db)
               else if delivery_receipt_ref row = [] then
                 let assign = (\<lambda>r. r\<lparr>delivery_receipt_ref := normalized, updated_at := now\<rparr>)
                 in case orm_flush rid assign db of
                      Inl e \<Rightarrow> (Inl e, db)
                    | Inr db' \<Rightarrow> (view_of (assign row), db')
               else (view_of row, db)))"

definition task_get :: "pystr \<Rightarrow> task_table \<Rightarrow> task_error + RunTaskControl option" where
  "task_get rid db =
     (case dict_get db rid of
        None \<Rightarrow> Inr None
      | Some row \<Rightarrow> bind_result (view_of row) (\<lambda>v. Inr (Some v)))"

definition run_status_to_task_status :: "pystr \<Rightarrow> RunTaskStatus" where
  "run_status_to_task_status st =
     (let normalized = py_lower (py_strip st)
      in if normalized \<in> set [lit ''success'', lit ''succeeded'', lit ''no_reply'', lit ''suppressed'']
         then SUCCEEDED
         else if normalized \<in> set [lit ''cancelled'', lit ''canceled''] then CANCELLED
         else if normalized \<in> set [lit ''timed_out'', lit ''timeout''] then TIMED_OUT
         else if normalized = lit ''ambiguous'' then AMBIGUOUS
         else FAILED)"

text \<open>\<open>classify_run_task\<close>, on metadata whose values are strings.\<close>

definition classify_run_task ::
  "pystr \<Rightarrow> (pystr, pystr) dict \<Rightarrow> RunTaskKind \<times> pystr \<times> pystr" where
  "classify_run_task run_type meta =
     (let get = (\<lambda>k. dict_get_default meta (lit k) []);
          preset = py_lower (py_strip (get ''runtime_preset''));
          task_run_id = py_strip (get ''task_run_id'');
          source = py_lower (py_strip (get ''source''))
      in if preset = lit ''research'' \<or> get ''chat_type'' = lit ''research'' then
           (RESEARCH, lit ''research_request'', or_else (get ''message_id'') task_run_id)
         else if task_run_id \<noteq> [] \<or> startswith run_type (lit ''scheduled'') then
           (SCHEDULED, lit ''scheduled_execution'', task_run_id)
         else if startswith source (lit ''proactive'') then
           (PROACTIVE, lit ''proactive_outreach'', get ''message_id'')
         else if run_type = lit ''chat'' then
           (CHAT, lit ''inbound_message'', get ''message_id'')
         else (BACKGROUND, lit ''agent_run'', []))"

section \<open>Expiry of a candidate row\<close>

text \<open>
  The part of \<open>core/durable_tasks/reconciler.py\<close> that works on this table: the query that
  selects rows to finish, the status they get, and the guarded UPDATE that is run for a
  candidate row as the reconciler's session holds it.
\<close>

definition reconcile_candidate :: "datetime \<Rightarrow> RunTaskControl \<Rightarrow> bool" where
  "reconcile_candidate now r \<longleftrightarrow>
     status r = RUNNING \<and> (due (lease_expires_at r) now \<or> due (timeout_at r) now) \<or>
     status r = ACCEPTED \<and> (cancel_requested_at r \<noteq> None \<or> due (timeout_at r) now)"

definition expired_status :: "bool \<Rightarrow> RunTaskControl \<Rightarrow> datetime \<Rightarrow> RunTaskStatus \<times> pystr" where
  "expired_status unsafe_receipt r now =
     (if unsafe_receipt then (AMBIGUOUS, lit ''lease_expired_with_unknown_effect'')
      else if cancel_requested_at r \<noteq> None then (CANCELLED, lit ''cancel_requested'')
      else if due (timeout_at r) now then (TIMED_OUT, lit ''execution_timeout'')
      else (FAILED, lit ''lease_expired''))"

definition expire_guard :: "datetime \<Rightarrow> RunTaskControl \<Rightarrow> RunTaskControl \<Rightarrow> bool" where
  "expire_guard now cand r \<longleftrightarrow>
     status r = status cand \<and>
     (if status cand = RUNNING
      then lease_owner r = lease_owner cand \<and> lease_token r = lease_token cand \<and>
           lease_generation r = lease_generation cand \<and>
           (due (lease_expires_at r) now \<or> due (timeout_at r) now)
      else cancel_requested_at r \<noteq> None \<or> due (timeout_at r) now)"

definition expire_update ::
  "datetime \<Rightarrow> RunTaskStatus \<times> pystr \<Rightarrow> RunTaskControl \<Rightarrow> task_table
     \<Rightarrow> task_error + (nat \<times> task_table)" where
  "expire_update now outcome cand db =
     sql_update (run_id cand) (expire_guard now cand)
       (\<lambda>r. r\<lparr>status := fst outcome, lease_owner := [], lease_token := [],
               lease_expires_at := None, terminal_reason := snd outcome,
               updated_at := now, finished_at := Some now\<rparr>) db"

end
