(* ===== verification/Durable_Tasks_Correct.thy ===== *)
theory Durable_Tasks_Correct
  imports Durable_Tasks
begin

text \<open>
  Correctness of the durable task service. The abstract view of the table is \<open>row_step\<close>:
  what may happen to one row (claim, renewal, finish, annotation). Every operation of the
  service refines it (\<open>table_step\<close>), whatever table its read returned. From there follow
  the row invariant, at most one execution attempt per run, the permanence of an outcome,
  the fencing of leases and the effect of a cancellation.
\<close>

section \<open>Abstract behaviour of a row\<close>

inductive row_step :: "RunTaskControl \<Rightarrow> RunTaskControl \<Rightarrow> bool" where
  row_claim: "status r = ACCEPTED \<Longrightarrow> cancel_requested_at r = None \<Longrightarrow> own \<noteq> [] \<Longrightarrow> tok \<noteq> [] \<Longrightarrow>
     row_step r (r\<lparr>status := RUNNING, lease_owner := own, lease_token := tok,
                   lease_generation := lease_generation r + 1,
                   attempt_count := attempt_count r + 1,
                   lease_expires_at := Some e, updated_at := now\<rparr>)"
| row_renew: "status r = RUNNING \<Longrightarrow> cancel_requested_at r = None \<Longrightarrow>
     row_step r (r\<lparr>lease_expires_at := Some e, updated_at := now\<rparr>)"
| row_finish: "\<not> terminal (status r) \<Longrightarrow> terminal target \<Longrightarrow>
     row_step r (r\<lparr>status := target, lease_owner := [], lease_token := [],
                   lease_expires_at := None, terminal_reason := reason, result_ref := ref,
                   updated_at := now, finished_at := Some now\<rparr>)"
| row_cancel: "row_step r (r\<lparr>cancel_requested_at := Some now, cancel_reason := reason,
                              updated_at := now\<rparr>)"
| row_receipt: "row_step r (r\<lparr>delivery_receipt_ref := receipt, updated_at := now\<rparr>)"

inductive_cases row_stepE: "row_step r r'"

definition row_ok :: "pystr \<Rightarrow> RunTaskControl \<Rightarrow> bool" where
  "row_ok key r \<longleftrightarrow>
     run_id r = key \<and> row_constraints r \<and> hex64 (request_id_sha256 r) \<and>
     hex64 (idempotency_key_sha256 r) \<and> attempt_count r = lease_generation r \<and>
     lease_generation r \<le> 1 \<and> (status r = ACCEPTED \<longrightarrow> lease_generation r = 0) \<and>
     (finished_at r \<noteq> None \<longleftrightarrow> terminal (status r))"

definition task_inv :: "task_table \<Rightarrow> bool" where
  "task_inv db \<longleftrightarrow> (\<forall>key r. dict_get db key = Some r \<longrightarrow> row_ok key r)"

definition table_step :: "task_table \<Rightarrow> task_table \<Rightarrow> bool" where
  "table_step db db' \<longleftrightarrow>
     db' = db \<or>
     (\<exists>key r. dict_get db key = None \<and> row_ok key r \<and> cancel_requested_at r = None \<and>
              \<not> terminal (status r) \<and> db' = dict_set key r db) \<or>
     (\<exists>key r r'. dict_get db key = Some r \<and> row_step r r' \<and> db' = dict_set key r' db)"

lemma row_step_ok: "row_step r r' \<Longrightarrow> row_ok key r \<Longrightarrow> row_ok key r'"
  by (erule row_stepE) (auto simp: row_ok_def row_constraints_def terminal_def)

lemma row_step_constraints: "row_step r r' \<Longrightarrow> row_constraints r \<Longrightarrow> row_constraints r'"
  by (erule row_stepE) (auto simp: row_constraints_def terminal_def)

lemma table_step_refl [simp, intro]: "table_step db db"
  by (simp add: table_step_def)

lemma table_step_inv: "table_step db db' \<Longrightarrow> task_inv db \<Longrightarrow> task_inv db'"
  unfolding table_step_def task_inv_def
  by (elim disjE exE conjE) (simp_all, (metis option.sel row_step_ok)+)

lemma table_step_update:
  "dict_get db key = Some r \<Longrightarrow> row_step r r' \<Longrightarrow> table_step db (dict_set key r' db)"
  unfolding table_step_def by blast

section \<open>Every operation refines it\<close>

lemma sql_insert_step:
  assumes "sql_insert r db = Inr db'" "row_ok (run_id r) r" "cancel_requested_at r = None"
    "\<not> terminal (status r)"
  shows "table_step db db'"
  using assms unfolding table_step_def sql_insert_def by (auto simp: result_simps)

lemma sql_update_step:
  assumes "sql_update key cond f db = Inr (n, db')"
    and "\<And>r. dict_get db key = Some r \<Longrightarrow> cond r \<Longrightarrow> row_step r (f r)"
  shows "table_step db db'"
  using assms unfolding sql_update_def
  by (auto simp: result_simps split: option.splits if_splits intro: table_step_update)

lemma sql_update_no_integrity_error:
  assumes "task_inv db" and "\<And>r. dict_get db key = Some r \<Longrightarrow> cond r \<Longrightarrow> row_step r (f r)"
  shows "sql_update key cond f db \<noteq> Inl e"
proof (cases "dict_get db key")
  case (Some r)
  then have "row_constraints r" using assms(1) by (auto simp: task_inv_def row_ok_def)
  with Some assms(2) show ?thesis
    by (auto simp: sql_update_def require_def dest: row_step_constraints)
qed (simp add: sql_update_def)

lemma orm_flush_step:
  assumes "orm_flush key f db = Inr db'" and "\<And>r. row_step r (f r)"
  shows "table_step db db'"
  using assms by (auto simp: orm_flush_def result_simps intro: sql_update_step)

lemma sha256_text_hex: "\<forall>b. hex64 (sha256 b) \<Longrightarrow> sha256_text sha256 s = Inr d \<Longrightarrow> hex64 d"
  by (auto simp: sha256_text_def split: option.splits)

lemma of_option_Inr [result_simps]: "of_option e x = Inr y \<longleftrightarrow> x = Some y"
  by (auto simp: of_option_def split: option.splits)

lemma of_option_Inl [result_simps]: "of_option e x = Inl e' \<longleftrightarrow> x = None \<and> e' = e"
  by (auto simp: of_option_def split: option.splits)

lemma new_row_ok:
  assumes "new_row sha256 a rid now t = Inr r" "\<forall>b. hex64 (sha256 b)"
  shows "row_ok rid r" "cancel_requested_at r = None" "status r = ACCEPTED" "run_id r = rid"
    "lease_generation r = 0"
  using assms
  by (auto simp: new_row_def result_simps row_ok_def row_constraints_def terminal_def
      intro: sha256_text_hex)

lemma admit_running_row_ok:
  assumes "prepare_running sha256 a owner ls ts receipt token now seen = Inr r"
    "\<forall>b. hex64 (sha256 b)" "token \<noteq> []"
  shows "row_ok (run_id r) r" "cancel_requested_at r = None" "status r = RUNNING"
proof -
  from assms(1) obtain row0 t rid own d where nr: "new_row sha256 a rid now t = Inr row0"
    and own: "own \<noteq> []"
    and r: "r = row0\<lparr>status := RUNNING, lease_owner := own, lease_token := token,
                     lease_generation := 1, attempt_count := 1,
                     lease_expires_at := Some d, delivery_receipt_ref := safe_text 512 receipt\<rparr>"
    by (auto simp: prepare_running_def result_simps safe_text_required_Some)
  show "row_ok (run_id r) r" "cancel_requested_at r = None" "status r = RUNNING"
    using new_row_ok [OF nr assms(2)] own assms(3)
    by (auto simp: r row_ok_def row_constraints_def terminal_def)
qed

lemma hex64_not_Nil: "hex64 t \<Longrightarrow> t \<noteq> []"
  by (auto simp: hex64_def)

lemma admit_running_step:
  assumes "\<forall>b. hex64 (sha256 b)" "hex64 token"
  shows "table_step db (snd (admit_running sha256 a owner ls ts receipt token now seen db))"
  unfolding admit_running_def
  using assms admit_running_row_ok [OF _ assms(1) hex64_not_Nil [OF assms(2)]]
  by (auto simp: result_simps terminal_def split: sum.splits intro: sql_insert_step)

lemma admit_prepared_step:
  assumes "\<forall>b. hex64 (sha256 b)"
  shows "table_step db (snd (admit_prepared sha256 a ts now seen db))"
proof -
  have "table_step db db'"
    if "new_row sha256 a rid now t = Inr row" "sql_insert row db = Inr db'" for rid t row db'
    using new_row_ok [OF that(1) assms] that(2) by (auto simp: terminal_def intro: sql_insert_step)
  then show ?thesis
    unfolding admit_prepared_def by (auto simp: result_simps split: sum.splits)
qed

lemma claim_row_step:
  assumes "claimable now r" "own \<noteq> []" "token \<noteq> []"
  shows "row_step r (r\<lparr>status := RUNNING, lease_owner := own, lease_token := token,
                       lease_generation := lease_generation r + 1,
                       attempt_count := attempt_count r + 1,
                       lease_expires_at := Some e, updated_at := now\<rparr>)"
  using assms by (auto simp: claimable_def intro: row_claim)

lemma claim_prepared_step:
  assumes "hex64 token"
  shows "table_step db (snd (claim_prepared rid owner ls token now db))"
proof -
  have "table_step db db'"
    if "sql_update rid (claimable now)
             (\<lambda>r. r\<lparr>status := RUNNING, lease_owner := own, lease_token := token,
                     lease_generation := lease_generation r + 1,
                     attempt_count := attempt_count r + 1,
                     lease_expires_at := Some e, updated_at := now\<rparr>) db = Inr (n, db')"
       "own \<noteq> []" for own e n db'
    using that claim_row_step hex64_not_Nil [OF assms] by (blast intro: sql_update_step)
  then show ?thesis
    unfolding claim_prepared_def
    by (auto simp: result_simps safe_text_required_Some split: sum.splits option.splits)
qed

lemma heartbeat_step: "table_step db (snd (heartbeat l ls now seen db))"
  unfolding heartbeat_def Let_def
  by (auto simp: heartbeat_refused_def lease_matches_def split: option.splits sum.splits
      intro!: row_renew elim!: sql_update_step)

lemma settle_row_step:
  assumes "lease_matches r l now" "terminal target"
  shows "row_step r (r\<lparr>status := target, lease_owner := [], lease_token := [],
                       lease_expires_at := None, terminal_reason := reason, result_ref := ref,
                       updated_at := now, finished_at := Some now\<rparr>)"
  using assms by (auto simp: lease_matches_def terminal_def intro!: row_finish)

lemma settle_step: "table_step db (snd (settle l tv reason ref now seen db))"
  unfolding settle_def
  by (auto split: option.splits sum.splits intro!: settle_row_step elim!: sql_update_step)

lemma request_cancel_step: "table_step db (snd (request_cancel rid reason now seen db))"
  unfolding request_cancel_def Let_def
  by (auto split: option.splits sum.splits intro!: row_cancel elim!: orm_flush_step)

lemma attach_delivery_receipt_step:
  "table_step db (snd (attach_delivery_receipt rid receipt now seen db))"
  unfolding attach_delivery_receipt_def Let_def
  by (auto split: option.splits sum.splits intro!: row_receipt elim!: orm_flush_step)

lemma expired_status_terminal: "terminal (fst (expired_status u r now))"
  by (simp add: expired_status_def terminal_def)

lemma expire_row_step:
  assumes "expire_guard now cand r" "\<not> terminal (status cand)" "terminal (fst outcome)"
  shows "row_step r (r\<lparr>status := fst outcome, lease_owner := [], lease_token := [],
                       lease_expires_at := None, terminal_reason := snd outcome,
                       updated_at := now, finished_at := Some now\<rparr>)"
proof -
  let ?r' = "r\<lparr>status := fst outcome, lease_owner := [], lease_token := [],
               lease_expires_at := None, terminal_reason := snd outcome,
               result_ref := result_ref r, updated_at := now, finished_at := Some now\<rparr>"
  have "row_step r ?r'" by (rule row_finish) (use assms in \<open>auto simp: expire_guard_def\<close>)
  then show ?thesis by simp
qed

lemma expire_update_step:
  assumes "expire_update now outcome cand db = Inr (n, db')" "\<not> terminal (status cand)"
    "terminal (fst outcome)"
  shows "table_step db db'"
  using assms expire_row_step unfolding expire_update_def by (blast intro: sql_update_step)

section \<open>Executions\<close>

text \<open>
  One committed call of any process. Every read may have returned any earlier or even
  unrelated table; the expiry is the one of a row selected by the reconciler's query.
\<close>

inductive task_step :: "task_table \<Rightarrow> task_table \<Rightarrow> bool" where
  step_admit_running: "\<forall>b. hex64 (sha256 b) \<Longrightarrow> hex64 token \<Longrightarrow>
     task_step db (snd (admit_running sha256 a owner ls ts receipt token now seen db))"
| step_admit_prepared: "\<forall>b. hex64 (sha256 b) \<Longrightarrow>
     task_step db (snd (admit_prepared sha256 a ts now seen db))"
| step_claim: "hex64 token \<Longrightarrow> task_step db (snd (claim_prepared rid owner ls token now db))"
| step_heartbeat: "task_step db (snd (heartbeat l ls now seen db))"
| step_settle: "task_step db (snd (settle l tv reason ref now seen db))"
| step_cancel: "task_step db (snd (request_cancel rid reason now seen db))"
| step_receipt: "task_step db (snd (attach_delivery_receipt rid receipt now seen db))"
| step_expire: "reconcile_candidate now cand \<Longrightarrow>
     expire_update now (expired_status u cand' now) cand db = Inr (n, db') \<Longrightarrow> task_step db db'"

lemma candidate_not_terminal: "reconcile_candidate now r \<Longrightarrow> \<not> terminal (status r)"
  by (auto simp: reconcile_candidate_def terminal_def)

lemma task_step_table_step: "task_step db db' \<Longrightarrow> table_step db db'"
proof (induction rule: task_step.induct)
  case (step_expire now cand u cand' db n db')
  then show ?case using expire_update_step candidate_not_terminal expired_status_terminal by blast
qed (simp_all add: admit_running_step admit_prepared_step claim_prepared_step heartbeat_step
      settle_step request_cancel_step attach_delivery_receipt_step)

lemma table_step_row:
  assumes "table_step db db'" "dict_get db key = Some r"
  obtains r' where "dict_get db' key = Some r'" "r' = r \<or> row_step r r'"
  using assms unfolding table_step_def by (metis dict_get_set option.distinct(1) option.inject)

definition outcome :: "task_table \<Rightarrow> pystr
    \<Rightarrow> (RunTaskStatus \<times> pystr \<times> pystr \<times> datetime option) option" where
  "outcome db key =
     (case dict_get db key of
        None \<Rightarrow> None
      | Some r \<Rightarrow> if terminal (status r)
                  then Some (status r, terminal_reason r, result_ref r, finished_at r) else None)"

definition generation_of :: "task_table \<Rightarrow> pystr \<Rightarrow> int" where
  "generation_of db key = (case dict_get db key of None \<Rightarrow> 0 | Some r \<Rightarrow> lease_generation r)"

lemma row_step_outcome:
  "row_step r r' \<Longrightarrow> terminal (status r) \<Longrightarrow>
     status r' = status r \<and> terminal_reason r' = terminal_reason r \<and>
     result_ref r' = result_ref r \<and> finished_at r' = finished_at r"
  by (erule row_stepE) (auto simp: terminal_def)

lemma row_step_generation: "row_step r r' \<Longrightarrow> lease_generation r \<le> lease_generation r'"
  by (erule row_stepE) auto

lemma outcome_kept:
  assumes "task_step s t" "outcome s k = Some v"
  shows "outcome t k = Some v"
proof -
  from assms(2) obtain r where r: "dict_get s k = Some r" "terminal (status r)"
    and v: "v = (status r, terminal_reason r, result_ref r, finished_at r)"
    by (auto simp: outcome_def split: option.splits if_splits)
  obtain r' where "dict_get t k = Some r'" "r' = r \<or> row_step r r'"
    using table_step_row [OF task_step_table_step [OF assms(1)] r(1)] .
  then show ?thesis using row_step_outcome r(2) by (auto simp: outcome_def v)
qed

lemma generation_kept:
  assumes "task_step s t" "task_inv s"
  shows "generation_of s k \<le> generation_of t k"
proof (cases "dict_get s k")
  case None
  have "task_inv t" using table_step_inv task_step_table_step assms by blast
  then show ?thesis using None
    by (auto simp: generation_of_def task_inv_def row_ok_def row_constraints_def split: option.splits)
next
  case (Some r)
  obtain r' where "dict_get t k = Some r'" "r' = r \<or> row_step r r'"
    using table_step_row [OF task_step_table_step [OF assms(1)] Some] .
  then show ?thesis using row_step_generation Some by (auto simp: generation_of_def)
qed

interpretation task_outcomes: write_once task_step task_inv outcome
  by unfold_locales (auto intro: table_step_inv task_step_table_step outcome_kept)

interpretation task_generations: monotone_counter task_step task_inv generation_of
  by unfold_locales (rule generation_kept)

lemma task_inv_empty [simp]: "task_inv []"
  by (simp add: task_inv_def)

lemmas task_reachable_inv = task_outcomes.reach_inv [OF _ task_inv_empty]

text \<open>A cancellation request stays, and from then on no lease is granted or extended.\<close>

definition cancelled_since :: "pystr \<Rightarrow> int \<Rightarrow> datetime option \<Rightarrow> task_table \<Rightarrow> bool" where
  "cancelled_since key g e db \<longleftrightarrow> task_inv db \<and>
     (\<exists>r. dict_get db key = Some r \<and> cancel_requested_at r \<noteq> None \<and> lease_generation r = g \<and>
          (lease_expires_at r = e \<or> lease_expires_at r = None))"

lemma row_step_cancelled:
  "row_step r r' \<Longrightarrow> cancel_requested_at r \<noteq> None \<Longrightarrow>
     cancel_requested_at r' \<noteq> None \<and> lease_generation r' = lease_generation r \<and>
     (lease_expires_at r' = lease_expires_at r \<or> lease_expires_at r' = None)"
  by (erule row_stepE) auto

interpretation task_cancellation: preserved_invariant task_step "cancelled_since key g e"
  for key g e
proof (unfold_locales, goal_cases)
  case (1 s t)
  then obtain r where r: "dict_get s key = Some r" "cancel_requested_at r \<noteq> None"
    "lease_generation r = g" "lease_expires_at r = e \<or> lease_expires_at r = None"
    and inv: "task_inv s" by (auto simp: cancelled_since_def)
  have ts: "table_step s t" using 1(1) by (rule task_step_table_step)
  obtain r' where r': "dict_get t key = Some r'" "r' = r \<or> row_step r r'"
    using table_step_row [OF ts r(1)] .
  with r row_step_cancelled [of r r'] have "cancel_requested_at r' \<noteq> None \<and> lease_generation r' = g \<and>
      (lease_expires_at r' = e \<or> lease_expires_at r' = None)" by auto
  with r' table_step_inv [OF ts inv] show ?case by (auto simp: cancelled_since_def)
qed

text \<open>A run that has left the accepted state never returns to it.\<close>

definition started :: "pystr \<Rightarrow> task_table \<Rightarrow> bool" where
  "started key db \<longleftrightarrow> (\<exists>r. dict_get db key = Some r \<and> status r \<noteq> ACCEPTED)"

lemma row_step_started: "row_step r r' \<Longrightarrow> status r \<noteq> ACCEPTED \<Longrightarrow> status r' \<noteq> ACCEPTED"
  by (erule row_stepE) (auto simp: terminal_def)

interpretation task_starts: preserved_invariant task_step "started key" for key
proof (unfold_locales, goal_cases)
  case (1 s t)
  then obtain r where r: "dict_get s key = Some r" "status r \<noteq> ACCEPTED" by (auto simp: started_def)
  obtain r' where "dict_get t key = Some r'" "r' = r \<or> row_step r r'"
    using table_step_row [OF task_step_table_step [OF 1(1)] r(1)] .
  with r row_step_started show ?case by (auto simp: started_def)
qed

lemma claim_prepared_started:
  assumes "started rid db"
  shows "\<exists>e. claim_prepared rid owner ls token now db = (Inl e, db)"
proof -
  from assms obtain r where r: "dict_get db rid = Some r" "\<not> claimable now r"
    by (auto simp: started_def claimable_def)
  then have "sql_update rid (claimable now) f db = Inr (0, db)" for f
    by (simp add: sql_update_def)
  with r show ?thesis by (auto simp: claim_prepared_def bind_result_def of_option_def split: option.splits)
qed

lemma claim_prepared_starts:
  assumes "claim_prepared rid owner ls token now db = (Inr l, db')"
  shows "started rid db'"
  using assms
  by (auto simp: claim_prepared_def started_def lease_of_def result_simps
      split: sum.splits option.splits if_splits)

lemma view_of_unleased:
  "lease_token r = [] \<Longrightarrow> hex64 (request_id_sha256 r) \<Longrightarrow> hex64 (idempotency_key_sha256 r) \<Longrightarrow>
     view_of r = Inr r"
  by (cases r) (simp add: view_of_def)

section \<open>A concrete admitted run\<close>

definition sample_digest :: pystr where
  "sample_digest = replicate 64 48"

definition sample_admission :: admission where
  "sample_admission =
     \<lparr>adm_run_id = [114], adm_task_kind = lit ''chat'', adm_source_type = [], adm_source_id = [],
      adm_request_id = [113], adm_idempotency_key = []\<rparr>"

definition sample_row :: RunTaskControl where
  "sample_row =
     \<lparr>run_id = [114], task_kind = CHAT, source_type = [], source_id = [],
      request_id_sha256 = sample_digest, idempotency_key_sha256 = sample_digest,
      status = RUNNING, lease_owner = [97], lease_token = sample_digest,
      lease_generation = 1, attempt_count = 1, lease_expires_at = Some 90000000,
      timeout_at = Some 1200000000, cancel_requested_at = None, cancel_reason = [],
      terminal_reason = [], result_ref = [], delivery_receipt_ref = [],
      created_at = 0, updated_at = 0, finished_at = None\<rparr>"

definition sample_lease :: RunTaskLease where
  "sample_lease =
     \<lparr>lease_run_id = [114], lease_holder = [97], lease_secret = sample_digest, generation = 1,
      attempt_no = 1, expires_at = 90000000, lease_timeout_at = Some 1200000000\<rparr>"

lemma sample_digest_hex: "hex64 sample_digest"
  by (simp add: sample_digest_def hex64_def hex_digit_def list_all_iff)

lemma task_timedelta_nat [simp]: "timedelta_seconds (numeral n) = numeral n * 1000000"
  using round_half_even_int [of "numeral n * 1000000"] by (simp add: timedelta_seconds_def)

lemma sample_admit:
  "admit_running (\<lambda>_. sample_digest) sample_admission [97] (Finite 90) (Finite 1200) []
     sample_digest 0 [] [] = (Inr sample_lease, [([114], sample_row)])"
proof -
  have tok: "safe_text_required 64 sample_digest = Some sample_digest"
    by (rule safe_text_required_clean [OF hex64_clean [OF sample_digest_hex]])
  have names: "safe_text_required 160 [114] = Some [114]" "safe_text_required 128 [97] = Some [97]"
    by (simp_all add: safe_text_required_def safe_text_def py_strip_def py_isspace_def no_control_def)
  have kind: "parse_task_kind (lit ''chat'') = Some CHAT"
    by (simp add: parse_task_kind_def task_kinds_def task_kind_value_def)
  show ?thesis
    using sample_digest_hex hex64_not_Nil [OF sample_digest_hex]
    by (simp add: admit_running_def prepare_running_def new_row_def sample_admission_def
        positive_seconds_def of_option_def names kind tok sha256_text_def or_else_def utf8_char_def
        sql_insert_def row_constraints_def sample_row_def sample_lease_def lease_of_def
        RunTaskLease_post_init_def safe_text_def)
qed

lemma sample_reach: "reach task_step [] [([114], sample_row)]"
proof (rule reach_single)
  show "task_step [] [([114], sample_row)]"
    using step_admit_running [of "\<lambda>_. sample_digest" sample_digest "[]" sample_admission "[97]"
        "Finite 90" "Finite 1200" "[]" 0 "[]"] sample_digest_hex
    by (simp add: sample_admit)
qed

definition sample_settled :: RunTaskControl where
  "sample_settled =
     sample_row\<lparr>status := SUCCEEDED, lease_owner := [], lease_token := [],
                lease_expires_at := None, updated_at := 5, finished_at := Some 5\<rparr>"

lemma sample_settle:
  "settle sample_lease (lit ''succeeded'') [] [] 5 [([114], sample_row)] [([114], sample_row)] =
     (Inr sample_settled, [([114], sample_settled)])"
proof -
  have st: "parse_task_status (lit ''succeeded'') = Some SUCCEEDED"
    by (simp add: parse_task_status_def task_statuses_def task_status_value_def)
  show ?thesis
    using sample_digest_hex
    by (simp add: settle_def st terminal_def lease_matches_def sample_lease_def sample_row_def
        sample_settled_def after_def sql_update_def row_constraints_def view_of_def safe_text_def)
qed

lemma sample_reach_settled: "reach task_step [([114], sample_row)] [([114], sample_settled)]"
proof (rule reach_single)
  show "task_step [([114], sample_row)] [([114], sample_settled)]"
    using step_settle [of "[([114], sample_row)]" sample_lease "lit ''succeeded''" "[]" "[]" 5
        "[([114], sample_row)]"] by (simp add: sample_settle)
qed

section \<open>Properties\<close>

text \<open>C14. In every state the shared table can reach by any interleaving of the service's calls and
  the reconciler's expiry, a run has had at most one execution attempt, its attempt and generation
  numbers agree, it holds an unexpired or expired lease exactly while it is running, and it has a
  finishing time exactly when its status is terminal.\<close>

theorem run_executes_at_most_once:
  assumes "reach task_step [] db" "dict_get db rid = Some r"
  shows "attempt_count r = lease_generation r \<and> 0 \<le> attempt_count r \<and> attempt_count r \<le> 1 \<and>
    (status r = RUNNING \<longrightarrow> attempt_count r = 1) \<and>
    (status r = RUNNING \<longleftrightarrow> lease_expires_at r \<noteq> None) \<and>
    (status r = RUNNING \<longleftrightarrow> lease_token r \<noteq> []) \<and>
    (terminal (status r) \<longleftrightarrow> finished_at r \<noteq> None)"
proof -
  have "row_ok rid r" using task_reachable_inv [OF assms(1)] assms(2) by (simp add: task_inv_def)
  then show ?thesis by (auto simp: row_ok_def row_constraints_def)
qed

theorem run_executes_at_most_once_witness:
  "status sample_row = RUNNING \<and> attempt_count sample_row = 1 \<and> lease_generation sample_row = 1 \<and>
    lease_expires_at sample_row \<noteq> None \<and> lease_token sample_row \<noteq> [] \<and> finished_at sample_row = None"
  using run_executes_at_most_once [OF sample_reach, of "[114]" sample_row]
  by (simp add: sample_row_def terminal_def)



text \<open>Fencing of the final write: on a reachable table, settling succeeds exactly when the
  requested status is terminal and the lease is the current, unexpired lease both of the row that
  was read and of the row that is written. It then records the outcome and releases the lease. In
  every other case it raises and the table is unchanged.\<close>

theorem settle_fenced:
  assumes "reach task_step [] db"
  shows "(case settle l target_value reason ref now seen db of
      (Inr v, db') \<Rightarrow>
        (\<exists>target row r. parse_task_status target_value = Some target \<and> terminal target \<and>
           dict_get seen (lease_run_id l) = Some row \<and> lease_matches row l now \<and>
           dict_get db (lease_run_id l) = Some r \<and> lease_matches r l now \<and>
           v = r\<lparr>status := target, lease_owner := [], lease_token := [], lease_expires_at := None,
                 terminal_reason := safe_text 128 reason, result_ref := safe_text 512 ref,
                 updated_at := now, finished_at := Some now\<rparr> \<and>
           db' = dict_set (lease_run_id l) v db)
    | (Inl e, db') \<Rightarrow> db' = db \<and>
        (if \<exists>target. parse_task_status target_value = Some target \<and> terminal target
         then e = RunTaskLeaseLost \<and>
              \<not> (\<exists>row r. dict_get seen (lease_run_id l) = Some row \<and> lease_matches row l now \<and>
                          dict_get db (lease_run_id l) = Some r \<and> lease_matches r l now)
         else e = TaskValueError))"
proof -
  have inv: "task_inv db" by (rule task_reachable_inv [OF assms])
  then have ok: "row_ok key r" if "dict_get db key = Some r" for key r
    using that by (simp add: task_inv_def)
  show ?thesis
  proof (cases "dict_get db (lease_run_id l)")
    case None
    then show ?thesis
      by (auto simp: settle_def sql_update_def split: option.splits)
  next
    case (Some r)
    from ok [OF Some] show ?thesis
      by (auto simp: settle_def sql_update_def Some row_ok_def view_of_unleased row_constraints_def
          terminal_def split: option.splits)
  qed
qed

theorem settle_fenced_witness:
  "\<exists>v db'. settle sample_lease (lit ''succeeded'') [] [] 5 [([114], sample_row)]
              [([114], sample_row)] = (Inr v, db') \<and> db' = dict_set [114] v [([114], sample_row)]"
  using settle_fenced [OF sample_reach, where l = sample_lease and target_value = "lit ''succeeded''"
      and reason = "[]" and ref = "[]" and now = 5 and seen = "[([114], sample_row)]"]
  by (auto simp: sample_settle)

text \<open>Exclusive claim: once a claim of a prepared run has succeeded, every later claim of that
  run by any owner at any time is refused without changing the table, and so is a second admission
  of the same run id.\<close>

theorem claim_exclusive:
  assumes "claim_prepared rid owner ls token now db = (Inr l, db')" "reach task_step db' t"
  shows "(\<exists>e. claim_prepared rid owner2 ls2 token2 now2 t = (Inl e, t)) \<and>
    (safe_text 160 (adm_run_id a) = rid \<longrightarrow>
       (\<exists>e. admit_running sha256 a owner2 ls2 ts receipt token2 now2 seen t = (Inl e, t)))"
proof -
  have st: "started rid t" using task_starts.reach_inv [OF assms(2) claim_prepared_starts [OF assms(1)]] .
  then obtain r where r: "dict_get t rid = Some r" by (auto simp: started_def)
  have "\<exists>e. admit_running sha256 a owner2 ls2 ts receipt token2 now2 seen t = (Inl e, t)"
    if rid: "safe_text 160 (adm_run_id a) = rid"
  proof (cases "prepare_running sha256 a owner2 ls2 ts receipt token2 now2 seen")
    case (Inr row)
    then have "run_id row = rid"
      using rid by (auto simp: prepare_running_def new_row_def result_simps safe_text_required_Some)
    with Inr r show ?thesis by (simp add: admit_running_def sql_insert_def)
  qed (simp add: admit_running_def)
  with claim_prepared_started [OF st] show ?thesis by blast
qed

definition sample_prepared :: RunTaskControl where
  "sample_prepared =
     sample_row\<lparr>status := ACCEPTED, lease_owner := [], lease_token := [], lease_generation := 0,
                attempt_count := 0, lease_expires_at := None\<rparr>"

lemma safe_text_required_names [simp]:
  "safe_text_required 160 [114] = Some [114]" "safe_text_required 128 [97] = Some [97]"
  "safe_text_required 64 sample_digest = Some sample_digest"
  using safe_text_required_clean [OF hex64_clean [OF sample_digest_hex]]
  by (simp_all add: safe_text_required_def safe_text_def py_strip_def py_isspace_def no_control_def)

lemma sample_claim:
  "claim_prepared [114] [97] (Finite 90) sample_digest 0 [([114], sample_prepared)] =
     (Inr sample_lease, [([114], sample_row)])"
  using hex64_not_Nil [OF sample_digest_hex]
  by (simp add: claim_prepared_def positive_seconds_def of_option_def sample_prepared_def
      sql_update_def claimable_def after_def row_constraints_def sample_row_def lease_of_def
      RunTaskLease_post_init_def sample_lease_def)

theorem claim_exclusive_witness:
  "(\<exists>e. claim_prepared [114] [98] (Finite 90) sample_digest 3 [([114], sample_row)] =
     (Inl e, [([114], sample_row)])) \<and>
    (\<exists>e. admit_running (\<lambda>_. sample_digest) sample_admission [98] (Finite 90) (Finite 1200) []
            sample_digest 3 [] [([114], sample_row)] = (Inl e, [([114], sample_row)]))"
proof -
  have "safe_text 160 (adm_run_id sample_admission) = [114]"
    by (simp add: sample_admission_def safe_text_def py_strip_def py_isspace_def no_control_def)
  with claim_exclusive [OF sample_claim reach_refl] show ?thesis by blast
qed

text \<open>A cancellation request is final for the execution it meets: after it, whatever the other
  processes do, no heartbeat of any lease of that run is renewed, no claim of it succeeds, its
  generation does not change, and the lease that was running is never extended, so it ends no later
  than it would have ended at the request.\<close>

theorem cancel_stops_execution:
  assumes "reach task_step [] db" "dict_get db rid = Some r" "\<not> terminal (status r)"
    and "request_cancel rid reason now db db = (Inr v, s)" "reach task_step s t"
  shows "\<exists>r'. dict_get t rid = Some r' \<and> lease_generation r' = lease_generation r \<and>
    (lease_expires_at r' = lease_expires_at r \<or> lease_expires_at r' = None) \<and>
    (\<exists>e. claim_prepared rid owner ls token now' t = (Inl e, t)) \<and>
    (lease_run_id l = rid \<longrightarrow> snd (heartbeat l ls now' seen t) = t \<and>
       (\<forall>h. fst (heartbeat l ls now' seen t) = Inr h \<longrightarrow> \<not> renewed h))"
proof -
  have inv: "task_inv db" by (rule task_reachable_inv [OF assms(1)])
  have "cancelled_since rid (lease_generation r) (lease_expires_at r) s"
  proof -
    have "task_inv s"
      using table_step_inv [OF request_cancel_step inv, of rid reason now db] assms(4) by simp
    then show ?thesis
      using assms(2-4)
      by (auto simp: cancelled_since_def request_cancel_def orm_flush_def sql_update_def
          bind_result_def require_def split: option.splits if_splits)
  qed
  from task_cancellation.reach_inv [OF assms(5) this]
  obtain r' where r': "dict_get t rid = Some r'" "cancel_requested_at r' \<noteq> None"
    "lease_generation r' = lease_generation r"
    "lease_expires_at r' = lease_expires_at r \<or> lease_expires_at r' = None"
    by (auto simp: cancelled_since_def)
  have "\<not> claimable now' r'" using r'(2) by (simp add: claimable_def)
  with r'(1) have "sql_update rid (claimable now') f t = Inr (0, t)" for f
    by (simp add: sql_update_def)
  with r'(1) have "\<exists>e. claim_prepared rid owner ls token now' t = (Inl e, t)"
    by (auto simp: claim_prepared_def bind_result_def of_option_def split: option.splits)
  moreover have "snd (heartbeat l ls now' seen t) = t \<and>
       (\<forall>h. fst (heartbeat l ls now' seen t) = Inr h \<longrightarrow> \<not> renewed h)" if "lease_run_id l = rid"
    using r'(1,2) that
    by (auto simp: heartbeat_def heartbeat_refused_def RunTaskHeartbeat_post_init_def Let_def
        sql_update_def split: option.splits)
  ultimately show ?thesis using r' by blast
qed

definition sample_cancelled :: RunTaskControl where
  "sample_cancelled =
     sample_row\<lparr>cancel_requested_at := Some 7, cancel_reason := [120], updated_at := 7\<rparr>"

lemma sample_cancel:
  "request_cancel [114] [120] 7 [([114], sample_row)] [([114], sample_row)] =
     (Inr (sample_cancelled\<lparr>lease_token := []\<rparr>), [([114], sample_cancelled)])"
  using sample_digest_hex hex64_not_Nil [OF sample_digest_hex]
  by (simp add: request_cancel_def terminal_def sample_row_def safe_text_required_def safe_text_def
      py_strip_def py_isspace_def no_control_def orm_flush_def sql_update_def row_constraints_def
      view_of_def Let_def sample_cancelled_def)

theorem cancel_stops_execution_witness:
  "lease_generation sample_cancelled = lease_generation sample_row \<and>
    (\<exists>e. claim_prepared [114] [98] (Finite 90) sample_digest 8 [([114], sample_cancelled)] =
         (Inl e, [([114], sample_cancelled)])) \<and>
    snd (heartbeat sample_lease (Finite 90) 8 [([114], sample_row)] [([114], sample_cancelled)]) =
      [([114], sample_cancelled)]"
  using cancel_stops_execution [OF sample_reach _ _ sample_cancel reach_refl, where r = sample_row
      and owner = "[98]" and ls = "Finite 90" and token = sample_digest and now' = 8 and
      l = sample_lease and seen = "[([114], sample_row)]"]
  by (simp add: sample_row_def terminal_def sample_lease_def)

text \<open>An admitted lease works: when the normalised run id and owner survive being normalised a
  second time, the lease returned by \<open>admit_running\<close> lets its holder renew and settle the run at any
  time from the admission until the lease expires.\<close>

theorem admitted_lease_usable:
  assumes "admit_running sha256 a owner ls ts receipt token now seen db = (Inr l, db')"
    and "\<forall>b. hex64 (sha256 b)" "hex64 token"
    and "clean_text 160 (safe_text 160 (adm_run_id a))" "clean_text 128 (safe_text 128 owner)"
    and "now \<le> t" "t < expires_at l"
    and "parse_task_status target_value = Some target" "terminal target"
  shows "(\<exists>v. fst (settle l target_value reason ref t db' db') = Inr v \<and> status v = target) \<and>
    (\<forall>e. lease_timeout_at l = Some e \<longrightarrow> t < e \<longrightarrow> 0 < seconds \<longrightarrow>
       (\<exists>l'. fst (heartbeat l (Finite seconds) t db' db') =
               Inr \<lparr>renewed = True, hb_reason = HB_RENEWED, hb_lease = Some l'\<rparr> \<and>
             expires_at l' = t + timedelta_seconds seconds))"
proof -
  from assms(1) obtain row where prep:
    "prepare_running sha256 a owner ls ts receipt token now seen = Inr row"
    and db': "db' = dict_set (run_id row) row db" and lease: "lease_of row = Inr l"
    by (auto simp: admit_running_def sql_insert_def result_simps split: sum.splits)
  have ids: "run_id row = safe_text 160 (adm_run_id a)" "lease_owner row = safe_text 128 owner"
    "lease_token row = token" "lease_generation row = 1" "attempt_count row = 1"
    using prep by (auto simp: prepare_running_def new_row_def result_simps safe_text_required_Some)
  have ok: "row_ok (run_id row) row" "cancel_requested_at row = None" "status row = RUNNING"
    using admit_running_row_ok [OF prep assms(2) hex64_not_Nil [OF assms(3)]] .
  obtain e where e: "lease_expires_at row = Some e"
    using lease by (auto simp: lease_of_def split: option.splits)
  note norm = safe_text_required_clean [OF assms(4)] safe_text_required_clean [OF assms(5)]
    safe_text_required_clean [OF hex64_clean [OF assms(3)]]
  have l: "l = \<lparr>lease_run_id = run_id row, lease_holder = lease_owner row,
      lease_secret = lease_token row, generation = 1, attempt_no = 1, expires_at = e,
      lease_timeout_at = timeout_at row\<rparr>"
    using lease norm ok(3) by (simp add: lease_of_def e RunTaskLease_post_init_def ids)
  have m: "lease_matches row l t"
    using assms(7) ok(3) by (simp add: lease_matches_def l ids e after_def)
  have "\<exists>v. fst (settle l target_value reason ref t db' db') = Inr v \<and> status v = target"
    using ok(1) m assms(8,9) \<comment> \<open>the guarded update finds the very row that was read\<close>
    by (auto simp: settle_def db' l sql_update_def row_constraints_def row_ok_def view_of_unleased
        terminal_def)
  moreover have "\<exists>l'. fst (heartbeat l (Finite seconds) t db' db') =
               Inr \<lparr>renewed = True, hb_reason = HB_RENEWED, hb_lease = Some l'\<rparr> \<and>
             expires_at l' = t + timedelta_seconds seconds"
    if "lease_timeout_at l = Some u" "t < u" "0 < seconds" for u
  proof -
    have to: "timeout_at row = Some u" using that(1) by (simp add: l)
    have con: "row_constraints (row\<lparr>lease_expires_at := Some x, updated_at := t\<rparr>)" for x
      using ok(1,3) by (auto simp: row_ok_def row_constraints_def)
    show ?thesis
      using m ok that norm con
      by (simp add: heartbeat_def db' l to positive_seconds_def terminal_def due_def after_def
          sql_update_def Let_def RunTaskLease_post_init_def RunTaskHeartbeat_post_init_def ids)
  qed
  ultimately show ?thesis by blast
qed

theorem admitted_lease_usable_witness:
  "(\<exists>v. fst (settle sample_lease (lit ''failed'') [] [] 5 [([114], sample_row)]
          [([114], sample_row)]) = Inr v \<and> status v = FAILED) \<and>
    (\<exists>l'. fst (heartbeat sample_lease (Finite 60) 5 [([114], sample_row)] [([114], sample_row)]) =
               Inr \<lparr>renewed = True, hb_reason = HB_RENEWED, hb_lease = Some l'\<rparr> \<and>
             expires_at l' = 5 + timedelta_seconds 60)"
proof -
  have "(\<exists>v. fst (settle sample_lease (lit ''failed'') [] [] 5 [([114], sample_row)]
          [([114], sample_row)]) = Inr v \<and> status v = FAILED) \<and>
    (\<forall>e. lease_timeout_at sample_lease = Some e \<longrightarrow> 5 < e \<longrightarrow> (0 :: rat) < 60 \<longrightarrow>
       (\<exists>l'. fst (heartbeat sample_lease (Finite 60) 5 [([114], sample_row)] [([114], sample_row)]) =
               Inr \<lparr>renewed = True, hb_reason = HB_RENEWED, hb_lease = Some l'\<rparr> \<and>
             expires_at l' = 5 + timedelta_seconds 60))"
    by (rule admitted_lease_usable [OF sample_admit])
      (simp_all add: sample_digest_hex sample_admission_def sample_lease_def clean_text_def
        safe_text_def py_strip_def py_isspace_def no_control_def parse_task_status_def
        task_statuses_def task_status_value_def terminal_def)
  moreover have "\<exists>e. lease_timeout_at sample_lease = Some e \<and> 5 < e" by (simp add: sample_lease_def)
  ultimately show ?thesis by auto
qed


end
