(* ===== verification/Json_Text.thy ===== *)
theory Json_Text
  imports Python_Text
begin

text \<open>
  The JSON codec of Python's standard library as the ledger uses it:
  \<open>json.dumps(value, ensure_ascii=False, sort_keys=True, separators=(",", ":"))\<close> and
  \<open>json.loads\<close>. The shortest representation of a float and the reading of one are
  arguments (\<open>float_repr\<close>, \<open>float_of\<close>); everything else is computed. The parser is given
  fuel, and it is proved that the length of the text is always enough. The limit on the
  depth of nested values is not modelled; the limit of 4300 digits of an integer is.
\<close>

section \<open>Printing\<close>

definition hex_char :: "nat \<Rightarrow> nat" where
  "hex_char d = (if d < 10 then 48 + d else 87 + d)"

definition escape_char :: "nat \<Rightarrow> pystr" where
  "escape_char c =
     (if c = 34 then [92, 34] else if c = 92 then [92, 92]
      else if c = 10 then [92, 110] else if c = 13 then [92, 114] else if c = 9 then [92, 116]
      else if c = 12 then [92, 102] else if c = 8 then [92, 98]
      else if c < 32 then [92, 117, 48, 48, hex_char (c div 16), hex_char (c mod 16)]
      else [c])"

definition dump_string :: "pystr \<Rightarrow> pystr" where
  "dump_string s = 34 # concat (map escape_char s) @ [34]"

definition dump_int :: "int \<Rightarrow> pystr" where
  "dump_int n = (if n < 0 then 45 # py_digits (nat (- n)) else py_digits (nat n))"

definition dump_float :: "(rat \<Rightarrow> pystr) \<Rightarrow> pyfloat \<Rightarrow> pystr" where
  "dump_float float_repr x =
     (case x of Finite q \<Rightarrow> float_repr q | Infinite True \<Rightarrow> lit ''Infinity''
      | Infinite False \<Rightarrow> lit ''-Infinity'' | NotANumber \<Rightarrow> lit ''NaN'')"

fun dumps :: "(rat \<Rightarrow> pystr) \<Rightarrow> json \<Rightarrow> pystr" where
  "dumps fr JNull = lit ''null''"
| "dumps fr (JBool b) = (if b then lit ''true'' else lit ''false'')"
| "dumps fr (JInt n) = dump_int n"
| "dumps fr (JFloat x) = dump_float fr x"
| "dumps fr (JStr s) = dump_string s"
| "dumps fr (JList xs) = 91 # join_char 44 (map (dumps fr) xs) @ [93]"
| "dumps fr (JObject d) =
     123 # join_char 44
       (map (\<lambda>kv. dump_string (fst kv) @ 58 # snd kv)
          (sort_key fst (map (\<lambda>kv. (fst kv, dumps fr (snd kv))) d))) @ [125]"

section \<open>Parsing\<close>

datatype json_error = JSONDecodeError | JSONValueError | JSONOutOfFuel

definition json_ws :: "nat \<Rightarrow> bool" where
  "json_ws c \<longleftrightarrow> c = 32 \<or> c = 9 \<or> c = 10 \<or> c = 13"

definition skip_ws :: "pystr \<Rightarrow> pystr" where
  "skip_ws s = dropWhile json_ws s"

text \<open>The text after a given first character.\<close>

definition eat :: "nat \<Rightarrow> pystr \<Rightarrow> pystr option" where
  "eat c s = (case s of [] \<Rightarrow> None | x # xs \<Rightarrow> if x = c then Some xs else None)"

lemma eat_Cons [simp]: "eat c (x # xs) = (if x = c then Some xs else None)"
  by (simp add: eat_def)

lemma eat_Nil [simp]: "eat c [] = None"
  by (simp add: eat_def)

lemma eat_Some: "eat c s = Some t \<longleftrightarrow> s = c # t"
  by (auto simp: eat_def split: list.splits if_splits)

definition hex_value :: "nat \<Rightarrow> nat option" where
  "hex_value c =
     (if 48 \<le> c \<and> c \<le> 57 then Some (c - 48) else if 97 \<le> c \<and> c \<le> 102 then Some (c - 87)
      else if 65 \<le> c \<and> c \<le> 70 then Some (c - 55) else None)"

text \<open>Four hexadecimal digits after \<open>\u\<close>.\<close>

definition parse_hex4 :: "pystr \<Rightarrow> (nat \<times> pystr) option" where
  "parse_hex4 s =
     (case s of
        a # b # c # d # rest \<Rightarrow>
          (case (hex_value a, hex_value b, hex_value c, hex_value d) of
             (Some w, Some x, Some y, Some z) \<Rightarrow> Some (4096 * w + 256 * x + 16 * y + z, rest)
           | _ \<Rightarrow> None)
      | _ \<Rightarrow> None)"

definition simple_escape :: "nat \<Rightarrow> nat option" where
  "simple_escape c =
     (if c = 34 \<or> c = 92 \<or> c = 47 then Some c else if c = 98 then Some 8
      else if c = 102 then Some 12 else if c = 110 then Some 10 else if c = 114 then Some 13
      else if c = 116 then Some 9 else None)"

text \<open>A code unit read after \<open>\u\<close>, joined with a low surrogate that follows it.\<close>

definition join_surrogates :: "nat \<Rightarrow> pystr \<Rightarrow> nat \<times> pystr" where
  "join_surrogates u rest =
     (if 55296 \<le> u \<and> u \<le> 56319 then
        (case Option.bind (Option.bind (eat 92 rest) (eat 117)) parse_hex4 of
           None \<Rightarrow> (u, rest)
         | Some vr \<Rightarrow>
             if 56320 \<le> fst vr \<and> fst vr \<le> 57343
             then (65536 + (u - 55296) * 1024 + (fst vr - 56320), snd vr) else (u, rest))
      else (u, rest))"

lemma parse_hex4_length: "parse_hex4 s = Some (u, r) \<Longrightarrow> length r < length s"
  by (auto simp: parse_hex4_def split: list.splits option.splits)

lemma join_surrogates_length: "length (snd (join_surrogates u rest)) \<le> length rest"
  by (auto simp: join_surrogates_def eat_Some split: option.splits bind_splits
      dest!: parse_hex4_length)

text \<open>The characters of a string after its opening quote.\<close>

function parse_string :: "pystr \<Rightarrow> json_error + (pystr \<times> pystr)" where
  "parse_string s =
     (case s of
        [] \<Rightarrow> Inl JSONDecodeError
      | c # cs \<Rightarrow>
          if c = 34 then Inr ([], cs)
          else if c = 92 then
            (case cs of
               [] \<Rightarrow> Inl JSONDecodeError
             | e # rest \<Rightarrow>
                 if e = 117 then
                   (case parse_hex4 rest of
                      None \<Rightarrow> Inl JSONDecodeError
                    | Some ur \<Rightarrow>
                        let jr = join_surrogates (fst ur) (snd ur)
                        in bind_result (parse_string (snd jr)) (\<lambda>p. Inr (fst jr # fst p, snd p)))
                 else
                   (case simple_escape e of
                      None \<Rightarrow> Inl JSONDecodeError
                    | Some c' \<Rightarrow> bind_result (parse_string rest) (\<lambda>p. Inr (c' # fst p, snd p))))
          else if c < 32 then Inl JSONDecodeError
          else bind_result (parse_string cs) (\<lambda>p. Inr (c # fst p, snd p)))"
  by auto
termination
proof (relation "measure length", goal_cases)
  case (2 s c cs e rest ur jr)
  have "length (snd jr) \<le> length (snd ur)" using 2 join_surrogates_length by simp
  also have "\<dots> < length rest" using 2 parse_hex4_length [of rest "fst ur" "snd ur"] by simp
  finally show ?case using 2 by simp
qed simp_all

declare parse_string.simps [simp del]

text \<open>
  The longest number at the front of the text: the sign, the integer digits, and the
  fraction and exponent when they are complete.
\<close>

definition fraction_part :: "pystr \<Rightarrow> pystr" where
  "fraction_part rest =
     (case eat 46 rest of
        None \<Rightarrow> []
      | Some more \<Rightarrow> if takeWhile is_digit more = [] then [] else 46 # takeWhile is_digit more)"

definition exponent_part :: "pystr \<Rightarrow> pystr" where
  "exponent_part rest =
     (case rest of
        [] \<Rightarrow> []
      | e # more \<Rightarrow>
          let sign = (if eat 43 more \<noteq> None \<or> eat 45 more \<noteq> None then take 1 more else []);
              digits = takeWhile is_digit (drop (length sign) more)
          in if (e = 101 \<or> e = 69) \<and> digits \<noteq> [] then e # sign @ digits else [])"

definition number_end :: "pystr \<Rightarrow> pystr \<Rightarrow> pystr \<times> bool \<times> pystr" where
  "number_end whole rest =
     (let frac = fraction_part rest;
          rest1 = drop (length frac) rest;
          expo = exponent_part rest1
      in (whole @ frac @ expo, frac \<noteq> [] \<or> expo \<noteq> [], drop (length expo) rest1))"

definition integer_digits :: "pystr \<Rightarrow> pystr" where
  "integer_digits body = (if eat 48 body \<noteq> None then [48] else takeWhile is_digit body)"

definition parse_number :: "(pystr \<Rightarrow> pyfloat) \<Rightarrow> pystr \<Rightarrow> json_error + (json \<times> pystr)" where
  "parse_number float_of s =
     (let neg = (eat 45 s \<noteq> None);
          body = (if neg then tl s else s);
          digits = integer_digits body;
          sign = (if neg then [45] else [])
      in if digits = [] then Inl JSONDecodeError
         else
           let ne = number_end (sign @ digits) (drop (length digits) body)
           in if fst (snd ne) then Inr (JFloat (float_of (fst ne)), snd (snd ne))
              else if length digits > 4300 then Inl JSONValueError
              else Inr (JInt (if neg then - int (digits_value digits) else int (digits_value digits)),
                        snd (snd ne)))"

definition starts :: "string \<Rightarrow> pystr \<Rightarrow> bool" where
  "starts w s = startswith s (lit w)"

text \<open>
  \<open>scan_once\<close>. A member of an object is parsed by \<open>parse_members\<close>, which starts at the quote
  of a key; an element of an array by \<open>parse_elements\<close>.
\<close>

fun parse_value :: "(pystr \<Rightarrow> pyfloat) \<Rightarrow> nat \<Rightarrow> pystr \<Rightarrow> json_error + (json \<times> pystr)"
  and parse_members :: "(pystr \<Rightarrow> pyfloat) \<Rightarrow> nat \<Rightarrow> pystr \<Rightarrow> json_error + ((pystr \<times> json) list \<times> pystr)"
  and parse_elements :: "(pystr \<Rightarrow> pyfloat) \<Rightarrow> nat \<Rightarrow> pystr \<Rightarrow> json_error + (json list \<times> pystr)" where
  "parse_value fo 0 s = Inl JSONOutOfFuel"
| "parse_value fo (Suc n) s =
     (case s of
        [] \<Rightarrow> Inl JSONDecodeError
      | c # cs \<Rightarrow>
          if c = 34 then bind_result (parse_string cs) (\<lambda>p. Inr (JStr (fst p), snd p))
          else if c = 123 then
            (case eat 125 (skip_ws cs) of
               Some rest \<Rightarrow> Inr (JObject [], rest)
             | None \<Rightarrow> bind_result (parse_members fo n (skip_ws cs))
                      (\<lambda>p. Inr (JObject (fold (\<lambda>kv. dict_set (fst kv) (snd kv)) (fst p) []), snd p)))
          else if c = 91 then
            (case eat 93 (skip_ws cs) of
               Some rest \<Rightarrow> Inr (JList [], rest)
             | None \<Rightarrow> bind_result (parse_elements fo n (skip_ws cs)) (\<lambda>p. Inr (JList (fst p), snd p)))
          else if starts ''null'' s then Inr (JNull, drop 4 s)
          else if starts ''true'' s then Inr (JBool True, drop 4 s)
          else if starts ''false'' s then Inr (JBool False, drop 5 s)
          else if starts ''NaN'' s then Inr (JFloat NotANumber, drop 3 s)
          else if starts ''Infinity'' s then Inr (JFloat (Infinite True), drop 8 s)
          else if starts ''-Infinity'' s then Inr (JFloat (Infinite False), drop 9 s)
          else parse_number fo s)"
| "parse_members fo 0 s = Inl JSONOutOfFuel"
| "parse_members fo (Suc n) s =
     (case eat 34 s of
        None \<Rightarrow> Inl JSONDecodeError
      | Some cs \<Rightarrow>
          bind_result (parse_string cs) (\<lambda>k.
            (case eat 58 (skip_ws (snd k)) of
               None \<Rightarrow> Inl JSONDecodeError
             | Some rest \<Rightarrow>
                 bind_result (parse_value fo n (skip_ws rest)) (\<lambda>v.
                   (case eat 125 (skip_ws (snd v)) of
                      Some rest2 \<Rightarrow> Inr ([(fst k, fst v)], rest2)
                    | None \<Rightarrow>
                        (case eat 44 (skip_ws (snd v)) of
                           None \<Rightarrow> Inl JSONDecodeError
                         | Some rest2 \<Rightarrow>
                             bind_result (parse_members fo n (skip_ws rest2))
                               (\<lambda>p. Inr ((fst k, fst v) # fst p, snd p))))))))"
| "parse_elements fo 0 s = Inl JSONOutOfFuel"
| "parse_elements fo (Suc n) s =
     bind_result (parse_value fo n s) (\<lambda>v.
       (case eat 93 (skip_ws (snd v)) of
          Some rest \<Rightarrow> Inr ([fst v], rest)
        | None \<Rightarrow>
            (case eat 44 (skip_ws (snd v)) of
               None \<Rightarrow> Inl JSONDecodeError
             | Some rest \<Rightarrow>
                 bind_result (parse_elements fo n (skip_ws rest)) (\<lambda>p. Inr (fst v # fst p, snd p)))))"

declare parse_value.simps(2) [simp del] parse_members.simps(2) [simp del]
  parse_elements.simps(2) [simp del]

definition loads :: "(pystr \<Rightarrow> pyfloat) \<Rightarrow> pystr \<Rightarrow> json_error + json" where
  "loads float_of s =
     (if s \<noteq> [] \<and> hd s = 65279 then Inl JSONDecodeError
      else bind_result (parse_value float_of (2 * length s + 2) (skip_ws s)) (\<lambda>p.
             if skip_ws (snd p) = [] then Inr (fst p) else Inl JSONDecodeError))"

section \<open>The fuel is enough\<close>

lemma skip_ws_length: "length (skip_ws s) \<le> length s"
  by (simp add: skip_ws_def length_dropWhile_le)

lemma eat_length: "eat c s = Some t \<Longrightarrow> length s = Suc (length t)"
  by (simp add: eat_Some)

lemma parse_string_Nil [simp]: "parse_string [] = Inl JSONDecodeError"
  by (subst parse_string.simps) simp

lemma parse_string_Cons:
  "parse_string (c # cs) =
     (if c = 34 then Inr ([], cs)
      else if c = 92 then
        (case cs of
           [] \<Rightarrow> Inl JSONDecodeError
         | e # rest \<Rightarrow>
             if e = 117 then
               (case parse_hex4 rest of
                  None \<Rightarrow> Inl JSONDecodeError
                | Some ur \<Rightarrow>
                    let jr = join_surrogates (fst ur) (snd ur)
                    in bind_result (parse_string (snd jr)) (\<lambda>p. Inr (fst jr # fst p, snd p)))
             else
               (case simple_escape e of
                  None \<Rightarrow> Inl JSONDecodeError
                | Some c' \<Rightarrow> bind_result (parse_string rest) (\<lambda>p. Inr (c' # fst p, snd p))))
      else if c < 32 then Inl JSONDecodeError
      else bind_result (parse_string cs) (\<lambda>p. Inr (c # fst p, snd p)))"
  by (subst parse_string.simps) (simp only: list.case)

lemma parse_string_length: "parse_string s = Inr (t, r) \<Longrightarrow> length r < length s"
proof (induction s arbitrary: t r rule: parse_string.induct)
  case (1 s)
  show ?case
  proof (cases s)
    case Nil
    then show ?thesis using "1.prems" by simp
  next
    case (Cons c cs)
    note eq = "1.prems" [unfolded Cons parse_string_Cons [of c cs]]
    consider "c = 34" | "c = 92" | "c \<noteq> 34" "c \<noteq> 92" by blast
    then show ?thesis
    proof cases
      case 1
      then show ?thesis using eq Cons by simp
    next
      case 2
      obtain e rest where cs: "cs = e # rest" using eq 2 by (cases cs) auto
      show ?thesis
      proof (cases "e = 117")
        case True
        then obtain u r0 where h: "parse_hex4 rest = Some (u, r0)" using eq 2 cs
          by (auto split: option.splits)
        then obtain t' where ps: "parse_string (snd (join_surrogates u r0)) = Inr (t', r)"
          using eq 2 cs True by (auto simp: result_simps Let_def)
        have "length r < length (snd (join_surrogates u r0))"
          using "1.IH"(1) [OF Cons _ 2 cs True h _ ] ps 2 by simp
        then show ?thesis
          using join_surrogates_length [of u r0] parse_hex4_length [OF h] Cons cs by simp
      next
        case False
        then obtain c' t' where "simple_escape e = Some c'" "parse_string rest = Inr (t', r)"
          using eq 2 cs by (auto simp: result_simps split: option.splits)
        then show ?thesis using "1.IH"(2) [OF Cons _ 2 cs False] 2 Cons cs by fastforce
      qed
    next
      case 3
      then obtain t' where "c \<ge> 32" "parse_string cs = Inr (t', r)"
        using eq by (auto simp: result_simps split: if_splits)
      then show ?thesis using "1.IH"(3) [OF Cons 3] Cons by fastforce
    qed
  qed
qed

lemma number_end_length: "length (snd (snd (number_end w r))) \<le> length r"
  by (simp add: number_end_def Let_def)

lemma parse_number_length: "parse_number fo s = Inr (j, r) \<Longrightarrow> length r < length s"
proof -
  assume pn: "parse_number fo s = Inr (j, r)"
  let ?body = "if eat 45 s \<noteq> None then tl s else s"
  let ?digits = "integer_digits ?body"
  let ?sign = "if eat 45 s \<noteq> None then [45] else []"
  have ne: "?digits \<noteq> []" and r: "r = snd (snd (number_end (?sign @ ?digits) (drop (length ?digits) ?body)))"
    using pn by (auto simp: parse_number_def Let_def split: if_splits)
  have "length r \<le> length (drop (length ?digits) ?body)" unfolding r by (rule number_end_length)
  also have "\<dots> < length ?body"
  proof -
    have "?body \<noteq> []" using ne by (auto simp: integer_digits_def split: if_splits)
    then show ?thesis using ne by auto
  qed
  also have "\<dots> \<le> length s" by simp
  finally show ?thesis .
qed

lemma starts_length: "starts w s \<Longrightarrow> length w \<le> length s"
proof -
  assume "starts w s"
  then have "take (length w) s = lit w" by (simp add: starts_def startswith_def lit_def)
  then have "length (take (length w) s) = length w" by (simp add: lit_def)
  then show ?thesis by simp
qed

lemma parse_length:
  "parse_value fo n s = Inr (v, r) \<Longrightarrow> length r < length s"
  "parse_members fo n s = Inr (ms, r) \<Longrightarrow> length r < length s"
  "parse_elements fo n s = Inr (es, r) \<Longrightarrow> length r < length s"
proof (induction n arbitrary: s v ms es r)
  case (Suc n)
  note skip = skip_ws_length
  {
    case 1
    then obtain c cs where s: "s = c # cs" by (cases s) (auto simp: parse_value.simps)
    consider (str) "c = 34" | (obj) "c = 123" | (arr) "c = 91"
      | (oth) "c \<noteq> 34" "c \<noteq> 123" "c \<noteq> 91" by blast
    then show ?case
    proof cases
      case str
      then show ?thesis using 1 by (auto simp: s parse_value.simps result_simps dest: parse_string_length)
    next
      case obj
      show ?thesis
      proof (cases "eat 125 (skip_ws cs)")
        case None
        then obtain ms where "parse_members fo n (skip_ws cs) = Inr (ms, r)"
          using 1 obj by (auto simp: s parse_value.simps result_simps)
        from Suc.IH(2) [OF this] skip [of cs] show ?thesis by (simp add: s)
      next
        case (Some t)
        then show ?thesis using 1 obj eat_length [OF Some] skip [of cs]
          by (simp add: s parse_value.simps)
      qed
    next
      case arr
      show ?thesis
      proof (cases "eat 93 (skip_ws cs)")
        case None
        then obtain es where "parse_elements fo n (skip_ws cs) = Inr (es, r)"
          using 1 arr by (auto simp: s parse_value.simps result_simps)
        from Suc.IH(3) [OF this] skip [of cs] show ?thesis by (simp add: s)
      next
        case (Some t)
        then show ?thesis using 1 arr eat_length [OF Some] skip [of cs]
          by (simp add: s parse_value.simps)
      qed
    next
      case oth
      have dr: "k > 0 \<Longrightarrow> length (drop k (c # cs)) < length (c # cs)" for k by simp
      from 1 oth show ?thesis
        unfolding s parse_value.simps(2) list.case
        by (auto split: if_splits dest: parse_number_length simp del: drop_Suc_Cons
            simp: dr simp flip: length_Cons)
    qed
  next
    case 2
    then obtain cs k r1 rest v1 r2 where
      e1: "eat 34 s = Some cs" and ps: "parse_string cs = Inr (k, r1)"
      and e2: "eat 58 (skip_ws r1) = Some rest"
      and pv: "parse_value fo n (skip_ws rest) = Inr (v1, r2)"
      by (auto simp: parse_members.simps result_simps split: option.splits)
    have len: "length r2 < length s"
      using eat_length [OF e1] parse_string_length [OF ps] eat_length [OF e2] Suc.IH(1) [OF pv]
        skip [of r1] skip [of rest] by simp
    show ?case
    proof (cases "eat 125 (skip_ws r2)")
      case (Some r3)
      then show ?thesis using 2 e1 ps e2 pv len eat_length [OF Some] skip [of r2]
        by (simp add: parse_members.simps)
    next
      case None
      then obtain r3 ms' where "eat 44 (skip_ws r2) = Some r3"
        "parse_members fo n (skip_ws r3) = Inr (ms', r)"
        using 2 e1 ps e2 pv by (auto simp: parse_members.simps result_simps split: option.splits)
      from eat_length [OF this(1)] Suc.IH(2) [OF this(2)] len skip [of r2] skip [of r3]
      show ?thesis by simp
    qed
  next
    case 3
    then obtain v1 r2 where pv: "parse_value fo n s = Inr (v1, r2)"
      by (auto simp: parse_elements.simps result_simps)
    note len = Suc.IH(1) [OF pv]
    show ?case
    proof (cases "eat 93 (skip_ws r2)")
      case (Some r3)
      then show ?thesis using 3 pv len eat_length [OF Some] skip [of r2]
        by (simp add: parse_elements.simps)
    next
      case None
      then obtain r3 es' where "eat 44 (skip_ws r2) = Some r3"
        "parse_elements fo n (skip_ws r3) = Inr (es', r)"
        using 3 pv by (auto simp: parse_elements.simps result_simps split: option.splits)
      from eat_length [OF this(1)] Suc.IH(3) [OF this(2)] len skip [of r2] skip [of r3]
      show ?thesis by simp
    qed
  }
qed simp_all

lemma bind_result_Inl [result_simps]:
  "bind_result r f = Inl e \<longleftrightarrow> r = Inl e \<or> (\<exists>x. r = Inr x \<and> f x = Inl e)"
  by (cases r) auto

lemma parse_string_fuel: "parse_string s \<noteq> Inl JSONOutOfFuel"
proof (induction s rule: length_induct)
  case (1 s)
  have IH: "parse_string t \<noteq> Inl JSONOutOfFuel" if "length t < length s" for t
    using 1 that by blast
  show ?case
  proof (cases s)
    case (Cons c cs)
    have tl: "parse_string cs \<noteq> Inl JSONOutOfFuel" using IH Cons by simp
    have esc: "(case simple_escape e of None \<Rightarrow> Inl JSONDecodeError
        | Some c' \<Rightarrow> bind_result (parse_string rest) (\<lambda>p. Inr (c' # fst p, snd p))) \<noteq> Inl JSONOutOfFuel"
      if "cs = e # rest" for e rest
      using IH [of rest] that Cons by (auto simp: result_simps split: option.splits)
    have uni: "(case parse_hex4 rest of None \<Rightarrow> Inl JSONDecodeError
        | Some ur \<Rightarrow> let jr = join_surrogates (fst ur) (snd ur)
            in bind_result (parse_string (snd jr)) (\<lambda>p. Inr (fst jr # fst p, snd p))) \<noteq> Inl JSONOutOfFuel"
      if "cs = e # rest" for e rest
    proof (cases "parse_hex4 rest")
      case (Some ur)
      have "length (snd (join_surrogates (fst ur) (snd ur))) < length s"
        using join_surrogates_length [of "fst ur" "snd ur"] that Cons
          parse_hex4_length [of rest "fst ur" "snd ur"] Some by simp
      from IH [OF this] Some show ?thesis by (auto simp: result_simps Let_def)
    qed simp
    show ?thesis
      unfolding Cons parse_string_Cons
      using tl esc uni by (cases cs) (auto simp: result_simps)
  qed simp
qed

lemma parse_number_fuel: "parse_number fo s \<noteq> Inl JSONOutOfFuel"
  by (simp add: parse_number_def Let_def)

lemma parse_fuel:
  "2 * length s < n \<Longrightarrow> parse_value fo n s \<noteq> Inl JSONOutOfFuel"
  "2 * length s < n \<Longrightarrow> parse_members fo n s \<noteq> Inl JSONOutOfFuel"
  "2 * length s + 1 < n \<Longrightarrow> parse_elements fo n s \<noteq> Inl JSONOutOfFuel"
proof (induction n arbitrary: s)
  case (Suc n)
  note skip = skip_ws_length
  {
    case 1
    show ?case
    proof (cases s)
      case (Cons c cs)
      have "parse_members fo n (skip_ws cs) \<noteq> Inl JSONOutOfFuel"
        using 1 Cons skip [of cs] by (intro Suc.IH(2)) simp
      moreover have "parse_elements fo n (skip_ws cs) \<noteq> Inl JSONOutOfFuel"
        using 1 Cons skip [of cs] by (intro Suc.IH(3)) simp
      ultimately show ?thesis
        by (auto simp: Cons parse_value.simps(2) result_simps parse_string_fuel parse_number_fuel
            split: option.splits)
    qed (simp add: parse_value.simps)
  next
    case 2
    show ?case
    proof
      assume oof: "parse_members fo (Suc n) s = Inl JSONOutOfFuel"
      then obtain cs k r1 rest where e1: "eat 34 s = Some cs" and ps: "parse_string cs = Inr (k, r1)"
        and e2: "eat 58 (skip_ws r1) = Some rest"
        by (auto simp: parse_members.simps result_simps parse_string_fuel split: option.splits)
      have len: "length rest < length s"
        using eat_length [OF e1] parse_string_length [OF ps] eat_length [OF e2] skip [of r1] by simp
      have "parse_value fo n (skip_ws rest) \<noteq> Inl JSONOutOfFuel"
        using 2 len skip [of rest] by (intro Suc.IH(1)) simp
      then obtain v r2 r3 where pv: "parse_value fo n (skip_ws rest) = Inr (v, r2)"
        and e3: "eat 44 (skip_ws r2) = Some r3"
        and pm: "parse_members fo n (skip_ws r3) = Inl JSONOutOfFuel"
        using oof e1 ps e2 by (auto simp: parse_members.simps result_simps split: option.splits)
      have "length r3 < length s"
        using len parse_length(1) [OF pv] eat_length [OF e3] skip [of r2] skip [of rest] by simp
      then have "parse_members fo n (skip_ws r3) \<noteq> Inl JSONOutOfFuel"
        using 2 skip [of r3] by (intro Suc.IH(2)) simp
      with pm show False by simp
    qed
  next
    case 3
    show ?case
    proof
      assume oof: "parse_elements fo (Suc n) s = Inl JSONOutOfFuel"
      have "parse_value fo n s \<noteq> Inl JSONOutOfFuel" using 3 by (intro Suc.IH(1)) simp
      then obtain v r2 r3 where pv: "parse_value fo n s = Inr (v, r2)"
        and e3: "eat 44 (skip_ws r2) = Some r3"
        and pe: "parse_elements fo n (skip_ws r3) = Inl JSONOutOfFuel"
        using oof by (auto simp: parse_elements.simps result_simps split: option.splits)
      have "length r3 < length s"
        using parse_length(1) [OF pv] eat_length [OF e3] skip [of r2] by simp
      then have "parse_elements fo n (skip_ws r3) \<noteq> Inl JSONOutOfFuel"
        using 3 skip [of r3] by (intro Suc.IH(3)) simp
      with pe show False by simp
    qed
  }
qed simp_all

lemma loads_fuel: "loads fo s \<noteq> Inl JSONOutOfFuel"
  using parse_fuel(1) [of "skip_ws s" "2 * length s + 2" fo] skip_ws_length [of s]
  by (auto simp: loads_def result_simps)

section \<open>Reading back what was printed\<close>

text \<open>The text after a value that was printed inside another one or on its own.\<close>

definition delimited :: "pystr \<Rightarrow> bool" where
  "delimited rest \<longleftrightarrow> rest = [] \<or> hd rest = 44 \<or> hd rest = 93 \<or> hd rest = 125"

lemma hex_value_hex_char [simp]: "d < 16 \<Longrightarrow> hex_value (hex_char d) = Some d"
  by (auto simp: hex_value_def hex_char_def)

lemma parse_string_dump: "parse_string (concat (map escape_char s) @ 34 # rest) = Inr (s, rest)"
proof (induction s)
  case Nil
  show ?case by (simp add: parse_string_Cons)
next
  case (Cons c s)
  let ?t = "concat (map escape_char s) @ 34 # rest"
  have "parse_string (escape_char c @ ?t) = Inr (c # s, rest)"
  proof (cases "c < 32 \<and> c \<notin> {10, 13, 9, 12, 8}")
    case True
    then have "c div 16 < 16" "16 * (c div 16) + c mod 16 = c" by auto
    then have "parse_hex4 (48 # 48 # hex_char (c div 16) # hex_char (c mod 16) # ?t) = Some (c, ?t)"
      by (simp add: parse_hex4_def hex_value_def [of 48])
    then show ?thesis
      using True Cons by (simp add: escape_char_def [of c] parse_string_Cons [of 92] join_surrogates_def Let_def)
  next
    case False
    then show ?thesis
      using Cons by (auto simp: escape_char_def [of c] parse_string_Cons [of 92] parse_string_Cons [of c]
          simple_escape_def)
  qed
  then show ?case by simp
qed

lemma takeWhile_digits_delimited:
  assumes "delimited rest" "\<forall>c \<in> set ds. is_digit c"
  shows "takeWhile is_digit (ds @ rest) = ds" "number_end w rest = (w, False, rest)"
proof -
  have h: "rest = [] \<or> \<not> is_digit (hd rest)" using assms(1) by (auto simp: delimited_def is_digit_def)
  then have "takeWhile is_digit rest = []" by (cases rest) auto
  then show "takeWhile is_digit (ds @ rest) = ds" using assms(2) by (simp add: takeWhile_append2)
  show "number_end w rest = (w, False, rest)"
    using assms(1)
    by (cases rest) (auto simp: number_end_def fraction_part_def exponent_part_def delimited_def Let_def)
qed

lemma parse_number_digits:
  assumes "delimited rest" "ds \<noteq> []" "length ds \<le> 4300" "\<forall>c \<in> set ds. is_digit c"
    and "integer_digits (ds @ rest) = ds"
  shows "parse_number fo (45 # ds @ rest) = Inr (JInt (- int (digits_value ds)), rest)"
    and "parse_number fo (ds @ rest) = Inr (JInt (int (digits_value ds)), rest)"
proof -
  note ne = takeWhile_digits_delimited(2) [OF assms(1,4)]
  have e45: "eat 45 (ds @ rest) = None"
    using assms(2,4) by (cases ds) (auto simp: is_digit_def)
  show "parse_number fo (45 # ds @ rest) = Inr (JInt (- int (digits_value ds)), rest)"
    using assms(2,3) unfolding parse_number_def Let_def by (simp add: assms(5) ne)
  show "parse_number fo (ds @ rest) = Inr (JInt (int (digits_value ds)), rest)"
    using assms(2,3) unfolding parse_number_def Let_def e45 by (simp add: assms(5) ne)
qed

lemma parse_number_dump:
  assumes "delimited rest" "length (py_digits (nat \<bar>n\<bar>)) \<le> 4300"
  shows "parse_number fo (dump_int n @ rest) = Inr (JInt n, rest)"
proof -
  let ?ds = "py_digits (nat \<bar>n\<bar>)"
  have dig: "\<forall>c \<in> set ?ds. is_digit c" by (rule py_digits_digits)
  obtain d ds where ds: "?ds = d # ds" by (metis neq_Nil_conv py_digits_not_Nil)
  have z: "integer_digits (?ds @ rest) = ?ds"
  proof (cases "d = 48")
    case True
    then have "nat \<bar>n\<bar> = 0" using hd_py_digits_zero ds by (metis list.sel(1))
    then have "?ds = [48]" by (simp add: py_digits.simps)
    then show ?thesis by (simp add: integer_digits_def)
  next
    case False
    then show ?thesis
      using takeWhile_digits_delimited(1) [OF assms(1) dig] ds by (simp add: integer_digits_def)
  qed
  note pn = parse_number_digits [OF assms(1) py_digits_not_Nil assms(2) dig z]
  show ?thesis
  proof (cases "n < 0")
    case True
    then show ?thesis using pn(1) by (simp add: dump_int_def)
  next
    case False
    then show ?thesis using pn(2) by (simp add: dump_int_def)
  qed
qed

text \<open>
  The values that survive: object keys are distinct, integers have at most 4300 digits, and
  the representation of a float is read back as that float.
\<close>

definition float_text :: "(rat \<Rightarrow> pystr) \<Rightarrow> (pystr \<Rightarrow> pyfloat) \<Rightarrow> rat \<Rightarrow> bool" where
  "float_text fr fo q \<longleftrightarrow> fr q \<noteq> [] \<and> (is_digit (hd (fr q)) \<or> hd (fr q) = 45) \<and>
     (\<forall>n rest. delimited rest \<longrightarrow>
        parse_value fo (Suc n) (fr q @ rest) = Inr (JFloat (Finite q), rest))"

fun json_ok :: "(rat \<Rightarrow> bool) \<Rightarrow> json \<Rightarrow> bool" where
  "json_ok f JNull = True"
| "json_ok f (JBool b) = True"
| "json_ok f (JInt n) = (length (py_digits (nat \<bar>n\<bar>)) \<le> 4300)"
| "json_ok f (JFloat x) = (case x of Finite q \<Rightarrow> f q | _ \<Rightarrow> True)"
| "json_ok f (JStr s) = True"
| "json_ok f (JList xs) = list_all (json_ok f) xs"
| "json_ok f (JObject d) = (distinct (map fst d) \<and> list_all (\<lambda>kv. json_ok f (snd kv)) d)"

text \<open>The value with the keys of every object in order.\<close>

fun json_sorted :: "json \<Rightarrow> json" where
  "json_sorted (JList xs) = JList (map json_sorted xs)"
| "json_sorted (JObject d) = JObject (sort_key fst (map (\<lambda>kv. (fst kv, json_sorted (snd kv))) d))"
| "json_sorted j = j"

lemma skip_ws_id: "s = [] \<or> \<not> json_ws (hd s) \<Longrightarrow> skip_ws s = s"
  by (cases s) (auto simp: skip_ws_def)

definition on_snd :: "('a \<Rightarrow> 'b) \<Rightarrow> 'k \<times> 'a \<Rightarrow> 'k \<times> 'b" where
  "on_snd g kv = (fst kv, g (snd kv))"

lemma fst_on_snd [simp]: "fst (on_snd g kv) = fst kv"
  by (simp add: on_snd_def)

lemma insort_key_on_snd:
  "insort_key fst (on_snd g kv) (map (on_snd g) d) = map (on_snd g) (insort_key fst kv d)"
  by (induction d) auto

lemma sort_key_on_snd: "sort_key fst (map (on_snd g) d) = map (on_snd g) (sort_key fst d)"
  by (induction d) (simp_all add: insort_key_on_snd)

lemma fold_dict_set_distinct:
  "distinct (map fst (acc @ ps)) \<Longrightarrow> fold (\<lambda>kv. dict_set (fst kv) (snd kv)) ps acc = acc @ ps"
proof (induction ps arbitrary: acc)
  case (Cons kv ps)
  then have "dict_set (fst kv) (snd kv) acc = acc @ [kv]" by (auto simp: dict_set_new)
  then show ?case using Cons.IH [of "acc @ [kv]"] Cons.prems by simp
qed simp

lemma dump_string_parts:
  "dump_string s @ rest = 34 # concat (map escape_char s) @ 34 # rest"
  by (simp add: dump_string_def)

lemma dumps_hd:
  assumes "json_ok (float_text fr fo) j"
  obtains c cs where "dumps fr j = c # cs" "\<not> json_ws c" "c \<noteq> 93" "c \<noteq> 125" "c < 128"
proof -
  have dig: "\<exists>c cs. py_digits m = c # cs \<and> is_digit c" for m
    using py_digits_digits [of m] py_digits_not_Nil [of m] by (cases "py_digits m") auto
  have "\<exists>c cs. dumps fr j = c # cs \<and> \<not> json_ws c \<and> c \<noteq> 93 \<and> c \<noteq> 125 \<and> c < 128"
  proof (cases j)
    case (JInt n)
    then show ?thesis
      using dig [of "nat n"] by (auto simp: dump_int_def json_ws_def is_digit_def)
  next
    case (JFloat x)
    show ?thesis
    proof (cases x)
      case (Finite q)
      then show ?thesis using assms JFloat
        by (cases "fr q") (auto simp: dump_float_def float_text_def json_ws_def is_digit_def)
    qed (auto simp: JFloat dump_float_def lit_def json_ws_def split: bool.splits)
  qed (auto simp: lit_def json_ws_def dump_string_def)
  then show ?thesis using that by blast
qed

lemma parse_members_dump:
  assumes IH: "\<And>kv n rest. kv \<in> set d \<Longrightarrow> delimited rest \<Longrightarrow> length (dumps fr (snd kv)) \<le> n \<Longrightarrow>
      parse_value fo n (dumps fr (snd kv) @ rest) = Inr (json_sorted (snd kv), rest)"
    and hd: "\<And>kv. kv \<in> set d \<Longrightarrow> json_ok (float_text fr fo) (snd kv)"
    and "d \<noteq> []"
    and "length (join_char 44 (map (\<lambda>kv. dump_string (fst kv) @ 58 # dumps fr (snd kv)) d)) < n"
  shows "parse_members fo n
     (join_char 44 (map (\<lambda>kv. dump_string (fst kv) @ 58 # dumps fr (snd kv)) d) @ 125 # rest)
       = Inr (map (on_snd json_sorted) d, rest)"
  using assms
proof (induction d arbitrary: n)
  case (Cons kv d)
  let ?t = "dumps fr (snd kv)"
  let ?js = "\<lambda>d. join_char 44 (map (\<lambda>kv. dump_string (fst kv) @ 58 # dumps fr (snd kv)) d)"
  let ?after = "case d of [] \<Rightarrow> 125 # rest | _ \<Rightarrow> 44 # ?js d @ 125 # rest"
  obtain m where n: "n = Suc m" using Cons.prems(4) by (cases n) auto
  obtain c cs where c: "?t = c # cs" "\<not> json_ws c" using dumps_hd Cons.prems(2) by (metis list.set_intros(1))
  have layout: "?js (kv # d) @ 125 # rest = dump_string (fst kv) @ 58 # ?t @ ?after"
    by (cases d) auto
  have del: "delimited ?after" by (cases d) (auto simp: delimited_def)
  have "length ?t \<le> m" using Cons.prems(4) n by (cases d) auto
  then have pv: "parse_value fo m (?t @ ?after) = Inr (json_sorted (snd kv), ?after)"
    using Cons.prems(1) [of kv] del by simp
  have ws: "skip_ws (?t @ ?after) = ?t @ ?after" "skip_ws (58 # x) = 58 # x"
    "skip_ws (125 # x) = 125 # x" "skip_ws (44 # x) = 44 # x" for x
    using c by (auto intro!: skip_ws_id simp: json_ws_def)
  show ?case
  proof (cases d)
    case Nil
    then show ?thesis
      using pv ws unfolding layout n
      by (simp add: parse_members.simps dump_string_parts parse_string_dump on_snd_def)
  next
    case (Cons kv2 d2)
    have "length (?js d) < m" using Cons.prems(4) n Cons by auto
    then have "parse_members fo m (?js d @ 125 # rest) = Inr (map (on_snd json_sorted) d, rest)"
      using Cons.IH Cons.prems(1,2) Cons by auto
    moreover have "skip_ws (?js d @ 125 # rest) = ?js d @ 125 # rest"
      unfolding Cons by (rule skip_ws_id) (cases d2; simp add: dump_string_def json_ws_def)
    ultimately show ?thesis
      using pv ws unfolding layout n
      by (simp add: Cons parse_members.simps(2) [of fo m] dump_string_parts parse_string_dump on_snd_def)
  qed
qed simp

lemma parse_elements_dump:
  assumes "\<And>x n rest. x \<in> set xs \<Longrightarrow> delimited rest \<Longrightarrow> length (dumps fr x) \<le> n \<Longrightarrow>
      parse_value fo n (dumps fr x @ rest) = Inr (json_sorted x, rest)"
    and "\<And>x. x \<in> set xs \<Longrightarrow> json_ok (float_text fr fo) x"
    and "xs \<noteq> []" and "length (join_char 44 (map (dumps fr) xs)) < n"
  shows "parse_elements fo n (join_char 44 (map (dumps fr) xs) @ 93 # rest)
       = Inr (map json_sorted xs, rest)"
  using assms
proof (induction xs arbitrary: n)
  case (Cons x xs)
  let ?js = "\<lambda>xs. join_char 44 (map (dumps fr) xs)"
  let ?after = "case xs of [] \<Rightarrow> 93 # rest | _ \<Rightarrow> 44 # ?js xs @ 93 # rest"
  obtain m where n: "n = Suc m" using Cons.prems(4) by (cases n) auto
  have layout: "?js (x # xs) @ 93 # rest = dumps fr x @ ?after" by (cases xs) auto
  have del: "delimited ?after" by (cases xs) (auto simp: delimited_def)
  have "length (dumps fr x) \<le> m" using Cons.prems(4) n by (cases xs) auto
  then have pv: "parse_value fo m (dumps fr x @ ?after) = Inr (json_sorted x, ?after)"
    using Cons.prems(1) [of x] del by simp
  have ws: "skip_ws (93 # y) = 93 # y" "skip_ws (44 # y) = 44 # y" for y
    by (auto intro!: skip_ws_id simp: json_ws_def)
  show ?case
  proof (cases xs)
    case Nil
    then show ?thesis using pv ws unfolding layout n by (simp add: parse_elements.simps)
  next
    case (Cons x2 xs2)
    have "length (?js xs) < m" using Cons.prems(4) n Cons by auto
    then have "parse_elements fo m (?js xs @ 93 # rest) = Inr (map json_sorted xs, rest)"
      using Cons.IH Cons.prems(1,2) Cons by auto
    moreover have "skip_ws (?js xs @ 93 # rest) = ?js xs @ 93 # rest"
    proof -
      obtain c cs where "dumps fr x2 = c # cs" "\<not> json_ws c"
        using dumps_hd Cons.prems(2) Cons by (metis list.set_intros)
      then show ?thesis unfolding Cons by (intro skip_ws_id) (cases xs2; simp)
    qed
    ultimately show ?thesis
      using pv ws unfolding layout n by (simp add: Cons parse_elements.simps(2) [of fo m])
  qed
qed simp

lemma starts_simps [simp]:
  "starts [] s" "starts (a # w) [] = False" "starts (a # w) (c # s) = (c = of_char a \<and> starts w s)"
  by (auto simp: starts_def startswith_def lit_def)

lemma parse_value_number:
  assumes "is_digit c \<or> c = 45 \<and> (\<exists>d ds. s = d # ds \<and> is_digit d)"
  shows "parse_value fo (Suc n) (c # s) = parse_number fo (c # s)"
  using assms by (auto simp: parse_value.simps is_digit_def)

lemma dump_int_hd:
  "\<exists>c s. dump_int k = c # s \<and> (is_digit c \<or> c = 45 \<and> (\<exists>d ds. s = d # ds \<and> is_digit d))"
proof -
  obtain d ds where "py_digits (nat \<bar>k\<bar>) = d # ds" "is_digit d"
    using py_digits_digits [of "nat \<bar>k\<bar>"] py_digits_not_Nil [of "nat \<bar>k\<bar>"]
    by (cases "py_digits (nat \<bar>k\<bar>)") auto
  then show ?thesis by (cases "k < 0") (simp_all add: dump_int_def)
qed

lemma parse_value_dump:
  assumes "json_ok (float_text fr fo) j" "delimited rest" "length (dumps fr j) \<le> n"
  shows "parse_value fo n (dumps fr j @ rest) = Inr (json_sorted j, rest)"
  using assms
proof (induction j arbitrary: n rest)
  case (JInt k)
  from dump_int_hd [of k] obtain c s where cs: "dump_int k = c # s"
    "is_digit c \<or> c = 45 \<and> (\<exists>d ds. s = d # ds \<and> is_digit d)"
    by (elim exE conjE)
  have "n \<noteq> 0" using JInt.prems(3) cs(1) by simp
  then obtain m where n: "n = Suc m" by (metis not0_implies_Suc)
  have "is_digit c \<or> c = 45 \<and> (\<exists>d ds. s @ rest = d # ds \<and> is_digit d)" using cs(2) by auto
  from parse_value_number [OF this, of fo m] have
    "parse_value fo n (dump_int k @ rest) = parse_number fo (dump_int k @ rest)"
    by (simp add: cs(1) n)
  with parse_number_dump [OF JInt.prems(2), of k fo] JInt.prems(1) show ?case by simp
next
  case (JFloat x)
  obtain m where n: "n = Suc m"
    using JFloat.prems(1,3) by (cases n; cases x) (auto simp: dump_float_def float_text_def split: bool.splits)
  show ?case
  proof (cases x)
    case (Finite q)
    then show ?thesis using JFloat.prems n by (simp add: dump_float_def float_text_def)
  qed (auto simp: n dump_float_def lit_def parse_value.simps split: bool.splits)
next
  case (JStr s)
  then obtain m where n: "n = Suc m" by (cases n) (auto simp: dump_string_def)
  show ?case
    using parse_string_dump [of s rest] by (simp add: n dump_string_def parse_value.simps)
next
  case (JList xs)
  obtain m where n: "n = Suc m" using JList.prems by (cases n) auto
  show ?case
  proof (cases "xs = []")
    case True
    then show ?thesis by (simp add: n parse_value.simps skip_ws_def json_ws_def)
  next
    case False
    let ?t = "join_char 44 (map (dumps fr) xs)"
    have ok: "\<And>x. x \<in> set xs \<Longrightarrow> json_ok (float_text fr fo) x"
      using JList.prems(1) by (simp add: list_all_iff)
    obtain c cs where c: "dumps fr (hd xs) = c # cs" "\<not> json_ws c" "c \<noteq> 93"
      using dumps_hd ok False by (metis hd_in_set)
    then obtain cs' where t: "?t @ 93 # rest = c # cs'"
      using False by (cases xs; cases "tl xs") auto
    have "parse_elements fo m (?t @ 93 # rest) = Inr (map json_sorted xs, rest)"
      using JList ok False n by (intro parse_elements_dump) auto
    then show ?thesis
      using t c by (simp add: n parse_value.simps skip_ws_def)
  qed
next
  case (JObject d)
  obtain m where n: "n = Suc m" using JObject.prems by (cases n) auto
  let ?d = "sort_key fst d"
  have srt: "sort_key fst (map (\<lambda>kv. (fst kv, g (snd kv))) d) = map (on_snd g) ?d"
    for g :: "json \<Rightarrow> 'z" using sort_key_on_snd [of g d] by (simp add: on_snd_def [abs_def])
  let ?t = "join_char 44 (map (\<lambda>kv. dump_string (fst kv) @ 58 # dumps fr (snd kv)) ?d)"
  have dt: "dumps fr (JObject d) = 123 # ?t @ [125]"
    by (simp add: srt o_def on_snd_def)
  show ?case
  proof (cases "d = []")
    case True
    then show ?thesis by (simp add: n parse_value.simps skip_ws_def json_ws_def)
  next
    case False
    then have ne: "?d \<noteq> []" by (metis set_empty set_sort)
    then obtain cs' where t: "?t @ 125 # rest = 34 # cs'"
      by (cases ?d; cases "tl ?d") (auto simp: dump_string_def)
    have ok: "\<And>kv. kv \<in> set ?d \<Longrightarrow> json_ok (float_text fr fo) (snd kv)"
      using JObject.prems(1) by (simp add: list_all_iff)
    have IH: "\<And>kv n rest. kv \<in> set ?d \<Longrightarrow> delimited rest \<Longrightarrow> length (dumps fr (snd kv)) \<le> n \<Longrightarrow>
      parse_value fo n (dumps fr (snd kv) @ rest) = Inr (json_sorted (snd kv), rest)"
      using JObject.IH ok by (metis set_sort snds.intros)
    have "parse_members fo m (?t @ 125 # rest) = Inr (map (on_snd json_sorted) ?d, rest)"
      using JObject.prems(3) n dt IH ok ne by (intro parse_members_dump) auto
    moreover have "distinct (map fst (map (on_snd json_sorted) ?d))"
    proof -
      have "distinct (map fst d)" using JObject.prems(1) by simp
      then have "distinct (map fst ?d)" by (metis distinct_map distinct_sort set_sort)
      then show ?thesis by (simp add: o_def)
    qed
    ultimately show ?thesis
      using t fold_dict_set_distinct [of "[]" "map (on_snd json_sorted) ?d"]
      unfolding dt by (simp add: n parse_value.simps skip_ws_def json_ws_def srt)
  qed
next
  case JNull
  then obtain m where n: "n = Suc m" by (cases n) (auto simp: lit_def)
  show ?case by (simp add: n lit_def parse_value.simps)
next
  case (JBool b)
  then obtain m where n: "n = Suc m" by (cases n) (auto simp: lit_def split: if_splits)
  show ?case by (simp add: n lit_def parse_value.simps)
qed

text \<open>
  \<open>json.loads(json.dumps(v, sort_keys=True)) == v\<close>: reading back gives the same value with
  the keys of its objects in order.
\<close>

theorem loads_dumps:
  assumes "json_ok (float_text fr fo) j"
  shows "loads fo (dumps fr j) = Inr (json_sorted j)"
proof -
  obtain c cs where c: "dumps fr j = c # cs" "\<not> json_ws c" "c < 128"
    using dumps_hd [OF assms] by metis
  then have "c \<noteq> 65279" by simp
  moreover have "parse_value fo (2 * length (dumps fr j) + 2) (dumps fr j @ []) = Inr (json_sorted j, [])"
    by (rule parse_value_dump [OF assms]) (simp_all add: delimited_def)
  moreover have "skip_ws (dumps fr j) = dumps fr j" using c by (intro skip_ws_id) simp
  ultimately show ?thesis using c by (simp add: loads_def skip_ws_def)
qed

lemma dumps_object: "dumps fr (JObject d) =
    123 # join_char 44 (map (\<lambda>kv. dump_string (fst kv) @ 58 # dumps fr (snd kv)) (sort_key fst d)) @ [125]"
  using sort_key_on_snd [of "dumps fr" d] by (simp add: on_snd_def [abs_def] o_def)

text \<open>ASCII values print as ASCII text, which always encodes.\<close>

fun json_ascii :: "json \<Rightarrow> bool" where
  "json_ascii (JStr s) = (\<forall>c \<in> set s. c < 128)"
| "json_ascii (JList xs) = (\<forall>x \<in> set xs. json_ascii x)"
| "json_ascii (JObject d) = (\<forall>kv \<in> set d. (\<forall>c \<in> set (fst kv). c < 128) \<and> json_ascii (snd kv))"
| "json_ascii (JFloat x) = False"
| "json_ascii j = True"

lemma utf8_encode_ascii: "\<forall>c \<in> set s. c < 128 \<Longrightarrow> utf8_encode s = Some s"
  by (induction s) (simp_all add: utf8_char_def)

lemma join_char_all:
  "P sep \<Longrightarrow> \<forall>w \<in> set ws. \<forall>c \<in> set w. P c \<Longrightarrow> \<forall>c \<in> set (join_char sep ws). P c"
  by (induction sep ws rule: join_char.induct) auto

lemma escape_char_ascii:
  assumes "c < 128" "x \<in> set (escape_char c)"
  shows "x < 128"
proof (cases "c < 32")
  case True
  then have "c div 16 < 2" "c mod 16 < 16" by auto
  with assms show ?thesis by (simp add: escape_char_def hex_char_def split: if_splits) auto
qed (use assms in \<open>auto simp: escape_char_def split: if_splits\<close>)

lemma dump_string_ascii: "\<forall>c \<in> set s. c < 128 \<Longrightarrow> \<forall>c \<in> set (dump_string s). c < 128"
  using escape_char_ascii by (auto simp: dump_string_def)

lemma digits_ascii: "c \<in> set (py_digits n) \<Longrightarrow> c < 128"
  using py_digits_digits [of n] by (auto simp: is_digit_def)

lemma dumps_ascii: "json_ascii j \<Longrightarrow> \<forall>c \<in> set (dumps fr j). c < 128"
proof (induction j)
  case (JObject d)
  have "\<forall>c \<in> set (dump_string (fst kv) @ 58 # dumps fr (snd kv)). c < 128" if "kv \<in> set d" for kv
  proof -
    have "\<forall>c \<in> set (dumps fr (snd kv)). c < 128"
      using JObject.IH [of kv "snd kv"] JObject.prems that by (simp add: snds.intros)
    then show ?thesis using dump_string_ascii [of "fst kv"] JObject.prems that by auto
  qed
  then have "\<forall>c \<in> set (join_char 44
      (map (\<lambda>kv. dump_string (fst kv) @ 58 # dumps fr (snd kv)) (sort_key fst d))). c < 128"
    by (intro join_char_all) auto
  then show ?case unfolding dumps_object by simp
next
  case (JList xs)
  then have "\<forall>c \<in> set (join_char 44 (map (dumps fr) xs)). c < 128"
    by (intro join_char_all) auto
  then show ?case by simp
next
  case (JInt n)
  then show ?case by (auto simp: dump_int_def digits_ascii)
next
  case (JStr s)
  then show ?case using dump_string_ascii by simp
qed (auto simp: lit_def)

end
