(* ===== verification/Run_Ledger.thy ===== *)
theory Run_Ledger
  imports Json_Text
begin

text \<open>
  The append-only event ledger of agent runs: \<open>core/run_ledger/contracts.py\<close> (event drafts,
  payload rules, digests) and \<open>core/run_ledger/persistence.py\<close> (the SQL adapter), with the
  correlation keys of \<open>core/telemetry/contracts.py\<close>.

  A ledger is the list of its event rows in the order of their positions and a dictionary of
  stream heads. Appending is one transaction: an exception discards it, as every caller rolls
  back, so no state comes with an error. SHA-256 and the two float conversions of the JSON
  codec are fields of \<open>codec\<close>. Times are UTC, so the checks for a missing time zone have no
  counterpart. The ten correlation columns and the six identity columns of a row are kept as
  one record each; the \<open>updated_at\<close> column of a head is left out.
\<close>

record codec =
  sha256_of :: "bytes \<Rightarrow> pystr"
  float_repr_of :: "rat \<Rightarrow> pystr"
  float_read :: "pystr \<Rightarrow> pyfloat"

datatype ledger_error =
    RunLedgerContractError
  | UnsupportedRunLedgerSchemaError
  | RunLedgerConflictError
  | RunLedgerIntegrityError
  | LedgerTypeError
  | LedgerValueError
  | SqlIntegrityError
  | CommitError

section \<open>Statuses\<close>

definition active_run_statuses :: "pystr list" where
  "active_run_statuses = [lit ''running'', lit ''waiting_approval'', lit ''waiting_input'']"

definition terminal_run_statuses :: "pystr list" where
  "terminal_run_statuses =
     [lit ''ambiguous'', lit ''cancelled'', lit ''failed'', lit ''succeeded'', lit ''timed_out'']"

definition status_aliases :: "(pystr, pystr) dict" where
  "status_aliases =
     [(lit ''success'', lit ''succeeded''), (lit ''stream_success'', lit ''succeeded''),
      (lit ''no_reply'', lit ''succeeded''), (lit ''cancel'', lit ''cancelled''),
      (lit ''canceled'', lit ''cancelled''), (lit ''timeout'', lit ''timed_out''),
      (lit ''error'', lit ''failed''), (lit ''failure'', lit ''failed''),
      (lit ''empty'', lit ''failed''), (lit ''suppressed'', lit ''failed'')]"

definition canonical_run_status :: "pystr \<Rightarrow> pystr" where
  "canonical_run_status value =
     (let value1 = (if value \<noteq> [] then value else lit ''unknown'');
          lowered = py_lower (py_strip value1);
          normalized = (if lowered \<noteq> [] then lowered else lit ''unknown'')
      in dict_get_default status_aliases normalized normalized)"

definition is_terminal_run_status :: "pystr \<Rightarrow> bool" where
  "is_terminal_run_status value \<longleftrightarrow> canonical_run_status value \<in> set terminal_run_statuses"

section \<open>Identifiers\<close>

definition required_identifier :: "nat \<Rightarrow> pystr \<Rightarrow> ledger_error + pystr" where
  "required_identifier max_chars value =
     (let normalized = py_strip value
      in if normalized = [] \<or> length normalized > max_chars \<or> list_ex (\<lambda>c. c < 32) normalized
         then Inl RunLedgerContractError else Inr normalized)"

definition optional_identifier :: "nat \<Rightarrow> pystr \<Rightarrow> ledger_error + pystr" where
  "optional_identifier max_chars value =
     (let normalized = py_strip value
      in if normalized = [] then Inr [] else required_identifier max_chars normalized)"

definition lower_letter :: "nat \<Rightarrow> bool" where
  "lower_letter c \<longleftrightarrow> 97 \<le> c \<and> c \<le> 122"

text \<open>\<open>^[a-z][a-z0-9_.-]{1,127}$\<close> and \<open>^[a-z][a-z0-9_]{0,63}$\<close>, matched in full.\<close>

definition event_type_char :: "nat \<Rightarrow> bool" where
  "event_type_char c \<longleftrightarrow> lower_letter c \<or> is_digit c \<or> c = 95 \<or> c = 46 \<or> c = 45"

definition event_identifier :: "pystr \<Rightarrow> bool" where
  "event_identifier s \<longleftrightarrow>
     s \<noteq> [] \<and> lower_letter (hd s) \<and> list_all event_type_char (tl s) \<and>
     1 \<le> length (tl s) \<and> length (tl s) \<le> 127"

definition payload_key_char :: "nat \<Rightarrow> bool" where
  "payload_key_char c \<longleftrightarrow> lower_letter c \<or> is_digit c \<or> c = 95"

definition payload_key :: "pystr \<Rightarrow> bool" where
  "payload_key s \<longleftrightarrow>
     s \<noteq> [] \<and> lower_letter (hd s) \<and> list_all payload_key_char (tl s) \<and> length (tl s) \<le> 63"

definition event_type_of :: "pystr \<Rightarrow> ledger_error + pystr" where
  "event_type_of value =
     (let normalized = py_lower (py_strip value)
      in if event_identifier normalized \<and> 46 \<in> set normalized then Inr normalized
         else Inl RunLedgerContractError)"

section \<open>Payloads\<close>

definition safe_audit_suffixes :: "pystr list" where
  "safe_audit_suffixes =
     map lit [''_bytes'', ''_chars'', ''_code'', ''_count'', ''_id'', ''_sha256'', ''_status'',
              ''_tokens'', ''_truncated'', ''_type'']"

definition safe_sensitive_keys :: "pystr list" where
  "safe_sensitive_keys = map lit [''input_token_estimate'', ''prompt_key'', ''prompt_mode'']"

definition sensitive_key_parts :: "pystr list" where
  "sensitive_key_parts =
     map lit [''api_key'', ''args'', ''authorization'', ''body'', ''command'', ''content'',
              ''cookie'', ''data'', ''detail'', ''error'', ''headers'', ''input'', ''message'',
              ''oauth'', ''output'', ''password'', ''path'', ''payload'', ''prompt'', ''query'',
              ''raw'', ''reason'', ''reasoning'', ''request'', ''resource'', ''response'',
              ''result'', ''secret'', ''stderr'', ''stdout'', ''summary'', ''text'', ''token'',
              ''uri'', ''url'']"

text \<open>\<open>part in key\<close>\<close>

fun contains :: "pystr \<Rightarrow> pystr \<Rightarrow> bool" where
  "contains [] part = (part = [])"
| "contains (c # s) part = (startswith (c # s) part \<or> contains s part)"

definition sensitive_key :: "pystr \<Rightarrow> bool" where
  "sensitive_key key \<longleftrightarrow>
     list_ex (contains key) sensitive_key_parts \<and> key \<notin> set safe_sensitive_keys \<and>
     \<not> list_ex (endswith key) safe_audit_suffixes"

definition normalize_scalar :: "json \<Rightarrow> ledger_error + json" where
  "normalize_scalar value =
     (case value of
        JList _ \<Rightarrow> Inl RunLedgerContractError
      | JObject _ \<Rightarrow> Inl RunLedgerContractError
      | JStr s \<Rightarrow>
          (let t = py_strip s
           in if length t > 512 \<or> list_ex (\<lambda>c. c < 32) t then Inl RunLedgerContractError
              else Inr (JStr t))
      | JFloat x \<Rightarrow> if isfinite x then Inr value else Inl RunLedgerContractError
      | _ \<Rightarrow> Inr value)"

fun normalize_items ::
  "(pystr, json) dict \<Rightarrow> (pystr, json) dict \<Rightarrow> ledger_error + (pystr, json) dict" where
  "normalize_items normalized [] = Inr normalized"
| "normalize_items normalized ((raw_key, value) # items) =
     (let key = py_lower (py_strip raw_key)
      in require (payload_key key) RunLedgerContractError
           (require (\<not> sensitive_key key) RunLedgerContractError
             (bind_result (normalize_scalar value)
               (\<lambda>v. normalize_items (dict_set key v normalized) items))))"

definition normalize_payload :: "(pystr, json) dict \<Rightarrow> ledger_error + (pystr, json) dict" where
  "normalize_payload payload =
     require (length payload \<le> 64) RunLedgerContractError (normalize_items [] payload)"

section \<open>Identities and drafts\<close>

record TelemetryCorrelation =
  corr_request_id :: pystr
  corr_session_id :: pystr
  corr_turn_id :: pystr
  corr_trace_id :: pystr
  corr_run_id :: pystr
  corr_task_id :: pystr
  corr_task_run_id :: pystr
  corr_job_id :: pystr
  corr_tool_call_id :: pystr
  corr_delivery_id :: pystr
  corr_parent_job_id :: pystr

definition safe_identifier :: "nat \<Rightarrow> pystr \<Rightarrow> pystr" where
  "safe_identifier max_chars value =
     (let s = py_strip value
      in if s = [] \<or> length s > max_chars \<or> list_ex (\<lambda>c. c < 32) s then [] else s)"

definition TelemetryCorrelation_post_init :: "TelemetryCorrelation \<Rightarrow> TelemetryCorrelation" where
  "TelemetryCorrelation_post_init c =
     \<lparr>corr_request_id = safe_identifier 160 (corr_request_id c),
      corr_session_id = safe_identifier 160 (corr_session_id c),
      corr_turn_id = safe_identifier 160 (corr_turn_id c),
      corr_trace_id = safe_identifier 160 (corr_trace_id c),
      corr_run_id = safe_identifier 160 (corr_run_id c),
      corr_task_id = safe_identifier 160 (corr_task_id c),
      corr_task_run_id = safe_identifier 160 (corr_task_run_id c),
      corr_job_id = safe_identifier 160 (corr_job_id c),
      corr_tool_call_id = safe_identifier 160 (corr_tool_call_id c),
      corr_delivery_id = safe_identifier 160 (corr_delivery_id c),
      corr_parent_job_id = safe_identifier 160 (corr_parent_job_id c)\<rparr>"

record RunLedgerIdentity =
  actor_type :: pystr
  actor_id :: pystr
  parent_actor_id :: pystr
  owner_platform :: pystr
  owner_type :: pystr
  owner_id :: pystr

definition RunLedgerIdentity_post_init :: "RunLedgerIdentity \<Rightarrow> ledger_error + RunLedgerIdentity" where
  "RunLedgerIdentity_post_init i =
     bind_result (optional_identifier 160 (actor_type i)) (\<lambda>aty.
     bind_result (optional_identifier 160 (actor_id i)) (\<lambda>ai.
     bind_result (optional_identifier 160 (parent_actor_id i)) (\<lambda>pa.
     bind_result (optional_identifier 160 (owner_platform i)) (\<lambda>opl.
     bind_result (optional_identifier 160 (owner_type i)) (\<lambda>ot.
     bind_result (optional_identifier 160 (owner_id i)) (\<lambda>oi.
       require (\<not> ((opl \<noteq> [] \<or> ot \<noteq> [] \<or> oi \<noteq> []) \<and> \<not> (opl \<noteq> [] \<and> ot \<noteq> [] \<and> oi \<noteq> [])))
         RunLedgerContractError
       (require (\<not> (aty \<noteq> [] \<and> ai = [])) RunLedgerContractError
       (require (\<not> (ai \<noteq> [] \<and> aty = [])) RunLedgerContractError
       (Inr \<lparr>actor_type = aty, actor_id = ai, parent_actor_id = pa, owner_platform = opl,
             owner_type = ot, owner_id = oi\<rparr>)))))))))"

record RunLedgerEventDraft =
  event_id :: pystr
  ev_run_id :: pystr
  event_type :: pystr
  occurred_at :: datetime
  source :: pystr
  correlation :: TelemetryCorrelation
  identity :: RunLedgerIdentity
  ev_status :: pystr
  payload :: "(pystr, json) dict"
  source_event_id :: pystr
  source_sequence :: int
  correction_of_event_id :: pystr
  schema_version :: int
  dropped_field_count :: int

text \<open>The rules that tie the event type to its status and to a correction.\<close>

definition event_shape :: "pystr \<Rightarrow> pystr \<Rightarrow> pystr \<Rightarrow> bool" where
  "event_shape etype st correction \<longleftrightarrow>
     (if etype = lit ''run.event_corrected'' then correction \<noteq> [] else correction = []) \<and>
     \<not> (etype \<in> {lit ''run.status_changed'', lit ''run.terminated''} \<and> st = []) \<and>
     \<not> (etype = lit ''run.accepted'' \<and> st \<noteq> lit ''accepted'') \<and>
     \<not> (etype = lit ''run.status_changed'' \<and> st \<notin> set active_run_statuses) \<and>
     \<not> (etype = lit ''run.terminated'' \<and> st \<notin> set terminal_run_statuses)"

definition RunLedgerEventDraft_post_init ::
  "RunLedgerEventDraft \<Rightarrow> ledger_error + RunLedgerEventDraft" where
  "RunLedgerEventDraft_post_init d =
     bind_result (required_identifier 160 (event_id d)) (\<lambda>eid.
     bind_result (required_identifier 160 (ev_run_id d)) (\<lambda>rid.
     bind_result (event_type_of (event_type d)) (\<lambda>etype.
     bind_result (required_identifier 128 (source d)) (\<lambda>src.
       require (\<not> (corr_run_id (correlation d) \<noteq> [] \<and> corr_run_id (correlation d) \<noteq> rid))
         RunLedgerContractError
     (let corr = (if corr_run_id (correlation d) = []
                  then TelemetryCorrelation_post_init ((correlation d)\<lparr>corr_run_id := rid\<rparr>)
                  else correlation d)
      in
     bind_result (optional_identifier 64 (ev_status d)) (\<lambda>st.
     bind_result (normalize_payload (payload d)) (\<lambda>pl.
     bind_result (optional_identifier 160 (source_event_id d)) (\<lambda>seid.
       require (source_sequence d \<ge> 0) RunLedgerContractError
     (bind_result (optional_identifier 160 (correction_of_event_id d)) (\<lambda>correction.
       require (schema_version d > 0) RunLedgerContractError
       (require (schema_version d = 1) UnsupportedRunLedgerSchemaError
       (require (dropped_field_count d \<ge> 0) RunLedgerContractError
       (require (event_shape etype st correction) RunLedgerContractError
       (Inr (d\<lparr>event_id := eid, ev_run_id := rid, event_type := etype, source := src,
               correlation := corr, ev_status := st, payload := pl, source_event_id := seid,
               correction_of_event_id := correction\<rparr>)))))))))))))))"

definition terminal_event :: "RunLedgerEventDraft \<Rightarrow> bool" where
  "terminal_event e \<longleftrightarrow> event_type e = lit ''run.terminated''"

section \<open>Digests\<close>

text \<open>\<open>datetime.isoformat(timespec="microseconds")\<close> of a UTC time.\<close>

definition isoformat_utc :: "datetime \<Rightarrow> pystr" where
  "isoformat_utc t =
     (let secs = t div 1000000;
          ymd = civil_from_days (secs div 86400);
          rest = secs mod 86400
      in zero_padded 4 (fst ymd) @ 45 # zero_padded 2 (fst (snd ymd)) @ 45 #
         zero_padded 2 (snd (snd ymd)) @ 84 # zero_padded 2 (rest div 3600) @ 58 #
         zero_padded 2 (rest div 60 mod 60) @ 58 # zero_padded 2 (rest mod 60) @ 46 #
         zero_padded 6 (t mod 1000000) @ lit ''+00:00'')"

text \<open>\<open>json.dumps\<close> raises on an integer of more than 4300 digits, \<open>encode\<close> on a surrogate.\<close>

fun dumpable :: "json \<Rightarrow> bool" where
  "dumpable (JInt n) = (length (py_digits (nat \<bar>n\<bar>)) \<le> 4300)"
| "dumpable (JList xs) = list_all dumpable xs"
| "dumpable (JObject d) = list_all (\<lambda>kv. dumpable (snd kv)) d"
| "dumpable j = True"

definition json_dumps :: "codec \<Rightarrow> json \<Rightarrow> ledger_error + pystr" where
  "json_dumps cd j = require (dumpable j) LedgerValueError (Inr (dumps (float_repr_of cd) j))"

definition text_sha256 :: "codec \<Rightarrow> pystr \<Rightarrow> ledger_error + pystr" where
  "text_sha256 cd s =
     (case utf8_encode s of None \<Rightarrow> Inl LedgerValueError | Some b \<Rightarrow> Inr (sha256_of cd b))"

definition encode_run_ledger_payload :: "codec \<Rightarrow> (pystr, json) dict \<Rightarrow> ledger_error + pystr" where
  "encode_run_ledger_payload cd pl =
     bind_result (normalize_payload pl) (\<lambda>normalized. json_dumps cd (JObject normalized))"

definition decode_run_ledger_payload ::
  "codec \<Rightarrow> pystr \<Rightarrow> int \<Rightarrow> ledger_error + (pystr, json) dict" where
  "decode_run_ledger_payload cd payload_json version =
     (if version \<noteq> 1 then Inl UnsupportedRunLedgerSchemaError
      else case loads (float_read cd) (if payload_json = [] then lit ''{}'' else payload_json) of
             Inl JSONValueError \<Rightarrow> Inl LedgerValueError
           | Inl _ \<Rightarrow> Inl RunLedgerIntegrityError
           | Inr (JObject decoded) \<Rightarrow>
               (case normalize_payload decoded of
                  Inl _ \<Rightarrow> Inl RunLedgerIntegrityError
                | Inr pl \<Rightarrow> Inr pl)
           | Inr _ \<Rightarrow> Inl RunLedgerIntegrityError)"

definition run_ledger_payload_sha256 :: "codec \<Rightarrow> (pystr, json) dict \<Rightarrow> ledger_error + pystr" where
  "run_ledger_payload_sha256 cd pl = bind_result (encode_run_ledger_payload cd pl) (text_sha256 cd)"

definition correlation_dict :: "TelemetryCorrelation \<Rightarrow> json" where
  "correlation_dict c =
     JObject [(lit ''request_id'', JStr (corr_request_id c)),
              (lit ''session_id'', JStr (corr_session_id c)),
              (lit ''turn_id'', JStr (corr_turn_id c)), (lit ''trace_id'', JStr (corr_trace_id c)),
              (lit ''run_id'', JStr (corr_run_id c)), (lit ''task_id'', JStr (corr_task_id c)),
              (lit ''task_run_id'', JStr (corr_task_run_id c)), (lit ''job_id'', JStr (corr_job_id c)),
              (lit ''tool_call_id'', JStr (corr_tool_call_id c)),
              (lit ''delivery_id'', JStr (corr_delivery_id c)),
              (lit ''parent_job_id'', JStr (corr_parent_job_id c))]"

definition identity_dict :: "RunLedgerIdentity \<Rightarrow> json" where
  "identity_dict i =
     JObject [(lit ''actor_type'', JStr (actor_type i)), (lit ''actor_id'', JStr (actor_id i)),
              (lit ''parent_actor_id'', JStr (parent_actor_id i)),
              (lit ''owner_platform'', JStr (owner_platform i)),
              (lit ''owner_type'', JStr (owner_type i)), (lit ''owner_id'', JStr (owner_id i))]"

definition canonical_event :: "RunLedgerEventDraft \<Rightarrow> int \<Rightarrow> pystr \<Rightarrow> json" where
  "canonical_event e sequence previous =
     JObject [(lit ''schema_name'', JStr (lit ''nanobot.run_event'')),
              (lit ''schema_version'', JInt (schema_version e)),
              (lit ''event_id'', JStr (event_id e)), (lit ''run_id'', JStr (ev_run_id e)),
              (lit ''sequence'', JInt sequence), (lit ''event_type'', JStr (event_type e)),
              (lit ''occurred_at'', JStr (isoformat_utc (occurred_at e))),
              (lit ''source'', JStr (source e)),
              (lit ''source_event_id'', JStr (source_event_id e)),
              (lit ''source_sequence'', JInt (source_sequence e)),
              (lit ''correlation'', correlation_dict (correlation e)),
              (lit ''identity'', identity_dict (identity e)),
              (lit ''status'', JStr (ev_status e)), (lit ''payload'', JObject (payload e)),
              (lit ''dropped_field_count'', JInt (dropped_field_count e)),
              (lit ''correction_of_event_id'', JStr (correction_of_event_id e)),
              (lit ''previous_event_sha256'', JStr previous)]"

definition run_ledger_event_sha256 ::
  "codec \<Rightarrow> RunLedgerEventDraft \<Rightarrow> int \<Rightarrow> pystr \<Rightarrow> ledger_error + pystr" where
  "run_ledger_event_sha256 cd e sequence previous_event_sha256 =
     require (sequence > 0) RunLedgerContractError
     (let previous = py_lower (py_strip previous_event_sha256)
      in require (previous = [] \<or> hex64 previous) RunLedgerContractError
           (bind_result (json_dumps cd (canonical_event e sequence previous)) (text_sha256 cd)))"

section \<open>Records and heads\<close>

record RunLedgerEventRecord =
  rec_position :: int
  rec_sequence :: int
  rec_event :: RunLedgerEventDraft
  rec_recorded_at :: datetime
  rec_previous_sha256 :: pystr
  rec_event_sha256 :: pystr

definition RunLedgerEventRecord_post_init ::
  "RunLedgerEventRecord \<Rightarrow> ledger_error + RunLedgerEventRecord" where
  "RunLedgerEventRecord_post_init r =
     require (rec_position r > 0) RunLedgerContractError
     (require (rec_sequence r > 0) RunLedgerContractError
     (let previous = py_lower (py_strip (rec_previous_sha256 r));
          digest = py_lower (py_strip (rec_event_sha256 r))
      in require (previous = [] \<or> hex64 previous) RunLedgerContractError
         (require (hex64 digest) RunLedgerContractError
           (Inr (r\<lparr>rec_previous_sha256 := previous, rec_event_sha256 := digest\<rparr>)))))"

record RunLedgerHead =
  head_run_id :: pystr
  last_sequence :: int
  last_event_id :: pystr
  last_event_sha256 :: pystr
  terminal_sequence :: "int option"

definition RunLedgerHead_post_init :: "RunLedgerHead \<Rightarrow> ledger_error + RunLedgerHead" where
  "RunLedgerHead_post_init h =
     bind_result (required_identifier 160 (head_run_id h)) (\<lambda>rid.
       require (last_sequence h \<ge> 0) RunLedgerContractError
       (require (last_sequence h = 0 \<longrightarrow> last_event_id h = [] \<and> last_event_sha256 h = [])
          RunLedgerContractError
       (bind_result (if last_sequence h = 0 then Inr [] else required_identifier 160 (last_event_id h))
         (\<lambda>_. require (last_sequence h \<noteq> 0 \<longrightarrow> hex64 (last_event_sha256 h)) RunLedgerContractError
         (require (case terminal_sequence h of
                     None \<Rightarrow> True | Some t \<Rightarrow> 0 < t \<and> t \<le> last_sequence h) RunLedgerContractError
         (Inr (h\<lparr>head_run_id := rid\<rparr>)))))))"

section \<open>The tables\<close>

record RunLedgerEventRow =
  position :: int
  row_event_id :: pystr
  row_run_id :: pystr
  sequence :: int
  row_event_type :: pystr
  schema_name :: pystr
  row_schema_version :: int
  row_occurred_at :: datetime
  recorded_at :: datetime
  row_source :: pystr
  row_source_event_id :: pystr
  row_source_sequence :: int
  row_correlation :: TelemetryCorrelation
  row_identity :: RunLedgerIdentity
  row_status :: pystr
  payload_json :: pystr
  payload_sha256 :: pystr
  row_dropped_field_count :: int
  row_correction_of_event_id :: pystr
  previous_event_sha256 :: pystr
  event_sha256 :: pystr

record RunLedger =
  event_rows :: "RunLedgerEventRow list"
  stream_heads :: "(pystr, RunLedgerHead) dict"

definition row_to_record :: "codec \<Rightarrow> RunLedgerEventRow \<Rightarrow> ledger_error + RunLedgerEventRecord" where
  "row_to_record cd row =
     require (schema_name row = lit ''nanobot.run_event'') RunLedgerIntegrityError
     (bind_result (decode_run_ledger_payload cd (payload_json row) (row_schema_version row)) (\<lambda>pl.
      bind_result (run_ledger_payload_sha256 cd pl) (\<lambda>digest.
        require (digest = payload_sha256 row) RunLedgerIntegrityError
      (bind_result (RunLedgerIdentity_post_init (row_identity row)) (\<lambda>ident.
       bind_result (RunLedgerEventDraft_post_init
          \<lparr>event_id = row_event_id row, ev_run_id = row_run_id row, event_type = row_event_type row,
           occurred_at = row_occurred_at row, source = row_source row,
           correlation = TelemetryCorrelation_post_init
             ((row_correlation row)\<lparr>corr_run_id := row_run_id row\<rparr>),
           identity = ident, ev_status = row_status row, payload = pl,
           source_event_id = row_source_event_id row,
           source_sequence = row_source_sequence row,
           correction_of_event_id = row_correction_of_event_id row,
           schema_version = row_schema_version row,
           dropped_field_count = row_dropped_field_count row\<rparr>) (\<lambda>event.
       bind_result (run_ledger_event_sha256 cd event (sequence row) (previous_event_sha256 row))
         (\<lambda>expected.
          require (expected = event_sha256 row) RunLedgerIntegrityError
          (RunLedgerEventRecord_post_init
             \<lparr>rec_position = position row, rec_sequence = sequence row, rec_event = event,
              rec_recorded_at = recorded_at row,
              rec_previous_sha256 = previous_event_sha256 row,
              rec_event_sha256 = event_sha256 row\<rparr>))))))))"

definition same_event ::
  "codec \<Rightarrow> RunLedgerEventRecord \<Rightarrow> RunLedgerEventDraft \<Rightarrow> ledger_error + bool" where
  "same_event cd r candidate =
     bind_result (run_ledger_event_sha256 cd candidate (rec_sequence r) (rec_previous_sha256 r))
       (\<lambda>digest. Inr (rec_event_sha256 r = digest))"

definition find_event :: "pystr \<Rightarrow> RunLedger \<Rightarrow> RunLedgerEventRow option" where
  "find_event eid lg = find (\<lambda>row. row_event_id row = eid) (event_rows lg)"

definition run_rows :: "pystr \<Rightarrow> RunLedger \<Rightarrow> RunLedgerEventRow list" where
  "run_rows rid lg = sort_key sequence (filter (\<lambda>row. row_run_id row = rid) (event_rows lg))"

definition validate_owner :: "RunLedgerEventDraft \<Rightarrow> RunLedger \<Rightarrow> bool" where
  "validate_owner e lg \<longleftrightarrow>
     owner_id (identity e) = [] \<or>
     (case find (\<lambda>row. owner_id (row_identity row) \<noteq> []) (run_rows (ev_run_id e) lg) of
        None \<Rightarrow> True
      | Some row \<Rightarrow>
          owner_platform (row_identity row) = owner_platform (identity e) \<and>
          owner_type (row_identity row) = owner_type (identity e) \<and>
          owner_id (row_identity row) = owner_id (identity e))"

definition correction_known :: "RunLedgerEventDraft \<Rightarrow> RunLedger \<Rightarrow> bool" where
  "correction_known e lg \<longleftrightarrow>
     correction_of_event_id e = [] \<or>
     (case find_event (correction_of_event_id e) lg of
        None \<Rightarrow> False | Some row \<Rightarrow> row_run_id row = ev_run_id e)"

definition empty_head :: "pystr \<Rightarrow> RunLedgerHead" where
  "empty_head rid =
     \<lparr>head_run_id = rid, last_sequence = 0, last_event_id = [], last_event_sha256 = [],
      terminal_sequence = None\<rparr>"

text \<open>The head under which an event may be appended.\<close>

definition open_head :: "RunLedgerEventDraft \<Rightarrow> RunLedger \<Rightarrow> ledger_error + RunLedgerHead" where
  "open_head e lg =
     (case dict_get (stream_heads lg) (ev_run_id e) of
        None \<Rightarrow> require (event_type e = lit ''run.accepted'') RunLedgerConflictError
                  (Inr (empty_head (ev_run_id e)))
      | Some h \<Rightarrow>
          require (event_type e \<noteq> lit ''run.accepted'') RunLedgerConflictError
          (require (terminal_sequence h = None \<or> event_type e = lit ''run.event_corrected'')
             RunLedgerConflictError (Inr h)))"

definition event_row ::
  "RunLedgerEventDraft \<Rightarrow> int \<Rightarrow> int \<Rightarrow> datetime \<Rightarrow> pystr \<Rightarrow> pystr \<Rightarrow> pystr \<Rightarrow> pystr \<Rightarrow> RunLedgerEventRow" where
  "event_row e pos seq now pjson psha previous digest =
     \<lparr>position = pos, row_event_id = event_id e, row_run_id = ev_run_id e, sequence = seq,
      row_event_type = event_type e, schema_name = lit ''nanobot.run_event'',
      row_schema_version = schema_version e, row_occurred_at = occurred_at e, recorded_at = now,
      row_source = source e, row_source_event_id = source_event_id e,
      row_source_sequence = source_sequence e, row_correlation = correlation e,
      row_identity = identity e, row_status = ev_status e, payload_json = pjson,
      payload_sha256 = psha, row_dropped_field_count = dropped_field_count e,
      row_correction_of_event_id = correction_of_event_id e,
      previous_event_sha256 = previous, event_sha256 = digest\<rparr>"

text \<open>The unique constraints of the event table.\<close>

definition row_unique :: "RunLedgerEventRow \<Rightarrow> RunLedger \<Rightarrow> bool" where
  "row_unique row lg \<longleftrightarrow>
     list_all (\<lambda>r. row_event_id r \<noteq> row_event_id row \<and> event_sha256 r \<noteq> event_sha256 row \<and>
                   \<not> (row_run_id r = row_run_id row \<and> sequence r = sequence row)) (event_rows lg)"

definition append_new ::
  "codec \<Rightarrow> RunLedgerEventDraft \<Rightarrow> int option \<Rightarrow> datetime \<Rightarrow> RunLedger
     \<Rightarrow> ledger_error + (RunLedgerEventRecord \<times> RunLedger)" where
  "append_new cd e expected_sequence now lg =
     require (correction_known e lg) RunLedgerConflictError
     (require (validate_owner e lg) RunLedgerConflictError
     (bind_result (open_head e lg) (\<lambda>h.
      let seq = last_sequence h + 1
      in require (expected_sequence = None \<or> expected_sequence = Some seq) RunLedgerConflictError
      (let previous = last_event_sha256 h
       in bind_result (encode_run_ledger_payload cd (payload e)) (\<lambda>pjson.
          bind_result (run_ledger_payload_sha256 cd (payload e)) (\<lambda>psha.
          bind_result (run_ledger_event_sha256 cd e seq previous) (\<lambda>digest.
            let row = event_row e (int (length (event_rows lg)) + 1) seq now pjson psha previous digest;
                h' = h\<lparr>last_sequence := seq, last_event_id := event_id e,
                        last_event_sha256 := digest,
                        terminal_sequence := (if terminal_event e then Some seq
                                              else terminal_sequence h)\<rparr>;
                lg' = lg\<lparr>event_rows := event_rows lg @ [row],
                          stream_heads := dict_set (ev_run_id e) h' (stream_heads lg)\<rparr>
            in require (row_unique row lg \<and> seq > 0 \<and> schema_version e > 0 \<and>
                        dropped_field_count e \<ge> 0) SqlIntegrityError
                 (bind_result (row_to_record cd row) (\<lambda>r. Inr (r, lg'))))))))))"

definition ledger_append ::
  "codec \<Rightarrow> RunLedgerEventDraft \<Rightarrow> int option \<Rightarrow> datetime \<Rightarrow> RunLedger
     \<Rightarrow> ledger_error + (RunLedgerEventRecord \<times> RunLedger)" where
  "ledger_append cd e expected_sequence now lg =
     require (case expected_sequence of None \<Rightarrow> True | Some n \<Rightarrow> n > 0) LedgerValueError
     (case find_event (event_id e) lg of
        Some existing_row \<Rightarrow>
          bind_result (row_to_record cd existing_row) (\<lambda>existing.
            require (expected_sequence = None \<or> expected_sequence = Some (rec_sequence existing))
              RunLedgerConflictError
            (bind_result (same_event cd existing e) (\<lambda>same.
              require same RunLedgerConflictError (Inr (existing, lg)))))
      | None \<Rightarrow> append_new cd e expected_sequence now lg)"

definition ledger_get :: "codec \<Rightarrow> pystr \<Rightarrow> RunLedger \<Rightarrow> ledger_error + RunLedgerEventRecord option" where
  "ledger_get cd eid lg =
     (let normalized = py_strip eid
      in require (normalized \<noteq> []) LedgerValueError
         (case find_event normalized lg of
            None \<Rightarrow> Inr None
          | Some row \<Rightarrow> bind_result (row_to_record cd row) (\<lambda>r. Inr (Some r))))"

text \<open>
  \<open>_verify_contiguous\<close>; the digest of the first record is not compared with anything, because
  a page need not start at the beginning.
\<close>

fun verify_contiguous_from ::
  "int \<Rightarrow> pystr option \<Rightarrow> RunLedgerEventRecord list \<Rightarrow> bool" where
  "verify_contiguous_from expected previous [] = True"
| "verify_contiguous_from expected previous (r # rs) =
     (rec_sequence r = expected \<and>
      (case previous of None \<Rightarrow> True | Some p \<Rightarrow> rec_previous_sha256 r = p) \<and>
      verify_contiguous_from (expected + 1) (Some (rec_event_sha256 r)) rs)"

definition verify_contiguous :: "RunLedgerEventRecord list \<Rightarrow> int \<Rightarrow> bool" where
  "verify_contiguous records after_sequence =
     verify_contiguous_from (after_sequence + 1) None records"

definition ledger_read ::
  "codec \<Rightarrow> pystr \<Rightarrow> int \<Rightarrow> int option \<Rightarrow> int \<Rightarrow> RunLedger
     \<Rightarrow> ledger_error + RunLedgerEventRecord list" where
  "ledger_read cd rid after_sequence through_sequence limit lg =
     (let normalized = py_strip rid
      in require (normalized \<noteq> []) LedgerValueError
         (require (after_sequence \<ge> 0) LedgerValueError
         (require (case through_sequence of None \<Rightarrow> True | Some t \<Rightarrow> t > after_sequence) LedgerValueError
         (require (0 < limit \<and> limit \<le> 5000) LedgerValueError
         (let rows = take (nat limit)
                (filter (\<lambda>row. sequence row > after_sequence \<and>
                     (case through_sequence of None \<Rightarrow> True | Some t \<Rightarrow> sequence row \<le> t))
                   (run_rows normalized lg))
          in bind_result (map_result (row_to_record cd) rows) (\<lambda>records.
               require (verify_contiguous records after_sequence) RunLedgerIntegrityError
                 (Inr records)))))))"

definition ledger_head :: "pystr \<Rightarrow> RunLedger \<Rightarrow> ledger_error + RunLedgerHead option" where
  "ledger_head rid lg =
     (let normalized = py_strip rid
      in require (normalized \<noteq> []) LedgerValueError
         (case dict_get (stream_heads lg) normalized of
            None \<Rightarrow> Inr None
          | Some h \<Rightarrow> bind_result (RunLedgerHead_post_init h) (\<lambda>h'. Inr (Some h'))))"

section \<open>The writer\<close>

text \<open>
  \<open>append_many\<close> appends the events of one run in one transaction. The commit may raise after
  the transaction took effect or without it; in every failure the writer reads its events
  back. Retrying on a locked database repeats the transaction and is not modelled.
\<close>

datatype commit_outcome = Committed | CommitRaised bool

fun append_all ::
  "codec \<Rightarrow> (RunLedgerEventDraft \<times> int option) list \<Rightarrow> datetime \<Rightarrow> RunLedger
     \<Rightarrow> ledger_error + (RunLedgerEventRecord list \<times> RunLedger)" where
  "append_all cd [] now lg = Inr ([], lg)"
| "append_all cd ((e, expected) # rest) now lg =
     bind_result (ledger_append cd e expected now lg) (\<lambda>p.
     bind_result (append_all cd rest now (snd p)) (\<lambda>q. Inr (fst p # fst q, snd q)))"

fun read_back_many ::
  "codec \<Rightarrow> RunLedgerEventDraft list \<Rightarrow> RunLedger \<Rightarrow> ledger_error + RunLedgerEventRecord list option" where
  "read_back_many cd [] lg = Inr (Some [])"
| "read_back_many cd (e # es) lg =
     bind_result (ledger_get cd (event_id e) lg) (\<lambda>found.
       case found of
         None \<Rightarrow> Inr None
       | Some r \<Rightarrow>
           bind_result (same_event cd r e) (\<lambda>same.
             require same RunLedgerConflictError
             (bind_result (read_back_many cd es lg) (\<lambda>rest.
                Inr (case rest of None \<Rightarrow> None | Some rs \<Rightarrow> Some (r # rs))))))"

definition recover_many ::
  "codec \<Rightarrow> ledger_error \<Rightarrow> RunLedgerEventDraft list \<Rightarrow> int option list \<Rightarrow> RunLedger
     \<Rightarrow> ledger_error + RunLedgerEventRecord list" where
  "recover_many cd exc es expected lg =
     bind_result (read_back_many cd es lg) (\<lambda>recovered.
       case recovered of
         Some rs \<Rightarrow>
           require (list_all2 (\<lambda>r x. x = None \<or> x = Some (rec_sequence r)) rs expected)
             RunLedgerConflictError (Inr rs)
       | None \<Rightarrow> Inl (if exc = SqlIntegrityError then RunLedgerConflictError else exc))"

definition append_many ::
  "codec \<Rightarrow> RunLedgerEventDraft list \<Rightarrow> int option list \<Rightarrow> commit_outcome \<Rightarrow> datetime \<Rightarrow> RunLedger
     \<Rightarrow> (ledger_error + RunLedgerEventRecord list) \<times> RunLedger" where
  "append_many cd es expected outcome now lg =
     (if es = [] then (Inl LedgerTypeError, lg)
      else if \<not> list_all (\<lambda>e. ev_run_id e = ev_run_id (hd es)) es then (Inl LedgerValueError, lg)
      else if length expected \<noteq> length es then (Inl LedgerValueError, lg)
      else case append_all cd (zip es expected) now lg of
             Inl exc \<Rightarrow> (recover_many cd exc es expected lg, lg)
           | Inr (rs, lg') \<Rightarrow>
               (case outcome of
                  Committed \<Rightarrow> (Inr rs, lg')
                | CommitRaised applied \<Rightarrow>
                    (let db = (if applied then lg' else lg)
                     in (recover_many cd CommitError es expected db, db))))"

end
