(* ===== verification/Run_Ledger_View.thy ===== *)
theory Run_Ledger_View
  imports Run_Ledger
begin

text \<open>
  Reading the ledger: \<open>core/run_ledger/projection.py\<close> (chain verification, the projection of
  a run's events, the comparison with the legacy run header) and
  \<open>core/run_ledger/read_model.py\<close> (the authoritative view). The projection's fields are
  grouped as its \<open>to_dict\<close> groups them: usage, recovery and context manifest.
\<close>

section \<open>Chain verification\<close>

fun verify_chain_from :: "pystr \<Rightarrow> int \<Rightarrow> pystr \<Rightarrow> RunLedgerEventRecord list \<Rightarrow> bool" where
  "verify_chain_from rid expected previous [] = True"
| "verify_chain_from rid expected previous (r # rs) =
     (ev_run_id (rec_event r) = rid \<and> rec_sequence r = expected \<and>
      rec_previous_sha256 r = previous \<and>
      verify_chain_from rid (expected + 1) (rec_event_sha256 r) rs)"

definition verify_run_ledger_chain :: "RunLedgerEventRecord list \<Rightarrow> ledger_error + unit" where
  "verify_run_ledger_chain records =
     (case records of
        [] \<Rightarrow> Inr ()
      | r # _ \<Rightarrow> require (verify_chain_from (ev_run_id (rec_event r)) 1 [] records)
                   RunLedgerIntegrityError (Inr ()))"

section \<open>Projection\<close>

record usage_totals =
  input_tokens :: int
  output_tokens :: int
  cached_input_tokens :: int
  reasoning_tokens :: int
  cost_microunits :: int

record recovery_view =
  checkpoint_count :: nat
  latest_checkpoint_id :: pystr
  latest_checkpoint_boundary :: pystr
  latest_checkpoint_resumable :: bool
  version_proofs_sha256 :: pystr
  side_effect_prepared :: nat
  side_effect_completed :: nat
  side_effect_failed :: nat
  side_effect_ambiguous :: nat
  lineage_operation_kind :: pystr
  parent_run_sha256 :: pystr
  root_run_sha256 :: pystr

record manifest_view =
  prompt_mode :: pystr
  prompt_key :: pystr
  prompt_sha256 :: pystr
  prompt_resolution_sha256 :: pystr
  manifest_sha256 :: pystr
  manifest_entry_count :: int
  manifest_token_estimate :: int
  manifest_policy_id :: pystr

text \<open>The local variables of the projection's loop.\<close>

record projection_state =
  pj_status :: pystr
  pj_terminal :: bool
  started_at :: "datetime option"
  finished_at :: "datetime option"
  model_request_count :: nat
  tool_call_ids :: "pystr list"
  permission_decision_count :: nat
  delivery_attempt_ids :: "pystr list"
  usage :: usage_totals
  artifact_ids :: "pystr list"
  error_codes :: "pystr list"
  correction_count :: nat
  manifest :: manifest_view
  model_ids :: "pystr list"
  tool_names :: "pystr list"
  recovery :: recovery_view

definition projection_init :: projection_state where
  "projection_init =
     \<lparr>pj_status = lit ''unknown'', pj_terminal = False, started_at = None, finished_at = None,
      model_request_count = 0, tool_call_ids = [], permission_decision_count = 0,
      delivery_attempt_ids = [],
      usage = \<lparr>input_tokens = 0, output_tokens = 0, cached_input_tokens = 0,
               reasoning_tokens = 0, cost_microunits = 0\<rparr>,
      artifact_ids = [], error_codes = [], correction_count = 0,
      manifest = \<lparr>prompt_mode = [], prompt_key = [], prompt_sha256 = [],
                  prompt_resolution_sha256 = [], manifest_sha256 = [], manifest_entry_count = 0,
                  manifest_token_estimate = 0, manifest_policy_id = []\<rparr>,
      model_ids = [], tool_names = [],
      recovery = \<lparr>checkpoint_count = 0, latest_checkpoint_id = [],
                  latest_checkpoint_boundary = [], latest_checkpoint_resumable = False,
                  version_proofs_sha256 = [], side_effect_prepared = 0,
                  side_effect_completed = 0, side_effect_failed = 0, side_effect_ambiguous = 0,
                  lineage_operation_kind = [], parent_run_sha256 = [], root_run_sha256 = []\<rparr>\<rparr>"

text \<open>\<open>str(payload.get(key) or default)\<close> on a scalar payload.\<close>

definition scalar_truthy :: "json \<Rightarrow> bool" where
  "scalar_truthy v \<longleftrightarrow>
     (case v of JNull \<Rightarrow> False | JBool b \<Rightarrow> b | JInt n \<Rightarrow> n \<noteq> 0 | JFloat x \<Rightarrow> x \<noteq> Finite 0
      | JStr s \<Rightarrow> s \<noteq> [] | JList xs \<Rightarrow> xs \<noteq> [] | JObject d \<Rightarrow> d \<noteq> [])"

definition scalar_str :: "codec \<Rightarrow> json \<Rightarrow> pystr" where
  "scalar_str cd v =
     (case v of JStr s \<Rightarrow> s | JInt n \<Rightarrow> dump_int n | JBool b \<Rightarrow> (if b then lit ''True'' else lit ''False'')
      | JFloat (Finite q) \<Rightarrow> float_repr_of cd q | _ \<Rightarrow> lit ''None'')"

definition payload_str :: "codec \<Rightarrow> RunLedgerEventDraft \<Rightarrow> string \<Rightarrow> pystr \<Rightarrow> pystr" where
  "payload_str cd e key dflt =
     (case dict_get (payload e) (lit key) of
        None \<Rightarrow> dflt
      | Some v \<Rightarrow> if scalar_truthy v then scalar_str cd v else dflt)"

text \<open>A non-negative integer field; \<open>type(value) is int\<close> excludes booleans.\<close>

definition payload_count :: "RunLedgerEventDraft \<Rightarrow> string \<Rightarrow> int option" where
  "payload_count e key =
     (case dict_get (payload e) (lit key) of
        Some (JInt n) \<Rightarrow> if n \<ge> 0 then Some n else None
      | _ \<Rightarrow> None)"

text \<open>A non-empty string field.\<close>

definition payload_text :: "RunLedgerEventDraft \<Rightarrow> string \<Rightarrow> pystr list" where
  "payload_text e key =
     (case dict_get (payload e) (lit key) of
        Some (JStr s) \<Rightarrow> if s \<noteq> [] then [s] else []
      | _ \<Rightarrow> [])"

definition nonempty_or :: "pystr \<Rightarrow> pystr \<Rightarrow> pystr" where
  "nonempty_or a b = (if a \<noteq> [] then a else b)"

text \<open>The first chain of tests in the loop: the life cycle of the run.\<close>

definition project_lifecycle ::
  "codec \<Rightarrow> RunLedgerEventDraft \<Rightarrow> projection_state \<Rightarrow> projection_state" where
  "project_lifecycle cd e p =
     (if event_type e = lit ''run.accepted'' then
        p\<lparr>started_at := (if started_at p = None then Some (occurred_at e) else started_at p),
          pj_status := nonempty_or (ev_status e) (lit ''accepted''),
          manifest := (manifest p)\<lparr>prompt_mode := payload_str cd e ''prompt_mode'' [],
                                   prompt_key := payload_str cd e ''prompt_key'' [],
                                   prompt_sha256 := payload_str cd e ''prompt_sha256'' []\<rparr>\<rparr>
      else if event_type e = lit ''run.prompt_resolved'' then
        (let m = manifest p in
         p\<lparr>manifest := m\<lparr>
             prompt_mode := payload_str cd e ''prompt_mode'' (prompt_mode m),
             prompt_key := payload_str cd e ''prompt_key'' (prompt_key m),
             prompt_sha256 := payload_str cd e ''prompt_sha256'' (prompt_sha256 m),
             prompt_resolution_sha256 :=
               payload_str cd e ''prompt_resolution_sha256'' (prompt_resolution_sha256 m),
             manifest_sha256 := payload_str cd e ''context_manifest_sha256'' (manifest_sha256 m),
             manifest_entry_count :=
               (case payload_count e ''context_manifest_entry_count'' of
                  None \<Rightarrow> manifest_entry_count m | Some n \<Rightarrow> n),
             manifest_token_estimate :=
               (case payload_count e ''context_manifest_tokens'' of
                  None \<Rightarrow> manifest_token_estimate m | Some n \<Rightarrow> n),
             manifest_policy_id :=
               payload_str cd e ''context_manifest_policy_id'' (manifest_policy_id m)\<rparr>\<rparr>)
      else if event_type e = lit ''run.status_changed'' then p\<lparr>pj_status := ev_status e\<rparr>
      else if event_type e = lit ''run.terminated'' then
        p\<lparr>pj_status := ev_status e, pj_terminal := True, finished_at := Some (occurred_at e)\<rparr>
      else if event_type e = lit ''run.event_corrected'' then
        p\<lparr>correction_count := correction_count p + 1,
          pj_status := (case payload_text e ''replacement_status'' of
                          [] \<Rightarrow> pj_status p | s # _ \<Rightarrow> s)\<rparr>
      else p)"

definition add_usage :: "RunLedgerEventDraft \<Rightarrow> usage_totals \<Rightarrow> usage_totals" where
  "add_usage e u =
     (let plus = (\<lambda>key n. case payload_count e key of None \<Rightarrow> n | Some v \<Rightarrow> n + v)
      in \<lparr>input_tokens = plus ''input_tokens'' (input_tokens u),
          output_tokens = plus ''output_tokens'' (output_tokens u),
          cached_input_tokens = plus ''cached_input_tokens'' (cached_input_tokens u),
          reasoning_tokens = plus ''reasoning_tokens'' (reasoning_tokens u),
          cost_microunits = plus ''cost_microunits'' (cost_microunits u)\<rparr>)"

definition project_side_effect :: "pystr \<Rightarrow> recovery_view \<Rightarrow> recovery_view" where
  "project_side_effect effect_state r =
     (if effect_state = lit ''prepared'' then r\<lparr>side_effect_prepared := side_effect_prepared r + 1\<rparr>
      else if effect_state = lit ''completed''
        then r\<lparr>side_effect_completed := side_effect_completed r + 1\<rparr>
      else if effect_state = lit ''failed'' then r\<lparr>side_effect_failed := side_effect_failed r + 1\<rparr>
      else if effect_state = lit ''ambiguous''
        then r\<lparr>side_effect_ambiguous := side_effect_ambiguous r + 1\<rparr>
      else r)"

text \<open>The second chain of tests: activity counters and recovery facts.\<close>

definition project_activity ::
  "codec \<Rightarrow> RunLedgerEventDraft \<Rightarrow> projection_state \<Rightarrow> projection_state" where
  "project_activity cd e p =
     (let corr = correlation e; effect_prefix = lit ''tool.side_effect_'' in
      if event_type e = lit ''model.request.started'' then
        p\<lparr>model_request_count := model_request_count p + 1\<rparr>
      else if event_type e = lit ''tool.execute.started'' then
        p\<lparr>tool_call_ids :=
            List.insert (nonempty_or (corr_tool_call_id corr) (event_id e)) (tool_call_ids p)\<rparr>
      else if event_type e = lit ''tool.activity_recorded'' then
        p\<lparr>tool_call_ids :=
            List.insert (payload_str cd e ''tool_call_id''
                           (nonempty_or (corr_tool_call_id corr) (event_id e))) (tool_call_ids p)\<rparr>
      else if event_type e = lit ''permission.decided'' then
        p\<lparr>permission_decision_count := permission_decision_count p + 1\<rparr>
      else if event_type e = lit ''delivery.attempt.started'' then
        p\<lparr>delivery_attempt_ids :=
            List.insert (nonempty_or (corr_delivery_id corr) (event_id e)) (delivery_attempt_ids p)\<rparr>
      else if event_type e = lit ''usage.recorded'' then p\<lparr>usage := add_usage e (usage p)\<rparr>
      else if event_type e = lit ''artifact.recorded'' then
        p\<lparr>artifact_ids := artifact_ids p @ payload_text e ''artifact_id''\<rparr>
      else if event_type e = lit ''run.checkpoint_saved'' \<or>
              event_type e = lit ''run.checkpoint_restored'' then
        p\<lparr>recovery := (recovery p)\<lparr>
            checkpoint_count := checkpoint_count (recovery p) + 1,
            latest_checkpoint_id := payload_str cd e ''checkpoint_id'' [],
            latest_checkpoint_boundary := payload_str cd e ''boundary'' [],
            latest_checkpoint_resumable :=
              (dict_get (payload e) (lit ''resumable'') = Some (JBool True)),
            version_proofs_sha256 := payload_str cd e ''version_proofs_sha256'' []\<rparr>\<rparr>
      else if startswith (event_type e) effect_prefix then
        p\<lparr>recovery := project_side_effect (drop (length effect_prefix) (event_type e)) (recovery p)\<rparr>
      else if event_type e = lit ''run.lineage_declared'' then
        p\<lparr>recovery := (recovery p)\<lparr>
            lineage_operation_kind := payload_str cd e ''operation_kind'' [],
            parent_run_sha256 := payload_str cd e ''parent_run_sha256'' [],
            root_run_sha256 := payload_str cd e ''root_run_sha256'' []\<rparr>\<rparr>
      else p)"

definition project_event ::
  "codec \<Rightarrow> projection_state \<Rightarrow> RunLedgerEventRecord \<Rightarrow> projection_state" where
  "project_event cd p r =
     (let e = rec_event r;
          p1 = project_activity cd e (project_lifecycle cd e p)
      in p1\<lparr>model_ids := model_ids p1 @ payload_text e ''model'',
            tool_names := tool_names p1 @ payload_text e ''tool_name'',
            error_codes := error_codes p1 @ payload_text e ''error_code'' @
                           payload_text e ''failure_code''\<rparr>)"

record RunLedgerProjection =
  proj_run_id :: pystr
  proj_status :: pystr
  proj_terminal :: bool
  event_count :: nat
  high_water_sequence :: int
  proj_started_at :: "datetime option"
  proj_updated_at :: datetime
  proj_finished_at :: "datetime option"
  proj_model_request_count :: nat
  proj_tool_call_count :: nat
  proj_permission_decision_count :: nat
  proj_delivery_attempt_count :: nat
  proj_usage :: usage_totals
  proj_artifact_ids :: "pystr list"
  proj_error_codes :: "pystr list"
  proj_correction_count :: nat
  proj_manifest :: manifest_view
  proj_model_ids :: "pystr list"
  proj_tool_names :: "pystr list"
  proj_recovery :: recovery_view

definition projection_result ::
  "RunLedgerEventRecord list \<Rightarrow> projection_state \<Rightarrow> RunLedgerProjection" where
  "projection_result records p =
     \<lparr>proj_run_id = ev_run_id (rec_event (hd records)), proj_status = pj_status p,
      proj_terminal = pj_terminal p, event_count = length records,
      high_water_sequence = rec_sequence (last records), proj_started_at = started_at p,
      proj_updated_at = occurred_at (rec_event (last records)),
      proj_finished_at = finished_at p, proj_model_request_count = model_request_count p,
      proj_tool_call_count = length (tool_call_ids p),
      proj_permission_decision_count = permission_decision_count p,
      proj_delivery_attempt_count = length (delivery_attempt_ids p),
      proj_usage = usage p, proj_artifact_ids = dict_fromkeys (artifact_ids p),
      proj_error_codes = dict_fromkeys (error_codes p),
      proj_correction_count = correction_count p, proj_manifest = manifest p,
      proj_model_ids = dict_fromkeys (model_ids p), proj_tool_names = dict_fromkeys (tool_names p),
      proj_recovery = recovery p\<rparr>"

definition project_run_ledger ::
  "codec \<Rightarrow> RunLedgerEventRecord list \<Rightarrow> ledger_error + RunLedgerProjection option" where
  "project_run_ledger cd records =
     (if records = [] then Inr None
      else bind_result (verify_run_ledger_chain records) (\<lambda>_.
             Inr (Some (projection_result records (foldl (project_event cd) projection_init records)))))"

section \<open>Readiness against the legacy header\<close>

record RunLedgerReadiness =
  rd_run_id :: pystr
  projection_consistent :: bool
  projection_complete :: bool
  reason_codes :: "pystr list"
  legacy_status :: pystr
  ledger_status :: pystr
  legacy_terminal :: bool
  ledger_terminal :: bool
  accepted_event_count :: nat
  terminal_event_count :: nat
  rd_high_water_sequence :: int

definition count_type :: "string \<Rightarrow> RunLedgerEventRecord list \<Rightarrow> nat" where
  "count_type etype records =
     length (filter (\<lambda>r. event_type (rec_event r) = lit etype) records)"

definition readiness_reasons ::
  "RunLedgerEventRecord list \<Rightarrow> bool \<Rightarrow> pystr \<Rightarrow> bool \<Rightarrow> RunLedgerProjection option \<Rightarrow> pystr list" where
  "readiness_reasons records is_complete legacy legacy_done projection =
     (if is_complete then [] else [lit ''projection_incomplete'']) @
     (if records = [] then [lit ''ledger_missing'']
      else if event_type (rec_event (hd records)) \<noteq> lit ''run.accepted''
      then [lit ''accepted_not_first''] else []) @
     (if count_type ''run.accepted'' records \<noteq> 1 then [lit ''accepted_count_mismatch''] else []) @
     (if count_type ''run.terminated'' records > 1 then [lit ''terminal_count_mismatch''] else []) @
     (case projection of
        None \<Rightarrow> [] | Some p \<Rightarrow> if proj_status p \<noteq> legacy then [lit ''status_mismatch''] else []) @
     (let ledger_done = (case projection of None \<Rightarrow> False | Some p \<Rightarrow> proj_terminal p)
      in if legacy_done \<and> \<not> ledger_done then [lit ''ledger_terminal_missing'']
         else if ledger_done \<and> \<not> legacy_done then [lit ''legacy_terminal_missing''] else [])"

definition assess_run_ledger_readiness ::
  "codec \<Rightarrow> RunLedgerEventRecord list \<Rightarrow> pystr \<Rightarrow> pystr \<Rightarrow> datetime option \<Rightarrow> bool \<Rightarrow> int option
     \<Rightarrow> ledger_error + RunLedgerReadiness" where
  "assess_run_ledger_readiness cd records rid legacy finished is_complete high_water =
     (let normalized = canonical_run_status legacy;
          legacy_done = (finished \<noteq> None \<or> is_terminal_run_status normalized)
      in bind_result (project_run_ledger cd records) (\<lambda>projection.
         let reasons = readiness_reasons records is_complete normalized legacy_done projection
         in Inr \<lparr>rd_run_id = (if records = [] then rid else ev_run_id (rec_event (hd records))),
                 projection_consistent = (reasons = []), projection_complete = is_complete,
                 reason_codes = dict_fromkeys reasons, legacy_status = normalized,
                 ledger_status = (case projection of None \<Rightarrow> [] | Some p \<Rightarrow> proj_status p),
                 legacy_terminal = legacy_done,
                 ledger_terminal = (case projection of None \<Rightarrow> False | Some p \<Rightarrow> proj_terminal p),
                 accepted_event_count = count_type ''run.accepted'' records,
                 terminal_event_count = count_type ''run.terminated'' records,
                 rd_high_water_sequence =
                   (case high_water of
                      Some n \<Rightarrow> n
                    | None \<Rightarrow> if records = [] then 0 else rec_sequence (last records))\<rparr>))"

section \<open>The authoritative view\<close>

record AuthoritativeRunLedgerView =
  view_head :: RunLedgerHead
  view_records :: "RunLedgerEventRecord list"
  view_projection :: RunLedgerProjection

lemma verify_contiguous_from_last:
  "verify_contiguous_from expected previous rs \<Longrightarrow> rs \<noteq> [] \<Longrightarrow>
     rec_sequence (last rs) = expected + int (length rs) - 1"
  by (induction expected previous rs rule: verify_contiguous_from.induct) auto

lemma ledger_read_progress:
  assumes "ledger_read cd rid after through limit lg = Inr page" "page \<noteq> []"
  shows "after < rec_sequence (last page)"
proof -
  have "verify_contiguous page after"
    using assms(1) by (auto simp: ledger_read_def Let_def result_simps)
  then have "rec_sequence (last page) = after + int (length page)"
    using verify_contiguous_from_last assms(2) by (fastforce simp: verify_contiguous_def)
  with assms(2) show ?thesis by (simp add: length_greater_0_conv [symmetric] del: length_greater_0_conv)
qed

text \<open>
  The paging loop. It ends because a page that passed \<open>_verify_contiguous\<close> ends above the
  sequence it started from.
\<close>

function load_pages ::
  "codec \<Rightarrow> pystr \<Rightarrow> int \<Rightarrow> int \<Rightarrow> RunLedger \<Rightarrow> int \<Rightarrow> ledger_error + RunLedgerEventRecord list" where
  "load_pages cd rid page_size high_water lg after_sequence =
     (if after_sequence < high_water then
        (case ledger_read cd rid after_sequence (Some high_water)
                (min page_size (high_water - after_sequence)) lg of
           Inl e \<Rightarrow> Inl e
         | Inr page \<Rightarrow>
             if page = [] then Inl RunLedgerIntegrityError
             else bind_result (load_pages cd rid page_size high_water lg (rec_sequence (last page)))
                    (\<lambda>rest. Inr (page @ rest)))
      else Inr [])"
  by pat_completeness auto
termination
proof (relation "measure (\<lambda>(cd, rid, page_size, high_water, lg, after). nat (high_water - after))",
    goal_cases)
  case (2 cd rid page_size high_water lg after page)
  from ledger_read_progress [OF 2(2,3)] 2(1) show ?case by simp
qed simp

declare load_pages.simps [simp del]

definition terminal_sequences :: "RunLedgerEventRecord list \<Rightarrow> int list" where
  "terminal_sequences records =
     map rec_sequence (filter (\<lambda>r. event_type (rec_event r) = lit ''run.terminated'') records)"

definition load_authoritative_run_view ::
  "codec \<Rightarrow> RunLedger \<Rightarrow> pystr \<Rightarrow> int \<Rightarrow> ledger_error + AuthoritativeRunLedgerView option" where
  "load_authoritative_run_view cd lg rid page_size =
     require (0 < page_size \<and> page_size \<le> 5000) LedgerValueError
     (bind_result (ledger_head rid lg) (\<lambda>found.
        case found of
          None \<Rightarrow> Inr None
        | Some h \<Rightarrow>
            require (last_sequence h > 0) RunLedgerIntegrityError
            (bind_result (load_pages cd rid page_size (last_sequence h) lg 0) (\<lambda>records.
               require (int (length records) = last_sequence h) RunLedgerIntegrityError
               (bind_result (project_run_ledger cd records) (\<lambda>projected.
                  case projected of
                    None \<Rightarrow> Inl RunLedgerIntegrityError
                  | Some projection \<Rightarrow>
                      require (event_type (rec_event (hd records)) = lit ''run.accepted'')
                        RunLedgerIntegrityError
                      (require (event_id (rec_event (last records)) = last_event_id h)
                        RunLedgerIntegrityError
                      (require (rec_event_sha256 (last records) = last_event_sha256 h)
                        RunLedgerIntegrityError
                      (require (length (terminal_sequences records) \<le> 1) RunLedgerIntegrityError
                      (require (terminal_sequence h =
                                  (case terminal_sequences records of [] \<Rightarrow> None | t # _ \<Rightarrow> Some t))
                        RunLedgerIntegrityError
                      (Inr (Some \<lparr>view_head = h, view_records = records,
                                  view_projection = projection\<rparr>))))))))))))"

end
