(* ===== verification/Run_Ledger_Correct.thy ===== *)
theory Run_Ledger_Correct
  imports Run_Ledger_View Protocols
begin

text \<open>
  Correctness of the run ledger. The invariant \<open>ledger_inv\<close> says that the rows of every run
  are a gap-free, digest-linked stream that agrees with its head. Every append keeps it, so
  no read, projection or authoritative view of a reachable ledger ever raises; a stored event
  is never changed, appending it again returns the same record, and nothing but corrections
  follows the termination of a run.
\<close>

section \<open>Normal forms\<close>

definition plain_identifier :: "nat \<Rightarrow> pystr \<Rightarrow> bool" where
  "plain_identifier n s \<longleftrightarrow>
     py_strip s = s \<and> s \<noteq> [] \<and> length s \<le> n \<and> \<not> list_ex (\<lambda>c. c < 32) s"

lemma required_identifier_Inr:
  "required_identifier n v = Inr s \<longleftrightarrow> s = py_strip v \<and> plain_identifier n s"
  by (auto simp: required_identifier_def plain_identifier_def Let_def split: if_splits)

lemma required_identifier_plain: "plain_identifier n s \<Longrightarrow> required_identifier n s = Inr s"
  by (simp add: required_identifier_Inr) (simp add: plain_identifier_def)

lemma optional_identifier_Inr:
  "optional_identifier n v = Inr s \<longleftrightarrow> s = py_strip v \<and> (s = [] \<or> plain_identifier n s)"
  by (auto simp: optional_identifier_def Let_def required_identifier_Inr plain_identifier_def)

lemma optional_identifier_plain:
  "s = [] \<or> plain_identifier n s \<Longrightarrow> optional_identifier n s = Inr s"
  by (auto simp: optional_identifier_Inr plain_identifier_def)

lemma py_lower_id:
  "\<forall>c \<in> set s. \<not> (65 \<le> c \<and> c \<le> 90) \<and> c \<noteq> 8490 \<and> c \<noteq> 304 \<Longrightarrow> py_lower s = s"
  by (induction s) (auto simp: py_lower_def lower_char_def)

lemma hex64_normal:
  assumes "hex64 s"
  shows "py_lower (py_strip s) = s"
proof -
  have "\<forall>c \<in> set s. hex_digit c" using assms by (simp add: hex64_def list_all_iff)
  then have "py_strip s = s" "py_lower s = s"
    using py_strip_visible hex_digit_visible
    by (blast, intro py_lower_id) (auto simp: hex_digit_def)
  then show ?thesis by simp
qed

lemma event_identifier_chars:
  assumes "event_identifier s" "c \<in> set s"
  shows "event_type_char c"
  using assms by (cases s) (auto simp: event_identifier_def event_type_char_def list_all_iff)

lemma event_type_char_plain:
  "event_type_char c \<Longrightarrow> \<not> py_isspace c \<and> \<not> (65 \<le> c \<and> c \<le> 90) \<and> c \<noteq> 8490 \<and> c \<noteq> 304"
  by (auto simp: event_type_char_def lower_letter_def is_digit_def py_isspace_def)

lemma event_chars_normal:
  assumes "\<forall>c \<in> set s. event_type_char c"
  shows "py_strip s = s" "py_lower s = s"
  using assms event_type_char_plain by (blast intro: py_strip_visible py_lower_id)+

lemma event_identifier_normal: "event_identifier s \<Longrightarrow> py_lower (py_strip s) = s"
  using event_chars_normal event_identifier_chars by metis

lemma event_type_of_Inr:
  "event_type_of v = Inr t \<Longrightarrow> event_type_of t = Inr t"
  by (auto simp: event_type_of_def Let_def event_identifier_normal split: if_splits)

text \<open>An event that its constructor accepted.\<close>

definition draft_ok :: "RunLedgerEventDraft \<Rightarrow> bool" where
  "draft_ok e \<longleftrightarrow>
     (\<exists>d i c. RunLedgerEventDraft_post_init d = Inr e \<and>
        RunLedgerIdentity_post_init i = Inr (identity d) \<and>
        correlation d = TelemetryCorrelation_post_init c)"

lemma draft_ok_run_id:
  assumes "draft_ok e"
  shows "plain_identifier 160 (ev_run_id e)" "plain_identifier 160 (event_id e)"
    "event_type_of (event_type e) = Inr (event_type e)"
  using assms
  by (auto simp: draft_ok_def RunLedgerEventDraft_post_init_def result_simps Let_def
      required_identifier_Inr dest: event_type_of_Inr)

section \<open>The stream of a run\<close>

definition rows_of :: "pystr \<Rightarrow> RunLedger \<Rightarrow> RunLedgerEventRow list" where
  "rows_of rid lg = filter (\<lambda>row. row_run_id row = rid) (event_rows lg)"

fun chained :: "pystr \<Rightarrow> RunLedgerEventRow list \<Rightarrow> bool" where
  "chained previous [] = True"
| "chained previous (r # rs) = (previous_event_sha256 r = previous \<and> chained (event_sha256 r) rs)"

lemma chained_snoc:
  "chained p (rs @ [r]) \<longleftrightarrow>
     chained p rs \<and> previous_event_sha256 r = (if rs = [] then p else event_sha256 (last rs))"
  by (induction p rs rule: chained.induct) auto

definition terminated_row :: "RunLedgerEventRow \<Rightarrow> bool" where
  "terminated_row row \<longleftrightarrow> row_event_type row = lit ''run.terminated''"

text \<open>Corrections only after the first termination.\<close>

fun closed_after_end :: "RunLedgerEventRow list \<Rightarrow> bool" where
  "closed_after_end [] = True"
| "closed_after_end (r # rs) =
     ((terminated_row r \<longrightarrow> list_all (\<lambda>q. row_event_type q = lit ''run.event_corrected'') rs) \<and>
      closed_after_end rs)"

lemma closed_after_end_snoc:
  "closed_after_end (rs @ [r]) \<longleftrightarrow>
     closed_after_end rs \<and>
     (list_ex terminated_row rs \<longrightarrow> row_event_type r = lit ''run.event_corrected'')"
  by (induction rs) auto

text \<open>A row that reads back as a record with the row's own data.\<close>

definition row_good :: "codec \<Rightarrow> RunLedgerEventRow \<Rightarrow> bool" where
  "row_good cd row \<longleftrightarrow>
     plain_identifier 160 (row_run_id row) \<and> plain_identifier 160 (row_event_id row) \<and>
     hex64 (event_sha256 row) \<and>
     (\<exists>r. row_to_record cd row = Inr r \<and> rec_sequence r = sequence row \<and>
          rec_previous_sha256 r = previous_event_sha256 row \<and>
          rec_event_sha256 r = event_sha256 row \<and> ev_run_id (rec_event r) = row_run_id row \<and>
          event_type (rec_event r) = row_event_type row \<and>
          event_id (rec_event r) = row_event_id row)"

definition stream_ok :: "codec \<Rightarrow> pystr \<Rightarrow> RunLedgerEventRow list \<Rightarrow> RunLedgerHead \<Rightarrow> bool" where
  "stream_ok cd rid rows h \<longleftrightarrow>
     rows \<noteq> [] \<and> list_all (row_good cd) rows \<and>
     map sequence rows = map (\<lambda>i. int i + 1) [0..<length rows] \<and>
     chained [] rows \<and> closed_after_end rows \<and>
     row_event_type (hd rows) = lit ''run.accepted'' \<and>
     list_all (\<lambda>r. row_event_type r \<noteq> lit ''run.accepted'') (tl rows) \<and>
     head_run_id h = rid \<and> last_sequence h = int (length rows) \<and>
     last_event_id h = row_event_id (last rows) \<and> last_event_sha256 h = event_sha256 (last rows) \<and>
     terminal_sequence h = map_option sequence (find terminated_row rows)"

definition ledger_inv :: "codec \<Rightarrow> RunLedger \<Rightarrow> bool" where
  "ledger_inv cd lg \<longleftrightarrow>
     (\<forall>rid. case dict_get (stream_heads lg) rid of
              None \<Rightarrow> rows_of rid lg = []
            | Some h \<Rightarrow> stream_ok cd rid (rows_of rid lg) h) \<and>
     distinct (map row_event_id (event_rows lg)) \<and> list_all (row_good cd) (event_rows lg)"

lemma ledger_inv_stream:
  assumes "ledger_inv cd lg"
  shows "dict_get (stream_heads lg) rid = None \<Longrightarrow> rows_of rid lg = []"
    and "dict_get (stream_heads lg) rid = Some h \<Longrightarrow> stream_ok cd rid (rows_of rid lg) h"
proof -
  have "case dict_get (stream_heads lg) rid of
              None \<Rightarrow> rows_of rid lg = []
            | Some h \<Rightarrow> stream_ok cd rid (rows_of rid lg) h"
    using assms by (simp add: ledger_inv_def)
  then show "dict_get (stream_heads lg) rid = None \<Longrightarrow> rows_of rid lg = []"
    and "dict_get (stream_heads lg) rid = Some h \<Longrightarrow> stream_ok cd rid (rows_of rid lg) h"
    by simp_all
qed

definition codec_ok :: "codec \<Rightarrow> bool" where
  "codec_ok cd \<longleftrightarrow> (\<forall>b. hex64 (sha256_of cd b))"

lemma event_digest_hex:
  assumes "codec_ok cd" "run_ledger_event_sha256 cd e n p = Inr d"
  shows "hex64 d"
  using assms
  by (auto simp: run_ledger_event_sha256_def Let_def result_simps text_sha256_def codec_ok_def
      split: option.splits)

lemma row_to_record_fields:
  assumes "row_to_record cd row = Inr r"
  shows "rec_sequence r = sequence row"
    "rec_previous_sha256 r = py_lower (py_strip (previous_event_sha256 row))"
    "rec_event_sha256 r = py_lower (py_strip (event_sha256 row))"
    "ev_run_id (rec_event r) = py_strip (row_run_id row)"
    "event_id (rec_event r) = py_strip (row_event_id row)"
    "event_type_of (row_event_type row) = Inr (event_type (rec_event r))"
  using assms
  by (auto simp: row_to_record_def result_simps Let_def RunLedgerEventRecord_post_init_def
      RunLedgerEventDraft_post_init_def required_identifier_Inr)

lemma new_row_good:
  assumes "codec_ok cd" "draft_ok e" "previous = [] \<or> hex64 previous"
    and "run_ledger_event_sha256 cd e seq previous = Inr digest"
    and "row = event_row e pos seq now pjson psha previous digest"
    and "row_to_record cd row = Inr r"
  shows "row_good cd row"
proof -
  note ids = draft_ok_run_id [OF assms(2)]
  have dig: "hex64 digest" by (rule event_digest_hex [OF assms(1,4)])
  have prev: "py_lower (py_strip previous) = previous"
    using assms(3) hex64_normal by (auto simp: py_lower_def)
  from row_to_record_fields [OF assms(6)] show ?thesis
    using ids dig prev hex64_normal [OF dig] assms(6)
    by (auto simp: row_good_def assms(5) event_row_def plain_identifier_def)
qed

section \<open>Appending keeps the invariant\<close>

text \<open>What a successful append of a new event did.\<close>

definition appended ::
  "codec \<Rightarrow> RunLedgerEventDraft \<Rightarrow> RunLedger \<Rightarrow> RunLedgerHead \<Rightarrow> RunLedgerEventRow \<Rightarrow> RunLedger \<Rightarrow> bool" where
  "appended cd e lg h row lg' \<longleftrightarrow>
     open_head e lg = Inr h \<and> row_unique row lg \<and>
     row_run_id row = ev_run_id e \<and> row_event_id row = event_id e \<and>
     row_event_type row = event_type e \<and> row_identity row = identity e \<and>
     sequence row = last_sequence h + 1 \<and> previous_event_sha256 row = last_event_sha256 h \<and>
     run_ledger_event_sha256 cd e (sequence row) (previous_event_sha256 row) = Inr (event_sha256 row) \<and>
     lg' = lg\<lparr>event_rows := event_rows lg @ [row],
              stream_heads := dict_set (ev_run_id e)
                (h\<lparr>last_sequence := sequence row, last_event_id := event_id e,
                   last_event_sha256 := event_sha256 row,
                   terminal_sequence := (if terminal_event e then Some (sequence row)
                                         else terminal_sequence h)\<rparr>) (stream_heads lg)\<rparr>"

lemma append_new_appended:
  assumes "append_new cd e xseq now lg = Inr (r, lg')"
  obtains h row pos pjson psha where "appended cd e lg h row lg'"
    "row = event_row e pos (sequence row) now pjson psha (previous_event_sha256 row) (event_sha256 row)"
    "row_to_record cd row = Inr r" "validate_owner e lg" "correction_known e lg"
    "xseq = None \<or> xseq = Some (sequence row)"
proof -
  from assms obtain h pjson psha digest where
    "correction_known e lg" "validate_owner e lg" "open_head e lg = Inr h"
    "xseq = None \<or> xseq = Some (last_sequence h + 1)"
    "run_ledger_event_sha256 cd e (last_sequence h + 1) (last_event_sha256 h) = Inr digest"
    and row: "row_unique (event_row e (int (length (event_rows lg)) + 1) (last_sequence h + 1) now
           pjson psha (last_event_sha256 h) digest) lg"
      "row_to_record cd (event_row e (int (length (event_rows lg)) + 1) (last_sequence h + 1) now
           pjson psha (last_event_sha256 h) digest) = Inr r"
    and lg': "lg' = lg\<lparr>event_rows := event_rows lg @
          [event_row e (int (length (event_rows lg)) + 1) (last_sequence h + 1) now
           pjson psha (last_event_sha256 h) digest],
          stream_heads := dict_set (ev_run_id e)
            (h\<lparr>last_sequence := last_sequence h + 1, last_event_id := event_id e,
               last_event_sha256 := digest,
               terminal_sequence := (if terminal_event e then Some (last_sequence h + 1)
                                     else terminal_sequence h)\<rparr>) (stream_heads lg)\<rparr>"
    unfolding append_new_def Let_def result_simps by (elim conjE exE) (simp add: result_simps; elim conjE exE; blast)
  then show thesis
    using that [of h "event_row e (int (length (event_rows lg)) + 1) (last_sequence h + 1) now
           pjson psha (last_event_sha256 h) digest" "int (length (event_rows lg)) + 1" pjson psha]
    by (simp add: appended_def event_row_def)
qed

lemma rows_of_appended:
  assumes "appended cd e lg h row lg'"
  shows "rows_of rid lg' = (if rid = ev_run_id e then rows_of rid lg @ [row] else rows_of rid lg)"
    "dict_get (stream_heads lg') rid =
      (if rid = ev_run_id e
       then Some (h\<lparr>last_sequence := sequence row, last_event_id := event_id e,
                    last_event_sha256 := event_sha256 row,
                    terminal_sequence := (if terminal_event e then Some (sequence row)
                                          else terminal_sequence h)\<rparr>)
       else dict_get (stream_heads lg) rid)"
  using assms by (auto simp: appended_def rows_of_def)

lemma appended_fields:
  assumes "appended cd e lg h row lg'"
  shows "open_head e lg = Inr h" "row_event_id row = event_id e" "row_event_type row = event_type e"
    "sequence row = last_sequence h + 1" "previous_event_sha256 row = last_event_sha256 h"
  using assms by (simp_all add: appended_def)

lemma find_None_ex: "find P xs = None \<longleftrightarrow> \<not> list_ex P xs"
  by (induction xs) auto

lemma stream_ok_first:
  assumes "row_good cd row" "row_event_type row = lit ''run.accepted''"
    "sequence row = 1" "previous_event_sha256 row = []"
  shows "stream_ok cd rid [row] \<lparr>head_run_id = rid, last_sequence = 1,
    last_event_id = row_event_id row, last_event_sha256 = event_sha256 row, terminal_sequence = None\<rparr>"
  using assms by (simp add: stream_ok_def terminated_row_def)

lemma stream_ok_snoc:
  assumes ok: "stream_ok cd rid rows h" and good: "row_good cd row"
    and kind: "row_event_type row \<noteq> lit ''run.accepted''"
    and fin: "terminal_sequence h = None \<or> row_event_type row = lit ''run.event_corrected''"
    and seq: "sequence row = last_sequence h + 1"
    and prev: "previous_event_sha256 row = last_event_sha256 h"
  shows "stream_ok cd rid (rows @ [row])
     (h\<lparr>last_sequence := sequence row, last_event_id := row_event_id row,
        last_event_sha256 := event_sha256 row,
        terminal_sequence := (if terminated_row row then Some (sequence row)
                              else terminal_sequence h)\<rparr>)"
proof -
  have ne: "rows \<noteq> []" using ok by (simp add: stream_ok_def)
  have corr: "list_ex terminated_row rows \<longrightarrow> row_event_type row = lit ''run.event_corrected''"
    using ok fin find_None_ex [of terminated_row rows] by (auto simp: stream_ok_def)
  then have "terminated_row row \<Longrightarrow> find terminated_row rows = None"
    using find_None_ex [of terminated_row rows] by (auto simp: terminated_row_def)
  then have "map_option sequence (find terminated_row (rows @ [row])) =
      (if terminated_row row then Some (sequence row) else terminal_sequence h)"
    using ok by (auto simp: find_snoc stream_ok_def split: option.splits)
  moreover have "chained [] (rows @ [row])"
    using ok prev ne by (simp add: stream_ok_def chained_snoc)
  moreover have "closed_after_end (rows @ [row])"
    using ok corr by (simp add: stream_ok_def closed_after_end_snoc)
  ultimately show ?thesis
    using ok good kind seq ne by (simp add: stream_ok_def)
qed

lemma appended_stream_ok:
  assumes inv: "ledger_inv cd lg" and app: "appended cd e lg h row lg'" and good: "row_good cd row"
  shows "\<exists>h'. dict_get (stream_heads lg') (ev_run_id e) = Some h' \<and>
     stream_ok cd (ev_run_id e) (rows_of (ev_run_id e) lg') h'"
proof (cases "dict_get (stream_heads lg) (ev_run_id e)")
  case None
  then have "rows_of (ev_run_id e) lg = []" by (rule ledger_inv_stream(1) [OF inv])
  moreover have "event_type e = lit ''run.accepted''" "h = empty_head (ev_run_id e)"
    using app None by (auto simp: appended_def open_head_def result_simps)
  ultimately show ?thesis
    using stream_ok_first [OF good, of "ev_run_id e"] appended_fields [OF app]
    by (simp add: rows_of_appended [OF app] empty_head_def terminal_event_def)
next
  case (Some h0)
  then have "stream_ok cd (ev_run_id e) (rows_of (ev_run_id e) lg) h0"
    by (rule ledger_inv_stream(2) [OF inv])
  moreover have "h0 = h" "event_type e \<noteq> lit ''run.accepted''"
    "terminal_sequence h = None \<or> event_type e = lit ''run.event_corrected''"
    using app Some by (auto simp: appended_def open_head_def result_simps)
  ultimately show ?thesis
    using stream_ok_snoc [of cd "ev_run_id e" "rows_of (ev_run_id e) lg" h row] good
      appended_fields [OF app]
    by (simp add: rows_of_appended [OF app] terminal_event_def terminated_row_def)
qed

lemma head_previous_hex:
  assumes "ledger_inv cd lg" "open_head e lg = Inr h"
  shows "last_event_sha256 h = [] \<or> hex64 (last_event_sha256 h)"
proof (cases "dict_get (stream_heads lg) (ev_run_id e)")
  case None
  then show ?thesis using assms(2) by (auto simp: open_head_def result_simps empty_head_def)
next
  case (Some h0)
  then have "h0 = h" "stream_ok cd (ev_run_id e) (rows_of (ev_run_id e) lg) h0"
    using assms(2) ledger_inv_stream(2) [OF assms(1) Some] by (simp_all add: open_head_def result_simps)
  then show ?thesis by (auto simp: stream_ok_def row_good_def list_all_iff)
qed

lemma append_new_inv:
  assumes "codec_ok cd" "draft_ok e" "ledger_inv cd lg" "append_new cd e xseq now lg = Inr (r, lg')"
  shows "ledger_inv cd lg'"
proof -
  obtain h row pos pjson psha where app: "appended cd e lg h row lg'"
    and row: "row = event_row e pos (sequence row) now pjson psha (previous_event_sha256 row) (event_sha256 row)"
    and rec: "row_to_record cd row = Inr r"
    using append_new_appended [OF assms(4)] by metis
  have "previous_event_sha256 row = [] \<or> hex64 (previous_event_sha256 row)"
    using head_previous_hex [OF assms(3)] app by (auto simp: appended_def)
  moreover have "run_ledger_event_sha256 cd e (sequence row) (previous_event_sha256 row) =
      Inr (event_sha256 row)" using app unfolding appended_def by blast
  ultimately have good: "row_good cd row"
    by (rule new_row_good [OF assms(1,2) _ _ row rec])
  have heads: "case dict_get (stream_heads lg') rid of None \<Rightarrow> rows_of rid lg' = []
       | Some h \<Rightarrow> stream_ok cd rid (rows_of rid lg') h" for rid
  proof (cases "rid = ev_run_id e")
    case True
    then show ?thesis using appended_stream_ok [OF assms(3) app good] by auto
  next
    case False
    then show ?thesis
      using ledger_inv_stream [OF assms(3), of rid]
      by (auto simp: rows_of_appended [OF app] split: option.splits)
  qed
  have "distinct (map row_event_id (event_rows lg'))" "list_all (row_good cd) (event_rows lg')"
    using assms(3) app good by (auto simp: ledger_inv_def appended_def row_unique_def list_all_iff)
  with heads show ?thesis by (simp add: ledger_inv_def)
qed

section \<open>Reading never fails\<close>

definition rec_of :: "codec \<Rightarrow> RunLedgerEventRow \<Rightarrow> RunLedgerEventRecord" where
  "rec_of cd row = projr (row_to_record cd row)"

lemma row_good_rec:
  assumes "row_good cd row"
  shows "row_to_record cd row = Inr (rec_of cd row)"
    "rec_sequence (rec_of cd row) = sequence row"
    "rec_previous_sha256 (rec_of cd row) = previous_event_sha256 row"
    "rec_event_sha256 (rec_of cd row) = event_sha256 row"
    "ev_run_id (rec_event (rec_of cd row)) = row_run_id row"
    "event_type (rec_event (rec_of cd row)) = row_event_type row"
    "event_id (rec_event (rec_of cd row)) = row_event_id row"
  using assms by (auto simp: row_good_def rec_of_def)

lemma map_result_good:
  "list_all (row_good cd) rows \<Longrightarrow> map_result (row_to_record cd) rows = Inr (map (rec_of cd) rows)"
  by (induction rows) (simp_all add: row_good_rec(1))

lemma sequences_Cons:
  "map sequence (r # rs) = map (\<lambda>i. int i + k) [0..<length (r # rs)] \<longleftrightarrow>
     sequence r = k \<and> map sequence rs = map (\<lambda>i. int i + (k + 1)) [0..<length rs]"
  by (simp add: map_upt_Suc add.commute add.left_commute del: upt_Suc)

lemma good_contiguous:
  assumes "list_all (row_good cd) rows" "chained p rows"
    "map sequence rows = map (\<lambda>i. int i + k) [0..<length rows]" "q = None \<or> q = Some p"
  shows "verify_contiguous_from k q (map (rec_of cd) rows)"
  using assms
proof (induction rows arbitrary: p k q)
  case (Cons r rs)
  note seqs = Cons.prems(3) [unfolded sequences_Cons]
  have "verify_contiguous_from (k + 1) (Some (event_sha256 r)) (map (rec_of cd) rs)"
    using Cons.prems(1,2) seqs by (intro Cons.IH [of "event_sha256 r"]) simp_all
  then show ?case
    using Cons.prems(1,2,4) seqs by (auto simp: row_good_rec)
qed simp

lemma good_chain:
  assumes "list_all (\<lambda>r. row_good cd r \<and> row_run_id r = rid) rows" "chained p rows"
    "map sequence rows = map (\<lambda>i. int i + k) [0..<length rows]"
  shows "verify_chain_from rid k p (map (rec_of cd) rows)"
  using assms
proof (induction rows arbitrary: p k)
  case (Cons r rs)
  note seqs = Cons.prems(3) [unfolded sequences_Cons]
  have "verify_chain_from rid (k + 1) (event_sha256 r) (map (rec_of cd) rs)"
    using Cons.prems(1,2) seqs by (intro Cons.IH) simp_all
  then show ?case
    using Cons.prems(1,2) seqs by (auto simp: row_good_rec)
qed simp

lemma chained_drop: "chained p rows \<Longrightarrow> \<exists>q. chained q (drop n rows)"
proof (induction rows arbitrary: p n)
  case (Cons r rs)
  then show ?case by (cases n) auto
qed simp

lemma chained_take: "chained p rows \<Longrightarrow> chained p (take n rows)"
proof (induction rows arbitrary: p n)
  case (Cons r rs)
  then show ?case by (cases n) auto
qed simp

lemma run_rows_ok:
  assumes "ledger_inv cd lg" "dict_get (stream_heads lg) rid = Some h"
  shows "run_rows rid lg = rows_of rid lg"
proof -
  have "map sequence (rows_of rid lg) = map (\<lambda>i. int i + 1) [0..<length (rows_of rid lg)]"
    using ledger_inv_stream(2) [OF assms] by (simp add: stream_ok_def)
  then have "sorted (map sequence (rows_of rid lg))" by (simp add: sorted_iff_nth_mono)
  then show ?thesis by (simp add: run_rows_def rows_of_def sort_key_id_if_sorted)
qed

lemma sequence_filter:
  assumes "map sequence rows = map (\<lambda>i. int i + k) [0..<length rows]"
  shows "filter (\<lambda>row. sequence row > k + int a - 1 \<and> sequence row \<le> k + int t - 1) rows =
    drop a (take t rows)"
  using assms
proof (induction rows arbitrary: k a t)
  case (Cons r rs)
  then have hd: "sequence r = k" and tl: "map sequence rs = map (\<lambda>i. int i + (k + 1)) [0..<length rs]"
    by (simp_all only: sequences_Cons)
  have none: "filter (\<lambda>row. sequence row > c \<and> sequence row \<le> k) rs = []" for c
  proof -
    have "\<forall>x \<in> set (map sequence rs). x > k" unfolding tl by auto
    then show ?thesis by (auto simp: filter_empty_conv)
  qed
  show ?case
  proof (cases t)
    case 0
    then have "\<not> sequence r \<le> k + int t - 1" using hd by simp
    moreover have "filter (\<lambda>row. sequence row > k + int a - 1 \<and> sequence row \<le> k + int t - 1) rs = []"
      using none [of "k + int a - 1"] 0 by (auto simp: filter_empty_conv)
    ultimately show ?thesis using 0 by simp
  next
    case (Suc t')
    have IH: "filter (\<lambda>row. sequence row > k + int b \<and> sequence row \<le> k + int t') rs = drop b (take t' rs)"
      for b using Cons.IH [OF tl, of b t'] by (simp add: algebra_simps)
    show ?thesis
    proof (cases a)
      case 0
      have "filter (\<lambda>row. sequence row > k - 1 \<and> sequence row \<le> k + int t') rs =
          filter (\<lambda>row. sequence row > k + int 0 \<and> sequence row \<le> k + int t') rs"
      proof (rule filter_cong)
        fix row assume "row \<in> set rs"
        then have "sequence row \<in> set (map sequence rs)" by simp
        then have "sequence row > k" unfolding tl by auto
        then show "(k - 1 < sequence row \<and> sequence row \<le> k + int t') =
            (k + int 0 < sequence row \<and> sequence row \<le> k + int t')" by simp
      qed simp
      then show ?thesis using IH [of 0] hd Suc 0 by simp
    next
      case (Suc a')
      then show ?thesis using IH [of a'] hd \<open>t = Suc t'\<close> by (simp add: algebra_simps)
    qed
  qed
qed simp

lemma stream_sequences:
  assumes "stream_ok cd rid rows h"
  shows "list_all (row_good cd) (take m (drop a rows))"
    "map sequence (take m (drop a rows)) =
       map (\<lambda>i. int i + (int a + 1)) [0..<length (take m (drop a rows))]"
proof -
  show "list_all (row_good cd) (take m (drop a rows))"
    using assms by (auto simp: stream_ok_def list_all_iff dest: in_set_takeD in_set_dropD)
  have eq: "map sequence rows = map (\<lambda>i. int i + 1) [0..<length rows]"
    using assms by (simp add: stream_ok_def)
  have nth: "sequence (rows ! i) = int i + 1" if "i < length rows" for i
    using arg_cong [OF eq, of "\<lambda>xs. xs ! i"] that by simp
  show "map sequence (take m (drop a rows)) =
       map (\<lambda>i. int i + (int a + 1)) [0..<length (take m (drop a rows))]"
    by (rule nth_equalityI) (auto simp: nth)
qed

lemma ledger_read_ok:
  assumes inv: "ledger_inv cd lg" and h: "dict_get (stream_heads lg) rid = Some h"
    and "0 < limit" "limit \<le> 5000" "int a < last_sequence h"
    and "limit \<le> last_sequence h - int a"
  shows "ledger_read cd rid (int a) (Some (last_sequence h)) limit lg =
    Inr (map (rec_of cd) (take (nat limit) (drop a (rows_of rid lg))))"
proof -
  let ?rows = "rows_of rid lg"
  have ok: "stream_ok cd rid ?rows h" by (rule ledger_inv_stream(2) [OF inv h])
  then have len: "last_sequence h = int (length ?rows)"
    and seqs: "map sequence ?rows = map (\<lambda>i. int i + 1) [0..<length ?rows]"
    and ch: "chained [] ?rows" by (simp_all add: stream_ok_def)
  have plain: "plain_identifier 160 rid"
  proof -
    have "hd ?rows \<in> set ?rows" using ok by (simp add: stream_ok_def)
    then have "row_good cd (hd ?rows)" "row_run_id (hd ?rows) = rid"
      using ok by (auto simp: stream_ok_def list_all_iff rows_of_def)
    then show ?thesis by (simp add: row_good_def)
  qed
  have rows: "filter (\<lambda>row. int a < sequence row \<and> sequence row \<le> last_sequence h) ?rows = drop a ?rows"
    using sequence_filter [OF seqs, of a "length ?rows"] by (simp add: len)
  let ?page = "take (nat limit) (drop a ?rows)"
  obtain q where "chained q (drop a ?rows)" using chained_drop [OF ch] by blast
  then have "chained q ?page" by (rule chained_take)
  then have "verify_contiguous_from (int a + 1) None (map (rec_of cd) ?page)"
    using good_contiguous stream_sequences [OF ok] by blast
  then show ?thesis
    using plain assms(3-6) map_result_good [OF stream_sequences(1) [OF ok]]
    by (simp add: ledger_read_def run_rows_ok [OF inv h] rows verify_contiguous_def
        plain_identifier_def)
qed

lemma load_pages_ok:
  assumes inv: "ledger_inv cd lg" and h: "dict_get (stream_heads lg) rid = Some h"
    and ps: "0 < page_size" "page_size \<le> 5000" and a: "int a \<le> last_sequence h"
  shows "load_pages cd rid page_size (last_sequence h) lg (int a) =
    Inr (map (rec_of cd) (drop a (rows_of rid lg)))"
  using a
proof (induction "nat (last_sequence h) - a" arbitrary: a rule: less_induct)
  case less
  let ?rows = "rows_of rid lg"
  have ok: "stream_ok cd rid ?rows h" by (rule ledger_inv_stream(2) [OF inv h])
  then have len: "last_sequence h = int (length ?rows)" by (simp add: stream_ok_def)
  show ?case
  proof (cases "int a < last_sequence h")
    case False
    then show ?thesis using less.prems len by (simp add: load_pages.simps)
  next
    case True
    let ?n = "min page_size (last_sequence h - int a)"
    let ?page = "take (nat ?n) (drop a ?rows)"
    have n: "0 < ?n" "?n \<le> 5000" "?n \<le> last_sequence h - int a" using ps True by auto
    have rd: "ledger_read cd rid (int a) (Some (last_sequence h)) ?n lg = Inr (map (rec_of cd) ?page)"
      by (rule ledger_read_ok [OF inv h n(1,2) True n(3)])
    have lp: "length ?page = nat ?n" using n len by auto
    then have ne: "?page \<noteq> []" using n(1) by auto
    have "rec_sequence (last (map (rec_of cd) ?page)) = int a + ?n"
    proof -
      have "verify_contiguous (map (rec_of cd) ?page) (int a)"
        using rd by (auto simp: ledger_read_def Let_def result_simps)
      then have "rec_sequence (last (map (rec_of cd) ?page)) = int a + int (length ?page)"
        using verify_contiguous_from_last ne by (fastforce simp: verify_contiguous_def)
      then show ?thesis using lp n(1) by simp
    qed
    then have last: "rec_sequence (last (map (rec_of cd) ?page)) = int (a + nat ?n)"
      using n(1) by simp
    have "load_pages cd rid page_size (last_sequence h) lg (int (a + nat ?n)) =
        Inr (map (rec_of cd) (drop (a + nat ?n) ?rows))"
      using n True by (intro less.hyps) auto
    moreover have "map (rec_of cd) ?page @ map (rec_of cd) (drop (a + nat ?n) ?rows) =
        map (rec_of cd) (drop a ?rows)"
      by (metis add.commute append_take_drop_id drop_drop map_append)
    ultimately show ?thesis
      using True ne rd last by (subst load_pages.simps) simp
  qed
qed

lemma project_run_ledger_ok:
  assumes inv: "ledger_inv cd lg" and h: "dict_get (stream_heads lg) rid = Some h"
  shows "project_run_ledger cd (map (rec_of cd) (rows_of rid lg)) =
    Inr (Some (projection_result (map (rec_of cd) (rows_of rid lg))
      (foldl (project_event cd) projection_init (map (rec_of cd) (rows_of rid lg)))))"
proof -
  let ?rows = "rows_of rid lg"
  have ok: "stream_ok cd rid ?rows h" by (rule ledger_inv_stream(2) [OF inv h])
  then obtain r rs where rows: "?rows = r # rs" by (auto simp: stream_ok_def neq_Nil_conv)
  have good: "list_all (\<lambda>r. row_good cd r \<and> row_run_id r = rid) ?rows"
    using ok by (auto simp: stream_ok_def list_all_iff rows_of_def)
  then have rid: "ev_run_id (rec_event (rec_of cd r)) = rid" by (simp add: rows row_good_rec)
  have "verify_chain_from rid 1 [] (map (rec_of cd) ?rows)"
    using good ok by (intro good_chain) (simp_all add: stream_ok_def)
  then have "verify_run_ledger_chain (map (rec_of cd) ?rows) = Inr ()"
    by (simp add: verify_run_ledger_chain_def rows rid del: verify_chain_from.simps)
  then show ?thesis by (simp add: project_run_ledger_def rows)
qed

lemma closed_after_end_single:
  "closed_after_end rows \<Longrightarrow>
     filter terminated_row rows = (case find terminated_row rows of None \<Rightarrow> [] | Some r \<Rightarrow> [r])"
proof (induction rows)
  case (Cons r rs)
  show ?case
  proof (cases "terminated_row r")
    case True
    then have "filter terminated_row rs = []"
      using Cons.prems by (auto simp: filter_empty_conv list_all_iff terminated_row_def)
    with True show ?thesis by simp
  qed (use Cons in simp)
qed simp

lemma terminal_sequences_rec:
  assumes "stream_ok cd rid rows h"
  shows "terminal_sequences (map (rec_of cd) rows) =
    (case terminal_sequence h of None \<Rightarrow> [] | Some t \<Rightarrow> [t])"
proof -
  have good: "list_all (row_good cd) rows" using assms by (simp add: stream_ok_def)
  then have "terminal_sequences (map (rec_of cd) rows) = map sequence (filter terminated_row rows)"
    by (induction rows) (auto simp: terminal_sequences_def row_good_rec terminated_row_def)
  then show ?thesis
    using assms closed_after_end_single [of rows] by (auto simp: stream_ok_def split: option.splits)
qed

lemma head_post_init_ok:
  assumes "stream_ok cd rid rows h" "\<forall>r \<in> set rows. row_run_id r = rid"
  shows "RunLedgerHead_post_init h = Inr h"
proof -
  have l: "row_good cd (last rows)" "row_run_id (last rows) = rid"
    using assms by (auto simp: stream_ok_def list_all_iff)
  have "\<And>t. terminal_sequence h = Some t \<Longrightarrow> 0 < t \<and> t \<le> last_sequence h"
  proof -
    fix t assume "terminal_sequence h = Some t"
    then obtain r where "find terminated_row rows = Some r" "t = sequence r"
      using assms(1) by (cases "find terminated_row rows") (auto simp: stream_ok_def)
    then have "t \<in> set (map sequence rows)" by (auto simp: find_Some_iff)
    also have "map sequence rows = map (\<lambda>i. int i + 1) [0..<length rows]"
      using assms(1) by (simp add: stream_ok_def)
    finally show "0 < t \<and> t \<le> last_sequence h" using assms(1) by (auto simp: stream_ok_def)
  qed
  then show ?thesis
    using l assms(1) required_identifier_plain [of 160 rid]
      required_identifier_plain [of 160 "row_event_id (last rows)"]
    by (auto simp: RunLedgerHead_post_init_def stream_ok_def row_good_def split: option.splits)
qed

section \<open>Executions\<close>

text \<open>One committed append of a constructed event, by any writer.\<close>

inductive ledger_step :: "codec \<Rightarrow> RunLedger \<Rightarrow> RunLedger \<Rightarrow> bool" for cd where
  step_append: "codec_ok cd \<Longrightarrow> draft_ok e \<Longrightarrow> ledger_append cd e xseq now lg = Inr (r, lg') \<Longrightarrow>
     ledger_step cd lg lg'"

definition empty_ledger :: RunLedger where
  "empty_ledger = \<lparr>event_rows = [], stream_heads = []\<rparr>"

lemma ledger_inv_empty [simp]: "ledger_inv cd empty_ledger"
  by (simp add: ledger_inv_def empty_ledger_def rows_of_def)

lemma ledger_append_cases:
  assumes "ledger_append cd e xseq now lg = Inr (r, lg')"
  obtains (known) row where "find_event (event_id e) lg = Some row" "lg' = lg"
      "row_to_record cd row = Inr r" "same_event cd r e = Inr True"
  | (fresh) "find_event (event_id e) lg = None" "append_new cd e xseq now lg = Inr (r, lg')"
  using assms
  by (cases "find_event (event_id e) lg") (auto simp: ledger_append_def result_simps)

lemma ledger_step_inv: "ledger_step cd s t \<Longrightarrow> ledger_inv cd s \<Longrightarrow> ledger_inv cd t"
proof (induction rule: ledger_step.induct)
  case (step_append e xseq now lg r lg')
  from step_append(3) show ?case
    by (cases rule: ledger_append_cases) (use step_append append_new_inv in auto)
qed

definition stored_row :: "RunLedger \<Rightarrow> nat \<Rightarrow> RunLedgerEventRow option" where
  "stored_row lg n = (if n < length (event_rows lg) then Some (event_rows lg ! n) else None)"

lemma ledger_step_extends:
  "ledger_step cd s t \<Longrightarrow> \<exists>new. event_rows t = event_rows s @ new"
proof (induction rule: ledger_step.induct)
  case (step_append e xseq now lg r lg')
  from step_append(3) show ?case
  proof (cases rule: ledger_append_cases)
    case fresh
    then show ?thesis by (auto elim!: append_new_appended simp: appended_def)
  qed simp
qed

interpretation ledger_rows: write_once "ledger_step cd" "ledger_inv cd" stored_row for cd
proof (unfold_locales, goal_cases)
  case (1 s t)
  then show ?case by (rule ledger_step_inv)
next
  case (2 s t k v)
  then obtain new where "event_rows t = event_rows s @ new" using ledger_step_extends by blast
  with 2 show ?case by (auto simp: stored_row_def nth_append split: if_splits)
qed

definition last_sequence_of :: "RunLedger \<Rightarrow> pystr \<Rightarrow> int" where
  "last_sequence_of lg rid =
     (case dict_get (stream_heads lg) rid of None \<Rightarrow> 0 | Some h \<Rightarrow> last_sequence h)"

lemma last_sequence_rows:
  "ledger_inv cd lg \<Longrightarrow> last_sequence_of lg rid = int (length (rows_of rid lg))"
  using ledger_inv_stream [of cd lg rid]
  by (cases "dict_get (stream_heads lg) rid") (auto simp: last_sequence_of_def stream_ok_def)

interpretation ledger_sequences: monotone_counter "ledger_step cd" "ledger_inv cd" last_sequence_of
  for cd
proof (unfold_locales, goal_cases)
  case (1 s t k)
  then obtain new where "event_rows t = event_rows s @ new" using ledger_step_extends by blast
  then have "rows_of k t = rows_of k s @ filter (\<lambda>row. row_run_id row = k) new"
    by (simp add: rows_of_def)
  with last_sequence_rows [OF 1(2), of k] last_sequence_rows [OF ledger_step_inv [OF 1], of k]
  show ?case by simp
qed

lemmas ledger_reachable_inv = ledger_rows.reach_inv [OF _ ledger_inv_empty]

lemma reach_extends:
  "reach (ledger_step cd) s t \<Longrightarrow> \<exists>new. event_rows t = event_rows s @ new"
proof (induction rule: reach.induct)
  case (reach_step s t u)
  then obtain a b where "event_rows t = event_rows s @ a" "event_rows u = event_rows t @ b"
    using ledger_step_extends by blast
  then show ?case by simp
qed simp

lemma find_append_Some: "find P xs = Some x \<Longrightarrow> find P (xs @ ys) = Some x"
  by (induction xs) auto

lemma find_event_extends:
  "find_event eid s = Some row \<Longrightarrow> event_rows t = event_rows s @ new \<Longrightarrow> find_event eid t = Some row"
  by (simp add: find_event_def find_append_Some)

text \<open>The event of a successful append is found in the ledger and is recognised as the same.\<close>

lemma append_stores:
  assumes "codec_ok cd" "draft_ok e" "ledger_inv cd lg" "ledger_append cd e xseq now lg = Inr (r, lg')"
  obtains row where "find_event (event_id e) lg' = Some row" "row_to_record cd row = Inr r"
    "same_event cd r e = Inr True" "xseq = None \<or> xseq = Some (rec_sequence r)"
  using assms(4)
proof (cases rule: ledger_append_cases)
  case (known row)
  then show ?thesis
    using that assms(4) by (auto simp: ledger_append_def result_simps)
next
  case fresh
  obtain h row pos pjson psha where app: "appended cd e lg h row lg'"
    and rec: "row_to_record cd row = Inr r" and xs: "xseq = None \<or> xseq = Some (sequence row)"
    using append_new_appended [OF fresh(2)] by metis
  have rows: "event_rows lg' = event_rows lg @ [row]" using app by (simp add: appended_def)
  have ids: "row_event_id row = event_id e" by (rule appended_fields(2) [OF app])
  have dig: "run_ledger_event_sha256 cd e (sequence row) (previous_event_sha256 row) =
        Inr (event_sha256 row)"
    using app unfolding appended_def by blast
  have "row_good cd row"
    using append_new_inv [OF assms(1-3) fresh(2)] rows by (simp add: ledger_inv_def)
  from row_good_rec [OF this] rec have f: "rec_sequence r = sequence row"
    "rec_previous_sha256 r = previous_event_sha256 row" "rec_event_sha256 r = event_sha256 row"
    by simp_all
  have "find_event (event_id e) lg' = Some row"
    using fresh(1) rows ids by (simp add: find_event_def find_snoc)
  moreover have "same_event cd r e = Inr True" by (simp add: same_event_def f dig)
  ultimately show ?thesis using xs f(1) by (intro that [of row] rec) simp_all
qed

text \<open>All events of a run that name an owner name the same one.\<close>

definition same_owner :: "RunLedgerIdentity \<Rightarrow> RunLedgerIdentity \<Rightarrow> bool" where
  "same_owner i j \<longleftrightarrow> owner_platform i = owner_platform j \<and> owner_type i = owner_type j \<and>
     owner_id i = owner_id j"

definition owner_inv :: "RunLedger \<Rightarrow> bool" where
  "owner_inv lg \<longleftrightarrow>
     (\<forall>r1 \<in> set (event_rows lg). \<forall>r2 \<in> set (event_rows lg).
        row_run_id r1 = row_run_id r2 \<longrightarrow> owner_id (row_identity r1) \<noteq> [] \<longrightarrow>
        owner_id (row_identity r2) \<noteq> [] \<longrightarrow> same_owner (row_identity r1) (row_identity r2))"

lemma same_owner_sym: "same_owner i j \<Longrightarrow> same_owner j i"
  by (simp add: same_owner_def)

lemma validate_owner_all:
  assumes "owner_inv lg" "validate_owner e lg" "owner_id (identity e) \<noteq> []"
    and "row \<in> set (event_rows lg)" "row_run_id row = ev_run_id e" "owner_id (row_identity row) \<noteq> []"
  shows "same_owner (row_identity row) (identity e)"
proof -
  have mem: "row \<in> set (run_rows (ev_run_id e) lg)" using assms(4,5) by (simp add: run_rows_def)
  have "find (\<lambda>row. owner_id (row_identity row) \<noteq> []) (run_rows (ev_run_id e) lg) \<noteq> None"
    unfolding find_None_iff using mem assms(6) by blast
  then obtain row0 where f: "find (\<lambda>row. owner_id (row_identity row) \<noteq> []) (run_rows (ev_run_id e) lg) = Some row0"
    by blast
  from find_SomeD [OF f] have row0: "row0 \<in> set (event_rows lg)" "row_run_id row0 = ev_run_id e"
    "owner_id (row_identity row0) \<noteq> []"
    by (simp_all add: run_rows_def)
  then have "same_owner (row_identity row) (row_identity row0)"
    using assms(1,4-6) unfolding owner_inv_def by (metis (full_types))
  moreover have "same_owner (row_identity row0) (identity e)"
    using assms(2,3) f by (simp add: validate_owner_def same_owner_def)
  ultimately show ?thesis by (simp add: same_owner_def)
qed

interpretation ledger_owners: preserved_invariant "ledger_step cd" owner_inv for cd
proof (unfold_locales, goal_cases)
  case (1 s t)
  from 1 show ?case
  proof (induction rule: ledger_step.induct)
    case (step_append e xseq now lg r lg')
    from step_append(3) show ?case
    proof (cases rule: ledger_append_cases)
      case fresh
      obtain h row where app: "appended cd e lg h row lg'" and own: "validate_owner e lg"
        using append_new_appended [OF fresh(2)] by metis
      have rows: "event_rows lg' = event_rows lg @ [row]" and row: "row_run_id row = ev_run_id e"
        "row_identity row = identity e" using app by (simp_all add: appended_def)
      note new = validate_owner_all [OF step_append(4) own]
      have "same_owner (row_identity r1) (row_identity r2)"
        if "r1 \<in> set (event_rows lg')" "r2 \<in> set (event_rows lg')" "row_run_id r1 = row_run_id r2"
          "owner_id (row_identity r1) \<noteq> []" "owner_id (row_identity r2) \<noteq> []" for r1 r2
      proof -
        note both = that
        consider "r1 = row" "r2 = row" | "r1 = row" "r2 \<in> set (event_rows lg)"
          | "r1 \<in> set (event_rows lg)" "r2 = row" | "r1 \<in> set (event_rows lg)" "r2 \<in> set (event_rows lg)"
          using both(1,2) unfolding rows by auto
        then show ?thesis
        proof cases
          case 1
          then show ?thesis by (simp add: same_owner_def)
        next
          case 2
          then show ?thesis using new [of r2] that row by (simp add: same_owner_sym)
        next
          case 3
          then show ?thesis using new [of r1] that row by simp
        next
          case 4
          then show ?thesis using step_append(4) that by (simp add: owner_inv_def)
        qed
      qed
      then show ?thesis by (simp add: owner_inv_def)
    qed (use step_append in simp)
  qed
qed

lemma project_event_terminal:
  "pj_terminal (project_event cd p r) \<longleftrightarrow>
     pj_terminal p \<or> event_type (rec_event r) = lit ''run.terminated''"
  by (auto simp: project_event_def Let_def project_activity_def project_lifecycle_def)

lemma project_event_usage:
  "usage (project_event cd p r) =
     (if event_type (rec_event r) = lit ''usage.recorded'' then add_usage (rec_event r) (usage p)
      else usage p)"
  by (simp add: project_event_def Let_def project_activity_def project_lifecycle_def)

lemma foldl_project_terminal:
  "pj_terminal (foldl (project_event cd) p rs) \<longleftrightarrow>
     pj_terminal p \<or> (\<exists>r \<in> set rs. event_type (rec_event r) = lit ''run.terminated'')"
  by (induction rs arbitrary: p) (auto simp: project_event_terminal)

text \<open>The tokens one record contributes to a field of the usage totals.\<close>

definition recorded_usage :: "string \<Rightarrow> RunLedgerEventRecord \<Rightarrow> int" where
  "recorded_usage key r =
     (if event_type (rec_event r) = lit ''usage.recorded''
      then (case payload_count (rec_event r) key of None \<Rightarrow> 0 | Some n \<Rightarrow> n) else 0)"

lemma recorded_usage_nonneg: "0 \<le> recorded_usage key r"
  by (simp add: recorded_usage_def payload_count_def split: option.splits json.splits)

lemma foldl_project_usage:
  "usage (foldl (project_event cd) p rs) =
     \<lparr>input_tokens = input_tokens (usage p) + sum_list (map (recorded_usage ''input_tokens'') rs),
      output_tokens = output_tokens (usage p) + sum_list (map (recorded_usage ''output_tokens'') rs),
      cached_input_tokens =
        cached_input_tokens (usage p) + sum_list (map (recorded_usage ''cached_input_tokens'') rs),
      reasoning_tokens =
        reasoning_tokens (usage p) + sum_list (map (recorded_usage ''reasoning_tokens'') rs),
      cost_microunits =
        cost_microunits (usage p) + sum_list (map (recorded_usage ''cost_microunits'') rs)\<rparr>"
proof (induction rs arbitrary: p)
  case (Cons r rs)
  then show ?case
    by (simp add: project_event_usage recorded_usage_def add_usage_def Let_def split: option.splits)
qed simp

section \<open>A stored event reads back\<close>

definition payload_ok :: "(pystr, json) dict \<Rightarrow> bool" where
  "payload_ok pl \<longleftrightarrow> distinct (map fst pl) \<and> length pl \<le> 64 \<and>
     (\<forall>kv \<in> set pl. payload_key (fst kv) \<and> \<not> sensitive_key (fst kv) \<and>
        normalize_scalar (snd kv) = Inr (snd kv))"

lemma normalize_scalar_idem: "normalize_scalar v = Inr w \<Longrightarrow> normalize_scalar w = Inr w"
  by (cases v) (auto simp: normalize_scalar_def Let_def split: if_splits)

lemma payload_key_chars: "payload_key s \<Longrightarrow> c \<in> set s \<Longrightarrow> event_type_char c"
  by (cases s) (auto simp: payload_key_def payload_key_char_def event_type_char_def list_all_iff)

lemma payload_key_normal: "payload_key s \<Longrightarrow> py_lower (py_strip s) = s"
  using event_chars_normal payload_key_chars by metis

lemma length_dict_set: "length (dict_set k v d) \<le> Suc (length d)"
  by (induction d) auto

lemma normalize_items_ok:
  assumes "normalize_items acc items = Inr pl" "length acc + length items \<le> 64"
    and "distinct (map fst acc)"
    and "\<forall>kv \<in> set acc. payload_key (fst kv) \<and> \<not> sensitive_key (fst kv) \<and>
        normalize_scalar (snd kv) = Inr (snd kv)"
  shows "payload_ok pl"
  using assms
proof (induction acc items rule: normalize_items.induct)
  case (1 acc)
  then show ?case by (simp add: payload_ok_def)
next
  case (2 acc raw_key v items)
  let ?k = "py_lower (py_strip raw_key)"
  obtain w where w: "payload_key ?k" "\<not> sensitive_key ?k" "normalize_scalar v = Inr w"
    "normalize_items (dict_set ?k w acc) items = Inr pl"
    using "2.prems"(1) by (auto simp: Let_def result_simps)
  have len: "length (dict_set ?k w acc) + length items \<le> 64"
    using length_dict_set [of ?k w acc] "2.prems"(2) by simp
  have dist: "distinct (map fst (dict_set ?k w acc))"
    using "2.prems"(3) by (rule distinct_update)
  have "\<forall>kv \<in> set (dict_set ?k w acc). kv = (?k, w) \<or> kv \<in> set acc"
    by (induction acc) auto
  then have all: "\<forall>kv \<in> set (dict_set ?k w acc). payload_key (fst kv) \<and> \<not> sensitive_key (fst kv) \<and>
        normalize_scalar (snd kv) = Inr (snd kv)"
    using "2.prems"(4) w(1,2) normalize_scalar_idem [OF w(3)] by auto
  show ?case by (rule "2.IH" [OF refl w(4) len dist all])
qed

lemma normalize_payload_ok: "normalize_payload p = Inr pl \<Longrightarrow> payload_ok pl"
  by (rule normalize_items_ok [of "[]" p]) (auto simp: normalize_payload_def result_simps)

lemma normalize_items_id:
  assumes "distinct (map fst (acc @ items))"
    and "\<forall>kv \<in> set items. payload_key (fst kv) \<and> \<not> sensitive_key (fst kv) \<and>
        normalize_scalar (snd kv) = Inr (snd kv)"
  shows "normalize_items acc items = Inr (acc @ items)"
  using assms
proof (induction items arbitrary: acc)
  case (Cons kv items)
  obtain k v where kv: "kv = (k, v)" by (cases kv)
  have "dict_set k v acc = acc @ [(k, v)]" using Cons.prems(1) by (intro dict_set_new) (simp add: kv)
  then show ?case
    using Cons.IH [of "acc @ [(k, v)]"] Cons.prems by (simp add: kv Let_def payload_key_normal)
qed simp

lemma normalize_payload_id: "payload_ok pl \<Longrightarrow> normalize_payload pl = Inr pl"
  using normalize_items_id [of "[]" pl] by (simp add: payload_ok_def normalize_payload_def)

definition sorted_payload :: "(pystr, json) dict \<Rightarrow> (pystr, json) dict" where
  "sorted_payload pl = sort_key fst pl"

lemma payload_ok_sorted: "payload_ok pl \<Longrightarrow> payload_ok (sorted_payload pl)"
  unfolding payload_ok_def sorted_payload_def by (auto simp: distinct_map)

lemma scalar_json_sorted: "normalize_scalar v = Inr w \<Longrightarrow> json_sorted v = v"
  by (cases v) (auto simp: normalize_scalar_def)

lemma dumps_sorted_payload: "dumps fr (JObject (sorted_payload pl)) = dumps fr (JObject pl)"
  unfolding dumps_object sorted_payload_def by simp

lemma dumps_object_cong:
  "map (on_snd (dumps fr)) d = map (on_snd (dumps fr)) d' \<Longrightarrow> dumps fr (JObject d) = dumps fr (JObject d')"
  by (simp add: on_snd_def [abs_def])

lemma dumpable_sorted_payload: "dumpable (JObject (sorted_payload pl)) = dumpable (JObject pl)"
  by (simp add: sorted_payload_def list_all_iff)

definition canonical_draft :: "RunLedgerEventDraft \<Rightarrow> RunLedgerEventDraft" where
  "canonical_draft e = e\<lparr>payload := sorted_payload (payload e)\<rparr>"

lemma event_sha256_canonical:
  "run_ledger_event_sha256 cd (canonical_draft e) n p = run_ledger_event_sha256 cd e n p"
proof -
  have "dumps fr (canonical_event (canonical_draft e) n q) = dumps fr (canonical_event e n q)" for fr q
    unfolding canonical_event_def
    by (rule dumps_object_cong)
      (simp add: on_snd_def canonical_draft_def dumps_sorted_payload del: dumps.simps)
  moreover have "dumpable (canonical_event (canonical_draft e) n q) = dumpable (canonical_event e n q)" for q
    using dumpable_sorted_payload [of "payload e"]
    by (simp add: canonical_event_def canonical_draft_def)
  ultimately show ?thesis
    by (simp add: run_ledger_event_sha256_def json_dumps_def)
qed

lemma payload_sha256_sorted:
  "payload_ok pl \<Longrightarrow> run_ledger_payload_sha256 cd (sorted_payload pl) = run_ledger_payload_sha256 cd pl"
  by (simp add: run_ledger_payload_sha256_def encode_run_ledger_payload_def normalize_payload_id
      payload_ok_sorted json_dumps_def dumps_sorted_payload dumpable_sorted_payload del: dumps.simps dumpable.simps)

text \<open>Every float of the payload is one that the codec reads back.\<close>

definition floats_readable :: "codec \<Rightarrow> (pystr, json) dict \<Rightarrow> bool" where
  "floats_readable cd pl \<longleftrightarrow>
     (\<forall>kv \<in> set pl. \<forall>q. snd kv = JFloat (Finite q) \<longrightarrow> float_text (float_repr_of cd) (float_read cd) q)"

lemma decode_payload_ok:
  assumes ok: "payload_ok pl" and enc: "encode_run_ledger_payload cd pl = Inr pjson"
    and fl: "floats_readable cd pl"
  shows "decode_run_ledger_payload cd pjson 1 = Inr (sorted_payload pl)"
proof -
  have d: "dumpable (JObject pl)" and pj: "pjson = dumps (float_repr_of cd) (JObject pl)"
    using enc by (auto simp: encode_run_ledger_payload_def normalize_payload_id [OF ok]
        json_dumps_def result_simps simp del: dumps.simps dumpable.simps)
  have val: "json_ok (float_text (float_repr_of cd) (float_read cd)) v" "json_sorted v = v"
    if "(k, v) \<in> set pl" for k v
  proof -
    have n: "normalize_scalar v = Inr v" using ok that by (auto simp: payload_ok_def)
    then show "json_sorted v = v" by (rule scalar_json_sorted)
    have "dumpable v" using d that by (auto simp: list_all_iff)
    then show "json_ok (float_text (float_repr_of cd) (float_read cd)) v"
      using n fl that
      by (cases v) (auto simp: normalize_scalar_def floats_readable_def isfinite_def split: pyfloat.splits)
  qed
  have "json_ok (float_text (float_repr_of cd) (float_read cd)) (JObject pl)"
    using ok val by (auto simp: payload_ok_def list_all_iff)
  from loads_dumps [OF this] have "loads (float_read cd) pjson = Inr (json_sorted (JObject pl))"
    by (simp only: pj)
  moreover have "json_sorted (JObject pl) = JObject (sorted_payload pl)"
  proof -
    have "map (\<lambda>kv. (fst kv, json_sorted (snd kv))) pl = pl"
      using val by (intro map_idI) auto
    then show ?thesis by (simp add: sorted_payload_def)
  qed
  moreover have "pjson \<noteq> []" unfolding pj by simp
  ultimately show ?thesis
    using normalize_payload_id [OF payload_ok_sorted [OF ok]] by (simp add: decode_run_ledger_payload_def)
qed

lemma safe_identifier_idem [simp]: "safe_identifier n (safe_identifier n v) = safe_identifier n v"
  by (simp add: safe_identifier_def Let_def)

lemma safe_identifier_plain: "plain_identifier n s \<Longrightarrow> safe_identifier n s = s"
  by (simp add: safe_identifier_def plain_identifier_def Let_def)

lemma correlation_post_init_idem [simp]:
  "TelemetryCorrelation_post_init (TelemetryCorrelation_post_init c) = TelemetryCorrelation_post_init c"
  by (simp add: TelemetryCorrelation_post_init_def)

lemma identity_post_init_idem:
  "RunLedgerIdentity_post_init i = Inr j \<Longrightarrow> RunLedgerIdentity_post_init j = Inr j"
  by (auto simp: RunLedgerIdentity_post_init_def result_simps optional_identifier_Inr
      plain_identifier_def)

lemma draft_ok_elim:
  assumes "draft_ok e"
  obtains d where "RunLedgerEventDraft_post_init d = Inr e"
    "RunLedgerIdentity_post_init (identity e) = Inr (identity e)"
    "TelemetryCorrelation_post_init (correlation e) = correlation e"
    "corr_run_id (correlation e) = ev_run_id e" "payload_ok (payload e)" "schema_version e = 1"
proof -
  from assms obtain d i c where d: "RunLedgerEventDraft_post_init d = Inr e"
    and i: "RunLedgerIdentity_post_init i = Inr (identity d)"
    and c: "correlation d = TelemetryCorrelation_post_init c" by (auto simp: draft_ok_def)
  have rid: "plain_identifier 160 (ev_run_id e)" by (rule draft_ok_run_id(1) [OF assms])
  have ident: "identity e = identity d" and pl: "normalize_payload (payload d) = Inr (payload e)"
    and ver: "schema_version e = 1"
    and corr: "correlation e = (if corr_run_id (correlation d) = []
        then TelemetryCorrelation_post_init ((correlation d)\<lparr>corr_run_id := ev_run_id e\<rparr>)
        else correlation d)"
    and same: "corr_run_id (correlation d) = [] \<or> corr_run_id (correlation d) = ev_run_id e"
    using d by (auto simp: RunLedgerEventDraft_post_init_def result_simps Let_def)
  have "corr_run_id (correlation e) = ev_run_id e"
    using same corr safe_identifier_plain [OF rid] by (auto simp: TelemetryCorrelation_post_init_def)
  moreover have "TelemetryCorrelation_post_init (correlation e) = correlation e"
    using corr c by simp
  ultimately show thesis
    using that [OF d] identity_post_init_idem [OF i] ident normalize_payload_ok [OF pl] ver by simp
qed

lemma draft_ok_facts:
  assumes "draft_ok e"
  shows "RunLedgerIdentity_post_init (identity e) = Inr (identity e)"
    "TelemetryCorrelation_post_init (correlation e) = correlation e"
    "corr_run_id (correlation e) = ev_run_id e" "payload_ok (payload e)" "schema_version e = 1"
  by (rule draft_ok_elim [OF assms], assumption)+

lemma draft_post_init_fields:
  assumes "RunLedgerEventDraft_post_init d = Inr e"
  shows "required_identifier 128 (source d) = Inr (source e)"
    "optional_identifier 64 (ev_status d) = Inr (ev_status e)"
    "optional_identifier 160 (source_event_id d) = Inr (source_event_id e)"
    "optional_identifier 160 (correction_of_event_id d) = Inr (correction_of_event_id e)"
    "source_sequence e \<ge> 0" "schema_version e = 1" "dropped_field_count e \<ge> 0"
    "event_shape (event_type e) (ev_status e) (correction_of_event_id e)"
  using assms by (auto simp: RunLedgerEventDraft_post_init_def result_simps Let_def)

lemma identifier_again:
  "required_identifier n v = Inr s \<Longrightarrow> required_identifier n s = Inr s"
  "optional_identifier n v = Inr s \<Longrightarrow> optional_identifier n s = Inr s"
  by (auto simp: required_identifier_Inr optional_identifier_Inr)

lemma draft_post_init_canonical:
  assumes "draft_ok e"
  shows "RunLedgerEventDraft_post_init (canonical_draft e) = Inr (canonical_draft e)"
proof -
  obtain d0 where d0: "RunLedgerEventDraft_post_init d0 = Inr e"
    using assms by (auto simp: draft_ok_def)
  note d = d0 draft_ok_facts(3,4) [OF assms]
  note ids = draft_ok_run_id [OF assms]
  note f = identifier_again(1) [OF draft_post_init_fields(1) [OF d0]]
    identifier_again(2) [OF draft_post_init_fields(2) [OF d0]]
    identifier_again(2) [OF draft_post_init_fields(3) [OF d0]]
    identifier_again(2) [OF draft_post_init_fields(4) [OF d0]] draft_post_init_fields(5-8) [OF d0]
  have "ev_run_id e \<noteq> []" using ids(1) by (simp add: plain_identifier_def)
  then show ?thesis
    using f ids d(2) required_identifier_plain [OF ids(1)] required_identifier_plain [OF ids(2)]
      normalize_payload_id [OF payload_ok_sorted [OF d(3)]]
    by (simp add: RunLedgerEventDraft_post_init_def canonical_draft_def)
qed

lemma event_row_reads_back:
  assumes "codec_ok cd" "draft_ok e" "floats_readable cd (payload e)" "0 < pos" "0 < seq"
    and "previous = [] \<or> hex64 previous"
    and "encode_run_ledger_payload cd (payload e) = Inr pjson"
    and "run_ledger_payload_sha256 cd (payload e) = Inr psha"
    and "run_ledger_event_sha256 cd e seq previous = Inr digest"
  shows "row_to_record cd (event_row e pos seq now pjson psha previous digest) =
    Inr \<lparr>rec_position = pos, rec_sequence = seq, rec_event = canonical_draft e,
         rec_recorded_at = now, rec_previous_sha256 = previous, rec_event_sha256 = digest\<rparr>"
proof -
  note e = draft_ok_facts [OF assms(2)]
  have corr: "(correlation e)\<lparr>corr_run_id := ev_run_id e\<rparr> = correlation e"
    using e(3) by (cases "correlation e") simp
  have draft: "\<lparr>event_id = event_id e, ev_run_id = ev_run_id e, event_type = event_type e,
      occurred_at = occurred_at e, source = source e, correlation = correlation e,
      identity = identity e, ev_status = ev_status e, payload = sorted_payload (payload e),
      source_event_id = source_event_id e, source_sequence = source_sequence e,
      correction_of_event_id = correction_of_event_id e, schema_version = 1,
      dropped_field_count = dropped_field_count e\<rparr> = canonical_draft e"
    using e(5) by (cases e) (simp add: canonical_draft_def)
  have dig: "hex64 digest" by (rule event_digest_hex [OF assms(1,9)])
  have prev: "py_lower (py_strip previous) = previous"
    using assms(6) hex64_normal by (auto simp: py_lower_def)
  have post: "RunLedgerEventRecord_post_init
      \<lparr>rec_position = pos, rec_sequence = seq, rec_event = canonical_draft e, rec_recorded_at = now,
       rec_previous_sha256 = previous, rec_event_sha256 = digest\<rparr> =
     Inr \<lparr>rec_position = pos, rec_sequence = seq, rec_event = canonical_draft e,
         rec_recorded_at = now, rec_previous_sha256 = previous, rec_event_sha256 = digest\<rparr>"
    using assms(4-6) dig prev hex64_normal [OF dig] by (simp add: RunLedgerEventRecord_post_init_def)
  show ?thesis
    using decode_payload_ok [OF e(4) assms(7,3)] payload_sha256_sorted [OF e(4), of cd] assms(8,9)
      draft_post_init_canonical [OF assms(2)] post
    by (simp add: row_to_record_def event_row_def e(1,2,5) corr draft event_sha256_canonical)
qed

end
