(* ===== verification/Run_Ledger_Properties.thy ===== *)
theory Run_Ledger_Properties
  imports Run_Ledger_Correct
begin

text \<open>
  The properties of the run ledger and of its read model, with a concrete ledger of one
  accepted run on which they are instantiated.
\<close>

section \<open>A concrete ledger\<close>

definition sample_codec :: codec where
  "sample_codec = \<lparr>sha256_of = (\<lambda>_. replicate 64 48), float_repr_of = (\<lambda>_. []),
                   float_read = (\<lambda>_. NotANumber)\<rparr>"

definition no_correlation :: "pystr \<Rightarrow> TelemetryCorrelation" where
  "no_correlation rid =
     \<lparr>corr_request_id = [], corr_session_id = [], corr_turn_id = [], corr_trace_id = [],
      corr_run_id = rid, corr_task_id = [], corr_task_run_id = [], corr_job_id = [],
      corr_tool_call_id = [], corr_delivery_id = [], corr_parent_job_id = []\<rparr>"

definition no_identity :: RunLedgerIdentity where
  "no_identity =
     \<lparr>actor_type = [], actor_id = [], parent_actor_id = [], owner_platform = [], owner_type = [],
      owner_id = []\<rparr>"

definition sample_event :: RunLedgerEventDraft where
  "sample_event =
     \<lparr>event_id = lit ''e1'', ev_run_id = lit ''r'', event_type = lit ''run.accepted'',
      occurred_at = 0, source = lit ''trace'', correlation = no_correlation (lit ''r''),
      identity = no_identity, ev_status = lit ''accepted'', payload = [(lit ''user_id'', JInt 7)],
      source_event_id = [], source_sequence = 0, correction_of_event_id = [], schema_version = 1,
      dropped_field_count = 0\<rparr>"

lemma sample_codec_ok: "codec_ok sample_codec"
  by (simp add: codec_ok_def sample_codec_def hex64_def hex_digit_def list_all_iff)

lemma sample_identifiers:
  "required_identifier 160 (lit ''e1'') = Inr (lit ''e1'')"
  "required_identifier 160 (lit ''r'') = Inr (lit ''r'')"
  "required_identifier 128 (lit ''trace'') = Inr (lit ''trace'')"
  "optional_identifier 64 (lit ''accepted'') = Inr (lit ''accepted'')"
  "optional_identifier n [] = Inr []"
  by (simp_all add: required_identifier_def optional_identifier_def lit_def py_strip_def py_isspace_def)

lemma sample_event_type: "event_type_of (lit ''run.accepted'') = Inr (lit ''run.accepted'')"
proof -
  have "event_identifier (lit ''run.accepted'')"
    by (simp add: event_identifier_def lit_def event_type_char_def lower_letter_def is_digit_def)
  then show ?thesis by (simp add: event_type_of_def event_identifier_normal) (simp add: lit_def)
qed

lemma audit_suffix_safe: "list_ex (endswith key) safe_audit_suffixes \<Longrightarrow> \<not> sensitive_key key"
  by (simp add: sensitive_key_def)

lemma sample_payload: "normalize_payload [(lit ''user_id'', JInt 7)] = Inr [(lit ''user_id'', JInt 7)]"
proof -
  have "payload_key (lit ''user_id'')"
    by (simp add: payload_key_def lit_def payload_key_char_def lower_letter_def is_digit_def)
  moreover have "\<not> sensitive_key (lit ''user_id'')"
    by (rule audit_suffix_safe)
      (simp add: safe_audit_suffixes_def endswith_def startswith_def lit_def)
  ultimately show ?thesis
    by (intro normalize_payload_id) (simp add: payload_ok_def normalize_scalar_def)
qed

lemma sample_post_init:
  "RunLedgerEventDraft_post_init sample_event = Inr sample_event"
  by (simp add: RunLedgerEventDraft_post_init_def sample_event_def sample_identifiers
      sample_event_type sample_payload no_correlation_def event_shape_def)

lemma sample_draft_ok: "draft_ok sample_event"
proof -
  have "RunLedgerIdentity_post_init no_identity = Inr no_identity"
    by (simp add: RunLedgerIdentity_post_init_def no_identity_def sample_identifiers)
  moreover have "TelemetryCorrelation_post_init (no_correlation (lit ''r'')) = no_correlation (lit ''r'')"
    by (simp add: TelemetryCorrelation_post_init_def no_correlation_def safe_identifier_def lit_def
        py_strip_def py_isspace_def)
  moreover have "identity sample_event = no_identity" "correlation sample_event = no_correlation (lit ''r'')"
    by (simp_all add: sample_event_def)
  ultimately show ?thesis using sample_post_init unfolding draft_ok_def by metis
qed

lemma lit_ascii: "\<forall>c \<in> set (lit s). c < 256"
  by (auto simp: lit_def)

lemma isoformat_ascii: "\<forall>c \<in> set (isoformat_utc t). c < 128"
proof -
  have "\<forall>c \<in> set (zero_padded w n). c < 128" for w n
    using digits_ascii by (auto simp: zero_padded_def Let_def)
  then show ?thesis unfolding isoformat_utc_def Let_def ball_simps set_append Un_iff ball_Un list.set
    by (simp add: lit_def)
qed

lemma sample_digest:
  "run_ledger_event_sha256 sample_codec sample_event 1 [] = Inr (replicate 64 48)"
proof -
  have "json_ascii (canonical_event sample_event 1 [])"
    using isoformat_ascii [of 0]
    by (simp add: canonical_event_def sample_event_def correlation_dict_def no_correlation_def
        identity_dict_def no_identity_def lit_def)
  then have "utf8_encode (dumps fr (canonical_event sample_event 1 [])) =
      Some (dumps fr (canonical_event sample_event 1 []))" for fr
    by (rule utf8_encode_ascii [OF dumps_ascii])
  moreover have "dumpable (canonical_event sample_event 1 [])"
    by (simp add: canonical_event_def sample_event_def correlation_dict_def identity_dict_def
        py_digits.simps)
  ultimately show ?thesis
    by (simp add: run_ledger_event_sha256_def json_dumps_def text_sha256_def sample_codec_def py_lower_def)
qed

lemma sample_payload_digest:
  "run_ledger_payload_sha256 sample_codec (payload sample_event) = Inr (replicate 64 48)"
proof -
  have "json_ascii (JObject [(lit ''user_id'', JInt 7)])" by (simp add: lit_def)
  then have "utf8_encode (dumps fr (JObject [(lit ''user_id'', JInt 7)])) =
      Some (dumps fr (JObject [(lit ''user_id'', JInt 7)]))" for fr
    by (rule utf8_encode_ascii [OF dumps_ascii])
  moreover have "payload sample_event = [(lit ''user_id'', JInt 7)]" by (simp add: sample_event_def)
  ultimately show ?thesis
    by (simp add: run_ledger_payload_sha256_def encode_run_ledger_payload_def sample_payload
        json_dumps_def text_sha256_def sample_codec_def py_digits.simps del: dumps.simps)
qed

lemma authoritative_records:
  assumes "reach (ledger_step cd) empty_ledger lg"
  shows "\<exists>rs. map_result (row_to_record cd)
      (filter (\<lambda>row. row_run_id row = rid) (event_rows lg)) = Inr rs"
proof -
  have "list_all (row_good cd) (filter (\<lambda>row. row_run_id row = rid) (event_rows lg))"
    using ledger_reachable_inv [OF assms] by (simp add: ledger_inv_def list_all_iff)
  from map_result_good [OF this] show ?thesis by blast
qed

lemma ledger_append_reach:
  "codec_ok cd \<Longrightarrow> draft_ok e \<Longrightarrow> ledger_append cd e xseq now lg = Inr (r, lg') \<Longrightarrow>
     reach (ledger_step cd) lg lg'"
  by (rule reach_single) (rule step_append)

lemma append_all_reach:
  "append_all cd items now lg = Inr (rs, lg') \<Longrightarrow> codec_ok cd \<Longrightarrow> list_all (\<lambda>p. draft_ok (fst p)) items \<Longrightarrow>
     reach (ledger_step cd) lg lg'"
proof (induction cd items now lg arbitrary: rs lg' rule: append_all.induct)
  case (1 cd now lg)
  then show ?case by (simp add: reach_refl)
next
  case (2 cd e x rest now lg)
  from "2.prems"(1) obtain p q where p: "ledger_append cd e x now lg = Inr p"
    and q: "append_all cd rest now (snd p) = Inr q" "lg' = snd q"
    by (auto simp: result_simps)
  have "reach (ledger_step cd) lg (snd p)"
    using ledger_append_reach [of cd e x now lg "fst p" "snd p"] "2.prems" p by simp
  moreover have "reach (ledger_step cd) (snd p) lg'"
    using "2.IH" [of p "fst q" lg'] "2.prems" p q by simp
  ultimately show ?case by (rule reach_trans)
qed

lemma append_all_read_back:
  assumes "ledger_inv cd lg" "codec_ok cd" "list_all draft_ok es" "length expected = length es"
    and "append_all cd (zip es expected) now lg = Inr (rs, lg')" "reach (ledger_step cd) lg' t"
  shows "read_back_many cd es t = Inr (Some rs) \<and>
    list_all2 (\<lambda>r x. x = None \<or> x = Some (rec_sequence r)) rs expected"
  using assms
proof (induction es arbitrary: expected lg rs)
  case (Cons e es)
  obtain x xs where x: "expected = x # xs" "length xs = length es" using Cons.prems(4) by (cases expected) auto
  from Cons.prems(5) x(1) obtain r lg1 rs' where
    a: "ledger_append cd e x now lg = Inr (r, lg1)"
    and b: "append_all cd (zip es xs) now lg1 = Inr (rs', lg')" and rs: "rs = r # rs'"
    by (auto simp: result_simps)
  have ok: "draft_ok e" "list_all draft_ok es" using Cons.prems(3) by simp_all
  have inv1: "ledger_inv cd lg1"
    using ledger_step_inv [OF step_append [OF Cons.prems(2) ok(1) a] Cons.prems(1)] .
  have r1: "reach (ledger_step cd) lg1 lg'"
  proof (rule append_all_reach [OF b Cons.prems(2)])
    show "list_all (\<lambda>p. draft_ok (fst p)) (zip es xs)"
      using ok(2) by (auto simp: list_all_iff dest: set_zip_leftD)
  qed
  obtain row where row: "find_event (event_id e) lg1 = Some row" "row_to_record cd row = Inr r"
    "same_event cd r e = Inr True" "x = None \<or> x = Some (rec_sequence r)"
    using append_stores [OF Cons.prems(2) ok(1) Cons.prems(1) a] by metis
  obtain new where "event_rows t = event_rows lg1 @ new"
    using reach_extends [OF reach_trans [OF r1 Cons.prems(6)]] by blast
  then have "find_event (event_id e) t = Some row" by (rule find_event_extends [OF row(1)])
  moreover have "py_strip (event_id e) = event_id e" "event_id e \<noteq> []"
    using draft_ok_run_id(2) [OF ok(1)] by (simp_all add: plain_identifier_def)
  ultimately have "ledger_get cd (event_id e) t = Inr (Some r)"
    using row(2) by (simp add: ledger_get_def)
  moreover have "read_back_many cd es t = Inr (Some rs') \<and>
      list_all2 (\<lambda>r x. x = None \<or> x = Some (rec_sequence r)) rs' xs"
    by (rule Cons.IH [OF inv1 Cons.prems(2) ok(2) x(2) b Cons.prems(6)])
  ultimately show ?case using row(3,4) by (simp add: rs x(1))
qed simp

section \<open>Properties\<close>

text \<open>C17. On every ledger reached by committed appends the authoritative view of a run succeeds with
  any page size: it contains exactly the run's stored events in order, numbered from one to the
  head's high-water mark and linked by their digests, and no integrity check on the way fails. A
  run without a head has no view.\<close>

theorem authoritative_view_total:
  assumes "reach (ledger_step cd) empty_ledger lg" "0 < page_size" "page_size \<le> 5000"
    and "required_identifier 160 rid = Inr rid"
  shows "(case dict_get (stream_heads lg) rid of
      None \<Rightarrow> load_authoritative_run_view cd lg rid page_size = Inr None
    | Some h \<Rightarrow>
        \<exists>v. load_authoritative_run_view cd lg rid page_size = Inr (Some v) \<and> view_head v = h \<and>
          map_result (row_to_record cd)
            (filter (\<lambda>row. row_run_id row = rid) (event_rows lg)) = Inr (view_records v) \<and>
          map rec_sequence (view_records v) = map (\<lambda>i. int i + 1) [0..<nat (last_sequence h)] \<and>
          verify_run_ledger_chain (view_records v) = Inr ())"
proof -
  have inv: "ledger_inv cd lg" by (rule ledger_reachable_inv [OF assms(1)])
  have strip: "py_strip rid = rid" "rid \<noteq> []"
    using assms(4) by (auto simp: required_identifier_Inr plain_identifier_def)
  show ?thesis
  proof (cases "dict_get (stream_heads lg) rid")
    case None
    then show ?thesis
      using strip assms(2,3) by (simp add: load_authoritative_run_view_def ledger_head_def)
  next
    case (Some h)
    let ?rows = "rows_of rid lg"
    have ok: "stream_ok cd rid ?rows h" by (rule ledger_inv_stream(2) [OF inv Some])
    then have ne: "?rows \<noteq> []" and len: "last_sequence h = int (length ?rows)"
      and good: "list_all (row_good cd) ?rows"
      and seqs: "map sequence ?rows = map (\<lambda>i. int i + 1) [0..<length ?rows]"
      by (simp_all add: stream_ok_def)
    have head: "RunLedgerHead_post_init h = Inr h"
      by (rule head_post_init_ok [OF ok]) (simp add: rows_of_def)
    have pages: "load_pages cd rid page_size (last_sequence h) lg 0 = Inr (map (rec_of cd) ?rows)"
      using load_pages_ok [OF inv Some assms(2,3), of 0] len by simp
    note proj = project_run_ledger_ok [OF inv Some]
    have hd: "event_type (rec_event (rec_of cd (hd ?rows))) = lit ''run.accepted''"
      "event_id (rec_event (rec_of cd (last ?rows))) = last_event_id h"
      "rec_event_sha256 (rec_of cd (last ?rows)) = last_event_sha256 h"
      using ok ne good by (simp_all add: stream_ok_def row_good_rec list_all_iff)
    have fin: "length (terminal_sequences (map (rec_of cd) ?rows)) \<le> 1"
      "terminal_sequence h = (case terminal_sequences (map (rec_of cd) ?rows) of [] \<Rightarrow> None | t # _ \<Rightarrow> Some t)"
      by (simp_all add: terminal_sequences_rec [OF ok] split: option.splits)
    have chain: "verify_run_ledger_chain (map (rec_of cd) ?rows) = Inr ()"
      using proj ne by (auto simp: project_run_ledger_def result_simps)
    have rs: "map rec_sequence (map (rec_of cd) ?rows) = map sequence ?rows"
      using good by (simp add: list_all_iff row_good_rec)
    have "load_authoritative_run_view cd lg rid page_size =
        Inr (Some \<lparr>view_head = h, view_records = map (rec_of cd) ?rows,
          view_projection = projection_result (map (rec_of cd) ?rows)
            (foldl (project_event cd) projection_init (map (rec_of cd) ?rows))\<rparr>)"
      using assms(2,3) strip Some head pages proj hd fin ne len
      by (simp add: load_authoritative_run_view_def ledger_head_def hd_map last_map)
    moreover have "map rec_sequence (map (rec_of cd) ?rows) =
        map (\<lambda>i. int i + 1) [0..<nat (last_sequence h)]"
      unfolding rs seqs by (simp add: len)
    ultimately show ?thesis
      using chain map_result_good [OF good]
      by (simp add: Some rows_of_def del: map_map)
  qed
qed

text \<open>C18. Appending works: on a reachable ledger an event that is not yet stored, that the head of its
  run admits (acceptance first, nothing but corrections after termination), whose correction and
  owner are consistent, that can be encoded and whose digest is new, is appended under the next
  sequence number. The record read back from the stored JSON is the event itself, with its payload
  keys in order.\<close>

theorem append_succeeds:
  assumes "reach (ledger_step cd) empty_ledger lg" "codec_ok cd" "draft_ok e"
    and "find_event (event_id e) lg = None" "correction_known e lg" "validate_owner e lg"
    and "open_head e lg = Inr h" "xseq = None \<or> xseq = Some (last_sequence h + 1)"
    and "floats_readable cd (payload e)"
    and "run_ledger_payload_sha256 cd (payload e) = Inr psha"
    and "run_ledger_event_sha256 cd e (last_sequence h + 1) (last_event_sha256 h) = Inr digest"
    and "\<forall>row \<in> set (event_rows lg). event_sha256 row \<noteq> digest"
  shows "\<exists>r lg'. ledger_append cd e xseq now lg = Inr (r, lg') \<and>
    rec_event r = canonical_draft e \<and> rec_sequence r = last_sequence h + 1 \<and>
    rec_previous_sha256 r = last_event_sha256 h \<and> last_sequence_of lg' (ev_run_id e) = rec_sequence r"
proof -
  have inv: "ledger_inv cd lg" by (rule ledger_reachable_inv [OF assms(1)])
  have last: "last_sequence h = int (length (rows_of (ev_run_id e) lg))"
    using assms(7) ledger_inv_stream [OF inv, of "ev_run_id e"]
    by (cases "dict_get (stream_heads lg) (ev_run_id e)")
      (auto simp: open_head_def result_simps empty_head_def stream_ok_def)
  obtain pjson where pj: "encode_run_ledger_payload cd (payload e) = Inr pjson"
    using assms(10) by (auto simp: run_ledger_payload_sha256_def result_simps)
  let ?row = "event_row e (int (length (event_rows lg)) + 1) (last_sequence h + 1) now pjson psha
       (last_event_sha256 h) digest"
  have rb: "row_to_record cd ?row = Inr \<lparr>rec_position = int (length (event_rows lg)) + 1,
      rec_sequence = last_sequence h + 1, rec_event = canonical_draft e, rec_recorded_at = now,
      rec_previous_sha256 = last_event_sha256 h, rec_event_sha256 = digest\<rparr>"
    using event_row_reads_back [OF assms(2,3,9) _ _ head_previous_hex [OF inv assms(7)] pj assms(10,11)] last
    by simp
  have seqs: "\<not> (row_run_id r = ev_run_id e \<and> sequence r = last_sequence h + 1)"
    if "r \<in> set (event_rows lg)" for r
  proof
    assume r: "row_run_id r = ev_run_id e \<and> sequence r = last_sequence h + 1"
    then have mem: "r \<in> set (rows_of (ev_run_id e) lg)" using that by (simp add: rows_of_def)
    then obtain h' where "dict_get (stream_heads lg) (ev_run_id e) = Some h'"
      using ledger_inv_stream(1) [OF inv, of "ev_run_id e"] by fastforce
    from ledger_inv_stream(2) [OF inv this]
    have "map sequence (rows_of (ev_run_id e) lg) = map (\<lambda>i. int i + 1) [0..<length (rows_of (ev_run_id e) lg)]"
      by (simp add: stream_ok_def)
    then have "sequence r \<in> set (map (\<lambda>i. int i + 1) [0..<length (rows_of (ev_run_id e) lg)])"
      using mem by (metis image_eqI set_map)
    then show False using r last by auto
  qed
  have ids: "row_event_id r \<noteq> event_id e" if "r \<in> set (event_rows lg)" for r
    using assms(4) that by (simp add: find_event_def find_None_iff)
  have "row_unique ?row lg"
    using seqs ids assms(12) by (auto simp: row_unique_def list_all_iff event_row_def)
  moreover have "schema_version e > 0" "dropped_field_count e \<ge> 0"
    using assms(3) by (auto simp: draft_ok_def RunLedgerEventDraft_post_init_def result_simps Let_def)
  moreover have "case xseq of None \<Rightarrow> True | Some n \<Rightarrow> n > 0" using assms(8) last by auto
  ultimately show ?thesis
    using assms(4-8,10,11) pj rb last
    by (simp add: ledger_append_def append_new_def last_sequence_of_def Let_def)
qed

lemma sample_floats: "floats_readable sample_codec (payload sample_event)"
  by (simp add: floats_readable_def sample_event_def)

lemma sample_open_head: "open_head sample_event empty_ledger = Inr (empty_head (lit ''r''))"
  by (simp add: open_head_def empty_ledger_def sample_event_def)

lemma sample_fields:
  "event_type sample_event = lit ''run.accepted''" "ev_run_id sample_event = lit ''r''"
  "event_id sample_event = lit ''e1''" "correction_of_event_id sample_event = []"
  "schema_version sample_event = 1" "dropped_field_count sample_event = 0"
  "owner_id (identity sample_event) = []"
  by (simp_all add: sample_event_def no_identity_def)

lemma sample_next_digest:
  "run_ledger_event_sha256 sample_codec sample_event (last_sequence (empty_head (lit ''r'')) + 1)
     (last_event_sha256 (empty_head (lit ''r''))) = Inr (replicate 64 48)"
  using sample_digest by (simp add: empty_head_def)

theorem append_succeeds_witness:
  "\<exists>r lg'. ledger_append sample_codec sample_event (Some 1) 5 empty_ledger = Inr (r, lg') \<and>
    rec_event r = canonical_draft sample_event \<and> rec_sequence r = last_sequence (empty_head (lit ''r'')) + 1 \<and>
    rec_previous_sha256 r = last_event_sha256 (empty_head (lit ''r'')) \<and>
    last_sequence_of lg' (ev_run_id sample_event) = rec_sequence r"
  by (rule append_succeeds [OF reach_refl sample_codec_ok sample_draft_ok _ _ _ sample_open_head _
        sample_floats sample_payload_digest sample_next_digest])
    (simp_all add: find_event_def empty_ledger_def correction_known_def validate_owner_def
      sample_fields empty_head_def)

lemma sample_append:
  "ledger_append sample_codec sample_event (Some 1) 5 empty_ledger =
     Inr (\<lparr>rec_position = 1, rec_sequence = 1, rec_event = sample_event, rec_recorded_at = 5,
           rec_previous_sha256 = [], rec_event_sha256 = replicate 64 48\<rparr>,
          \<lparr>event_rows = [event_row sample_event 1 1 5
              (dumps (float_repr_of sample_codec) (JObject [(lit ''user_id'', JInt 7)]))
              (replicate 64 48) [] (replicate 64 48)],
           stream_heads = [(lit ''r'', \<lparr>head_run_id = lit ''r'', last_sequence = 1,
              last_event_id = lit ''e1'', last_event_sha256 = replicate 64 48,
              terminal_sequence = None\<rparr>)]\<rparr>)"
proof -
  have pl: "payload sample_event = [(lit ''user_id'', JInt 7)]" by (simp add: sample_event_def)
  have canon: "canonical_draft sample_event = sample_event"
    by (simp add: canonical_draft_def sorted_payload_def sample_event_def)
  have enc: "encode_run_ledger_payload sample_codec (payload sample_event) =
      Inr (dumps (float_repr_of sample_codec) (JObject [(lit ''user_id'', JInt 7)]))"
    by (simp add: encode_run_ledger_payload_def pl sample_payload json_dumps_def py_digits.simps
        del: dumps.simps)
  have rb: "row_to_record sample_codec (event_row sample_event 1 1 5
              (dumps (float_repr_of sample_codec) (JObject [(lit ''user_id'', JInt 7)]))
              (replicate 64 48) [] (replicate 64 48)) =
    Inr \<lparr>rec_position = 1, rec_sequence = 1, rec_event = sample_event, rec_recorded_at = 5,
         rec_previous_sha256 = [], rec_event_sha256 = replicate 64 48\<rparr>"
    using event_row_reads_back [OF sample_codec_ok sample_draft_ok sample_floats _ _ _ enc
        sample_payload_digest sample_digest, of 1 5] by (simp add: canon)
  show ?thesis
    using enc rb sample_digest sample_payload_digest
    by (simp add: ledger_append_def append_new_def find_event_def empty_ledger_def sample_fields
        correction_known_def validate_owner_def open_head_def empty_head_def row_unique_def
        terminal_event_def Let_def del: dumps.simps)
qed

definition sample_ledger :: RunLedger where
  "sample_ledger =
     \<lparr>event_rows = [event_row sample_event 1 1 5
              (dumps (float_repr_of sample_codec) (JObject [(lit ''user_id'', JInt 7)]))
              (replicate 64 48) [] (replicate 64 48)],
      stream_heads = [(lit ''r'', \<lparr>head_run_id = lit ''r'', last_sequence = 1,
              last_event_id = lit ''e1'', last_event_sha256 = replicate 64 48,
              terminal_sequence = None\<rparr>)]\<rparr>"

lemma sample_ledger_reach: "reach (ledger_step sample_codec) empty_ledger sample_ledger"
  by (rule reach_single) (rule step_append [OF sample_codec_ok sample_draft_ok
      sample_append [folded sample_ledger_def]])

theorem authoritative_view_total_witness:
  "(case dict_get (stream_heads sample_ledger) (lit ''r'') of
      None \<Rightarrow> load_authoritative_run_view sample_codec sample_ledger (lit ''r'') 100 = Inr None
    | Some h \<Rightarrow>
        \<exists>v. load_authoritative_run_view sample_codec sample_ledger (lit ''r'') 100 = Inr (Some v) \<and>
          view_head v = h \<and>
          map_result (row_to_record sample_codec)
            (filter (\<lambda>row. row_run_id row = lit ''r'') (event_rows sample_ledger)) = Inr (view_records v) \<and>
          map rec_sequence (view_records v) = map (\<lambda>i. int i + 1) [0..<nat (last_sequence h)] \<and>
          verify_run_ledger_chain (view_records v) = Inr ())"
  by (rule authoritative_view_total [OF sample_ledger_reach]) (simp_all add: sample_identifiers)

text \<open>C19. Appending is idempotent: once an event has been appended, appending it again at any later
  time returns the same record and leaves the ledger alone, while asking for another sequence
  number is a conflict.\<close>

theorem append_idempotent:
  assumes "reach (ledger_step cd) empty_ledger lg" "codec_ok cd" "draft_ok e"
    and "ledger_append cd e xseq now lg = Inr (r, lg')" "reach (ledger_step cd) lg' t"
  shows "ledger_append cd e None now' t = Inr (r, t) \<and>
    ledger_append cd e (Some (rec_sequence r)) now' t = Inr (r, t) \<and>
    (\<forall>n. 0 < n \<longrightarrow> n \<noteq> rec_sequence r \<longrightarrow>
      ledger_append cd e (Some n) now' t = Inl RunLedgerConflictError)"
proof -
  obtain row where row: "find_event (event_id e) lg' = Some row" "row_to_record cd row = Inr r"
    and same: "same_event cd r e = Inr True"
    using append_stores [OF assms(2,3) ledger_reachable_inv [OF assms(1)] assms(4)] by metis
  have pos: "rec_sequence r > 0"
    using row(2) by (auto simp: row_to_record_def result_simps Let_def RunLedgerEventRecord_post_init_def)
  obtain new where "event_rows t = event_rows lg' @ new" using reach_extends [OF assms(5)] by blast
  then have "find_event (event_id e) t = Some row" by (rule find_event_extends [OF row(1)])
  then show ?thesis using row(2) same pos by (simp add: ledger_append_def)
qed

theorem append_idempotent_witness:
  "\<exists>r. ledger_append sample_codec sample_event (Some 1) 5 empty_ledger = Inr (r, sample_ledger) \<and>
    ledger_append sample_codec sample_event None 9 sample_ledger = Inr (r, sample_ledger) \<and>
    ledger_append sample_codec sample_event (Some 2) 9 sample_ledger = Inl RunLedgerConflictError"
  using append_idempotent [OF reach_refl sample_codec_ok sample_draft_ok
      sample_append [folded sample_ledger_def] reach_refl, of 9] sample_append [folded sample_ledger_def]
  by simp

text \<open>C20. The life of a run in the ledger: its first event is its acceptance and no later event is,
  at most one event is its termination, everything after the termination is a correction, the
  head's terminal sequence is the number of the termination, and all events of the run that name
  an owner name the same owner.\<close>

theorem run_lifecycle_shape:
  assumes "reach (ledger_step cd) empty_ledger lg" "dict_get (stream_heads lg) rid = Some h"
    and "rows = filter (\<lambda>row. row_run_id row = rid) (event_rows lg)"
  shows "rows \<noteq> [] \<and> row_event_type (hd rows) = lit ''run.accepted'' \<and>
    (\<forall>row \<in> set (tl rows). row_event_type row \<noteq> lit ''run.accepted'') \<and>
    (\<forall>i j. i < j \<longrightarrow> j < length rows \<longrightarrow> row_event_type (rows ! i) = lit ''run.terminated'' \<longrightarrow>
       row_event_type (rows ! j) = lit ''run.event_corrected'') \<and>
    terminal_sequence h =
      map_option sequence (find (\<lambda>row. row_event_type row = lit ''run.terminated'') rows) \<and>
    (\<forall>r1 \<in> set rows. \<forall>r2 \<in> set rows. owner_id (row_identity r1) \<noteq> [] \<longrightarrow>
       owner_id (row_identity r2) \<noteq> [] \<longrightarrow> same_owner (row_identity r1) (row_identity r2))"
proof -
  have inv: "ledger_inv cd lg" by (rule ledger_reachable_inv [OF assms(1)])
  have ok: "stream_ok cd rid rows h"
    using ledger_inv_stream(2) [OF inv assms(2)] by (simp add: rows_of_def assms(3))
  have own: "owner_inv lg"
    using ledger_owners.reach_inv [OF assms(1)] by (simp add: owner_inv_def empty_ledger_def)
  have closed: "closed_after_end rs \<Longrightarrow> i < j \<Longrightarrow> j < length rs \<Longrightarrow> terminated_row (rs ! i) \<Longrightarrow>
      row_event_type (rs ! j) = lit ''run.event_corrected''" for rs i j
  proof (induction rs arbitrary: i j)
    case (Cons r rs)
    then show ?case by (cases i; cases j) (auto simp: list_all_length)
  qed simp
  have "\<forall>r1 \<in> set rows. \<forall>r2 \<in> set rows. owner_id (row_identity r1) \<noteq> [] \<longrightarrow>
       owner_id (row_identity r2) \<noteq> [] \<longrightarrow> same_owner (row_identity r1) (row_identity r2)"
    using own by (simp add: assms(3) owner_inv_def)
  moreover have "terminated_row = (\<lambda>row. row_event_type row = lit ''run.terminated'')"
    by (rule ext) (simp add: terminated_row_def)
  moreover have "\<forall>i j. i < j \<longrightarrow> j < length rows \<longrightarrow>
      row_event_type (rows ! i) = lit ''run.terminated'' \<longrightarrow>
      row_event_type (rows ! j) = lit ''run.event_corrected''"
  proof (intro allI impI)
    fix i j assume "i < j" "j < length rows" "row_event_type (rows ! i) = lit ''run.terminated''"
    moreover have "closed_after_end rows" using ok by (simp add: stream_ok_def)
    ultimately show "row_event_type (rows ! j) = lit ''run.event_corrected''"
      using closed [of rows i j] by (simp add: terminated_row_def)
  qed
  ultimately show ?thesis
    using ok by (simp add: stream_ok_def list_all_iff)
qed

definition sample_head :: RunLedgerHead where
  "sample_head =
     \<lparr>head_run_id = lit ''r'', last_sequence = 1, last_event_id = lit ''e1'',
      last_event_sha256 = replicate 64 48, terminal_sequence = None\<rparr>"

lemma sample_head_get: "dict_get (stream_heads sample_ledger) (lit ''r'') = Some sample_head"
  by (simp add: sample_ledger_def sample_head_def)

theorem run_lifecycle_shape_witness:
  "filter (\<lambda>row. row_run_id row = lit ''r'') (event_rows sample_ledger) \<noteq> [] \<and>
     row_event_type (hd (filter (\<lambda>row. row_run_id row = lit ''r'') (event_rows sample_ledger))) =
       lit ''run.accepted'' \<and>
     terminal_sequence sample_head =
       map_option sequence (find (\<lambda>row. row_event_type row = lit ''run.terminated'')
         (filter (\<lambda>row. row_run_id row = lit ''r'') (event_rows sample_ledger)))"
  using run_lifecycle_shape [OF sample_ledger_reach sample_head_get refl] by blast

text \<open>C21. The projection summarises the events: over the records of a reachable run it never fails,
  it is terminal exactly when the head has a terminal sequence, it counts every event, and each
  usage total is the sum of the non-negative numbers recorded by the run's usage events.\<close>

theorem projection_totals:
  assumes "reach (ledger_step cd) empty_ledger lg" "dict_get (stream_heads lg) rid = Some h"
    and "map_result (row_to_record cd) (filter (\<lambda>row. row_run_id row = rid) (event_rows lg)) = Inr rs"
  shows "\<exists>p. project_run_ledger cd rs = Inr (Some p) \<and>
    (proj_terminal p \<longleftrightarrow> terminal_sequence h \<noteq> None) \<and>
    int (event_count p) = last_sequence h \<and> high_water_sequence p = last_sequence h \<and>
    input_tokens (proj_usage p) = sum_list (map (recorded_usage ''input_tokens'') rs) \<and>
    output_tokens (proj_usage p) = sum_list (map (recorded_usage ''output_tokens'') rs) \<and>
    cached_input_tokens (proj_usage p) = sum_list (map (recorded_usage ''cached_input_tokens'') rs) \<and>
    reasoning_tokens (proj_usage p) = sum_list (map (recorded_usage ''reasoning_tokens'') rs) \<and>
    cost_microunits (proj_usage p) = sum_list (map (recorded_usage ''cost_microunits'') rs)"
proof -
  let ?rows = "rows_of rid lg"
  have inv: "ledger_inv cd lg" by (rule ledger_reachable_inv [OF assms(1)])
  have ok: "stream_ok cd rid ?rows h" by (rule ledger_inv_stream(2) [OF inv assms(2)])
  then have good: "list_all (row_good cd) ?rows" and ne: "?rows \<noteq> []"
    and len: "last_sequence h = int (length ?rows)" by (simp_all add: stream_ok_def)
  have rs: "rs = map (rec_of cd) ?rows"
    using map_result_good [OF good] assms(3) by (simp add: rows_of_def)
  have "(\<exists>r \<in> set rs. event_type (rec_event r) = lit ''run.terminated'') \<longleftrightarrow> terminal_sequence h \<noteq> None"
  proof -
    have "(\<exists>r \<in> set rs. event_type (rec_event r) = lit ''run.terminated'') \<longleftrightarrow>
        list_ex terminated_row ?rows"
      using good by (auto simp: rs list_ex_iff list_all_iff row_good_rec terminated_row_def)
    also have "\<dots> \<longleftrightarrow> terminal_sequence h \<noteq> None"
      using ok find_None_ex [of terminated_row ?rows] by (simp add: stream_ok_def)
    finally show ?thesis .
  qed
  moreover have "rec_sequence (last rs) = last_sequence h"
  proof -
    have "map sequence ?rows = map (\<lambda>i. int i + 1) [0..<length ?rows]"
      using ok by (simp add: stream_ok_def)
    then have "last (map sequence ?rows) = last (map (\<lambda>i. int i + 1) [0..<length ?rows])" by (rule arg_cong)
    then have "sequence (last ?rows) = int (length ?rows)"
      using ne by (simp add: last_map of_nat_diff Suc_leI)
    then show ?thesis using good ne len by (simp add: rs last_map row_good_rec list_all_iff)
  qed
  ultimately show ?thesis
    using project_run_ledger_ok [OF inv assms(2)] len
    by (simp add: rs [symmetric] projection_result_def foldl_project_terminal foldl_project_usage
        projection_init_def) (simp add: rs)
qed

theorem projection_totals_witness:
  "\<exists>rs p. project_run_ledger sample_codec rs = Inr (Some p) \<and> \<not> proj_terminal p \<and>
     event_count p = 1 \<and> input_tokens (proj_usage p) = sum_list (map (recorded_usage ''input_tokens'') rs)"
proof -
  obtain rs where "map_result (row_to_record sample_codec)
      (filter (\<lambda>row. row_run_id row = lit ''r'') (event_rows sample_ledger)) = Inr rs"
    using authoritative_records [OF sample_ledger_reach] by blast
  from projection_totals [OF sample_ledger_reach sample_head_get this] show ?thesis
    by (auto simp: sample_head_def)
qed

text \<open>C22. An uncertain commit is settled by reading back: if appending a group of events committed and
  would have returned some records, then a commit that took effect but raised an exception
  returns the same records, because the writer finds its own events in the ledger.\<close>

theorem commit_uncertainty_resolved:
  assumes "reach (ledger_step cd) empty_ledger lg" "codec_ok cd" "list_all draft_ok es"
    and "append_many cd es expected Committed now lg = (Inr rs, lg')"
  shows "append_many cd es expected (CommitRaised True) now lg = (Inr rs, lg')"
proof -
  have ne: "es \<noteq> []" "list_all (\<lambda>e. ev_run_id e = ev_run_id (hd es)) es" "length expected = length es"
    using assms(4) by (auto simp: append_many_def split: if_splits)
  show ?thesis
  proof (cases "append_all cd (zip es expected) now lg")
    case (Inl exc)
    then show ?thesis using assms(4) ne by (auto simp: append_many_def)
  next
    case (Inr p)
    then have all: "append_all cd (zip es expected) now lg = Inr (rs, lg')"
      using assms(4) ne by (cases p) (simp add: append_many_def)
    from append_all_read_back [OF ledger_reachable_inv [OF assms(1)] assms(2,3) ne(3) all reach_refl]
    have "recover_many cd CommitError es expected lg' = Inr rs"
      by (simp add: recover_many_def)
    with ne all show ?thesis by (simp add: append_many_def)
  qed
qed

theorem commit_uncertainty_resolved_witness:
  "\<exists>rs. append_many sample_codec [sample_event] [Some 1] (CommitRaised True) 5 empty_ledger =
     (Inr rs, sample_ledger)"
proof -
  have "\<exists>rs. append_many sample_codec [sample_event] [Some 1] Committed 5 empty_ledger =
      (Inr rs, sample_ledger)"
    using sample_append [folded sample_ledger_def] by (simp add: append_many_def)
  then show ?thesis
    using commit_uncertainty_resolved [OF reach_refl sample_codec_ok, of "[sample_event]"]
      sample_draft_ok by auto
qed

end
