(* ===== verification/Durable_Reconciler.thy ===== *)
theory Durable_Reconciler
  imports Durable_Tasks_Correct Run_Ledger_Properties
begin

text \<open>
  \<open>core/durable_tasks/reconciler.py\<close>: the pass that ends runs whose lease or time limit has
  expired, over the five tables it touches, and the ledger event it appends
  (\<open>run_terminated_event\<close> of \<open>core/run_ledger/adapters.py\<close>).

  The pass selects its candidates in one query and then handles them one by one, each in a
  transaction of its own. \<open>SessionLocal\<close> expires every loaded object on commit and on
  rollback, so the second and every later candidate is read again when it is first used. What
  other processes commit meanwhile is the argument \<open>env\<close>: \<open>env (2 * i)\<close> is what happens
  before the candidate number \<open>i\<close> is read again, \<open>env (2 * i + 1)\<close> what happens between that
  read and its UPDATE. Columns the pass neither reads nor writes are left out.
\<close>

section \<open>The terminal event\<close>

text \<open>\<open>str.encode("utf-8", errors="replace")\<close>: a surrogate becomes a question mark.\<close>

definition utf8_encode_replace :: "pystr \<Rightarrow> bytes" where
  "utf8_encode_replace s =
     concat (map (\<lambda>c. case utf8_char c of None \<Rightarrow> [63] | Some b \<Rightarrow> b) s)"

definition bounded_event_id :: "codec \<Rightarrow> pystr list \<Rightarrow> ledger_error + pystr" where
  "bounded_event_id cd parts =
     (let raw = join_char 58 (map py_strip parts)
      in if length raw \<le> 160 \<and> raw \<noteq> [] then Inr raw
         else bind_result (text_sha256 cd raw) (\<lambda>digest.
           let first = (case parts of [] \<Rightarrow> lit ''ledger'' | p # _ \<Rightarrow> or_else p (lit ''ledger''));
               namespace = or_else (take 32 (py_strip first)) (lit ''ledger'')
           in Inr (namespace @ lit '':sha256:'' @ digest)))"

definition text_fingerprint :: "codec \<Rightarrow> pystr \<Rightarrow> int \<times> int \<times> pystr" where
  "text_fingerprint cd s =
     (let encoded = utf8_encode_replace s
      in (int (length encoded), int (length s), sha256_of cd encoded))"

definition run_terminated_event ::
  "codec \<Rightarrow> pystr \<Rightarrow> pystr \<Rightarrow> pystr \<Rightarrow> pystr \<Rightarrow> pystr \<Rightarrow> pystr \<Rightarrow> int \<Rightarrow> pystr \<Rightarrow> datetime
     \<Rightarrow> ledger_error + RunLedgerEventDraft" where
  "run_terminated_event cd rid trace session st out_text error_text latency model_id occurred =
     (case (text_fingerprint cd out_text, text_fingerprint cd error_text) of
        ((output_bytes, output_chars, output_sha256), (error_bytes, error_chars, error_sha256)) \<Rightarrow>
     (let legacy_status = py_lower (py_strip (or_else st (lit ''unknown'')));
          canonical_status = canonical_run_status legacy_status
      in bind_result (bounded_event_id cd [lit ''run'', rid, lit ''terminated'']) (\<lambda>eid.
           RunLedgerEventDraft_post_init
             \<lparr>event_id = eid, ev_run_id = rid, event_type = lit ''run.terminated'',
              occurred_at = occurred, source = lit ''trace.run'',
              correlation = TelemetryCorrelation_post_init
                \<lparr>corr_request_id = [], corr_session_id = session, corr_turn_id = [],
                 corr_trace_id = trace, corr_run_id = rid, corr_task_id = [],
                 corr_task_run_id = [], corr_job_id = [], corr_tool_call_id = [],
                 corr_delivery_id = [], corr_parent_job_id = []\<rparr>,
              identity = \<lparr>actor_type = [], actor_id = [], parent_actor_id = [],
                          owner_platform = [], owner_type = [], owner_id = []\<rparr>,
              ev_status = canonical_status,
              payload = [(lit ''legacy_status'', JStr legacy_status), (lit ''model'', JStr model_id),
                         (lit ''latency_ms'', JInt (max 0 latency)),
                         (lit ''output_bytes'', JInt output_bytes),
                         (lit ''output_chars'', JInt output_chars),
                         (lit ''output_sha256'', JStr output_sha256),
                         (lit ''error_bytes'', JInt error_bytes),
                         (lit ''error_chars'', JInt error_chars),
                         (lit ''error_sha256'', JStr error_sha256)],
              source_event_id = [], source_sequence = 0, correction_of_event_id = [],
              schema_version = 1, dropped_field_count = 0\<rparr>)))"

section \<open>The tables\<close>

record AgentRun =
  run_trace_id :: "pystr option"
  run_session_id :: "pystr option"
  run_model :: "pystr option"
  run_latency_ms :: "int option"
  run_status :: pystr
  run_error :: pystr
  run_finished_at :: "datetime option"

record RunSideEffectReceipt =
  receipt_run_id :: pystr
  receipt_state :: pystr

record RunRecoveryOperation =
  op_status :: pystr
  op_error_code :: pystr
  op_updated_at :: datetime
  op_finished_at :: "datetime option"

record store =
  run_tasks :: task_table
  receipts :: "RunSideEffectReceipt list"
  agent_runs :: "(pystr, AgentRun) dict"
  recoveries :: "(pystr, RunRecoveryOperation) dict"
  ledger :: RunLedger

datatype reconcile_error =
    TaskFailed task_error
  | LedgerFailed ledger_error
  | ObjectDeleted
  | LimitInvalid

definition unsafe_receipt :: "store \<Rightarrow> pystr \<Rightarrow> bool" where
  "unsafe_receipt db rid \<longleftrightarrow>
     list_ex (\<lambda>r. receipt_run_id r = rid \<and>
                  receipt_state r \<in> {lit ''prepared'', lit ''ambiguous''}) (receipts db)"

definition or_empty :: "pystr option \<Rightarrow> pystr" where
  "or_empty v = (case v of None \<Rightarrow> [] | Some s \<Rightarrow> s)"

section \<open>One candidate\<close>

text \<open>The end of the run in the ledger, when the run has an open ledger and an \<open>AgentRun\<close>.\<close>

definition close_ledger ::
  "codec \<Rightarrow> datetime \<Rightarrow> datetime \<Rightarrow> pystr \<Rightarrow> RunTaskStatus \<times> pystr \<Rightarrow> AgentRun option \<Rightarrow> RunLedger
     \<Rightarrow> ledger_error + RunLedger" where
  "close_ledger cd now recorded rid verdict run lg =
     bind_result (ledger_head rid lg) (\<lambda>head.
       case (head, run) of
         (Some h, Some ar) \<Rightarrow>
           if terminal_sequence h = None
           then bind_result
                  (run_terminated_event cd rid (or_empty (run_trace_id ar))
                     (or_empty (run_session_id ar)) (task_status_value (fst verdict)) []
                     (snd verdict) (case run_latency_ms ar of None \<Rightarrow> 0 | Some n \<Rightarrow> n)
                     (or_empty (run_model ar)) now)
                  (\<lambda>ev. bind_result (ledger_append cd ev None recorded lg) (\<lambda>res. Inr (snd res)))
           else Inr lg
       | _ \<Rightarrow> Inr lg)"

definition close_run :: "datetime \<Rightarrow> RunTaskStatus \<times> pystr \<Rightarrow> AgentRun \<Rightarrow> AgentRun" where
  "close_run now verdict ar =
     ar\<lparr>run_status := task_status_value (fst verdict), run_error := snd verdict,
        run_finished_at := Some now\<rparr>"

definition close_recovery ::
  "datetime \<Rightarrow> RunTaskStatus \<times> pystr \<Rightarrow> RunRecoveryOperation \<Rightarrow> RunRecoveryOperation" where
  "close_recovery now verdict rec =
     (if op_status rec = lit ''running''
      then rec\<lparr>op_status := task_status_value (fst verdict), op_error_code := snd verdict,
               op_updated_at := now, op_finished_at := Some now\<rparr>
      else rec)"

definition dict_modify :: "'k \<Rightarrow> ('v \<Rightarrow> 'v) \<Rightarrow> ('k, 'v) dict \<Rightarrow> ('k, 'v) dict" where
  "dict_modify k f d = (case dict_get d k of None \<Rightarrow> d | Some v \<Rightarrow> dict_set k (f v) d)"

text \<open>
  The body of the loop: \<open>seen\<close> is the store when the candidate \<open>cand\<close> and the receipts were
  read, \<open>db\<close> the store its UPDATE meets. The result says whether the candidate was counted.
\<close>

definition reconcile_one ::
  "codec \<Rightarrow> datetime \<Rightarrow> datetime \<Rightarrow> RunTaskControl \<Rightarrow> store \<Rightarrow> store
     \<Rightarrow> reconcile_error + (bool \<times> store)" where
  "reconcile_one cd now recorded cand seen db =
     (let verdict = expired_status (unsafe_receipt seen (run_id cand)) cand now
      in case expire_update now verdict cand (run_tasks db) of
           Inl e \<Rightarrow> Inl (TaskFailed e)
         | Inr (changed, tasks') \<Rightarrow>
             if changed \<noteq> 1 then Inr (False, db)
             else
               (case close_ledger cd now recorded (run_id cand) verdict
                       (dict_get (agent_runs db) (run_id cand)) (ledger db) of
                  Inl e \<Rightarrow> Inl (LedgerFailed e)
                | Inr lg \<Rightarrow>
                    Inr (True, db\<lparr>run_tasks := tasks',
                      agent_runs := dict_modify (run_id cand) (close_run now verdict) (agent_runs db),
                      recoveries := dict_modify (run_id cand) (close_recovery now verdict) (recoveries db),
                      ledger := lg\<rparr>)))"

section \<open>The pass\<close>

text \<open>\<open>reconcile_rest\<close> handles the candidates that are read again, \<open>i\<close> counting them.\<close>

fun reconcile_rest ::
  "codec \<Rightarrow> datetime \<Rightarrow> datetime \<Rightarrow> (nat \<Rightarrow> store \<Rightarrow> store) \<Rightarrow> nat \<Rightarrow> nat \<Rightarrow> pystr list \<Rightarrow> store
     \<Rightarrow> (reconcile_error + nat) \<times> store" where
  "reconcile_rest cd now recorded env i n [] db = (Inr n, db)"
| "reconcile_rest cd now recorded env i n (rid # rids) db =
     (let seen = env (2 * i) db
      in case dict_get (run_tasks seen) rid of
           None \<Rightarrow> (Inl ObjectDeleted, seen)
         | Some cand \<Rightarrow>
             (let db1 = env (2 * i + 1) seen
              in case reconcile_one cd now recorded cand seen db1 of
                   Inl e \<Rightarrow> (Inl e, db1)
                 | Inr (counted, db2) \<Rightarrow>
                     reconcile_rest cd now recorded env (i + 1) (if counted then n + 1 else n) rids db2))"

definition reconcile_candidates :: "datetime \<Rightarrow> int \<Rightarrow> task_table \<Rightarrow> RunTaskControl list" where
  "reconcile_candidates now limit tasks =
     take (nat limit) (sort_key updated_at (filter (reconcile_candidate now) (map snd tasks)))"

definition reconcile_expired_run_tasks ::
  "codec \<Rightarrow> datetime \<Rightarrow> datetime \<Rightarrow> (nat \<Rightarrow> store \<Rightarrow> store) \<Rightarrow> int \<Rightarrow> store
     \<Rightarrow> (reconcile_error + nat) \<times> store" where
  "reconcile_expired_run_tasks cd now recorded env limit db =
     (if \<not> (1 \<le> limit \<and> limit \<le> 1000) then (Inl LimitInvalid, db)
      else
        (case reconcile_candidates now limit (run_tasks db) of
           [] \<Rightarrow> (Inr 0, db)
         | cand # rest \<Rightarrow>
             (let db1 = env 1 db
              in case reconcile_one cd now recorded cand db db1 of
                   Inl e \<Rightarrow> (Inl e, db1)
                 | Inr (counted, db2) \<Rightarrow>
                     reconcile_rest cd now recorded env 1 (if counted then 1 else 0)
                       (map run_id rest) db2)))"

end
