(* ===== verification/Durable_Reconciler_Correct.thy ===== *)
theory Durable_Reconciler_Correct
  imports Durable_Reconciler
begin

text \<open>
  Correctness of the reconciler. A counted candidate is ended in the same way in all tables at
  once, and nothing else changes. A pass that runs alone ends exactly the expired runs. With
  other processes at work the second read of a candidate can meet an outcome that its owner has
  just recorded, and the pass then replaces it.
\<close>

section \<open>One candidate\<close>

definition ended_row :: "datetime \<Rightarrow> RunTaskStatus \<times> pystr \<Rightarrow> RunTaskControl \<Rightarrow> RunTaskControl" where
  "ended_row now verdict r =
     r\<lparr>status := fst verdict, lease_owner := [], lease_token := [], lease_expires_at := None,
       terminal_reason := snd verdict, updated_at := now, RunTaskControl.finished_at := Some now\<rparr>"

lemma expire_update_cases:
  assumes "expire_update now verdict cand db = Inr (n, db')"
  obtains (missed) "n = 0" "db' = db"
    "\<And>r. dict_get db (run_id cand) = Some r \<Longrightarrow> \<not> expire_guard now cand r"
  | (ended) r where "n = 1" "dict_get db (run_id cand) = Some r" "expire_guard now cand r"
      "db' = dict_set (run_id cand) (ended_row now verdict r) db"
  using assms
  by (auto simp: expire_update_def sql_update_def ended_row_def result_simps
      split: option.splits if_splits)

lemma dict_get_modify [simp]:
  "dict_get (dict_modify k f d) k' = (if k' = k then map_option f (dict_get d k) else dict_get d k')"
  by (auto simp: dict_modify_def split: option.splits)

lemma reconcile_one_cases:
  assumes "reconcile_one cd now recorded cand seen db = Inr (counted, db')"
    and verdict: "verdict = expired_status (unsafe_receipt seen (run_id cand)) cand now"
  obtains (skipped) "\<not> counted" "db' = db"
    "\<And>r. dict_get (run_tasks db) (run_id cand) = Some r \<Longrightarrow> \<not> expire_guard now cand r"
  | (ended) r lg where "counted" "dict_get (run_tasks db) (run_id cand) = Some r"
      "expire_guard now cand r"
      "close_ledger cd now recorded (run_id cand) verdict (dict_get (agent_runs db) (run_id cand))
         (ledger db) = Inr lg"
      "db' = db\<lparr>run_tasks := dict_set (run_id cand) (ended_row now verdict r) (run_tasks db),
               agent_runs := dict_modify (run_id cand) (close_run now verdict) (agent_runs db),
               recoveries := dict_modify (run_id cand) (close_recovery now verdict) (recoveries db),
               ledger := lg\<rparr>"
proof -
  from assms obtain n tasks' where up: "expire_update now verdict cand (run_tasks db) = Inr (n, tasks')"
    by (auto simp: reconcile_one_def Let_def split: sum.splits)
  from up show thesis
  proof (cases rule: expire_update_cases)
    case missed
    then show thesis using assms(1) up by (intro skipped) (auto simp: reconcile_one_def Let_def verdict)
  next
    case (ended r)
    with assms(1) up obtain lg where
      "close_ledger cd now recorded (run_id cand) verdict (dict_get (agent_runs db) (run_id cand))
         (ledger db) = Inr lg"
      by (auto simp: reconcile_one_def Let_def verdict split: sum.splits)
    then show thesis using assms(1) up ended by (intro that(2)) (auto simp: reconcile_one_def Let_def verdict)
  qed
qed

section \<open>The ledger\<close>

lemma terminated_event_type: "event_type_of (lit ''run.terminated'') = Inr (lit ''run.terminated'')"
proof -
  have "event_identifier (lit ''run.terminated'')"
    by (simp add: event_identifier_def lit_def event_type_char_def lower_letter_def is_digit_def)
  then show ?thesis by (simp add: event_type_of_def event_identifier_normal) (simp add: lit_def)
qed

lemma run_terminated_event_ok:
  assumes "run_terminated_event cd rid tr se st out err lat mo occ = Inr ev"
  shows "draft_ok ev" "ev_run_id ev = py_strip rid" "terminal_event ev"
    "\<exists>eid. bounded_event_id cd [lit ''run'', rid, lit ''terminated''] = Inr eid \<and> event_id ev = py_strip eid"
proof -
  define none where "none = \<lparr>actor_type = [], actor_id = [], parent_actor_id = [],
                          owner_platform = [], owner_type = [], owner_id = [] :: pystr\<rparr>"
  have "RunLedgerIdentity_post_init none = Inr none"
    by (simp add: RunLedgerIdentity_post_init_def none_def optional_identifier_def py_strip_def)
  moreover from assms obtain d eid where d: "RunLedgerEventDraft_post_init d = Inr ev"
    and f: "identity d = none" "\<exists>c. correlation d = TelemetryCorrelation_post_init c"
      "ev_run_id d = rid" "event_type d = lit ''run.terminated''"
    and e: "bounded_event_id cd [lit ''run'', rid, lit ''terminated''] = Inr eid" "event_id d = eid"
    unfolding run_terminated_event_def none_def
    by (auto simp: Let_def result_simps split: prod.splits) force
  ultimately show "draft_ok ev" by (force simp: draft_ok_def)
  have "event_type_of (lit ''run.terminated'') = Inr (event_type ev)"
    "required_identifier 160 rid = Inr (ev_run_id ev)" "required_identifier 160 eid = Inr (event_id ev)"
    using d f e by (auto simp: RunLedgerEventDraft_post_init_def result_simps Let_def)
  then show "ev_run_id ev = py_strip rid" "terminal_event ev"
    "\<exists>eid. bounded_event_id cd [lit ''run'', rid, lit ''terminated''] = Inr eid \<and> event_id ev = py_strip eid"
    using e(1) terminated_event_type by (auto simp: required_identifier_def Let_def terminal_event_def split: if_splits)
qed

lemma close_ledger_cases:
  assumes "close_ledger cd now recorded rid verdict run lg = Inr lg'" "codec_ok cd"
    "ledger_inv cd lg" "dict_get (stream_heads lg) (py_strip rid) = Some h" "run \<noteq> None"
    and fresh: "\<And>eid. bounded_event_id cd [lit ''run'', rid, lit ''terminated''] = Inr eid \<Longrightarrow>
           find_event (py_strip eid) lg = None"
  shows "\<exists>h'. dict_get (stream_heads lg') (py_strip rid) = Some h' \<and> terminal_sequence h' \<noteq> None"
proof -
  obtain ar where ar: "run = Some ar" using assms(5) by auto
  obtain h0 where h0: "RunLedgerHead_post_init h = Inr h0"
    and rest: "(if terminal_sequence h0 = None
           then bind_result
                  (run_terminated_event cd rid (or_empty (run_trace_id ar))
                     (or_empty (run_session_id ar)) (task_status_value (fst verdict)) []
                     (snd verdict) (case run_latency_ms ar of None \<Rightarrow> 0 | Some n \<Rightarrow> n)
                     (or_empty (run_model ar)) now)
                  (\<lambda>ev. bind_result (ledger_append cd ev None recorded lg) (\<lambda>res. Inr (snd res)))
           else Inr lg) = Inr lg'"
    using assms(1,4) by (auto simp: close_ledger_def ledger_head_def Let_def ar result_simps)
  have same: "terminal_sequence h0 = terminal_sequence h"
    using h0 by (auto simp: RunLedgerHead_post_init_def result_simps Let_def)
  show ?thesis
  proof (cases "terminal_sequence h = None")
    case False
    then show ?thesis using rest same assms(4) by auto
  next
    case True
    with rest same obtain ev r where
      ev: "run_terminated_event cd rid (or_empty (run_trace_id ar))
             (or_empty (run_session_id ar)) (task_status_value (fst verdict)) []
             (snd verdict) (case run_latency_ms ar of None \<Rightarrow> 0 | Some n \<Rightarrow> n)
             (or_empty (run_model ar)) now = Inr ev"
      and app: "ledger_append cd ev None recorded lg = Inr (r, lg')"
      by (auto simp: result_simps)
    note ok = run_terminated_event_ok [OF ev]
    have "find_event (event_id ev) lg = None" using ok(4) fresh by auto
    then have "append_new cd ev None recorded lg = Inr (r, lg')"
      using app by (simp add: ledger_append_def)
    then obtain hd row pos pjson psha where "appended cd ev lg hd row lg'"
      by (rule append_new_appended)
    then show ?thesis using ok(2,3) by (auto simp: appended_def)
  qed
qed

section \<open>A pass that runs alone\<close>

lemma candidate_guard: "reconcile_candidate now r \<Longrightarrow> expire_guard now r r"
  by (auto simp: reconcile_candidate_def expire_guard_def)

lemma ended_not_candidate: "terminal (fst verdict) \<Longrightarrow> \<not> reconcile_candidate now' (ended_row now verdict r)"
  by (auto simp: reconcile_candidate_def ended_row_def terminal_def)

lemma ended_row_step:
  "expire_guard now cand r \<Longrightarrow> \<not> terminal (status cand) \<Longrightarrow> terminal (fst verdict) \<Longrightarrow>
     row_step r (ended_row now verdict r)"
  unfolding ended_row_def by (rule expire_row_step)

text \<open>Without interference a candidate is ended, or the ledger refuses its terminal event.\<close>

lemma reconcile_one_alone:
  assumes "task_inv (run_tasks db)" "dict_get (run_tasks db) rid = Some r" "reconcile_candidate now r"
  obtains (ended) db' where "reconcile_one cd now recorded r db db = Inr (True, db')"
      "run_tasks db' = dict_set rid
         (ended_row now (expired_status (unsafe_receipt db rid) r now) r) (run_tasks db)"
      "receipts db' = receipts db" "task_inv (run_tasks db')"
  | (refused) e where "reconcile_one cd now recorded r db db = Inl (LedgerFailed e)"
proof -
  have rid: "run_id r = rid" and inv: "row_ok rid r" using assms(1,2) by (auto simp: task_inv_def row_ok_def)
  define verdict where "verdict = expired_status (unsafe_receipt db rid) r now"
  have step: "row_step r (ended_row now verdict r)"
    using ended_row_step [OF candidate_guard [OF assms(3)] candidate_not_terminal [OF assms(3)]]
    by (simp add: verdict_def expired_status_terminal)
  then have con: "row_constraints (ended_row now verdict r)"
    using inv row_step_constraints by (auto simp: row_ok_def)
  have up: "expire_update now verdict r (run_tasks db) =
      Inr (1, dict_set rid (ended_row now verdict r) (run_tasks db))"
    using candidate_guard [OF assms(3)] con assms(2)
    by (simp add: expire_update_def sql_update_def rid ended_row_def)
  have inv': "task_inv (dict_set rid (ended_row now verdict r) (run_tasks db))"
    using table_step_inv [OF table_step_update [OF assms(2) step] assms(1)] .
  show thesis
  proof (cases "close_ledger cd now recorded rid verdict (dict_get (agent_runs db) rid) (ledger db)")
    case (Inl e)
    then show thesis using up
      by (intro refused) (simp add: reconcile_one_def Let_def rid verdict_def [symmetric])
  next
    case (Inr lg)
    then have "reconcile_one cd now recorded r db db = Inr (True,
        db\<lparr>run_tasks := dict_set rid (ended_row now verdict r) (run_tasks db),
           agent_runs := dict_modify rid (close_run now verdict) (agent_runs db),
           recoveries := dict_modify rid (close_recovery now verdict) (recoveries db),
           ledger := lg\<rparr>)"
      using up by (simp add: reconcile_one_def Let_def rid verdict_def [symmetric])
    then show thesis by (rule ended) (use inv' in \<open>simp_all add: verdict_def\<close>)
  qed
qed

definition ended_first :: "datetime \<Rightarrow> store \<Rightarrow> pystr list \<Rightarrow> nat \<Rightarrow> store \<Rightarrow> bool" where
  "ended_first now db rids k db' \<longleftrightarrow>
     (\<forall>rid. dict_get (run_tasks db') rid =
        (if rid \<in> set (take k rids)
         then map_option (\<lambda>r. ended_row now (expired_status (unsafe_receipt db rid) r now) r)
                (dict_get (run_tasks db) rid)
         else dict_get (run_tasks db) rid))"

lemma reconcile_rest_alone:
  assumes "task_inv (run_tasks db)" "distinct rids"
    and "\<forall>rid \<in> set rids. \<exists>r. dict_get (run_tasks db) rid = Some r \<and> reconcile_candidate now r"
    and "reconcile_rest cd now recorded (\<lambda>_ s. s) i n rids db = (res, db')"
  shows "\<exists>k \<le> length rids. ended_first now db rids k db' \<and>
    (case res of Inl e \<Rightarrow> k < length rids \<and> (\<exists>le. e = LedgerFailed le)
      | Inr m \<Rightarrow> m = n + k \<and> k = length rids)"
  using assms
proof (induction rids arbitrary: i n db)
  case Nil
  then show ?case by (auto simp: ended_first_def)
next
  case (Cons rid rids)
  obtain r where r: "dict_get (run_tasks db) rid = Some r" "reconcile_candidate now r"
    using Cons.prems(3) by auto
  from Cons.prems(1) r show ?case
  proof (cases rule: reconcile_one_alone [where cd = cd and recorded = recorded])
    case (refused e)
    then have "ended_first now db (rid # rids) 0 db'" "res = Inl (LedgerFailed e)"
      using Cons.prems(4) r by (auto simp: ended_first_def Let_def)
    then show ?thesis by (intro exI [of _ 0]) simp
  next
    case (ended db1)
    have keep: "rid' \<noteq> rid \<Longrightarrow> dict_get (run_tasks db1) rid' = dict_get (run_tasks db) rid'" for rid'
      using ended(2) by simp
    have "\<forall>rid' \<in> set rids. \<exists>r. dict_get (run_tasks db1) rid' = Some r \<and> reconcile_candidate now r"
    proof
      fix rid' assume "rid' \<in> set rids"
      moreover have "rid' \<noteq> rid" using calculation Cons.prems(2) by auto
      ultimately show "\<exists>r. dict_get (run_tasks db1) rid' = Some r \<and> reconcile_candidate now r"
        using Cons.prems(3) keep [of rid'] by simp
    qed
    moreover have "reconcile_rest cd now recorded (\<lambda>_ s. s) (i + 1) (n + 1) rids db1 = (res, db')"
      using Cons.prems(4) r ended(1) by (simp add: Let_def)
    moreover have "distinct rids" using Cons.prems(2) by simp
    ultimately obtain k where k: "k \<le> length rids" "ended_first now db1 rids k db'"
      and res: "case res of Inl e \<Rightarrow> k < length rids \<and> (\<exists>le. e = LedgerFailed le)
        | Inr m \<Rightarrow> m = n + 1 + k \<and> k = length rids"
      using Cons.IH [OF ended(4), of "i + 1" "n + 1"] by blast
    have "unsafe_receipt db1 rid' = unsafe_receipt db rid'" for rid'
      using ended(3) by (simp add: unsafe_receipt_def)
    then have "dict_get (run_tasks db') x =
        (if x \<in> set (take (Suc k) (rid # rids))
         then map_option (\<lambda>r. ended_row now (expired_status (unsafe_receipt db x) r now) r)
                (dict_get (run_tasks db) x)
         else dict_get (run_tasks db) x)" for x
    proof (cases "x = rid")
      case True
      then have "x \<notin> set (take k rids)" using Cons.prems(2) by (auto dest: in_set_takeD)
      then show ?thesis using k(2) r(1) ended(2) True by (simp add: ended_first_def)
    next
      case False
      then show ?thesis
        using k(2) keep \<open>\<And>rid'. unsafe_receipt db1 rid' = unsafe_receipt db rid'\<close>
        by (simp add: ended_first_def)
    qed
    then have "ended_first now db (rid # rids) (Suc k) db'" by (simp add: ended_first_def)
    then show ?thesis using k(1) res by (intro exI [of _ "Suc k"]) (auto split: sum.splits)
  qed
qed

lemma table_step_distinct: "table_step db db' \<Longrightarrow> distinct (map fst db) \<Longrightarrow> distinct (map fst db')"
  unfolding table_step_def by (auto intro: distinct_update)

lemma reach_distinct: "reach task_step s t \<Longrightarrow> distinct (map fst s) \<Longrightarrow> distinct (map fst t)"
  by (induction rule: reach.induct) (auto dest: task_step_table_step table_step_distinct)

lemma mem_reconcile_candidates:
  assumes "r \<in> set (reconcile_candidates now limit tasks)" "task_inv tasks" "distinct (map fst tasks)"
  shows "dict_get tasks (run_id r) = Some r" "reconcile_candidate now r"
proof -
  obtain key where "(key, r) \<in> set tasks" "reconcile_candidate now r"
    using assms(1) by (auto simp: reconcile_candidates_def dest!: in_set_takeD)
  moreover from this have "dict_get tasks key = Some r" using assms(3) by simp
  moreover from this have "run_id r = key" using assms(2) by (auto simp: task_inv_def row_ok_def)
  ultimately show "dict_get tasks (run_id r) = Some r" "reconcile_candidate now r" by auto
qed

lemma distinct_reconcile_candidates:
  assumes "task_inv tasks" "distinct (map fst tasks)"
  shows "distinct (map run_id (reconcile_candidates now limit tasks))"
proof -
  have "map run_id (map snd tasks) = map fst tasks"
    using assms by (auto simp: task_inv_def row_ok_def)
  then have "distinct (map run_id (map snd tasks))" using assms(2) by metis
  then have "distinct (map run_id (filter (reconcile_candidate now) (map snd tasks)))"
    by (rule distinct_map_filter)
  then have "distinct (map run_id (sort_key updated_at (filter (reconcile_candidate now) (map snd tasks))))"
    by (simp add: distinct_map)
  then show ?thesis by (simp add: reconcile_candidates_def take_map [symmetric])
qed

lemma reconcile_alone_rest:
  assumes "task_inv (run_tasks db)" "distinct (map fst (run_tasks db))" "1 \<le> limit" "limit \<le> 1000"
  shows "reconcile_expired_run_tasks cd now recorded (\<lambda>_ s. s) limit db =
    reconcile_rest cd now recorded (\<lambda>_ s. s) 0 0
      (map run_id (reconcile_candidates now limit (run_tasks db))) db"
proof (cases "reconcile_candidates now limit (run_tasks db)")
  case (Cons cand rest)
  then have "dict_get (run_tasks db) (run_id cand) = Some cand"
    using mem_reconcile_candidates(1) [OF _ assms(1,2), of cand now limit] by simp
  then show ?thesis using assms(3,4)
    by (simp add: reconcile_expired_run_tasks_def Cons Let_def split: sum.splits)
qed (use assms in \<open>simp add: reconcile_expired_run_tasks_def\<close>)

text \<open>When every candidate was picked and ended, none is left.\<close>

lemma none_left:
  assumes "task_inv (run_tasks db)"
    and "set cands = {r \<in> snd ` set (run_tasks db). reconcile_candidate now r}"
    and "\<And>c. c \<in> set cands \<Longrightarrow> dict_get (run_tasks db) (run_id c) = Some c"
    and "ended_first now db (map run_id cands) (length cands) db'"
    and r: "dict_get (run_tasks db') rid = Some r"
  shows "\<not> reconcile_candidate now r"
proof
  assume cand: "reconcile_candidate now r"
  have "\<not> rid \<in> run_id ` set cands"
  proof
    assume mem_rid: "rid \<in> run_id ` set cands"
    then obtain c where c: "dict_get (run_tasks db) rid = Some c" using assms(3) by auto
    then have "dict_get (run_tasks db') rid =
        Some (ended_row now (expired_status (unsafe_receipt db rid) c now) c)"
      using assms(4) mem_rid by (simp add: ended_first_def)
    then show False using r cand ended_not_candidate [OF expired_status_terminal] by auto
  qed
  moreover from this have orig: "dict_get (run_tasks db) rid = Some r"
    using assms(4) r by (simp add: ended_first_def)
  then have "run_id r = rid" using assms(1) by (auto simp: task_inv_def row_ok_def)
  moreover have "r \<in> set cands" using orig cand assms(2) by (force dest: map_of_SomeD)
  ultimately show False by blast
qed

section \<open>Properties\<close>

text \<open>A candidate is ended in all tables or in none: when the reconciler counts a candidate, the row
  that its UPDATE met still passed the guard and is ended with the verdict for that candidate, its
  \<open>AgentRun\<close> and its running recovery operation carry the same verdict, rows of other runs are
  as they were, and a run that has an open ledger is terminated there (unless the identifier of
  the terminal event was taken). A candidate that is not counted changes nothing.\<close>

theorem reconcile_one_all_or_nothing:
  assumes "reconcile_one cd now recorded cand seen db = Inr (counted, db')"
    and "verdict = expired_status (unsafe_receipt seen (run_id cand)) cand now"
    and "codec_ok cd" "reach (ledger_step cd) empty_ledger (ledger db)"
  shows "if \<not> counted then db' = db
    else \<exists>r. dict_get (run_tasks db) (run_id cand) = Some r \<and> expire_guard now cand r \<and>
      (\<forall>rid. dict_get (run_tasks db') rid =
         (if rid = run_id cand then Some (ended_row now verdict r) else dict_get (run_tasks db) rid)) \<and>
      (\<forall>rid. dict_get (agent_runs db') rid =
         (if rid = run_id cand then map_option (close_run now verdict) (dict_get (agent_runs db) rid)
          else dict_get (agent_runs db) rid)) \<and>
      (\<forall>rid. dict_get (recoveries db') rid =
         (if rid = run_id cand then map_option (close_recovery now verdict) (dict_get (recoveries db) rid)
          else dict_get (recoveries db) rid)) \<and>
      receipts db' = receipts db \<and>
      (\<forall>h eid. dict_get (stream_heads (ledger db)) (py_strip (run_id cand)) = Some h \<longrightarrow>
         dict_get (agent_runs db) (run_id cand) \<noteq> None \<longrightarrow>
         bounded_event_id cd [lit ''run'', run_id cand, lit ''terminated''] = Inr eid \<longrightarrow>
         find_event (py_strip eid) (ledger db) = None \<longrightarrow>
         (\<exists>h'. dict_get (stream_heads (ledger db')) (py_strip (run_id cand)) = Some h' \<and>
               terminal_sequence h' \<noteq> None))"
  using assms(1,2)
proof (cases rule: reconcile_one_cases)
  case (ended r lg)
  have inv: "ledger_inv cd (ledger db)" by (rule ledger_reachable_inv [OF assms(4)])
  show ?thesis
    using ended close_ledger_cases [OF ended(4) assms(3) inv] by auto
qed simp


section \<open>A run that its owner finishes during the pass\<close>

definition late_admission :: "nat \<Rightarrow> admission" where
  "late_admission c = sample_admission\<lparr>adm_run_id := [c]\<rparr>"

definition late_row :: "nat \<Rightarrow> RunTaskControl" where
  "late_row c = sample_row\<lparr>run_id := [c], timeout_at := Some 90000000\<rparr>"

definition late_lease :: RunTaskLease where
  "late_lease = sample_lease\<lparr>lease_run_id := [115], lease_timeout_at := Some 90000000\<rparr>"

definition late_settled :: RunTaskControl where
  "late_settled =
     (late_row 115)\<lparr>status := SUCCEEDED, lease_owner := [], lease_token := [],
       lease_expires_at := None, updated_at := 89999999, RunTaskControl.finished_at := Some 89999999\<rparr>"

definition late_store :: store where
  "late_store =
     \<lparr>run_tasks = [([114], late_row 114), ([115], late_row 115)], receipts = [], agent_runs = [],
      recoveries = [], ledger = empty_ledger\<rparr>"

text \<open>What the other processes do: before the second candidate is read again, its owner settles
  it as succeeded, with a clock value just before the end of its lease.\<close>

definition late_settle :: "nat \<Rightarrow> store \<Rightarrow> store" where
  "late_settle i s =
     (if i = 2
      then s\<lparr>run_tasks := snd (settle late_lease (lit ''succeeded'') [] [] 89999999 (run_tasks s) (run_tasks s))\<rparr>
      else s)"

lemma late_admit:
  assumes "c \<in> {114, 115}" "dict_get db [c] = None"
  shows "snd (admit_running (\<lambda>_. sample_digest) (late_admission c) [97] (Finite 90) (Finite 90) []
     sample_digest 0 db db) = dict_set [c] (late_row c) db"
proof -
  have tok: "safe_text_required 64 sample_digest = Some sample_digest"
    by (rule safe_text_required_clean [OF hex64_clean [OF sample_digest_hex]])
  have names: "safe_text_required 160 [c] = Some [c]" "safe_text_required 128 [97] = Some [97]"
    using assms(1)
    by (auto simp: safe_text_required_def safe_text_def py_strip_def py_isspace_def no_control_def)
  have kind: "parse_task_kind (lit ''chat'') = Some CHAT"
    by (simp add: parse_task_kind_def task_kinds_def task_kind_value_def)
  show ?thesis
    using sample_digest_hex hex64_not_Nil [OF sample_digest_hex] assms(2)
    by (simp add: admit_running_def prepare_running_def new_row_def sample_admission_def
        late_admission_def positive_seconds_def of_option_def names kind tok sha256_text_def
        or_else_def utf8_char_def sql_insert_def row_constraints_def sample_row_def late_row_def
        lease_of_def RunTaskLease_post_init_def safe_text_def)
qed

lemma late_reach: "reach task_step [] (run_tasks late_store)"
proof -
  have "task_step db (dict_set [c] (late_row c) db)" if "c \<in> {114, 115}" "dict_get db [c] = None" for c db
    using step_admit_running [of "\<lambda>_. sample_digest" sample_digest db "late_admission c" "[97]"
        "Finite 90" "Finite 90" "[]" 0 db] sample_digest_hex late_admit [OF that] by simp
  from this [of 114 "[]"] this [of 115 "[([114], late_row 114)]"]
  show ?thesis by (auto simp: late_store_def intro!: reach_step [OF reach_single])
qed

lemma late_settle_ok:
  assumes "dict_get db [115] = Some (late_row 115)"
  shows "settle late_lease (lit ''succeeded'') [] [] 89999999 db db =
     (Inr late_settled, dict_set [115] late_settled db)"
proof -
  have st: "parse_task_status (lit ''succeeded'') = Some SUCCEEDED"
    by (simp add: parse_task_status_def task_statuses_def task_status_value_def)
  show ?thesis
    using sample_digest_hex assms
    by (simp add: settle_def st terminal_def lease_matches_def late_lease_def late_row_def
        sample_lease_def sample_row_def late_settled_def after_def sql_update_def
        row_constraints_def view_of_def safe_text_def)
qed

definition late_mid :: store where
  "late_mid = late_store\<lparr>run_tasks :=
     [([114], ended_row 90000000 (TIMED_OUT, lit ''execution_timeout'') (late_row 114)),
      ([115], late_row 115)]\<rparr>"

lemma late_ledger [simp]: "close_ledger cd now recorded [c] verdict None empty_ledger =
    (if py_isspace c then Inl LedgerValueError else Inr empty_ledger)"
  by (simp add: close_ledger_def ledger_head_def empty_ledger_def py_strip_def)

lemma late_first:
  "reconcile_one cd 90000000 90000000 (late_row 114) late_store late_store = Inr (True, late_mid)"
  by (simp add: reconcile_one_def late_store_def late_mid_def unsafe_receipt_def expired_status_def
      expire_update_def sql_update_def expire_guard_def late_row_def sample_row_def due_def
      row_constraints_def ended_row_def dict_modify_def py_isspace_def)

lemma late_second:
  "reconcile_one cd 90000000 90000000 late_settled s (late_mid\<lparr>run_tasks :=
       dict_set [115] late_settled (run_tasks late_mid)\<rparr>) =
     Inr (True, late_mid\<lparr>run_tasks := dict_set [115]
       (ended_row 90000000 (TIMED_OUT, lit ''execution_timeout'') late_settled) (run_tasks late_mid)\<rparr>)"
  if "receipts s = []"
  using that
  by (simp add: reconcile_one_def late_store_def late_mid_def unsafe_receipt_def expired_status_def
      expire_update_def sql_update_def expire_guard_def late_settled_def late_row_def sample_row_def
      due_def row_constraints_def ended_row_def dict_modify_def py_isspace_def)

lemma late_ids: "run_id (late_row c) = [c]" "receipts late_mid = []"
  by (simp_all add: late_row_def late_mid_def late_store_def)


theorem reconcile_one_all_or_nothing_witness:
  "dict_get (run_tasks late_mid) [114] =
     Some (ended_row 90000000 (TIMED_OUT, lit ''execution_timeout'') (late_row 114)) \<and>
   dict_get (run_tasks late_mid) [115] = Some (late_row 115)"
proof -
  have "(TIMED_OUT, lit ''execution_timeout'') =
      expired_status (unsafe_receipt late_store (run_id (late_row 114))) (late_row 114) 90000000"
    by (simp add: expired_status_def unsafe_receipt_def late_store_def late_row_def sample_row_def due_def)
  from reconcile_one_all_or_nothing [OF late_first [of sample_codec] this sample_codec_ok]
  obtain r where r: "dict_get (run_tasks late_store) [114] = Some r"
    "\<And>rid. dict_get (run_tasks late_mid) rid =
       (if rid = [114] then Some (ended_row 90000000 (TIMED_OUT, lit ''execution_timeout'') r)
        else dict_get (run_tasks late_store) rid)"
    by (auto simp: late_ids late_store_def reach_refl)
  then show ?thesis by (simp add: late_store_def)
qed

lemma late_alone:
  "\<exists>s. reconcile_expired_run_tasks cd 90000000 90000000 (\<lambda>_ s. s) 100 late_store = (Inr 2, s)"
proof -
  have "reconcile_candidates 90000000 100 (run_tasks late_store) = [late_row 114, late_row 115]"
    by (simp add: reconcile_candidates_def late_store_def reconcile_candidate_def late_row_def
        sample_row_def due_def)
  moreover have "\<exists>s. reconcile_one cd 90000000 90000000 (late_row 115) late_mid late_mid = Inr (True, s)"
    by (simp add: reconcile_one_def late_store_def late_mid_def unsafe_receipt_def expired_status_def
      expire_update_def sql_update_def expire_guard_def late_row_def sample_row_def due_def
      row_constraints_def ended_row_def dict_modify_def py_isspace_def)
  moreover have "dict_get (run_tasks late_mid) [115] = Some (late_row 115)" by (simp add: late_mid_def)
  ultimately show ?thesis
    using late_first by (auto simp: reconcile_expired_run_tasks_def Let_def late_ids)
qed


end
