(* ===== verification/Outbound_Control.thy ===== *)
theory Outbound_Control
  imports Protocols Python_Text
begin

text \<open>
  The source control of the outbound delivery: \<open>core/outbound/control.py\<close> (writer leases and
  the gate before a generation), \<open>core/outbound/control_transitions.py\<close> (the cutover between
  direct delivery and the outbox) and the parts of \<open>core/outbound/policy.py\<close> they use.

  Every operation first takes the write lock of its source's control row
  (\<open>_lock_source_control\<close>) and keeps it until the transaction ends, so an operation is one
  step on the tables. The tables of runs, outbox entries, attempts and circuits are kept with
  the columns that the control reads. Messages of errors are constructors of
  \<open>safety_reason\<close>. Times are UTC.
\<close>

section \<open>Errors and checked arguments\<close>

datatype safety_reason =
    ControlMissing | ProtocolTooOld | ProtocolIncompatible | DrainingRefuses | OldEpochClosed
  | UnknownMode | EffectiveNotInFuture | BoundaryNotReached | BoundaryChanged
  | UnsafeLegacyWriter | UnsafeAtHold | UnsafeAtActive | UnsafeAtDraining

datatype outbound_error =
    OutboundFencingError
  | OutboundSafetyError safety_reason
  | InvalidOutboundTransitionError
  | OutboundValueError
  | OutboundIntegrityError

definition require_text :: "nat \<Rightarrow> pystr \<Rightarrow> outbound_error + pystr" where
  "require_text max_length value =
     (let normalized = py_strip value
      in require (normalized \<noteq> [] \<and> length normalized \<le> max_length) OutboundValueError
           (Inr normalized))"

definition require_positive_seconds :: "pyfloat \<Rightarrow> outbound_error + rat" where
  "require_positive_seconds value =
     (case positive_seconds value of None \<Rightarrow> Inl OutboundValueError | Some s \<Rightarrow> Inr s)"

definition OUTBOUND_PROTOCOL_VERSION :: int where
  "OUTBOUND_PROTOCOL_VERSION = 2"

section \<open>The tables\<close>

record OutboundDeliveryControl =
  mode :: pystr
  cutover_epoch :: int
  effective_from :: datetime
  protocol_version :: int
  writer_version :: int
  writer_owner :: "pystr option"
  writer_token :: "pystr option"
  writer_lease_expires_at :: "datetime option"
  control_updated_at :: datetime

type_synonym control_table = "(pystr, OutboundDeliveryControl) dict"

record OutboundRun =
  run_source_type :: pystr
  run_delivery_mode :: pystr
  run_state :: pystr
  run_active_outbox_id :: "int option"
  run_cutover_epoch :: int

record OutboundDeliveryOutbox =
  outbox_run_id :: int
  outbox_status :: pystr
  outbox_cutover_epoch :: int

record OutboundDeliveryAttempt =
  attempt_outbox_id :: int
  attempt_status :: pystr

record OutboundDeliveryCircuit =
  scope_type :: pystr
  scope_fingerprint :: pystr
  config_revision :: pystr
  circuit_status :: pystr

record outbound_store =
  controls :: control_table
  outbound_runs :: "(int, OutboundRun) dict"
  outboxes :: "(int, OutboundDeliveryOutbox) dict"
  attempts :: "(int, OutboundDeliveryAttempt) dict"
  circuits :: "OutboundDeliveryCircuit list"

definition control_modes :: "pystr list" where
  "control_modes =
     [lit ''legacy_direct'', lit ''outbox_hold'', lit ''outbox_active'', lit ''outbox_draining'']"

text \<open>The CHECK constraints of the control table.\<close>

definition control_checks :: "pystr \<Rightarrow> OutboundDeliveryControl \<Rightarrow> bool" where
  "control_checks source c \<longleftrightarrow>
     source \<noteq> [] \<and> mode c \<in> set control_modes \<and> cutover_epoch c \<ge> 0 \<and>
     protocol_version c \<ge> 1 \<and> writer_version c \<ge> 0 \<and>
     (writer_owner c = None \<and> writer_token c = None \<and> writer_lease_expires_at c = None \<or>
      writer_owner c \<notin> {None, Some []} \<and> writer_token c \<notin> {None, Some []} \<and>
      writer_lease_expires_at c \<noteq> None)"

definition control_update ::
  "pystr \<Rightarrow> (OutboundDeliveryControl \<Rightarrow> bool) \<Rightarrow> (OutboundDeliveryControl \<Rightarrow> OutboundDeliveryControl)
     \<Rightarrow> control_table \<Rightarrow> outbound_error + (nat \<times> control_table)" where
  "control_update key cond f db =
     (case dict_get db key of
        None \<Rightarrow> Inr (0, db)
      | Some c \<Rightarrow>
          if cond c
          then require (control_checks key (f c)) OutboundIntegrityError (Inr (1, dict_set key (f c) db))
          else Inr (0, db))"

definition control_row :: "control_table \<Rightarrow> pystr \<Rightarrow> outbound_error + OutboundDeliveryControl" where
  "control_row db source =
     (case dict_get db source of
        None \<Rightarrow> Inl (OutboundSafetyError ControlMissing) | Some c \<Rightarrow> Inr c)"

definition lock_source_control :: "pystr \<Rightarrow> control_table \<Rightarrow> outbound_error + control_table" where
  "lock_source_control source db =
     bind_result (control_update source (\<lambda>_. True) (\<lambda>c. c\<lparr>writer_version := writer_version c\<rparr>) db)
       (\<lambda>res. require (fst res = 1) (OutboundSafetyError ControlMissing) (Inr (snd res)))"

text \<open>A nullable time compared with the present: a comparison with NULL is not true.\<close>

definition expired :: "datetime option \<Rightarrow> datetime \<Rightarrow> bool" where
  "expired t now \<longleftrightarrow> (case t of None \<Rightarrow> False | Some x \<Rightarrow> x \<le> now)"

definition live :: "datetime option \<Rightarrow> datetime \<Rightarrow> bool" where
  "live t now \<longleftrightarrow> (case t of None \<Rightarrow> False | Some x \<Rightarrow> x > now)"

section \<open>Writer leases\<close>

record WriterLeaseDecision =
  acquired :: bool
  lease_source :: pystr
  lease_owner_name :: pystr
  lease_token_value :: pystr
  lease_protocol :: int
  lease_writer_version :: int
  lease_until :: "datetime option"

definition acquire_or_renew_delivery_writer ::
  "pystr \<Rightarrow> pystr \<Rightarrow> pystr \<Rightarrow> int \<Rightarrow> pyfloat \<Rightarrow> datetime \<Rightarrow> control_table
     \<Rightarrow> outbound_error + (WriterLeaseDecision \<times> control_table)" where
  "acquire_or_renew_delivery_writer source_type owner token protocol lease_seconds now db =
     bind_result (require_text 32 source_type) (\<lambda>source.
     bind_result (require_text 128 owner) (\<lambda>own.
     bind_result (require_text 64 token) (\<lambda>tok.
     require (protocol \<ge> 1) OutboundValueError
     (bind_result (require_positive_seconds lease_seconds) (\<lambda>seconds.
      bind_result (lock_source_control source db) (\<lambda>db1.
      bind_result
        (control_update source
           (\<lambda>c. protocol_version c \<le> protocol \<and>
                (writer_lease_expires_at c = None \<or> expired (writer_lease_expires_at c) now \<or>
                 writer_owner c = Some own \<and> writer_token c = Some tok))
           (\<lambda>c. c\<lparr>protocol_version := protocol, writer_version := writer_version c + 1,
                   writer_owner := Some own, writer_token := Some tok,
                   writer_lease_expires_at := Some (now + timedelta_seconds seconds),
                   control_updated_at := now\<rparr>) db1) (\<lambda>res.
      bind_result (control_row (snd res) source) (\<lambda>row.
        Inr (\<lparr>acquired = (fst res = 1), lease_source = source,
              lease_owner_name =
                (if fst res = 1 then own else case writer_owner row of None \<Rightarrow> [] | Some w \<Rightarrow> w),
              lease_token_value = (if fst res = 1 then tok else []),
              lease_protocol = protocol_version row, lease_writer_version = writer_version row,
              lease_until = writer_lease_expires_at row\<rparr>, snd res)))))))))"

definition require_writer ::
  "control_table \<Rightarrow> pystr \<Rightarrow> pystr \<Rightarrow> pystr \<Rightarrow> int \<Rightarrow> datetime
     \<Rightarrow> outbound_error + OutboundDeliveryControl" where
  "require_writer db source owner token protocol now =
     bind_result (control_row db source) (\<lambda>c.
       require (writer_owner c = Some owner \<and> writer_token c = Some token \<and>
                protocol_version c = protocol \<and> live (writer_lease_expires_at c) now)
         OutboundFencingError (Inr c))"

definition release_delivery_writer ::
  "pystr \<Rightarrow> pystr \<Rightarrow> pystr \<Rightarrow> int \<Rightarrow> int \<Rightarrow> datetime \<Rightarrow> control_table
     \<Rightarrow> outbound_error + (int \<times> control_table)" where
  "release_delivery_writer source_type owner token protocol expected_writer_version now db =
     bind_result (require_text 32 source_type) (\<lambda>source.
     bind_result (require_text 128 owner) (\<lambda>own.
     bind_result (require_text 64 token) (\<lambda>tok.
     require (protocol \<ge> 1) OutboundValueError
     (require (expected_writer_version \<ge> 0) OutboundValueError
     (bind_result (lock_source_control source db) (\<lambda>db1.
      bind_result (require_writer db1 source own tok protocol now) (\<lambda>control.
      require (writer_version control = expected_writer_version) OutboundFencingError
      (let next_writer_version = expected_writer_version + 1
       in bind_result
            (control_update source
               (\<lambda>c. writer_owner c = Some own \<and> writer_token c = Some tok \<and>
                    protocol_version c = protocol \<and> writer_version c = expected_writer_version \<and>
                    live (writer_lease_expires_at c) now)
               (\<lambda>c. c\<lparr>writer_version := next_writer_version, writer_owner := None,
                       writer_token := None, writer_lease_expires_at := None,
                       control_updated_at := now\<rparr>) db1) (\<lambda>res.
          require (fst res = 1) OutboundFencingError (Inr (next_writer_version, snd res)))))))))))"

section \<open>Routing of an occurrence and the generation gate\<close>

definition mode_for_occurrence ::
  "OutboundDeliveryControl \<Rightarrow> datetime \<Rightarrow> outbound_error + (pystr \<times> int)" where
  "mode_for_occurrence c occurrence_at =
     (if mode c \<noteq> lit ''legacy_direct'' \<and> protocol_version c < OUTBOUND_PROTOCOL_VERSION
      then Inl (OutboundSafetyError ProtocolIncompatible)
      else if mode c \<in> {lit ''outbox_hold'', lit ''outbox_active''}
      then (if occurrence_at < effective_from c
            then Inr (lit ''legacy_direct'', max 0 (cutover_epoch c - 1))
            else Inr (lit ''outbox'', cutover_epoch c))
      else if mode c = lit ''outbox_draining'' then Inl (OutboundSafetyError DrainingRefuses)
      else if mode c = lit ''legacy_direct''
      then (if cutover_epoch c > 0 \<and> occurrence_at < effective_from c
            then Inl (OutboundSafetyError OldEpochClosed)
            else Inr (lit ''legacy_direct'', cutover_epoch c))
      else Inl (OutboundSafetyError UnknownMode))"

definition fingerprint :: "(bytes \<Rightarrow> pystr) \<Rightarrow> pystr \<Rightarrow> pystr list \<Rightarrow> outbound_error + pystr" where
  "fingerprint sha256 namespace parts =
     (case utf8_encode (join_char 0 (namespace # parts)) of
        None \<Rightarrow> Inl OutboundValueError | Some b \<Rightarrow> Inr (sha256 b))"

definition endpoint_circuit_fingerprint :: "(bytes \<Rightarrow> pystr) \<Rightarrow> pystr \<Rightarrow> outbound_error + pystr" where
  "endpoint_circuit_fingerprint sha256 endpoint_key =
     bind_result (require_text 64 endpoint_key) (\<lambda>endpoint.
       fingerprint sha256 (lit ''endpoint'') [endpoint])"

definition destination_circuit_fingerprint ::
  "(bytes \<Rightarrow> pystr) \<Rightarrow> pystr \<Rightarrow> pystr \<Rightarrow> outbound_error + pystr" where
  "destination_circuit_fingerprint sha256 endpoint_key destination_fingerprint =
     bind_result (require_text 64 endpoint_key) (\<lambda>endpoint.
     bind_result (require_text 64 destination_fingerprint) (\<lambda>destination.
       fingerprint sha256 (lit ''destination'') [endpoint, destination]))"

definition payload_contract_circuit_fingerprint ::
  "(bytes \<Rightarrow> pystr) \<Rightarrow> pystr \<Rightarrow> pystr \<Rightarrow> outbound_error + pystr" where
  "payload_contract_circuit_fingerprint sha256 endpoint_key contract_fingerprint =
     bind_result (require_text 64 endpoint_key) (\<lambda>endpoint.
     bind_result (require_text 64 contract_fingerprint) (\<lambda>contract.
       fingerprint sha256 (lit ''payload_contract'') [endpoint, contract]))"

definition circuit_facts ::
  "(bytes \<Rightarrow> pystr) \<Rightarrow> pystr \<Rightarrow> pystr \<Rightarrow> pystr \<Rightarrow> pystr
     \<Rightarrow> outbound_error + (pystr \<times> pystr \<times> pystr) list" where
  "circuit_facts sha256 endpoint_key destination_fingerprint contract_fingerprint revision_text =
     bind_result (require_text 128 revision_text) (\<lambda>revision.
     bind_result (endpoint_circuit_fingerprint sha256 endpoint_key) (\<lambda>fe.
     bind_result (destination_circuit_fingerprint sha256 endpoint_key destination_fingerprint) (\<lambda>fd.
     bind_result (payload_contract_circuit_fingerprint sha256 endpoint_key contract_fingerprint) (\<lambda>fp.
       Inr [(lit ''endpoint'', fe, revision), (lit ''destination'', fd, revision),
            (lit ''payload_contract'', fp, revision)]))))"

fun open_circuit_row ::
  "OutboundDeliveryCircuit list \<Rightarrow> (pystr \<times> pystr \<times> pystr) list \<Rightarrow> OutboundDeliveryCircuit option" where
  "open_circuit_row rows [] = None"
| "open_circuit_row rows ((sc, fp, cfg) # facts) =
     (case find (\<lambda>r. scope_type r = sc \<and> scope_fingerprint r = fp \<and> config_revision r = cfg \<and>
                     circuit_status r = lit ''open'') rows of
        Some r \<Rightarrow> Some r
      | None \<Rightarrow> open_circuit_row rows facts)"

datatype gate_reason = GateOpen | CutoverBlocked outbound_error | CircuitOpen pystr

record OutboundGenerationGate =
  allowed :: bool
  gate_delivery_mode :: pystr
  gate_cutover_epoch :: int
  gate_reason :: gate_reason

definition check_outbound_generation_gate ::
  "(bytes \<Rightarrow> pystr) \<Rightarrow> pystr \<Rightarrow> datetime \<Rightarrow> pystr \<Rightarrow> pystr \<Rightarrow> pystr \<Rightarrow> pystr \<Rightarrow> outbound_store
     \<Rightarrow> outbound_error + OutboundGenerationGate" where
  "check_outbound_generation_gate sha256 source_type occurrence_at endpoint_key
       destination_fingerprint revision contract_fingerprint db =
     bind_result (require_text 32 source_type) (\<lambda>source.
     bind_result (lock_source_control source (controls db)) (\<lambda>db1.
     bind_result (control_row db1 source) (\<lambda>control.
       case mode_for_occurrence control occurrence_at of
         Inl e \<Rightarrow> Inr \<lparr>allowed = False, gate_delivery_mode = [],
                       gate_cutover_epoch = cutover_epoch control, gate_reason = CutoverBlocked e\<rparr>
       | Inr (delivery_mode, epoch) \<Rightarrow>
           bind_result (circuit_facts sha256 endpoint_key destination_fingerprint
                          contract_fingerprint revision) (\<lambda>facts.
             case open_circuit_row (circuits db) facts of
               Some circuit \<Rightarrow> Inr \<lparr>allowed = False, gate_delivery_mode = delivery_mode,
                                   gate_cutover_epoch = epoch,
                                   gate_reason = CircuitOpen (scope_type circuit)\<rparr>
             | None \<Rightarrow> Inr \<lparr>allowed = True, gate_delivery_mode = delivery_mode,
                            gate_cutover_epoch = epoch, gate_reason = GateOpen\<rparr>))))"

section \<open>Cutover\<close>

definition control_transitions :: "(pystr \<times> pystr) list" where
  "control_transitions =
     [(lit ''legacy_direct'', lit ''outbox_hold''), (lit ''outbox_hold'', lit ''outbox_active''),
      (lit ''outbox_active'', lit ''outbox_draining''), (lit ''outbox_draining'', lit ''legacy_direct'')]"

definition some_run :: "outbound_store \<Rightarrow> (OutboundRun \<Rightarrow> bool) \<Rightarrow> bool" where
  "some_run db P \<longleftrightarrow> list_ex (\<lambda>(i, r). P r) (outbound_runs db)"

text \<open>Joins along \<open>run_id\<close> and \<open>outbox_id\<close>.\<close>

definition some_outbox ::
  "outbound_store \<Rightarrow> (OutboundRun \<Rightarrow> int \<Rightarrow> OutboundDeliveryOutbox \<Rightarrow> bool) \<Rightarrow> bool" where
  "some_outbox db P \<longleftrightarrow>
     list_ex (\<lambda>(i, x). case dict_get (outbound_runs db) (outbox_run_id x) of
                         None \<Rightarrow> False | Some r \<Rightarrow> P r i x) (outboxes db)"

definition some_attempt ::
  "outbound_store \<Rightarrow> (OutboundRun \<Rightarrow> OutboundDeliveryOutbox \<Rightarrow> OutboundDeliveryAttempt \<Rightarrow> bool) \<Rightarrow> bool" where
  "some_attempt db P \<longleftrightarrow>
     list_ex (\<lambda>(i, a). case dict_get (outboxes db) (attempt_outbox_id a) of
                         None \<Rightarrow> False
                       | Some x \<Rightarrow> (case dict_get (outbound_runs db) (outbox_run_id x) of
                                      None \<Rightarrow> False | Some r \<Rightarrow> P r x a)) (attempts db)"

definition legacy_run_of :: "pystr \<Rightarrow> OutboundRun \<Rightarrow> bool" where
  "legacy_run_of source r \<longleftrightarrow>
     run_source_type r = source \<and> run_delivery_mode r = lit ''legacy_direct''"

definition has_unsafe_legacy_run :: "outbound_store \<Rightarrow> pystr \<Rightarrow> bool" where
  "has_unsafe_legacy_run db source \<longleftrightarrow>
     some_run db (\<lambda>r. legacy_run_of source r \<and>
       run_state r \<in> {lit ''claimed'', lit ''generating'', lit ''queued'', lit ''delivering'',
                       lit ''blocked'', lit ''ambiguous''}) \<or>
     some_outbox db (\<lambda>r i x. legacy_run_of source r \<and> run_active_outbox_id r = Some i \<and>
       outbox_status x \<in> {lit ''pending'', lit ''retry_wait'', lit ''leased'', lit ''blocked'',
                           lit ''ambiguous''}) \<or>
     some_attempt db (\<lambda>r x a. legacy_run_of source r \<and> attempt_status a = lit ''started'')"

definition generating_states :: "pystr set" where
  "generating_states = {lit ''claimed'', lit ''generating'', lit ''delivering'', lit ''blocked'',
                        lit ''ambiguous''}"

definition has_unsafe_unmaterialized_outbox_run :: "outbound_store \<Rightarrow> pystr \<Rightarrow> bool" where
  "has_unsafe_unmaterialized_outbox_run db source \<longleftrightarrow>
     some_run db (\<lambda>r. run_source_type r = source \<and> run_delivery_mode r = lit ''outbox'' \<and>
       run_active_outbox_id r = None \<and> run_state r \<in> generating_states)"

definition unsafe_for_control_transition :: "outbound_store \<Rightarrow> pystr \<Rightarrow> int \<Rightarrow> bool \<Rightarrow> bool" where
  "unsafe_for_control_transition db source epoch include_legacy_runs \<longleftrightarrow>
     some_run db (\<lambda>r. run_source_type r = source \<and> run_cutover_epoch r = epoch \<and>
       run_active_outbox_id r = None \<and> run_state r \<in> generating_states) \<or>
     include_legacy_runs \<and> has_unsafe_legacy_run db source \<or>
     some_outbox db (\<lambda>r i x. run_source_type r = source \<and> outbox_cutover_epoch x = epoch \<and>
       (outbox_status x \<in> {lit ''pending'', lit ''retry_wait'', lit ''leased'', lit ''blocked''} \<or>
        outbox_status x = lit ''ambiguous'' \<and> run_active_outbox_id r = Some i)) \<or>
     some_attempt db (\<lambda>r x a. run_source_type r = source \<and> outbox_cutover_epoch x = epoch \<and>
       attempt_status a = lit ''started'')"

record ControlTransitionResult =
  result_source_type :: pystr
  result_mode :: pystr
  result_cutover_epoch :: int
  result_writer_version :: int
  result_effective_from :: datetime

text \<open>The effective boundary after the transition.\<close>

definition next_effective_from ::
  "pystr \<Rightarrow> pystr \<Rightarrow> datetime \<Rightarrow> OutboundDeliveryControl \<Rightarrow> datetime \<Rightarrow> outbound_error + datetime" where
  "next_effective_from old_mode target_mode requested c now =
     (if (old_mode, target_mode) \<in> {(lit ''legacy_direct'', lit ''outbox_hold''),
                                     (lit ''outbox_active'', lit ''outbox_draining'')}
      then require (requested > now) (OutboundSafetyError EffectiveNotInFuture) (Inr requested)
      else require (now \<ge> effective_from c) (OutboundSafetyError BoundaryNotReached)
          (require (requested = effective_from c) (OutboundSafetyError BoundaryChanged)
             (Inr (effective_from c))))"

text \<open>The guards that keep unfinished work on its side of the cutover.\<close>

definition transition_unsafe :: "outbound_store \<Rightarrow> pystr \<Rightarrow> pystr \<Rightarrow> OutboundDeliveryControl \<Rightarrow> safety_reason option" where
  "transition_unsafe db source old_mode c =
     (if old_mode = lit ''legacy_direct'' \<and>
         unsafe_for_control_transition db source (cutover_epoch c) True then Some UnsafeLegacyWriter
      else if old_mode = lit ''outbox_hold'' \<and> has_unsafe_legacy_run db source then Some UnsafeAtHold
      else if old_mode = lit ''outbox_active'' \<and>
              (has_unsafe_legacy_run db source \<or> has_unsafe_unmaterialized_outbox_run db source)
      then Some UnsafeAtActive
      else if old_mode = lit ''outbox_draining'' \<and>
              unsafe_for_control_transition db source (cutover_epoch c) True then Some UnsafeAtDraining
      else None)"

definition transition_delivery_control ::
  "pystr \<Rightarrow> pystr \<Rightarrow> pystr \<Rightarrow> int \<Rightarrow> pystr \<Rightarrow> pystr \<Rightarrow> int \<Rightarrow> datetime \<Rightarrow> pyfloat \<Rightarrow> datetime
     \<Rightarrow> outbound_store \<Rightarrow> outbound_error + (ControlTransitionResult \<times> outbound_store)" where
  "transition_delivery_control source_type expected_mode new_mode expected_writer_version
       actor_owner actor_token protocol requested_effective writer_lease_seconds now db =
     bind_result (require_text 32 source_type) (\<lambda>source.
     bind_result (require_text 24 expected_mode) (\<lambda>old_mode.
     bind_result (require_text 24 new_mode) (\<lambda>target_mode.
     require ((old_mode, target_mode) \<in> set control_transitions) InvalidOutboundTransitionError
     (require (expected_writer_version \<ge> 0) OutboundValueError
     (require (protocol \<ge> OUTBOUND_PROTOCOL_VERSION) (OutboundSafetyError ProtocolTooOld)
     (bind_result (require_text 128 actor_owner) (\<lambda>owner.
      bind_result (require_text 64 actor_token) (\<lambda>token.
      bind_result (require_positive_seconds writer_lease_seconds) (\<lambda>seconds.
      bind_result (lock_source_control source (controls db)) (\<lambda>db1.
      bind_result (require_writer db1 source owner token protocol now) (\<lambda>control.
      require (mode control = old_mode \<and> writer_version control = expected_writer_version)
        OutboundFencingError
      (bind_result (next_effective_from old_mode target_mode requested_effective control now) (\<lambda>next_effective.
       (case transition_unsafe db source old_mode control of
          Some reason \<Rightarrow> Inl (OutboundSafetyError reason)
        | None \<Rightarrow>
       (let next_epoch = cutover_epoch control +
              (if (old_mode, target_mode) \<in> {(lit ''legacy_direct'', lit ''outbox_hold''),
                                              (lit ''outbox_draining'', lit ''legacy_direct'')}
               then 1 else 0);
            next_writer_version = writer_version control + 1
        in bind_result
             (control_update source
                (\<lambda>c. mode c = old_mode \<and> writer_version c = expected_writer_version \<and>
                     writer_owner c = Some owner \<and> writer_token c = Some token \<and>
                     live (writer_lease_expires_at c) now \<and> protocol_version c = protocol)
                (\<lambda>c. c\<lparr>mode := target_mode, cutover_epoch := next_epoch,
                        effective_from := next_effective, writer_version := next_writer_version,
                        writer_lease_expires_at := Some (now + timedelta_seconds seconds),
                        control_updated_at := now\<rparr>) db1) (\<lambda>res.
           require (fst res = 1) OutboundFencingError
             (Inr (\<lparr>result_source_type = source, result_mode = target_mode,
                    result_cutover_epoch = next_epoch,
                    result_writer_version = next_writer_version,
                    result_effective_from = next_effective\<rparr>,
                   db\<lparr>controls := snd res\<rparr>))))))))))))))))))"

end
