(* ===== verification/Outbound_Control_Correct.thy ===== *)
theory Outbound_Control_Correct
  imports Outbound_Control
begin

text \<open>
  Correctness of the outbound source control. \<open>control_step\<close> says what may happen to one
  control row (a lease is taken or renewed, given up, or the mode moves on); every operation
  refines it. From there follow the constraints of the table, the meaning of the epoch's parity,
  the fencing of writers, what is settled when the mode moves, and how occurrences are routed
  across a cutover.
\<close>

section \<open>Abstract behaviour of a control row\<close>

definition moves_epoch :: "pystr \<Rightarrow> pystr \<Rightarrow> bool" where
  "moves_epoch m m' \<longleftrightarrow>
     (m, m') \<in> {(lit ''legacy_direct'', lit ''outbox_hold''), (lit ''outbox_draining'', lit ''legacy_direct'')}"

inductive control_step :: "OutboundDeliveryControl \<Rightarrow> OutboundDeliveryControl \<Rightarrow> bool" where
  control_take: "protocol_version c \<le> p \<Longrightarrow> own \<noteq> [] \<Longrightarrow> tok \<noteq> [] \<Longrightarrow>
     control_step c (c\<lparr>protocol_version := p, writer_version := writer_version c + 1,
                       writer_owner := Some own, writer_token := Some tok,
                       writer_lease_expires_at := Some e, control_updated_at := now\<rparr>)"
| control_give: "control_step c (c\<lparr>writer_version := writer_version c + 1, writer_owner := None,
                       writer_token := None, writer_lease_expires_at := None,
                       control_updated_at := now\<rparr>)"
| control_move: "(mode c, m) \<in> set control_transitions \<Longrightarrow> writer_lease_expires_at c \<noteq> None \<Longrightarrow>
     control_step c (c\<lparr>mode := m,
                       cutover_epoch := cutover_epoch c + (if moves_epoch (mode c) m then 1 else 0),
                       effective_from := eff, writer_version := writer_version c + 1,
                       writer_lease_expires_at := Some e, control_updated_at := now\<rparr>)"

inductive_cases control_stepE: "control_step c c'"

definition control_ok :: "pystr \<Rightarrow> OutboundDeliveryControl \<Rightarrow> bool" where
  "control_ok source c \<longleftrightarrow>
     control_checks source c \<and> (mode c = lit ''legacy_direct'' \<longleftrightarrow> even (cutover_epoch c))"

lemma mode_names:
  "lit ''legacy_direct'' \<noteq> lit ''outbox_hold''" "lit ''legacy_direct'' \<noteq> lit ''outbox_active''"
  "lit ''legacy_direct'' \<noteq> lit ''outbox_draining''" "lit ''outbox_hold'' \<noteq> lit ''outbox_active''"
  "lit ''outbox_hold'' \<noteq> lit ''outbox_draining''" "lit ''outbox_active'' \<noteq> lit ''outbox_draining''"
  by (simp_all add: lit_def)

lemma control_step_ok: "control_step c c' \<Longrightarrow> control_ok source c \<Longrightarrow> control_ok source c'"
  by (erule control_stepE)
    (auto simp: control_ok_def control_checks_def control_modes_def control_transitions_def
      moves_epoch_def mode_names mode_names [symmetric])

lemma control_step_counters:
  "control_step c c' \<Longrightarrow> writer_version c' = writer_version c + 1 \<and> cutover_epoch c \<le> cutover_epoch c'"
  by (erule control_stepE) auto

definition controls_step :: "control_table \<Rightarrow> control_table \<Rightarrow> bool" where
  "controls_step db db' \<longleftrightarrow>
     db' = db \<or>
     (\<exists>source c c'. dict_get db source = Some c \<and> control_step c c' \<and> db' = dict_set source c' db)"

definition controls_inv :: "control_table \<Rightarrow> bool" where
  "controls_inv db \<longleftrightarrow> (\<forall>source c. dict_get db source = Some c \<longrightarrow> control_ok source c)"

lemma controls_step_refl [intro]: "controls_step db db"
  by (simp add: controls_step_def)

lemma controls_step_set:
  "dict_get db source = Some c \<Longrightarrow> control_step c c' \<Longrightarrow> controls_step db (dict_set source c' db)"
  unfolding controls_step_def by blast

lemma controls_step_inv: "controls_step db db' \<Longrightarrow> controls_inv db \<Longrightarrow> controls_inv db'"
  unfolding controls_step_def controls_inv_def
  by (elim disjE exE conjE) (auto dest: control_step_ok)

section \<open>Every operation refines it\<close>

lemma control_update_cases:
  assumes "control_update key cond f db = Inr (n, db')"
  obtains (none) "n = 0" "db' = db" "\<And>c. dict_get db key = Some c \<Longrightarrow> \<not> cond c"
  | (one) c where "n = 1" "dict_get db key = Some c" "cond c" "control_checks key (f c)"
      "db' = dict_set key (f c) db"
  using assms by (auto simp: control_update_def result_simps split: option.splits if_splits)

lemma dict_set_same: "dict_get db k = Some v \<Longrightarrow> dict_set k v db = db"
  by (induction db) (auto split: if_splits)

lemma lock_source_control_Inr:
  "lock_source_control source db = Inr db' \<longleftrightarrow>
     db' = db \<and> (\<exists>c. dict_get db source = Some c \<and> control_checks source c)"
  by (auto simp: lock_source_control_def control_update_def result_simps dict_set_same
      split: option.splits)

lemma require_text_Inr: "require_text n v = Inr s \<longleftrightarrow> s = py_strip v \<and> s \<noteq> [] \<and> length s \<le> n"
  by (auto simp: require_text_def Let_def result_simps)

lemma require_writer_Inr:
  "require_writer db source owner token protocol now = Inr c \<longleftrightarrow>
     dict_get db source = Some c \<and> writer_owner c = Some owner \<and> writer_token c = Some token \<and>
     protocol_version c = protocol \<and> live (writer_lease_expires_at c) now"
  by (auto simp: require_writer_def control_row_def result_simps split: option.splits)

lemma acquire_cases:
  assumes "acquire_or_renew_delivery_writer source_type owner token protocol ls now db = Inr (d, db')"
  obtains (refused) "\<not> acquired d" "db' = db"
    "\<And>c. dict_get db (py_strip source_type) = Some c \<Longrightarrow>
       \<not> (protocol_version c \<le> protocol \<and>
          (writer_lease_expires_at c = None \<or> expired (writer_lease_expires_at c) now \<or>
           writer_owner c = Some (py_strip owner) \<and> writer_token c = Some (py_strip token)))"
  | (granted) c e where "acquired d" "dict_get db (py_strip source_type) = Some c"
      "protocol_version c \<le> protocol" "py_strip owner \<noteq> []" "py_strip token \<noteq> []"
      "writer_lease_expires_at c = None \<or> expired (writer_lease_expires_at c) now \<or>
       writer_owner c = Some (py_strip owner) \<and> writer_token c = Some (py_strip token)"
      "db' = dict_set (py_strip source_type)
         (c\<lparr>protocol_version := protocol, writer_version := writer_version c + 1,
            writer_owner := Some (py_strip owner), writer_token := Some (py_strip token),
            writer_lease_expires_at := Some e, control_updated_at := now\<rparr>) db"
proof -
  from assms obtain seconds n where
    names: "py_strip owner \<noteq> []" "py_strip token \<noteq> []" and
    up: "control_update (py_strip source_type)
           (\<lambda>c. protocol_version c \<le> protocol \<and>
                (writer_lease_expires_at c = None \<or> expired (writer_lease_expires_at c) now \<or>
                 writer_owner c = Some (py_strip owner) \<and> writer_token c = Some (py_strip token)))
           (\<lambda>c. c\<lparr>protocol_version := protocol, writer_version := writer_version c + 1,
                   writer_owner := Some (py_strip owner), writer_token := Some (py_strip token),
                   writer_lease_expires_at := Some (now + timedelta_seconds seconds),
                   control_updated_at := now\<rparr>) db = Inr (n, db')"
    and acq: "acquired d = (n = 1)"
    by (auto simp: acquire_or_renew_delivery_writer_def result_simps require_text_Inr
        lock_source_control_Inr)
  from up show thesis
  proof (cases rule: control_update_cases)
    case none
    then show thesis using acq by (intro refused) auto
  next
    case (one c)
    then show thesis using acq names by (intro granted [of c]) auto
  qed
qed

lemma release_Inr:
  assumes "release_delivery_writer source_type owner token protocol v now db = Inr (n, db')"
  obtains c where "dict_get db (py_strip source_type) = Some c" "writer_version c = v"
    "writer_owner c = Some (py_strip owner)" "writer_token c = Some (py_strip token)"
    "protocol_version c = protocol" "live (writer_lease_expires_at c) now"
    "db' = dict_set (py_strip source_type)
       (c\<lparr>writer_version := writer_version c + 1, writer_owner := None, writer_token := None,
          writer_lease_expires_at := None, control_updated_at := now\<rparr>) db"
  using assms
  by (auto simp: release_delivery_writer_def result_simps require_text_Inr lock_source_control_Inr
      require_writer_Inr Let_def elim!: control_update_cases)

lemma transition_Inr:
  assumes "transition_delivery_control source_type expected_mode new_mode v owner token protocol
      requested ls now db = Inr (res, db')"
  obtains c e eff where "dict_get (controls db) (py_strip source_type) = Some c"
    "(mode c, py_strip new_mode) \<in> set control_transitions" "mode c = py_strip expected_mode"
    "writer_version c = v" "writer_owner c = Some (py_strip owner)"
    "writer_token c = Some (py_strip token)" "protocol_version c = protocol" "protocol \<ge> 2"
    "live (writer_lease_expires_at c) now"
    "next_effective_from (mode c) (py_strip new_mode) requested c now = Inr eff"
    "transition_unsafe db (py_strip source_type) (mode c) c = None"
    "db' = db\<lparr>controls := dict_set (py_strip source_type)
       (c\<lparr>mode := py_strip new_mode,
          cutover_epoch := cutover_epoch c + (if moves_epoch (mode c) (py_strip new_mode) then 1 else 0),
          effective_from := eff, writer_version := writer_version c + 1,
          writer_lease_expires_at := Some e, control_updated_at := now\<rparr>) (controls db)\<rparr>"
  using assms
  by (auto simp: transition_delivery_control_def result_simps require_text_Inr
      lock_source_control_Inr require_writer_Inr Let_def OUTBOUND_PROTOCOL_VERSION_def
      moves_epoch_def elim!: control_update_cases split: option.splits)

lemma live_not_None: "live t now \<Longrightarrow> t \<noteq> None"
  by (auto simp: live_def split: option.splits)

section \<open>Executions\<close>

text \<open>One transaction of any process: an operation of the control, or other work on the runs,
  outbox entries, attempts and circuits of the store.\<close>

inductive outbound_step :: "outbound_store \<Rightarrow> outbound_store \<Rightarrow> bool" where
  step_acquire: "acquire_or_renew_delivery_writer src owner token p ls now (controls s) = Inr (d, db) \<Longrightarrow>
     outbound_step s (s\<lparr>controls := db\<rparr>)"
| step_release: "release_delivery_writer src owner token p v now (controls s) = Inr (n, db) \<Longrightarrow>
     outbound_step s (s\<lparr>controls := db\<rparr>)"
| step_transition: "transition_delivery_control src m m' v owner token p eff ls now s = Inr (r, t) \<Longrightarrow>
     outbound_step s t"
| step_work: "controls t = controls s \<Longrightarrow> outbound_step s t"

lemma outbound_step_controls: "outbound_step s t \<Longrightarrow> controls_step (controls s) (controls t)"
proof (induction rule: outbound_step.induct)
  case (step_acquire src owner token p ls now s d db)
  then show ?case
    by (cases rule: acquire_cases) (auto intro!: controls_step_set control_take)
next
  case (step_release src owner token p v now s n db)
  then show ?case
    by (cases rule: release_Inr) (auto intro!: controls_step_set control_give)
next
  case (step_transition src m m' v owner token p eff ls now s r t)
  then show ?case
  proof (cases rule: transition_Inr)
    case (1 c e effective)
    show ?thesis
      unfolding 1(12)
      using controls_step_set [OF 1(1) control_move [OF 1(2) live_not_None [OF 1(9)], where eff = effective and e = e and now = now]]
      by simp
  qed
qed (simp add: controls_step_def)

interpretation outbound_controls: preserved_invariant outbound_step "\<lambda>s. controls_inv (controls s)"
  by unfold_locales (blast dest: outbound_step_controls controls_step_inv)

definition version_of :: "outbound_store \<Rightarrow> pystr \<Rightarrow> int" where
  "version_of s source = (case dict_get (controls s) source of None \<Rightarrow> 0 | Some c \<Rightarrow> writer_version c)"

definition epoch_of :: "outbound_store \<Rightarrow> pystr \<Rightarrow> int" where
  "epoch_of s source = (case dict_get (controls s) source of None \<Rightarrow> 0 | Some c \<Rightarrow> cutover_epoch c)"

lemma controls_step_counters:
  assumes "controls_step (controls s) (controls t)"
  shows "version_of s source \<le> version_of t source" "epoch_of s source \<le> epoch_of t source"
  using assms unfolding controls_step_def version_of_def epoch_of_def
  by (auto dest: control_step_counters)

interpretation outbound_versions: monotone_counter outbound_step "\<lambda>s. controls_inv (controls s)" version_of
  by unfold_locales (blast dest: outbound_step_controls controls_step_counters)

interpretation outbound_epochs: monotone_counter outbound_step "\<lambda>s. controls_inv (controls s)" epoch_of
  by unfold_locales (blast dest: outbound_step_controls controls_step_counters)

text \<open>The rows the migration inserts, with the defaults of the columns.\<close>

definition initial_control :: "datetime \<Rightarrow> OutboundDeliveryControl" where
  "initial_control now =
     \<lparr>mode = lit ''legacy_direct'', cutover_epoch = 0, effective_from = now, protocol_version = 1,
      writer_version = 0, writer_owner = None, writer_token = None, writer_lease_expires_at = None,
      control_updated_at = now\<rparr>"

definition initial_controls :: "datetime \<Rightarrow> control_table" where
  "initial_controls now =
     [(lit ''scheduled_task'', initial_control now), (lit ''proactive_outreach'', initial_control now)]"

lemma initial_controls_inv: "controls_inv (initial_controls now)"
  by (auto simp: controls_inv_def initial_controls_def initial_control_def control_ok_def
      control_checks_def control_modes_def split: if_splits)

section \<open>Properties\<close>

text \<open>C25. In every state the store can reach from the migrated database, by any interleaving of lease
  operations, cutovers and other work, every control row satisfies the constraints of its table,
  its epoch is even exactly in direct mode, and both its epoch and its writer version have only
  grown; a successful cutover is never repeated: the same call with the same expected version
  fails in every later state.\<close>

theorem control_reachable:
  assumes "controls s = initial_controls t0" "reach outbound_step s t"
    and "dict_get (controls t) source = Some c"
  shows "control_checks source c \<and> (mode c = lit ''legacy_direct'' \<longleftrightarrow> even (cutover_epoch c)) \<and>
    (\<forall>u c'. reach outbound_step t u \<longrightarrow> dict_get (controls u) source = Some c' \<longrightarrow>
       writer_version c \<le> writer_version c' \<and> cutover_epoch c \<le> cutover_epoch c') \<and>
    (\<forall>m m' v owner token p eff ls now res t' u now'.
       transition_delivery_control source m m' v owner token p eff ls now t = Inr (res, t') \<longrightarrow>
       reach outbound_step t' u \<longrightarrow>
       (\<nexists>x. transition_delivery_control source m m' v owner token p eff ls now' u = Inr x))"
proof -
  have inv: "controls_inv (controls t)"
    using outbound_controls.reach_inv [OF assms(2)] initial_controls_inv assms(1) by simp
  have "writer_version c \<le> writer_version c' \<and> cutover_epoch c \<le> cutover_epoch c'"
    if "reach outbound_step t u" "dict_get (controls u) source = Some c'" for u c'
    using outbound_versions.reach_mono [OF that(1) inv, of source]
      outbound_epochs.reach_mono [OF that(1) inv, of source] that(2) assms(3)
    by (simp add: version_of_def epoch_of_def)
  moreover have "transition_delivery_control source m m' v owner token p eff ls now' u \<noteq> Inr x"
    if tr: "transition_delivery_control source m m' v owner token p eff ls now t = Inr (res, t')"
      and later: "reach outbound_step t' u"
    for m m' v owner token p eff ls now res t' u now' x
  proof
    assume again: "transition_delivery_control source m m' v owner token p eff ls now' u = Inr x"
    have "controls_inv (controls t')" using outbound_controls.step_inv [OF step_transition [OF tr] inv] .
    then have mono: "version_of t' (py_strip source) \<le> version_of u (py_strip source)"
      by (rule outbound_versions.reach_mono [OF later])
    have "version_of t' (py_strip source) = v + 1"
      using tr by (cases rule: transition_Inr) (simp add: version_of_def)
    moreover have "version_of u (py_strip source) = v"
      using again by (cases x) (auto simp: version_of_def elim!: transition_Inr)
    ultimately show False using mono by simp
  qed
  ultimately show ?thesis using inv assms(3) by (auto simp: controls_inv_def control_ok_def)
qed

text \<open>Fencing: while a writer's lease is live, a caller with another owner or token gets nothing.
  Acquiring returns a refusal without the token and leaves the table as it is, and releasing and
  moving the mode raise.\<close>

theorem writer_fenced:
  assumes "dict_get (controls s) (py_strip source) = Some c" "live (writer_lease_expires_at c) now"
    and "(writer_owner c, writer_token c) \<noteq> (Some (py_strip owner), Some (py_strip token))"
  shows "(\<forall>d db. acquire_or_renew_delivery_writer source owner token p ls now (controls s) = Inr (d, db) \<longrightarrow>
       \<not> acquired d \<and> lease_token_value d = [] \<and> db = controls s) \<and>
    (\<nexists>x. release_delivery_writer source owner token p v now (controls s) = Inr x) \<and>
    (\<nexists>x. transition_delivery_control source m m' v owner token p eff ls now s = Inr x)"
proof (intro conjI allI impI)
  fix d db assume acq: "acquire_or_renew_delivery_writer source owner token p ls now (controls s) = Inr (d, db)"
  then have "\<not> acquired d \<and> db = controls s"
    by (cases rule: acquire_cases)
      (use assms in \<open>auto simp: live_def expired_def split: option.splits\<close>)
  moreover have "lease_token_value d = (if acquired d then py_strip token else [])"
    using acq by (auto simp: acquire_or_renew_delivery_writer_def result_simps require_text_Inr)
  ultimately show "\<not> acquired d" "lease_token_value d = []" "db = controls s" by auto
next
  show "\<nexists>x. release_delivery_writer source owner token p v now (controls s) = Inr x"
    using assms by (force elim!: release_Inr)
  show "\<nexists>x. transition_delivery_control source m m' v owner token p eff ls now s = Inr x"
    using assms by (force elim!: transition_Inr)
qed

lemma transition_row:
  assumes "transition_delivery_control source m m' v owner token p requested ls now s = Inr (res, t)"
    and "dict_get (controls s) (py_strip source) = Some c"
    and "dict_get (controls t) (py_strip source) = Some c'"
  shows "(mode c, mode c') \<in> set control_transitions" "protocol_version c' = protocol_version c"
    "protocol_version c \<ge> 2"
    "cutover_epoch c' = cutover_epoch c + (if moves_epoch (mode c) (mode c') then 1 else 0)"
    "next_effective_from (mode c) (mode c') requested c now = Inr (effective_from c')"
    "transition_unsafe s (py_strip source) (mode c) c = None"
    "outbound_runs t = outbound_runs s \<and> outboxes t = outboxes s \<and> attempts t = attempts s"
  using assms by (auto elim!: transition_Inr)


text \<open>C27. What is settled when the mode moves: a cutover succeeds only when no direct delivery of the
  source is in flight, and when direct mode or draining ends, no outbox entry of the closing epoch
  is waiting, leased or blocked and no attempt of it has started without an end. The cutover
  itself changes no run, outbox entry or attempt.\<close>

theorem cutover_settled:
  assumes "transition_delivery_control source m m' v owner token p requested ls now s = Inr (res, t)"
    and "dict_get (controls s) (py_strip source) = Some c"
  shows "(\<forall>i r. (i, r) \<in> set (outbound_runs t) \<longrightarrow> run_source_type r = py_strip source \<longrightarrow>
       run_delivery_mode r = lit ''legacy_direct'' \<longrightarrow>
       run_state r \<notin> {lit ''claimed'', lit ''generating'', lit ''queued'', lit ''delivering'',
                         lit ''blocked'', lit ''ambiguous''}) \<and>
    (mode c \<in> {lit ''legacy_direct'', lit ''outbox_draining''} \<longrightarrow>
      (\<forall>i x r. (i, x) \<in> set (outboxes t) \<longrightarrow> dict_get (outbound_runs t) (outbox_run_id x) = Some r \<longrightarrow>
         run_source_type r = py_strip source \<longrightarrow> outbox_cutover_epoch x = cutover_epoch c \<longrightarrow>
         outbox_status x \<notin> {lit ''pending'', lit ''retry_wait'', lit ''leased'', lit ''blocked''} \<and>
         (\<forall>k a. (k, a) \<in> set (attempts t) \<longrightarrow> attempt_outbox_id a = i \<longrightarrow>
            dict_get (outboxes t) i = Some x \<longrightarrow> attempt_status a \<noteq> lit ''started''))) \<and>
    outbound_runs t = outbound_runs s \<and> outboxes t = outboxes s \<and> attempts t = attempts s"
proof -
  obtain c' where row: "transition_unsafe s (py_strip source) (mode c) c = None"
    "(mode c, c') \<in> set control_transitions"
    and same: "outbound_runs t = outbound_runs s" "outboxes t = outboxes s" "attempts t = attempts s"
    using assms by (auto elim!: transition_Inr)
  have modes: "mode c \<in> set control_modes" using row(2) by (auto simp: control_transitions_def control_modes_def)
  have legacy: "\<not> has_unsafe_legacy_run s (py_strip source)"
    using row(1) modes
    by (auto simp: transition_unsafe_def unsafe_for_control_transition_def control_modes_def
        mode_names mode_names [symmetric] split: if_splits)
  then have "run_state r \<notin> {lit ''claimed'', lit ''generating'', lit ''queued'', lit ''delivering'',
                         lit ''blocked'', lit ''ambiguous''}"
    if "(i, r) \<in> set (outbound_runs s)" "run_source_type r = py_strip source"
      "run_delivery_mode r = lit ''legacy_direct''" for i r
    using that by (force simp: has_unsafe_legacy_run_def some_run_def legacy_run_of_def list_ex_iff)
  moreover have "outbox_status x \<notin> {lit ''pending'', lit ''retry_wait'', lit ''leased'', lit ''blocked''} \<and>
      (\<forall>k a. (k, a) \<in> set (attempts s) \<longrightarrow> attempt_outbox_id a = i \<longrightarrow>
            dict_get (outboxes s) i = Some x \<longrightarrow> attempt_status a \<noteq> lit ''started'')"
    if "mode c \<in> {lit ''legacy_direct'', lit ''outbox_draining''}" "(i, x) \<in> set (outboxes s)"
      "dict_get (outbound_runs s) (outbox_run_id x) = Some r" "run_source_type r = py_strip source"
      "outbox_cutover_epoch x = cutover_epoch c" for i x r
  proof -
    have safe: "\<not> unsafe_for_control_transition s (py_strip source) (cutover_epoch c) True"
      using row(1) that(1) by (auto simp: transition_unsafe_def mode_names split: if_splits)
    have "\<not> some_outbox s (\<lambda>r i x. run_source_type r = py_strip source \<and>
        outbox_cutover_epoch x = cutover_epoch c \<and>
       (outbox_status x \<in> {lit ''pending'', lit ''retry_wait'', lit ''leased'', lit ''blocked''} \<or>
        outbox_status x = lit ''ambiguous'' \<and> run_active_outbox_id r = Some i))"
      "\<not> some_attempt s (\<lambda>r x a. run_source_type r = py_strip source \<and>
        outbox_cutover_epoch x = cutover_epoch c \<and> attempt_status a = lit ''started'')"
      using safe by (simp_all add: unsafe_for_control_transition_def)
    with that(2-5) show ?thesis by (force simp: some_outbox_def some_attempt_def list_ex_iff)
  qed
  ultimately show ?thesis unfolding same by blast
qed

section \<open>A concrete cutover\<close>

definition held_control :: OutboundDeliveryControl where
  "held_control = (initial_control 0)\<lparr>protocol_version := 2, writer_version := 1, writer_owner := Some [119],
     writer_token := Some [116], writer_lease_expires_at := Some 60000000\<rparr>"

definition start_store :: outbound_store where
  "start_store = \<lparr>controls = initial_controls 0, outbound_runs = [], outboxes = [], attempts = [], circuits = []\<rparr>"

definition held_store :: outbound_store where
  "held_store = start_store\<lparr>controls := dict_set (lit ''scheduled_task'') held_control (initial_controls 0)\<rparr>"

definition hold_store :: outbound_store where
  "hold_store = start_store\<lparr>controls := dict_set (lit ''scheduled_task'')
     (held_control\<lparr>mode := lit ''outbox_hold'', cutover_epoch := 1, effective_from := 10,
        writer_version := 2, writer_lease_expires_at := Some 60000005, control_updated_at := 5\<rparr>)
     (initial_controls 0)\<rparr>"

lemma cutover_names:
  "py_strip (lit ''scheduled_task'') = lit ''scheduled_task''" "py_strip (lit ''legacy_direct'') = lit ''legacy_direct''"
  "py_strip (lit ''outbox_hold'') = lit ''outbox_hold''" "py_strip [119] = [119]" "py_strip [116] = [116]"
  "py_strip [117] = [117]"
  "require_text 32 (lit ''scheduled_task'') = Inr (lit ''scheduled_task'')"
  "require_text 24 (lit ''legacy_direct'') = Inr (lit ''legacy_direct'')"
  "require_text 24 (lit ''outbox_hold'') = Inr (lit ''outbox_hold'')"
  "require_text 128 [119] = Inr [119]" "require_text 64 [116] = Inr [116]"
  by (simp_all add: require_text_def py_strip_def py_isspace_def lit_def)

lemma minute: "require_positive_seconds (Finite 60) = Inr 60" "timedelta_seconds 60 = 60000000"
  using round_half_even_int [of 60000000]
  by (simp_all add: require_positive_seconds_def positive_seconds_def timedelta_seconds_def)

lemma start_acquire:
  "\<exists>d. acquire_or_renew_delivery_writer (lit ''scheduled_task'') [119] [116] 2 (Finite 60) 0
      (controls start_store) = Inr (d, controls held_store) \<and> acquired d"
  by (simp add: acquire_or_renew_delivery_writer_def cutover_names minute lock_source_control_def
      control_update_def control_row_def start_store_def held_store_def initial_controls_def
      initial_control_def held_control_def control_checks_def control_modes_def expired_def)

lemma held_transition:
  "\<exists>res. transition_delivery_control (lit ''scheduled_task'') (lit ''legacy_direct'') (lit ''outbox_hold'') 1
      [119] [116] 2 10 (Finite 60) 5 held_store = Inr (res, hold_store)"
  by (simp add: transition_delivery_control_def cutover_names minute lock_source_control_def
      require_writer_def control_update_def control_row_def start_store_def held_store_def
      hold_store_def initial_controls_def initial_control_def held_control_def control_checks_def
      control_modes_def live_def control_transitions_def OUTBOUND_PROTOCOL_VERSION_def
      next_effective_from_def transition_unsafe_def unsafe_for_control_transition_def
      has_unsafe_legacy_run_def some_run_def some_outbox_def some_attempt_def mode_names Let_def)

lemma held_get: "dict_get (controls held_store) (lit ''scheduled_task'') = Some held_control"
  by (simp add: held_store_def)

theorem control_reachable_witness:
  "control_checks (lit ''scheduled_task'') held_control \<and> even (cutover_epoch held_control)"
proof -
  have "reach outbound_step start_store held_store"
    using start_acquire step_acquire [of _ _ _ _ _ _ start_store]
    by (auto simp: held_store_def start_store_def intro!: reach_single)
  from control_reachable [OF _ this held_get, of 0] show ?thesis
    by (simp add: start_store_def held_control_def initial_control_def)
qed

theorem writer_fenced_witness:
  "(\<nexists>x. release_delivery_writer (lit ''scheduled_task'') [119] [117] 2 1 5 (controls held_store) = Inr x) \<and>
   (\<nexists>x. transition_delivery_control (lit ''scheduled_task'') (lit ''legacy_direct'') (lit ''outbox_hold'') 1
      [119] [117] 2 10 (Finite 60) 5 held_store = Inr x)"
  using writer_fenced [where s = held_store and source = "lit ''scheduled_task''" and c = held_control
      and now = 5 and owner = "[119]" and token = "[117]"] held_get
  by (simp add: cutover_names held_control_def live_def)


theorem cutover_settled_witness:
  "outbound_runs hold_store = outbound_runs held_store \<and> attempts hold_store = attempts held_store"
proof -
  obtain res where "transition_delivery_control (lit ''scheduled_task'') (lit ''legacy_direct'')
      (lit ''outbox_hold'') 1 [119] [116] 2 10 (Finite 60) 5 held_store = Inr (res, hold_store)"
    using held_transition by blast
  from cutover_settled [OF this, where c = held_control] held_get show ?thesis
    by (simp add: cutover_names)
qed

end
