(* ===== verification/Job_Kernel.thy ===== *)
theory Job_Kernel
  imports Protocols Python_Text
begin

text \<open>
  The durable job kernel of \<open>core/jobs\<close>: the contracts of records, leases, failures and results,
  the schedule and retry policies, the built-in job types, the in-memory repository and the
  \<open>run_once\<close> step that claims a job, calls its handler and settles it.

  The repository's lock makes each of its calls one step. The handlers are an argument of the
  kernel, the fencing token of a claim is an argument of the claim. Durations are exact rational
  numbers of seconds: the rounding of floating-point multiplication is not modelled, the
  overflow of the power is. The registries hold the frozen descriptors of the module; only their
  lookup is used here. Telemetry is left out.
\<close>

section \<open>Contracts\<close>

datatype FailureCategory =
    VALIDATION | AUTHORIZATION | UNAVAILABLE | TIMEOUT | RATE_LIMITED | TRANSIENT_TRANSPORT
  | CONTRACT_VIOLATION | CONFLICT | QUOTA | CANCELLED_CATEGORY | PERMANENT

datatype JobStatus = PENDING | JOB_RUNNING | JOB_SUCCEEDED | RETRY_WAIT | JOB_FAILED | JOB_CANCELLED

datatype JobOutcome = OUTCOME_SUCCEEDED | OUTCOME_FAILED | OUTCOME_CANCELLED

datatype JobLifecycle = ACTIVE | RESERVED

datatype JobRepositoryMode = KERNEL | PORT_ADAPTER

datatype job_error =
    JobLeaseLost
  | JobLifecycleError
  | JobValueError
  | JobOverflowError
  | HandlerRaised

record JobCorrelation =
  jc_request_id :: pystr
  jc_session_id :: pystr
  jc_turn_id :: pystr
  jc_trace_id :: pystr
  jc_run_id :: pystr
  jc_task_id :: pystr
  jc_tool_call_id :: pystr
  jc_delivery_id :: pystr
  jc_parent_job_id :: pystr

definition JobCorrelation_post_init :: "JobCorrelation \<Rightarrow> JobCorrelation" where
  "JobCorrelation_post_init c =
     \<lparr>jc_request_id = safe_text 160 (jc_request_id c), jc_session_id = safe_text 160 (jc_session_id c),
      jc_turn_id = safe_text 160 (jc_turn_id c), jc_trace_id = safe_text 160 (jc_trace_id c),
      jc_run_id = safe_text 160 (jc_run_id c), jc_task_id = safe_text 160 (jc_task_id c),
      jc_tool_call_id = safe_text 160 (jc_tool_call_id c),
      jc_delivery_id = safe_text 160 (jc_delivery_id c),
      jc_parent_job_id = safe_text 160 (jc_parent_job_id c)\<rparr>"

record JobFailure =
  jf_code :: pystr
  jf_category :: FailureCategory
  jf_retryable :: bool
  jf_safe_summary :: pystr
  jf_cause_type :: pystr
  jf_trace_ref :: pystr

definition required :: "nat \<Rightarrow> pystr \<Rightarrow> job_error + pystr" where
  "required n v = (case safe_text_required n v of None \<Rightarrow> Inl JobValueError | Some s \<Rightarrow> Inr s)"

text \<open>\<open>^[a-z][a-z0-9_.-]{0,63}$\<close>, matched in full.\<close>

definition failure_code :: "pystr \<Rightarrow> bool" where
  "failure_code s \<longleftrightarrow>
     s \<noteq> [] \<and> 97 \<le> hd s \<and> hd s \<le> 122 \<and> length s \<le> 64 \<and>
     list_all (\<lambda>c. 97 \<le> c \<and> c \<le> 122 \<or> 48 \<le> c \<and> c \<le> 57 \<or> c \<in> {95, 46, 45}) (tl s)"

definition JobFailure_post_init :: "JobFailure \<Rightarrow> job_error + JobFailure" where
  "JobFailure_post_init f =
     bind_result (required 64 (jf_code f)) (\<lambda>code.
     require (failure_code code) JobValueError
     (bind_result (required 240 (jf_safe_summary f)) (\<lambda>summary.
        Inr (f\<lparr>jf_code := code, jf_safe_summary := summary,
               jf_cause_type := safe_text 128 (jf_cause_type f),
               jf_trace_ref := safe_text 128 (jf_trace_ref f)\<rparr>))))"

record JobLease =
  jl_job_id :: pystr
  jl_worker_id :: pystr
  jl_owner_token :: pystr
  jl_generation :: int
  jl_attempt_no :: int
  jl_expires_at :: datetime

definition JobLease_post_init :: "JobLease \<Rightarrow> job_error + JobLease" where
  "JobLease_post_init l =
     bind_result (required 128 (jl_job_id l)) (\<lambda>jid.
     bind_result (required 128 (jl_worker_id l)) (\<lambda>worker.
     bind_result (required 128 (jl_owner_token l)) (\<lambda>token.
     require (jl_generation l > 0) JobValueError
     (require (jl_attempt_no l > 0) JobValueError
        (Inr (l\<lparr>jl_job_id := jid, jl_worker_id := worker, jl_owner_token := token\<rparr>))))))"

record JobRecord =
  job_id :: pystr
  descriptor_id :: pystr
  job_status :: JobStatus
  job_generation :: int
  job_attempt_count :: int
  idempotency_key :: pystr
  payload_ref :: pystr
  job_payload_sha256 :: pystr
  job_correlation :: JobCorrelation
  job_created_at :: datetime
  job_updated_at :: datetime
  next_attempt_at :: "datetime option"
  job_lease :: "JobLease option"
  job_failure :: "JobFailure option"
  job_result_ref :: pystr
  job_finished_at :: "datetime option"

text \<open>\<open>JobRecord.__post_init__\<close>; \<open>changed\<close> builds a new record, so it runs again.\<close>

definition JobRecord_post_init :: "JobRecord \<Rightarrow> job_error + JobRecord" where
  "JobRecord_post_init r =
     bind_result (required 128 (job_id r)) (\<lambda>jid.
     bind_result (required 128 (descriptor_id r)) (\<lambda>did.
     require (job_generation r \<ge> 0) JobValueError
     (require (job_attempt_count r \<ge> 0) JobValueError
     (bind_result (required 256 (idempotency_key r)) (\<lambda>key.
      bind_result (required 512 (payload_ref r)) (\<lambda>ref.
      bind_result (required 64 (job_payload_sha256 r)) (\<lambda>sha.
      require (hex64 sha) JobValueError
      (require (job_status r = JOB_RUNNING \<longleftrightarrow> job_lease r \<noteq> None) JobValueError
      (require (job_status r = RETRY_WAIT \<longleftrightarrow> next_attempt_at r \<noteq> None) JobValueError
        (Inr (r\<lparr>job_id := jid, descriptor_id := did, idempotency_key := key, payload_ref := ref,
               job_payload_sha256 := sha, job_result_ref := safe_text 512 (job_result_ref r)\<rparr>)))))))))))"

record JobResult =
  res_outcome :: JobOutcome
  res_result_ref :: pystr
  res_failure :: "JobFailure option"

definition JobResult_post_init :: "JobResult \<Rightarrow> job_error + JobResult" where
  "JobResult_post_init res =
     require (res_outcome res = OUTCOME_FAILED \<longleftrightarrow> res_failure res \<noteq> None) JobValueError
       (Inr (res\<lparr>res_result_ref := safe_text 512 (res_result_ref res)\<rparr>))"

record JobExecutionContext =
  ctx_lease :: JobLease
  side_effect_idempotency_key :: pystr
  ctx_correlation :: JobCorrelation

definition JobExecutionContext_post_init ::
  "JobExecutionContext \<Rightarrow> job_error + JobExecutionContext" where
  "JobExecutionContext_post_init c =
     bind_result (required 256 (side_effect_idempotency_key c)) (\<lambda>key.
       Inr (c\<lparr>side_effect_idempotency_key := key\<rparr>))"

section \<open>Policies\<close>

record JobSchedulePolicy =
  sp_policy_id :: pystr
  lease_seconds :: rat
  execution_timeout_seconds :: rat
  poll_interval_seconds :: rat
  max_claim_batch :: int

definition JobSchedulePolicy_valid :: "JobSchedulePolicy \<Rightarrow> bool" where
  "JobSchedulePolicy_valid p \<longleftrightarrow>
     py_strip (sp_policy_id p) \<noteq> [] \<and> 0 < execution_timeout_seconds p \<and>
     execution_timeout_seconds p < lease_seconds p \<and> 0 < poll_interval_seconds p \<and>
     0 < max_claim_batch p"

record JobRetryPolicy =
  rp_policy_id :: pystr
  max_attempts :: int
  retryable_categories :: "FailureCategory list"
  retryable_codes :: "pystr list"
  initial_backoff_seconds :: rat
  backoff_multiplier :: rat
  max_backoff_seconds :: rat

definition JobRetryPolicy_valid :: "JobRetryPolicy \<Rightarrow> bool" where
  "JobRetryPolicy_valid p \<longleftrightarrow>
     py_strip (rp_policy_id p) \<noteq> [] \<and> 0 < max_attempts p \<and>
     0 \<le> initial_backoff_seconds p \<and> initial_backoff_seconds p \<le> max_backoff_seconds p \<and>
     1 \<le> backoff_multiplier p \<and>
     \<not> (1 < max_attempts p \<and> retryable_categories p = [] \<and> retryable_codes p = [])"

definition allows_retry :: "JobRetryPolicy \<Rightarrow> JobFailure \<Rightarrow> int \<Rightarrow> bool" where
  "allows_retry p f attempt_count \<longleftrightarrow>
     jf_retryable f \<and> attempt_count < max_attempts p \<and>
     (jf_category f \<in> set (retryable_categories p) \<or> jf_code f \<in> set (retryable_codes p))"

text \<open>A power at least this large is no finite double, and Python's \<open>**\<close> raises.\<close>

definition float_overflow :: rat where
  "float_overflow = 2 ^ 1024 - 2 ^ 970"

definition delay_seconds :: "JobRetryPolicy \<Rightarrow> int \<Rightarrow> job_error + rat" where
  "delay_seconds p attempt_count =
     (if attempt_count \<le> 0 then Inl JobValueError
      else let factor = backoff_multiplier p ^ nat (attempt_count - 1)
           in if factor \<ge> float_overflow then Inl JobOverflowError
              else Inr (min (max_backoff_seconds p) (initial_backoff_seconds p * factor)))"

definition schedule_policies :: "JobSchedulePolicy list" where
  "schedule_policies =
     [\<lparr>sp_policy_id = lit ''background.long.v1'', lease_seconds = 1800,
       execution_timeout_seconds = 1200, poll_interval_seconds = 1, max_claim_batch = 1\<rparr>,
      \<lparr>sp_policy_id = lit ''background.standard.v1'', lease_seconds = 180,
       execution_timeout_seconds = 120, poll_interval_seconds = 1, max_claim_batch = 1\<rparr>,
      \<lparr>sp_policy_id = lit ''outbound.adapter.v1'', lease_seconds = 180,
       execution_timeout_seconds = 120, poll_interval_seconds = 1 / 2, max_claim_batch = 1\<rparr>]"

definition transient_categories :: "FailureCategory list" where
  "transient_categories = [UNAVAILABLE, TIMEOUT, RATE_LIMITED, TRANSIENT_TRANSPORT]"

definition retry_policy :: "pystr \<Rightarrow> int \<Rightarrow> FailureCategory list \<Rightarrow> JobRetryPolicy" where
  "retry_policy pid attempts categories =
     \<lparr>rp_policy_id = pid, max_attempts = attempts, retryable_categories = categories,
      retryable_codes = [], initial_backoff_seconds = 1, backoff_multiplier = 2,
      max_backoff_seconds = 300\<rparr>"

definition retry_policies :: "JobRetryPolicy list" where
  "retry_policies =
     [retry_policy (lit ''agent_run.v1'') 1 [],
      retry_policy (lit ''group_memory_learning.v1'') 5 transient_categories,
      retry_policy (lit ''inbound_chat.v1'') 1 [],
      retry_policy (lit ''memory_digest.v1'') 3 transient_categories,
      retry_policy (lit ''outbound_generation.v1'') 1 [],
      retry_policy (lit ''outbound_delivery.v1'') 1 [],
      retry_policy (lit ''sandbox_admin_operation.v1'') 5 transient_categories,
      retry_policy (lit ''semantic_index.v1'') 3 transient_categories,
      retry_policy (lit ''session_summary.v1'') 3 transient_categories,
      retry_policy (lit ''scheduled_workflow.v1'') 1 []]"

definition require_job_schedule_policy :: "pystr \<Rightarrow> job_error + JobSchedulePolicy" where
  "require_job_schedule_policy pid =
     (case find (\<lambda>p. sp_policy_id p = py_strip pid) schedule_policies of
        None \<Rightarrow> Inl JobValueError | Some p \<Rightarrow> Inr p)"

definition require_job_retry_policy :: "pystr \<Rightarrow> job_error + JobRetryPolicy" where
  "require_job_retry_policy pid =
     (case find (\<lambda>p. rp_policy_id p = py_strip pid) retry_policies of
        None \<Rightarrow> Inl JobValueError | Some p \<Rightarrow> Inr p)"

section \<open>Job types\<close>

record JobDescriptor =
  job_type :: pystr
  handler_id :: pystr
  schedule_policy_id :: pystr
  retry_policy_id :: pystr
  repository_mode :: JobRepositoryMode
  lifecycle :: JobLifecycle
  external_side_effects :: bool

definition job_descriptor ::
  "pystr \<Rightarrow> pystr \<Rightarrow> pystr \<Rightarrow> JobRepositoryMode \<Rightarrow> bool \<Rightarrow> JobDescriptor" where
  "job_descriptor jtype schedule retry repo effects =
     \<lparr>job_type = jtype, handler_id = jtype @ lit ''.handler'', schedule_policy_id = schedule,
      retry_policy_id = retry, repository_mode = repo, lifecycle = ACTIVE,
      external_side_effects = effects\<rparr>"

definition job_descriptors :: "JobDescriptor list" where
  "job_descriptors =
     (let long = lit ''background.long.v1''
      in [job_descriptor (lit ''agent_run'') long (lit ''agent_run.v1'') PORT_ADAPTER True,
          job_descriptor (lit ''inbound_chat'') long (lit ''inbound_chat.v1'') PORT_ADAPTER True,
          job_descriptor (lit ''outbound_generation'') long (lit ''outbound_generation.v1'') PORT_ADAPTER True,
          job_descriptor (lit ''scheduled_workflow'') long (lit ''scheduled_workflow.v1'') PORT_ADAPTER True,
          job_descriptor (lit ''group_memory_learning'') long (lit ''group_memory_learning.v1'') PORT_ADAPTER False,
          job_descriptor (lit ''memory_digest'') long (lit ''memory_digest.v1'') KERNEL False,
          job_descriptor (lit ''outbound_delivery'') (lit ''outbound.adapter.v1'') (lit ''outbound_delivery.v1'')
            PORT_ADAPTER True,
          job_descriptor (lit ''sandbox_admin_operation'') (lit ''background.standard.v1'')
            (lit ''sandbox_admin_operation.v1'') KERNEL True,
          job_descriptor (lit ''semantic_index'') long (lit ''semantic_index.v1'') KERNEL False,
          job_descriptor (lit ''session_summary'') long (lit ''session_summary.v1'') KERNEL False])"

definition require_descriptor :: "pystr \<Rightarrow> job_error + JobDescriptor" where
  "require_descriptor jtype =
     (case find (\<lambda>d. job_type d = py_strip jtype) job_descriptors of
        None \<Rightarrow> Inl JobValueError | Some d \<Rightarrow> Inr d)"

section \<open>The repository\<close>

record JobRepository =
  records :: "(pystr, JobRecord) dict"
  idempotency :: "(pystr \<times> pystr, pystr) dict"
  next_id :: nat
  mutation_count :: nat

definition empty_repository :: JobRepository where
  "empty_repository = \<lparr>records = [], idempotency = [], next_id = 1, mutation_count = 0\<rparr>"

definition job_name :: "nat \<Rightarrow> pystr" where
  "job_name n = lit ''job_'' @ replicate (16 - length (py_digits n)) 48 @ py_digits n"

text \<open>The identifier of a new job is taken before its record is checked.\<close>

definition job_enqueue ::
  "pystr \<Rightarrow> pystr \<Rightarrow> pystr \<Rightarrow> pystr \<Rightarrow> JobCorrelation \<Rightarrow> datetime \<Rightarrow> JobRepository
     \<Rightarrow> (job_error + JobRecord) \<times> JobRepository" where
  "job_enqueue descriptor_name raw_key payload sha correlation now repo =
     (case require_descriptor descriptor_name of
        Inl e \<Rightarrow> (Inl e, repo)
      | Inr d \<Rightarrow>
          if lifecycle d \<noteq> ACTIVE then (Inl JobLifecycleError, repo)
          else
            let key = (job_type d, py_strip raw_key)
            in case dict_get (idempotency repo) key of
                 Some existing \<Rightarrow>
                   (case dict_get (records repo) existing of
                      Some r \<Rightarrow> (Inr r, repo) | None \<Rightarrow> (Inl JobValueError, repo))
               | None \<Rightarrow>
                   let jid = job_name (next_id repo);
                       repo1 = repo\<lparr>next_id := next_id repo + 1\<rparr>
                   in case JobRecord_post_init
                             \<lparr>job_id = jid, descriptor_id = job_type d, job_status = PENDING,
                              job_generation = 0, job_attempt_count = 0, idempotency_key = raw_key,
                              payload_ref = payload, job_payload_sha256 = sha,
                              job_correlation = correlation, job_created_at = now,
                              job_updated_at = now, next_attempt_at = None, job_lease = None,
                              job_failure = None, job_result_ref = [], job_finished_at = None\<rparr> of
                        Inl e \<Rightarrow> (Inl e, repo1)
                      | Inr r \<Rightarrow>
                          (Inr r, repo1\<lparr>records := dict_set jid r (records repo1),
                                        idempotency := dict_set key jid (idempotency repo1),
                                        mutation_count := mutation_count repo1 + 1\<rparr>))"

definition claimable :: "datetime \<Rightarrow> pystr \<Rightarrow> JobRecord \<Rightarrow> bool" where
  "claimable now jtype r \<longleftrightarrow>
     descriptor_id r = jtype \<and>
     (job_status r = PENDING \<or>
      job_status r = RETRY_WAIT \<and> (case next_attempt_at r of None \<Rightarrow> False | Some t \<Rightarrow> t \<le> now))"

text \<open>\<open>sorted(..., key=lambda item: (item.created_at, item.job_id))\<close>: a stable sort by the second
  key, then by the first.\<close>

definition claim_candidates :: "datetime \<Rightarrow> pystr \<Rightarrow> JobRepository \<Rightarrow> JobRecord list" where
  "claim_candidates now jtype repo =
     sort_key job_created_at (sort_key job_id (filter (claimable now jtype) (map snd (records repo))))"

definition job_claim ::
  "pystr \<Rightarrow> pystr \<Rightarrow> JobSchedulePolicy \<Rightarrow> pystr \<Rightarrow> datetime \<Rightarrow> JobRepository
     \<Rightarrow> (job_error + (JobRecord \<times> JobLease) option) \<times> JobRepository" where
  "job_claim descriptor_name worker policy token now repo =
     (case require_descriptor descriptor_name of
        Inl e \<Rightarrow> (Inl e, repo)
      | Inr d \<Rightarrow>
          if lifecycle d \<noteq> ACTIVE then (Inl JobLifecycleError, repo)
          else case claim_candidates now (job_type d) repo of
                 [] \<Rightarrow> (Inr None, repo)
               | current # _ \<Rightarrow>
                   let generation = job_generation current + 1;
                       attempt_no = job_attempt_count current + 1
                   in case JobLease_post_init
                             \<lparr>jl_job_id = job_id current, jl_worker_id = worker,
                              jl_owner_token = token, jl_generation = generation,
                              jl_attempt_no = attempt_no,
                              jl_expires_at = now + timedelta_seconds (lease_seconds policy)\<rparr> of
                        Inl e \<Rightarrow> (Inl e, repo)
                      | Inr lease \<Rightarrow>
                          (case JobRecord_post_init
                                  (current\<lparr>job_status := JOB_RUNNING, job_generation := generation,
                                     job_attempt_count := attempt_no, next_attempt_at := None,
                                     job_lease := Some lease, job_failure := None,
                                     job_finished_at := None, job_updated_at := now\<rparr>) of
                             Inl e \<Rightarrow> (Inl e, repo)
                           | Inr running \<Rightarrow>
                               (Inr (Some (running, lease)),
                                repo\<lparr>records := dict_set (job_id current) running (records repo),
                                     mutation_count := mutation_count repo + 1\<rparr>)))"

definition job_lease_matches :: "JobRecord \<Rightarrow> JobLease \<Rightarrow> datetime \<Rightarrow> bool" where
  "job_lease_matches current l now \<longleftrightarrow>
     (case job_lease current of
        None \<Rightarrow> False
      | Some active \<Rightarrow>
          job_status current = JOB_RUNNING \<and> jl_job_id active = jl_job_id l \<and>
          jl_worker_id active = jl_worker_id l \<and> jl_owner_token active = jl_owner_token l \<and>
          jl_generation active = jl_generation l \<and> jl_attempt_no active = jl_attempt_no l \<and>
          jl_expires_at active > now)"

definition require_lease :: "JobLease \<Rightarrow> datetime \<Rightarrow> JobRepository \<Rightarrow> job_error + JobRecord" where
  "require_lease l now repo =
     (case dict_get (records repo) (jl_job_id l) of
        None \<Rightarrow> Inl JobLeaseLost
      | Some current \<Rightarrow> require (job_lease_matches current l now) JobLeaseLost (Inr current))"

definition job_heartbeat ::
  "JobLease \<Rightarrow> JobSchedulePolicy \<Rightarrow> datetime \<Rightarrow> JobRepository
     \<Rightarrow> (job_error + JobLease) \<times> JobRepository" where
  "job_heartbeat l policy now repo =
     (case require_lease l now repo of
        Inl e \<Rightarrow> (Inl e, repo)
      | Inr current \<Rightarrow>
          (case JobLease_post_init
                  (l\<lparr>jl_expires_at := now + timedelta_seconds (lease_seconds policy)\<rparr>) of
             Inl e \<Rightarrow> (Inl e, repo)
           | Inr renewed \<Rightarrow>
               (case JobRecord_post_init
                       (current\<lparr>job_lease := Some renewed, job_updated_at := now\<rparr>) of
                  Inl e \<Rightarrow> (Inl e, repo)
                | Inr r \<Rightarrow>
                    (Inr renewed, repo\<lparr>records := dict_set (job_id current) r (records repo),
                                       mutation_count := mutation_count repo + 1\<rparr>))))"

text \<open>What the failure of an attempt means for the job: wait for the next attempt or fail.\<close>

definition after_failure ::
  "JobRetryPolicy \<Rightarrow> JobFailure \<Rightarrow> int \<Rightarrow> datetime \<Rightarrow> job_error + (JobStatus \<times> datetime option \<times> datetime option)" where
  "after_failure policy failure attempt_count now =
     (if allows_retry policy failure attempt_count
      then bind_result (delay_seconds policy attempt_count) (\<lambda>delay.
             Inr (RETRY_WAIT, Some (now + timedelta_seconds delay), None))
      else Inr (JOB_FAILED, None, Some now))"

definition settled_state ::
  "JobRetryPolicy \<Rightarrow> JobResult \<Rightarrow> int \<Rightarrow> datetime
     \<Rightarrow> job_error + (JobStatus \<times> datetime option \<times> datetime option \<times> JobFailure option)" where
  "settled_state policy result attempt_count now =
     (case res_outcome result of
        OUTCOME_SUCCEEDED \<Rightarrow> Inr (JOB_SUCCEEDED, None, Some now, None)
      | OUTCOME_CANCELLED \<Rightarrow> Inr (JOB_CANCELLED, None, Some now, None)
      | OUTCOME_FAILED \<Rightarrow>
          (case res_failure result of
             None \<Rightarrow> Inl JobValueError
           | Some failure \<Rightarrow>
               bind_result (after_failure policy failure attempt_count now) (\<lambda>(st, nxt, fin).
                 Inr (st, nxt, fin, Some failure))))"

definition job_settle ::
  "JobLease \<Rightarrow> JobResult \<Rightarrow> JobRetryPolicy \<Rightarrow> datetime \<Rightarrow> JobRepository
     \<Rightarrow> (job_error + JobRecord) \<times> JobRepository" where
  "job_settle l result policy now repo =
     (case require_lease l now repo of
        Inl e \<Rightarrow> (Inl e, repo)
      | Inr current \<Rightarrow>
          (case settled_state policy result (job_attempt_count current) now of
             Inl e \<Rightarrow> (Inl e, repo)
           | Inr (st, nxt, fin, failure) \<Rightarrow>
               (case JobRecord_post_init
                       (current\<lparr>job_status := st, job_lease := None, next_attempt_at := nxt,
                          job_failure := failure, job_result_ref := res_result_ref result,
                          job_finished_at := fin, job_updated_at := now\<rparr>) of
                  Inl e \<Rightarrow> (Inl e, repo)
                | Inr settled \<Rightarrow>
                    (Inr settled, repo\<lparr>records := dict_set (job_id current) settled (records repo),
                                       mutation_count := mutation_count repo + 1\<rparr>))))"

text \<open>The summary of an expired lease, in the text of the source.\<close>

definition lease_expired_summary :: pystr where
  "lease_expired_summary =
     [74, 111, 98, 32, 31199, 32422, 21040, 26399, 65292, 31561, 24453, 23433, 20840, 24674, 22797]"

definition lease_expired_failure :: "JobRecord \<Rightarrow> job_error + JobFailure" where
  "lease_expired_failure r =
     JobFailure_post_init
       \<lparr>jf_code = lit ''lease_expired'', jf_category = TIMEOUT, jf_retryable = True,
        jf_safe_summary = lease_expired_summary, jf_cause_type = [],
        jf_trace_ref = jc_trace_id (job_correlation r)\<rparr>"

definition recover_one :: "(pystr \<Rightarrow> job_error + JobRetryPolicy) \<Rightarrow> datetime \<Rightarrow> JobRecord \<Rightarrow> job_error + JobRecord" where
  "recover_one resolver now current =
     bind_result (require_descriptor (descriptor_id current)) (\<lambda>d.
     bind_result (resolver (retry_policy_id d)) (\<lambda>policy.
     bind_result (lease_expired_failure current) (\<lambda>failure.
     bind_result (after_failure policy failure (job_attempt_count current) now) (\<lambda>(st, nxt, fin).
       JobRecord_post_init
         (current\<lparr>job_status := st, job_lease := None, next_attempt_at := nxt,
            job_failure := Some failure, job_finished_at := fin, job_updated_at := now\<rparr>)))))"

definition lease_expired :: "datetime \<Rightarrow> JobRecord \<Rightarrow> bool" where
  "lease_expired now r \<longleftrightarrow>
     job_status r = JOB_RUNNING \<and> (case job_lease r of None \<Rightarrow> False | Some l \<Rightarrow> jl_expires_at l \<le> now)"

fun recover_loop ::
  "(pystr \<Rightarrow> job_error + JobRetryPolicy) \<Rightarrow> datetime \<Rightarrow> JobRecord list \<Rightarrow> JobRepository
     \<Rightarrow> (job_error + unit) \<times> JobRepository" where
  "recover_loop resolver now [] repo = (Inr (), repo)"
| "recover_loop resolver now (current # rest) repo =
     (case recover_one resolver now current of
        Inl e \<Rightarrow> (Inl e, repo)
      | Inr r \<Rightarrow>
          recover_loop resolver now rest
            (repo\<lparr>records := dict_set (job_id current) r (records repo),
                  mutation_count := mutation_count repo + 1\<rparr>))"

definition recover_expired ::
  "(pystr \<Rightarrow> job_error + JobRetryPolicy) \<Rightarrow> datetime \<Rightarrow> JobRepository
     \<Rightarrow> (job_error + nat) \<times> JobRepository" where
  "recover_expired resolver now repo =
     (let due = filter (lease_expired now) (map snd (records repo))
      in case recover_loop resolver now due repo of
           (Inl e, repo') \<Rightarrow> (Inl e, repo')
         | (Inr _, repo') \<Rightarrow> (Inr (length due), repo'))"

definition job_get :: "pystr \<Rightarrow> JobRepository \<Rightarrow> JobRecord option" where
  "job_get jid repo = dict_get (records repo) jid"

section \<open>The kernel\<close>

type_synonym job_handler = "JobRecord \<Rightarrow> JobExecutionContext \<Rightarrow> job_error + JobResult"

text \<open>\<open>env\<close> is what other threads do to the repository while the handler runs.\<close>

definition run_once ::
  "(pystr, job_handler) dict \<Rightarrow> pystr \<Rightarrow> pystr \<Rightarrow> pystr \<Rightarrow> datetime \<Rightarrow> (JobRepository \<Rightarrow> JobRepository)
     \<Rightarrow> JobRepository \<Rightarrow> (job_error + JobRecord option) \<times> JobRepository" where
  "run_once handlers descriptor_name worker token now env repo =
     (case require_descriptor descriptor_name of
        Inl e \<Rightarrow> (Inl e, repo)
      | Inr d \<Rightarrow>
          if lifecycle d \<noteq> ACTIVE \<or> repository_mode d \<noteq> KERNEL then (Inl JobLifecycleError, repo)
          else case dict_get handlers (handler_id d) of
            None \<Rightarrow> (Inl JobLifecycleError, repo)
          | Some handler \<Rightarrow>
              (case (require_job_schedule_policy (schedule_policy_id d),
                     require_job_retry_policy (retry_policy_id d)) of
                 (Inr schedule, Inr retry) \<Rightarrow>
                   (case job_claim (job_type d) worker schedule token now repo of
                      (Inl e, repo1) \<Rightarrow> (Inl e, repo1)
                    | (Inr None, repo1) \<Rightarrow> (Inr None, repo1)
                    | (Inr (Some (r, l)), repo1) \<Rightarrow>
                        (case JobExecutionContext_post_init
                                \<lparr>ctx_lease = l, side_effect_idempotency_key = idempotency_key r,
                                 ctx_correlation = job_correlation r\<rparr> of
                           Inl e \<Rightarrow> (Inl e, repo1)
                         | Inr context \<Rightarrow>
                             let repo2 = env repo1
                             in case handler r context of
                                  Inl e \<Rightarrow> (Inl e, repo2)
                                | Inr result \<Rightarrow>
                                    (case job_settle l result retry now repo2 of
                                       (Inl e, repo3) \<Rightarrow> (Inl e, repo3)
                                     | (Inr settled, repo3) \<Rightarrow> (Inr (Some settled), repo3))))
               | (Inl e, _) \<Rightarrow> (Inl e, repo)
               | (_, Inl e) \<Rightarrow> (Inl e, repo)))"

end
