(* ===== verification/Job_Kernel_Correct.thy ===== *)
theory Job_Kernel_Correct
  imports Job_Kernel
begin

text \<open>
  Correctness of the job kernel: every record of a reachable repository is well formed and has
  used no more attempts than its policy allows, all attempts of a job see the same side-effect
  key, and one step of the kernel settles the oldest due job.
\<close>

section \<open>The built-in types and policies\<close>

definition policy_for :: "pystr \<Rightarrow> JobRetryPolicy option" where
  "policy_for jtype =
     (case require_descriptor jtype of
        Inl _ \<Rightarrow> None
      | Inr d \<Rightarrow> (case require_job_retry_policy (retry_policy_id d) of Inl _ \<Rightarrow> None | Inr p \<Rightarrow> Some p))"

lemma lit_visible: "list_all (\<lambda>c. 33 \<le> (of_char c :: nat) \<and> (of_char c :: nat) < 127) s \<Longrightarrow> py_strip (lit s) = lit s"
  by (rule py_strip_visible) (auto simp: lit_def py_isspace_def list_all_iff)

lemma job_types:
  "map job_type job_descriptors =
     map lit [''agent_run'', ''inbound_chat'', ''outbound_generation'', ''scheduled_workflow'',
       ''group_memory_learning'', ''memory_digest'', ''outbound_delivery'', ''sandbox_admin_operation'',
       ''semantic_index'', ''session_summary'']"
  by (simp add: job_descriptors_def job_descriptor_def Let_def)

lemma retry_policy_ids:
  "map rp_policy_id retry_policies =
     map lit [''agent_run.v1'', ''group_memory_learning.v1'', ''inbound_chat.v1'', ''memory_digest.v1'',
       ''outbound_generation.v1'', ''outbound_delivery.v1'', ''sandbox_admin_operation.v1'',
       ''semantic_index.v1'', ''session_summary.v1'', ''scheduled_workflow.v1'']"
  by (simp add: retry_policies_def retry_policy_def)

lemma descriptor_names:
  assumes "d \<in> set job_descriptors"
  shows "require_descriptor (job_type d) = Inr d" "py_strip (job_type d) = job_type d"
    "safe_text 128 (job_type d) = job_type d"
proof -
  have mem: "job_type d \<in> set (map job_type job_descriptors)" using assms by simp
  have "distinct (map job_type job_descriptors)" unfolding job_types by simp
  from find_distinct [OF this assms] have "find (\<lambda>y. job_type y = job_type d) job_descriptors = Some d" .
  moreover show strip: "py_strip (job_type d) = job_type d"
    using mem unfolding job_types by (auto simp: lit_visible)
  ultimately show "require_descriptor (job_type d) = Inr d" by (simp add: require_descriptor_def)
  have "clean_text 128 (job_type d)"
    using mem strip unfolding job_types clean_text_def by (auto simp: lit_def)
  then show "safe_text 128 (job_type d) = job_type d" by (rule safe_text_clean)
qed

lemma policies_valid:
  "list_all JobSchedulePolicy_valid schedule_policies" "list_all JobRetryPolicy_valid retry_policies"
  by (simp_all add: schedule_policies_def retry_policies_def retry_policy_def transient_categories_def
      JobSchedulePolicy_valid_def JobRetryPolicy_valid_def lit_visible)

lemma descriptor_policy_ids:
  "list_all (\<lambda>d. schedule_policy_id d \<in> set (map sp_policy_id schedule_policies)) job_descriptors"
  "list_all (\<lambda>d. retry_policy_id d \<in> set (map rp_policy_id retry_policies)) job_descriptors"
  unfolding retry_policy_ids
  by (simp_all add: job_descriptors_def job_descriptor_def schedule_policies_def Let_def)

lemma policy_ids_visible:
  "list_all (\<lambda>p. py_strip (sp_policy_id p) = sp_policy_id p) schedule_policies"
  "list_all (\<lambda>s. py_strip s = s) (map rp_policy_id retry_policies)"
  unfolding retry_policy_ids by (simp_all add: schedule_policies_def lit_visible)

lemma descriptor_policies:
  assumes "d \<in> set job_descriptors"
  shows "\<exists>sp. require_job_schedule_policy (schedule_policy_id d) = Inr sp \<and> JobSchedulePolicy_valid sp"
    and "\<exists>rp. require_job_retry_policy (retry_policy_id d) = Inr rp \<and> JobRetryPolicy_valid rp"
proof -
  obtain sp where sp: "sp \<in> set schedule_policies" "sp_policy_id sp = schedule_policy_id d"
    using descriptor_policy_ids(1) assms by (auto simp: list_all_iff)
  then have "sp_policy_id sp = py_strip (schedule_policy_id d)"
    using policy_ids_visible(1) by (auto simp: list_all_iff)
  from find_ex [of sp _ "\<lambda>p. sp_policy_id p = py_strip (schedule_policy_id d)", OF sp(1) this]
  show "\<exists>sp. require_job_schedule_policy (schedule_policy_id d) = Inr sp \<and> JobSchedulePolicy_valid sp"
    using policies_valid(1) by (auto simp: require_job_schedule_policy_def list_all_iff)
  obtain rp where rp: "rp \<in> set retry_policies" "rp_policy_id rp = retry_policy_id d"
    using descriptor_policy_ids(2) assms by (auto simp: list_all_iff)
  then have "rp_policy_id rp = py_strip (retry_policy_id d)"
    using policy_ids_visible(2) by (auto simp: list_all_iff)
  from find_ex [of rp _ "\<lambda>p. rp_policy_id p = py_strip (retry_policy_id d)", OF rp(1) this]
  show "\<exists>rp. require_job_retry_policy (retry_policy_id d) = Inr rp \<and> JobRetryPolicy_valid rp"
    using policies_valid(2) by (auto simp: require_job_retry_policy_def list_all_iff)
qed

lemma require_descriptor_Inr:
  "require_descriptor name = Inr d \<Longrightarrow> d \<in> set job_descriptors \<and> job_type d = py_strip name"
  by (auto simp: require_descriptor_def split: option.splits dest: find_SomeD)

section \<open>Normalising twice\<close>

lemma py_strip_sublist: "\<exists>xs ys. s = xs @ py_strip s @ ys"
proof -
  obtain xs where s: "s = xs @ dropWhile py_isspace s" by (metis takeWhile_dropWhile_id)
  obtain zs where r: "rev (dropWhile py_isspace s) = zs @ dropWhile py_isspace (rev (dropWhile py_isspace s))"
    by (metis takeWhile_dropWhile_id)
  have "dropWhile py_isspace s = py_strip s @ rev zs"
    using arg_cong [OF r, of rev] by (simp add: py_strip_def)
  with s show ?thesis by metis
qed

lemma py_strip_shorter: "length (py_strip s) \<le> length s" "set (py_strip s) \<subseteq> set s"
  using py_strip_sublist [of s] by (metis length_append trans_le_add1 trans_le_add2 le_refl)
    (metis py_strip_sublist set_append Un_iff subsetI)

text \<open>A normalised text has no control characters and fits, so normalising it only strips it.\<close>

lemma safe_text_again: "safe_text n (safe_text n s) = py_strip (safe_text n s)"
proof -
  have "\<forall>c \<in> set (py_strip (safe_text n s)). c \<ge> 32"
    using py_strip_shorter(2) [of "safe_text n s"] safe_text_printable by blast
  then have "map no_control (py_strip (safe_text n s)) = py_strip (safe_text n s)"
    by (simp add: no_control_def map_idI)
  moreover have "length (py_strip (safe_text n s)) \<le> n"
    using py_strip_shorter(1) [of "safe_text n s"] safe_text_length [of n s] by simp
  ultimately show ?thesis by (simp add: safe_text_def [of n "safe_text n s"])
qed

lemma safe_text_thrice: "safe_text n (safe_text n (safe_text n s)) = safe_text n (safe_text n s)"
  using safe_text_again [of n "safe_text n s"] by (simp add: safe_text_again)

section \<open>Well-formed records\<close>

definition attempts_ok :: "JobStatus \<Rightarrow> int \<Rightarrow> int \<Rightarrow> bool" where
  "attempts_ok st n limit \<longleftrightarrow>
     (case st of
        PENDING \<Rightarrow> n = 0
      | RETRY_WAIT \<Rightarrow> 1 \<le> n \<and> n < limit
      | _ \<Rightarrow> 1 \<le> n \<and> n \<le> limit)"

definition finished :: "JobStatus \<Rightarrow> bool" where
  "finished st \<longleftrightarrow> st \<in> {JOB_SUCCEEDED, JOB_FAILED, JOB_CANCELLED}"

definition record_ok :: "pystr \<Rightarrow> JobRecord \<Rightarrow> bool" where
  "record_ok jid r \<longleftrightarrow>
     job_id r = jid \<and> safe_text 128 jid = jid \<and> safe_text 128 (descriptor_id r) = descriptor_id r \<and>
     (\<exists>p. policy_for (descriptor_id r) = Some p \<and> attempts_ok (job_status r) (job_attempt_count r) (max_attempts p)) \<and>
     job_generation r = job_attempt_count r \<and>
     (job_status r = JOB_RUNNING \<longleftrightarrow> job_lease r \<noteq> None) \<and>
     (\<forall>l. job_lease r = Some l \<longrightarrow> jl_job_id l = jid \<and> jl_generation l = job_generation r \<and>
        jl_attempt_no l = job_attempt_count r) \<and>
     (job_status r = RETRY_WAIT \<longleftrightarrow> next_attempt_at r \<noteq> None) \<and>
     (finished (job_status r) \<longleftrightarrow> job_finished_at r \<noteq> None) \<and>
     (\<exists>x. idempotency_key r = safe_text 256 x) \<and> (\<exists>x. payload_ref r = safe_text 512 x) \<and>
     hex64 (job_payload_sha256 r) \<and>
     (job_attempt_count r > 0 \<longrightarrow> safe_text 256 (idempotency_key r) = idempotency_key r)"

definition repository_ok :: "JobRepository \<Rightarrow> bool" where
  "repository_ok repo \<longleftrightarrow>
     distinct (map fst (records repo)) \<and>
     (\<forall>jid r. dict_get (records repo) jid = Some r \<longrightarrow>
        record_ok jid r \<and> (\<exists>n < next_id repo. jid = job_name n))"

lemma required_Inr: "required n v = Inr s \<longleftrightarrow> s = safe_text n v \<and> s \<noteq> []"
  by (auto simp: required_def safe_text_required_Some split: option.splits)
    (auto simp: safe_text_required_def Let_def split: if_splits)

lemma record_post_init_Inr:
  assumes "JobRecord_post_init r = Inr r'"
  shows "r' = r\<lparr>job_id := safe_text 128 (job_id r), descriptor_id := safe_text 128 (descriptor_id r),
                idempotency_key := safe_text 256 (idempotency_key r),
                payload_ref := safe_text 512 (payload_ref r),
                job_payload_sha256 := safe_text 64 (job_payload_sha256 r),
                job_result_ref := safe_text 512 (job_result_ref r)\<rparr>"
    and "job_status r = JOB_RUNNING \<longleftrightarrow> job_lease r \<noteq> None"
    and "job_status r = RETRY_WAIT \<longleftrightarrow> next_attempt_at r \<noteq> None"
    and "hex64 (safe_text 64 (job_payload_sha256 r))" "safe_text 256 (idempotency_key r) \<noteq> []"
  using assms by (auto simp: JobRecord_post_init_def result_simps required_Inr)

lemma lease_post_init_Inr:
  assumes "JobLease_post_init l = Inr l'"
  shows "l' = l\<lparr>jl_job_id := safe_text 128 (jl_job_id l), jl_worker_id := safe_text 128 (jl_worker_id l),
                jl_owner_token := safe_text 128 (jl_owner_token l)\<rparr>"
  using assms by (auto simp: JobLease_post_init_def result_simps required_Inr)

lemma policy_for_known:
  assumes "policy_for jtype = Some p" "safe_text 128 jtype = jtype"
  shows "0 < max_attempts p"
proof -
  obtain d where d: "require_descriptor jtype = Inr d" "require_job_retry_policy (retry_policy_id d) = Inr p"
    using assms(1) by (auto simp: policy_for_def split: sum.splits)
  then have "d \<in> set job_descriptors" using require_descriptor_Inr by blast
  then show ?thesis using descriptor_policies(2) d(2) by (fastforce simp: JobRetryPolicy_valid_def)
qed

section \<open>The abstract job\<close>

text \<open>
  What a job promises: it waits, executes one attempt at a time, and ends; it never starts more
  than \<open>limit\<close> attempts. The repository refines this machine at every stored record.
\<close>

datatype attempt_state = Waiting int | Executing int | Ended int

inductive attempt_step :: "int \<Rightarrow> attempt_state \<Rightarrow> attempt_state \<Rightarrow> bool" for limit where
  attempt_start: "n < limit \<Longrightarrow> attempt_step limit (Waiting n) (Executing (n + 1))"
| attempt_retry: "1 \<le> n \<Longrightarrow> n < limit \<Longrightarrow> attempt_step limit (Executing n) (Waiting n)"
| attempt_end: "1 \<le> n \<Longrightarrow> n \<le> limit \<Longrightarrow> attempt_step limit (Executing n) (Ended n)"

inductive_cases attempt_EndedE: "attempt_step limit (Ended n) x"

lemma attempt_ended: "reach (attempt_step limit) x y \<Longrightarrow> x = Ended n \<Longrightarrow> y = Ended n"
  by (induction rule: reach.induct) (auto elim: attempt_EndedE)

definition attempt_view :: "JobStatus \<Rightarrow> int \<Rightarrow> attempt_state" where
  "attempt_view st n =
     (if st \<in> {PENDING, RETRY_WAIT} then Waiting n else if st = JOB_RUNNING then Executing n else Ended n)"

definition job_view :: "JobRecord \<Rightarrow> attempt_state" where
  "job_view r = attempt_view (job_status r) (job_attempt_count r)"

lemma attempt_view_start:
  "st \<in> {PENDING, RETRY_WAIT} \<Longrightarrow> n < limit \<Longrightarrow>
     reach (attempt_step limit) (attempt_view st n) (attempt_view JOB_RUNNING (n + 1))"
  by (auto simp: attempt_view_def intro!: reach_single attempt_start)

lemma attempt_view_end:
  "attempts_ok st n limit \<Longrightarrow> st \<noteq> JOB_RUNNING \<Longrightarrow> 1 \<le> n \<Longrightarrow>
     reach (attempt_step limit) (attempt_view JOB_RUNNING n) (attempt_view st n)"
  by (cases st) (auto simp: attempt_view_def attempts_ok_def intro!: reach_single attempt_retry attempt_end)

text \<open>One record changed by a call of the repository.\<close>

definition record_step :: "JobRecord \<Rightarrow> JobRecord \<Rightarrow> bool" where
  "record_step r r' \<longleftrightarrow>
     job_id r' = job_id r \<and> descriptor_id r' = descriptor_id r \<and>
     job_generation r \<le> job_generation r' \<and>
     idempotency_key r' = safe_text 256 (idempotency_key r) \<and>
     (\<forall>p. policy_for (descriptor_id r) = Some p \<longrightarrow>
        reach (attempt_step (max_attempts p)) (job_view r) (job_view r'))"

lemma record_ok_changed:
  assumes "record_ok jid r" "JobRecord_post_init r1 = Inr r'"
    and "job_id r1 = job_id r" "descriptor_id r1 = descriptor_id r"
      "idempotency_key r1 = idempotency_key r" "job_generation r1 = job_attempt_count r1"
      "job_attempt_count r \<le> job_attempt_count r1"
    and "\<And>p. policy_for (descriptor_id r) = Some p \<Longrightarrow> attempts_ok (job_status r1) (job_attempt_count r1) (max_attempts p)"
    and "\<And>p. policy_for (descriptor_id r) = Some p \<Longrightarrow>
      reach (attempt_step (max_attempts p)) (attempt_view (job_status r) (job_attempt_count r))
        (attempt_view (job_status r1) (job_attempt_count r1))"
    and "finished (job_status r1) \<longleftrightarrow> job_finished_at r1 \<noteq> None"
    and "\<And>l. job_lease r1 = Some l \<Longrightarrow> jl_job_id l = jid \<and> jl_generation l = job_generation r1 \<and>
        jl_attempt_no l = job_attempt_count r1"
  shows "record_ok jid r'" "record_step r r'"
proof -
  note r' = record_post_init_Inr [OF assms(2)]
  obtain x where x: "idempotency_key r = safe_text 256 x" using assms(1) by (auto simp: record_ok_def)
  have "safe_text 256 (safe_text 256 (idempotency_key r)) = safe_text 256 (idempotency_key r)"
    unfolding x by (rule safe_text_thrice)
  then show "record_ok jid r'"
    using assms(1-8,10,11) r'(2-4) by (auto simp: record_ok_def r'(1))
  show "record_step r r'"
    using assms(1-7,9) by (auto simp: record_step_def r'(1) record_ok_def job_view_def)
qed

section \<open>Every call keeps them\<close>

definition repository_step :: "JobRepository \<Rightarrow> JobRepository \<Rightarrow> bool" where
  "repository_step s t \<longleftrightarrow>
     (\<forall>jid r. dict_get (records s) jid = Some r \<longrightarrow>
        (\<exists>r'. dict_get (records t) jid = Some r' \<and> (r' = r \<or> record_step r r')))"

lemma repository_step_refl: "repository_step s s"
  by (simp add: repository_step_def)

lemma repository_set:
  assumes "repository_ok repo" "record_ok jid r"
    and "\<And>r0. dict_get (records repo) jid = Some r0 \<Longrightarrow> record_step r0 r"
    and "records repo' = dict_set jid r (records repo)"
    and "next_id repo \<le> next_id repo'" "\<exists>n < next_id repo'. jid = job_name n"
  shows "repository_ok repo'" "repository_step repo repo'"
proof -
  have "\<exists>n < next_id repo'. x = job_name n" if "\<exists>n < next_id repo. x = job_name n" for x
    using that assms(5) order.strict_trans2 by blast
  then show "repository_ok repo'"
    using assms by (auto simp: repository_ok_def distinct_update)
  show "repository_step repo repo'" using assms by (simp add: repository_step_def)
qed

lemma job_claim_cases:
  assumes "job_claim name worker policy token now repo = (res, repo')"
  obtains (same) "repo' = repo" "\<And>x. res \<noteq> Inr (Some x)"
  | (claimed) d r l running where "require_descriptor name = Inr d"
      "r = hd (claim_candidates now (job_type d) repo)" "r \<in> set (claim_candidates now (job_type d) repo)"
      "JobLease_post_init \<lparr>jl_job_id = job_id r, jl_worker_id = worker, jl_owner_token = token,
         jl_generation = job_generation r + 1, jl_attempt_no = job_attempt_count r + 1,
         jl_expires_at = now + timedelta_seconds (lease_seconds policy)\<rparr> = Inr l"
      "JobRecord_post_init (r\<lparr>job_status := JOB_RUNNING, job_generation := job_generation r + 1,
         job_attempt_count := job_attempt_count r + 1, next_attempt_at := None, job_lease := Some l,
         job_failure := None, job_finished_at := None, job_updated_at := now\<rparr>) = Inr running"
      "res = Inr (Some (running, l))"
      "repo' = repo\<lparr>records := dict_set (job_id r) running (records repo),
                    mutation_count := mutation_count repo + 1\<rparr>"
proof (cases "require_descriptor name")
  case (Inl e)
  then show thesis using assms by (intro same) (auto simp: job_claim_def)
next
  case (Inr d)
  show thesis
  proof (cases "lifecycle d \<noteq> ACTIVE \<or> claim_candidates now (job_type d) repo = []")
    case True
    then show thesis using assms Inr by (intro same) (auto simp: job_claim_def split: if_splits)
  next
    case False
    then obtain r rest where cands: "claim_candidates now (job_type d) repo = r # rest"
      and active: "lifecycle d = ACTIVE" by (cases "claim_candidates now (job_type d) repo") auto
    let ?lease = "JobLease_post_init \<lparr>jl_job_id = job_id r, jl_worker_id = worker, jl_owner_token = token,
         jl_generation = job_generation r + 1, jl_attempt_no = job_attempt_count r + 1,
         jl_expires_at = now + timedelta_seconds (lease_seconds policy)\<rparr>"
    let ?rec = "\<lambda>l. JobRecord_post_init (r\<lparr>job_status := JOB_RUNNING,
         job_generation := job_generation r + 1, job_attempt_count := job_attempt_count r + 1,
         next_attempt_at := None, job_lease := Some l, job_failure := None,
         job_finished_at := None, job_updated_at := now\<rparr>)"
    note eval = job_claim_def Inr active cands Let_def
    show thesis
    proof (cases ?lease)
      case (Inl e)
      then show thesis using assms by (intro same) (auto simp: eval)
    next
      case lease: (Inr l)
      show thesis
      proof (cases "?rec l")
        case (Inl e)
        then show thesis using assms lease by (intro same) (auto simp: eval)
      next
        case (Inr running)
        then show thesis using assms lease \<open>require_descriptor name = Inr d\<close>
          by (intro claimed [of d r l running]) (auto simp: eval)
      qed
    qed
  qed
qed

lemma claim_candidates_mem:
  assumes "r \<in> set (claim_candidates now jtype repo)" "repository_ok repo"
  shows "dict_get (records repo) (job_id r) = Some r" "claimable now jtype r" "record_ok (job_id r) r"
proof -
  obtain jid where "(jid, r) \<in> set (records repo)" and cl: "claimable now jtype r"
    using assms(1) by (auto simp: claim_candidates_def)
  then have g: "dict_get (records repo) jid = Some r" using assms(2) by (simp add: repository_ok_def)
  then have "record_ok jid r" using assms(2) by (simp add: repository_ok_def)
  then show "dict_get (records repo) (job_id r) = Some r" "claimable now jtype r" "record_ok (job_id r) r"
    using g cl by (auto simp: record_ok_def)
qed

lemma claim_record_ok:
  assumes "record_ok jid r" "claimable now jtype r"
    and "JobLease_post_init \<lparr>jl_job_id = job_id r, jl_worker_id = worker, jl_owner_token = token,
         jl_generation = job_generation r + 1, jl_attempt_no = job_attempt_count r + 1,
         jl_expires_at = e\<rparr> = Inr l"
    and "JobRecord_post_init (r\<lparr>job_status := JOB_RUNNING, job_generation := job_generation r + 1,
         job_attempt_count := job_attempt_count r + 1, next_attempt_at := None, job_lease := Some l,
         job_failure := None, job_finished_at := None, job_updated_at := now\<rparr>) = Inr running"
  shows "record_ok jid running" "record_step r running"
proof -
  note lease = lease_post_init_Inr [OF assms(3)]
  have att: "attempts_ok JOB_RUNNING (job_attempt_count r + 1) (max_attempts p)"
    if "policy_for (descriptor_id r) = Some p" for p
    using assms(1,2) that policy_for_known [OF that]
    by (auto simp: record_ok_def claimable_def attempts_ok_def split: JobStatus.splits option.splits)
  have view: "reach (attempt_step (max_attempts p)) (attempt_view (job_status r) (job_attempt_count r))
      (attempt_view JOB_RUNNING (job_attempt_count r + 1))" if "policy_for (descriptor_id r) = Some p" for p
    using assms(2) att [OF that] by (intro attempt_view_start) (auto simp: claimable_def attempts_ok_def)
  show "record_ok jid running" "record_step r running"
    by (rule record_ok_changed [OF assms(1,4)]; use assms(1) att view lease in
        \<open>auto simp: finished_def record_ok_def\<close>)+
qed

text \<open>A call that replaces one stored record by a well-formed successor.\<close>

lemma repository_replace:
  assumes "repository_ok repo" "dict_get (records repo) jid = Some r0" "record_ok jid r" "record_step r0 r"
    and "repo' = repo\<lparr>records := dict_set jid r (records repo), mutation_count := m\<rparr>"
  shows "repository_ok repo' \<and> repository_step repo repo'"
proof -
  have "\<exists>n < next_id repo. jid = job_name n" using assms(1,2) by (simp add: repository_ok_def)
  then show ?thesis
    using repository_set [OF assms(1,3), of repo'] assms(2,4,5) by simp
qed

lemma job_claim_step:
  assumes "repository_ok repo" "job_claim name worker policy token now repo = (res, repo')"
  shows "repository_ok repo' \<and> repository_step repo repo'"
  using assms(2)
proof (cases rule: job_claim_cases)
  case same
  then show ?thesis using assms(1) by (simp add: repository_step_refl)
next
  case (claimed d r l running)
  note mem = claim_candidates_mem [OF claimed(3) assms(1)]
  show ?thesis
    by (rule repository_replace [OF assms(1) mem(1) claim_record_ok [OF mem(3,2) claimed(4,5)] claimed(7)])
qed

lemma require_lease_Inr:
  assumes "require_lease l now repo = Inr r" "repository_ok repo"
  shows "dict_get (records repo) (jl_job_id l) = Some r" "record_ok (jl_job_id l) r"
    "job_lease_matches r l now" "job_status r = JOB_RUNNING" "job_id r = jl_job_id l"
proof -
  show get: "dict_get (records repo) (jl_job_id l) = Some r" and m: "job_lease_matches r l now"
    using assms(1) by (auto simp: require_lease_def result_simps split: option.splits)
  show "record_ok (jl_job_id l) r" using get assms(2) by (simp add: repository_ok_def)
  then show "job_id r = jl_job_id l" by (simp add: record_ok_def)
  show "job_status r = JOB_RUNNING" using m by (auto simp: job_lease_matches_def split: option.splits)
qed

lemma record_ok_fields:
  assumes "record_ok jid r"
  shows "job_generation r = job_attempt_count r" "finished (job_status r) \<longleftrightarrow> job_finished_at r \<noteq> None"
    "\<And>p. policy_for (descriptor_id r) = Some p \<Longrightarrow>
       attempts_ok (job_status r) (job_attempt_count r) (max_attempts p)"
  using assms by (auto simp: record_ok_def)

lemma lease_fields:
  assumes "record_ok (jl_job_id l) r" "job_lease_matches r l now"
  shows "jl_generation l = job_generation r" "jl_attempt_no l = job_attempt_count r"
    "safe_text 128 (jl_job_id l) = jl_job_id l"
proof -
  obtain active where a: "job_lease r = Some active" "jl_generation active = jl_generation l"
    "jl_attempt_no active = jl_attempt_no l"
    using assms(2) by (auto simp: job_lease_matches_def split: option.splits)
  then show "jl_generation l = job_generation r" "jl_attempt_no l = job_attempt_count r"
    "safe_text 128 (jl_job_id l) = jl_job_id l"
    using assms(1) by (auto simp: record_ok_def)
qed

lemma job_heartbeat_step:
  assumes "repository_ok repo" "job_heartbeat l policy now repo = (res, repo')"
  shows "repository_ok repo' \<and> repository_step repo repo'"
proof (cases "repo' = repo")
  case True
  then show ?thesis using assms(1) by (simp add: repository_step_refl)
next
  case False
  then obtain current renewed r where cur: "require_lease l now repo = Inr current"
    and ren: "JobLease_post_init (l\<lparr>jl_expires_at := now + timedelta_seconds (lease_seconds policy)\<rparr>) = Inr renewed"
    and rec: "JobRecord_post_init (current\<lparr>job_lease := Some renewed, job_updated_at := now\<rparr>) = Inr r"
    and repo': "repo' = repo\<lparr>records := dict_set (job_id current) r (records repo),
        mutation_count := mutation_count repo + 1\<rparr>"
    using assms(2) by (auto simp: job_heartbeat_def split: sum.splits)
  note lease = require_lease_Inr [OF cur assms(1)]
  have "jl_job_id renewed = jl_job_id l" "jl_generation renewed = job_generation current"
    "jl_attempt_no renewed = job_attempt_count current"
    using lease_fields [OF lease(2,3)] by (simp_all add: lease_post_init_Inr [OF ren])
  then have "record_ok (jl_job_id l) r" "record_step current r"
    by (intro record_ok_changed [OF lease(2) rec]; simp add: record_ok_fields [OF lease(2)] reach_refl)+
  then show ?thesis
    using repository_replace [OF assms(1) lease(1)] lease(5) repo' by simp
qed

text \<open>A failed attempt waits for the next one only while the policy has attempts left.\<close>

lemma after_failure_ok:
  assumes "after_failure p f n now = Inr (st, nxt, fin)" "attempts_ok JOB_RUNNING n (max_attempts p)"
  shows "attempts_ok st n (max_attempts p)" "finished st \<longleftrightarrow> fin \<noteq> None" "st \<noteq> JOB_RUNNING"
    "st = RETRY_WAIT \<longleftrightarrow> nxt \<noteq> None"
  using assms
  by (auto simp: after_failure_def result_simps attempts_ok_def finished_def allows_retry_def split: if_splits)

lemma settled_state_ok:
  assumes "settled_state p result n now = Inr (st, nxt, fin, failure)"
    "attempts_ok JOB_RUNNING n (max_attempts p)"
  shows "attempts_ok st n (max_attempts p) \<and> (finished st \<longleftrightarrow> fin \<noteq> None) \<and> st \<noteq> JOB_RUNNING \<and>
    (st = RETRY_WAIT \<longleftrightarrow> nxt \<noteq> None)"
proof (cases "res_outcome result")
  case OUTCOME_FAILED
  then obtain f where "after_failure p f n now = Inr (st, nxt, fin)"
    using assms(1) by (auto simp: settled_state_def result_simps split: option.splits)
  from after_failure_ok [OF this assms(2)] show ?thesis by simp
qed (use assms in \<open>auto simp: settled_state_def attempts_ok_def finished_def\<close>)

text \<open>The record of a running job with the end of the attempt written into it.\<close>

lemma ended_record_ok:
  assumes "record_ok jid r" "policy_for (descriptor_id r) = Some p" "job_status r = JOB_RUNNING"
    and "attempts_ok st (job_attempt_count r) (max_attempts p)" "finished st \<longleftrightarrow> fin \<noteq> None"
      "st \<noteq> JOB_RUNNING"
    and "JobRecord_post_init (r\<lparr>job_status := st, job_lease := None, next_attempt_at := nxt,
           job_failure := f, job_result_ref := ref, job_finished_at := fin, job_updated_at := now\<rparr>) = Inr r'"
  shows "record_ok jid r' \<and> record_step r r'"
proof -
  have "1 \<le> job_attempt_count r"
    using record_ok_fields(3) [OF assms(1,2)] assms(3) by (simp add: attempts_ok_def)
  note view = attempt_view_end [OF assms(4,6) this]
  have "record_ok jid r'" "record_step r r'"
    by (intro record_ok_changed [OF assms(1,7)];
      use assms(2-5) view in \<open>simp add: record_ok_fields(1) [OF assms(1)]\<close>)+
  then show ?thesis ..
qed

lemma job_settle_cases:
  assumes "job_settle l result p now repo = (res, repo')"
  obtains (same) "repo' = repo" "\<exists>e. res = Inl e"
  | (settled) r st nxt fin failure r' where "require_lease l now repo = Inr r"
      "settled_state p result (job_attempt_count r) now = Inr (st, nxt, fin, failure)"
      "JobRecord_post_init (r\<lparr>job_status := st, job_lease := None, next_attempt_at := nxt,
         job_failure := failure, job_result_ref := res_result_ref result, job_finished_at := fin,
         job_updated_at := now\<rparr>) = Inr r'"
      "res = Inr r'"
      "repo' = repo\<lparr>records := dict_set (job_id r) r' (records repo),
                    mutation_count := mutation_count repo + 1\<rparr>"
proof (cases "require_lease l now repo")
  case (Inl e)
  then show thesis using assms by (intro same exI [of _ e]) (simp_all add: job_settle_def)
next
  case lease: (Inr r)
  show thesis
  proof (cases "settled_state p result (job_attempt_count r) now")
    case (Inl e)
    then show thesis using assms lease by (intro same exI [of _ e]) (simp_all add: job_settle_def)
  next
    case (Inr x)
    obtain st nxt fin failure where x: "x = (st, nxt, fin, failure)" by (cases x)
    let ?new = "JobRecord_post_init (r\<lparr>job_status := st, job_lease := None, next_attempt_at := nxt,
         job_failure := failure, job_result_ref := res_result_ref result, job_finished_at := fin,
         job_updated_at := now\<rparr>)"
    note eval = job_settle_def lease Inr x
    show thesis
    proof (cases ?new)
      case (Inl e)
      then show thesis using assms by (intro same exI [of _ e]) (simp_all add: eval)
    next
      case new: (Inr r')
      then show thesis using assms lease Inr x
        by (intro settled [of r st nxt fin failure r']) (auto simp: job_settle_def)
    qed
  qed
qed

lemma job_settle_step:
  assumes "repository_ok repo" "job_settle l result p now repo = (res, repo')"
    and "\<And>r. dict_get (records repo) (jl_job_id l) = Some r \<Longrightarrow> policy_for (descriptor_id r) = Some p"
  shows "repository_ok repo' \<and> repository_step repo repo'"
  using assms(2)
proof (cases rule: job_settle_cases)
  case same
  then show ?thesis using assms(1) by (simp add: repository_step_refl)
next
  case (settled r st nxt fin failure r')
  note lease = require_lease_Inr [OF settled(1) assms(1)]
  note pol = assms(3) [OF lease(1)]
  have "attempts_ok JOB_RUNNING (job_attempt_count r) (max_attempts p)"
    using record_ok_fields(3) [OF lease(2) pol] lease(4) by simp
  note ended = settled_state_ok [OF settled(2) this]
  have "record_ok (jl_job_id l) r' \<and> record_step r r'"
    by (rule ended_record_ok [OF lease(2) pol lease(4) _ _ _ settled(3)]) (use ended in auto)
  then show ?thesis using repository_replace [OF assms(1) lease(1)] settled(5) lease(5) by simp
qed

lemma record_step_trans:
  assumes "record_ok jid r" "record_step r r'" "record_step r' r''"
  shows "record_step r r''"
proof -
  obtain x where x: "idempotency_key r = safe_text 256 x" using assms(1) by (auto simp: record_ok_def)
  have "safe_text 256 (safe_text 256 (idempotency_key r)) = safe_text 256 (idempotency_key r)"
    unfolding x by (rule safe_text_thrice)
  moreover have "reach (attempt_step (max_attempts p)) (job_view r) (job_view r'')"
    if "policy_for (descriptor_id r) = Some p" for p
    using assms(2,3) that reach_trans unfolding record_step_def by metis
  ultimately show ?thesis using assms(2,3) by (auto simp: record_step_def)
qed

lemma repository_step_trans:
  assumes "repository_ok s" "repository_step s t" "repository_step t u"
  shows "repository_step s u"
  unfolding repository_step_def
proof (intro allI impI)
  fix jid r
  assume r: "dict_get (records s) jid = Some r"
  then obtain r' where r': "dict_get (records t) jid = Some r'" "r' = r \<or> record_step r r'"
    using assms(2) by (auto simp: repository_step_def)
  then obtain r'' where r'': "dict_get (records u) jid = Some r''" "r'' = r' \<or> record_step r' r''"
    using assms(3) by (auto simp: repository_step_def)
  have "record_ok jid r" using assms(1) r by (simp add: repository_ok_def)
  from record_step_trans [OF this] show "\<exists>r'. dict_get (records u) jid = Some r' \<and> (r' = r \<or> record_step r r')"
    using r' r'' by blast
qed

lemma recover_one_ok:
  assumes "record_ok jid r" "job_status r = JOB_RUNNING"
    and "recover_one require_job_retry_policy now r = Inr r'"
  shows "record_ok jid r' \<and> record_step r r'"
proof -
  obtain d p f st nxt fin where d: "require_descriptor (descriptor_id r) = Inr d"
    and p: "require_job_retry_policy (retry_policy_id d) = Inr p"
    and af: "after_failure p f (job_attempt_count r) now = Inr (st, nxt, fin)"
    and new: "JobRecord_post_init (r\<lparr>job_status := st, job_lease := None, next_attempt_at := nxt,
            job_failure := Some f, job_finished_at := fin, job_updated_at := now\<rparr>) = Inr r'"
    using assms(3) by (auto simp: recover_one_def result_simps split: prod.splits)
  have pol: "policy_for (descriptor_id r) = Some p" by (simp add: policy_for_def d p)
  have "attempts_ok JOB_RUNNING (job_attempt_count r) (max_attempts p)"
    using record_ok_fields(3) [OF assms(1) pol] assms(2) by simp
  note ended = after_failure_ok [OF af this]
  show ?thesis
    by (rule ended_record_ok [OF assms(1) pol assms(2) ended(1-3), where ref = "job_result_ref r"])
      (use new in \<open>simp add: JobRecord_post_init_def\<close>)
qed

lemma recover_loop_step:
  assumes "recover_loop require_job_retry_policy now due repo = (res, repo')" "repository_ok repo"
    and "distinct (map job_id due)"
    and "\<forall>r \<in> set due. dict_get (records repo) (job_id r) = Some r \<and> job_status r = JOB_RUNNING"
  shows "repository_ok repo' \<and> repository_step repo repo'"
  using assms
proof (induction due arbitrary: repo)
  case Nil
  then show ?case by (simp add: repository_step_refl)
next
  case (Cons r due)
  show ?case
  proof (cases "recover_one require_job_retry_policy now r")
    case (Inl e)
    then show ?thesis using Cons.prems by (simp add: repository_step_refl)
  next
    case (Inr r')
    let ?mid = "repo\<lparr>records := dict_set (job_id r) r' (records repo), mutation_count := mutation_count repo + 1\<rparr>"
    have get: "dict_get (records repo) (job_id r) = Some r" and run: "job_status r = JOB_RUNNING"
      using Cons.prems(4) by auto
    then have "record_ok (job_id r) r" using Cons.prems(2) by (simp add: repository_ok_def)
    note new = recover_one_ok [OF this run Inr]
    have mid: "repository_ok ?mid \<and> repository_step repo ?mid"
      by (rule repository_replace [OF Cons.prems(2) get]) (use new in auto)
    have rest: "\<forall>x \<in> set due. dict_get (records ?mid) (job_id x) = Some x \<and> job_status x = JOB_RUNNING"
    proof
      fix x
      assume x: "x \<in> set due"
      then have "job_id x \<noteq> job_id r" using Cons.prems(3) by (metis distinct.simps(2) image_eqI list.simps(9) list.set_map)
      then show "dict_get (records ?mid) (job_id x) = Some x \<and> job_status x = JOB_RUNNING"
        using Cons.prems(4) x by simp
    qed
    have "recover_loop require_job_retry_policy now due ?mid = (res, repo')"
      using Cons.prems(1) Inr by simp
    then have "repository_ok repo' \<and> repository_step ?mid repo'"
      by (rule Cons.IH [OF _ conjunct1 [OF mid] _ rest]) (use Cons.prems(3) in simp)
    with mid show ?thesis using repository_step_trans [OF Cons.prems(2)] by blast
  qed
qed

lemma due_records:
  assumes "repository_ok repo" "due = filter P (map snd (records repo))"
  shows "distinct (map job_id due)" "\<forall>r \<in> set due. dict_get (records repo) (job_id r) = Some r \<and> P r"
proof -
  have stored: "dict_get (records repo) jid = Some r \<and> job_id r = jid" if "(jid, r) \<in> set (records repo)" for jid r
    using assms(1) that by (auto simp: repository_ok_def record_ok_def)
  have "map (job_id \<circ> snd) (records repo) = map fst (records repo)"
    using stored by (intro map_cong) auto
  then have "distinct (map job_id (map snd (records repo)))"
    unfolding map_map using assms(1) by (simp only: repository_ok_def)
  then show "distinct (map job_id due)" unfolding assms(2) by (rule distinct_map_filter)
  show "\<forall>r \<in> set due. dict_get (records repo) (job_id r) = Some r \<and> P r"
    using stored by (auto simp: assms(2))
qed

lemma recover_expired_step:
  assumes "repository_ok repo" "recover_expired require_job_retry_policy now repo = (res, repo')"
  shows "repository_ok repo' \<and> repository_step repo repo'"
proof -
  define due where "due = filter (lease_expired now) (map snd (records repo))"
  note due = due_records [OF assms(1) due_def]
  obtain res1 where "recover_loop require_job_retry_policy now due repo = (res1, repo')"
    using assms(2) by (auto simp: recover_expired_def due_def Let_def split: sum.splits prod.splits)
  then show ?thesis
    by (rule recover_loop_step [OF _ assms(1) due(1)]) (use due(2) in \<open>auto simp: lease_expired_def\<close>)
qed

section \<open>Fresh identifiers\<close>

lemma digits_value_zeros: "digits_value (replicate k 48 @ ds) = digits_value ds"
proof -
  have "foldl (\<lambda>v c. 10 * v + (c - 48)) 0 (replicate k 48) = (0 :: nat)" by (induction k) simp_all
  then show ?thesis by (simp add: digits_value_def)
qed

lemma job_name_inj: "job_name m = job_name n \<Longrightarrow> m = n"
proof -
  assume "job_name m = job_name n"
  then have "digits_value (replicate (16 - length (py_digits m)) 48 @ py_digits m) =
             digits_value (replicate (16 - length (py_digits n)) 48 @ py_digits n)"
    by (simp add: job_name_def)
  then show ?thesis by (simp add: digits_value_zeros)
qed

lemma job_name_clean: "length (job_name n) \<le> 128 \<Longrightarrow> safe_text 128 (job_name n) = job_name n"
proof -
  assume len: "length (job_name n) \<le> 128"
  have vis: "\<forall>c \<in> set (job_name n). 33 \<le> c \<and> c < 127"
    using py_digits_digits [of n] by (auto simp: job_name_def lit_def is_digit_def)
  then have "py_strip (job_name n) = job_name n"
    by (intro py_strip_visible) (auto simp: py_isspace_def)
  moreover have "\<forall>c \<in> set (job_name n). 32 \<le> c" using vis by fastforce
  moreover have "job_name n \<noteq> []" by (simp add: job_name_def)
  ultimately have "clean_text 128 (job_name n)" using len by (simp add: clean_text_def)
  then show ?thesis by (rule safe_text_clean)
qed

lemma job_enqueue_cases:
  assumes "job_enqueue name key ref sha corr now repo = (res, repo')"
  obtains (same) "repo' = repo"
  | (rejected) e where "res = Inl e" "repo' = repo\<lparr>next_id := next_id repo + 1\<rparr>"
  | (created) d r where "require_descriptor name = Inr d"
      "dict_get (idempotency repo) (job_type d, py_strip key) = None"
      "JobRecord_post_init \<lparr>job_id = job_name (next_id repo), descriptor_id = job_type d,
         job_status = PENDING, job_generation = 0, job_attempt_count = 0, idempotency_key = key,
         payload_ref = ref, job_payload_sha256 = sha, job_correlation = corr, job_created_at = now,
         job_updated_at = now, next_attempt_at = None, job_lease = None, job_failure = None,
         job_result_ref = [], job_finished_at = None\<rparr> = Inr r"
      "res = Inr r"
      "repo' = repo\<lparr>records := dict_set (job_name (next_id repo)) r (records repo),
         idempotency := dict_set (job_type d, py_strip key) (job_name (next_id repo)) (idempotency repo),
         next_id := next_id repo + 1, mutation_count := mutation_count repo + 1\<rparr>"
proof (cases "require_descriptor name")
  case (Inl e)
  then show thesis using assms by (intro same) (auto simp: job_enqueue_def)
next
  case d: (Inr d)
  show thesis
  proof (cases "lifecycle d \<noteq> ACTIVE \<or> dict_get (idempotency repo) (job_type d, py_strip key) \<noteq> None")
    case True
    then show thesis using assms d
      by (intro same) (auto simp: job_enqueue_def split: if_splits option.splits)
  next
    case False
    let ?new = "JobRecord_post_init \<lparr>job_id = job_name (next_id repo), descriptor_id = job_type d,
         job_status = PENDING, job_generation = 0, job_attempt_count = 0, idempotency_key = key,
         payload_ref = ref, job_payload_sha256 = sha, job_correlation = corr, job_created_at = now,
         job_updated_at = now, next_attempt_at = None, job_lease = None, job_failure = None,
         job_result_ref = [], job_finished_at = None\<rparr>"
    show thesis
    proof (cases ?new)
      case (Inl e)
      then show thesis using assms False d by (intro rejected [of e]) (simp_all add: job_enqueue_def Let_def)
    next
      case (Inr r)
      then show thesis using assms False d by (intro created [of d r]) (auto simp: job_enqueue_def Let_def)
    qed
  qed
qed

lemma new_record_ok:
  assumes "require_descriptor name = Inr d" "length jid \<le> 128" "safe_text 128 jid = jid"
    and "JobRecord_post_init \<lparr>job_id = jid, descriptor_id = job_type d,
         job_status = PENDING, job_generation = 0, job_attempt_count = 0, idempotency_key = key,
         payload_ref = ref, job_payload_sha256 = sha, job_correlation = corr, job_created_at = now,
         job_updated_at = now, next_attempt_at = None, job_lease = None, job_failure = None,
         job_result_ref = [], job_finished_at = None\<rparr> = Inr r"
  shows "record_ok jid r"
proof -
  have mem: "d \<in> set job_descriptors" using require_descriptor_Inr [OF assms(1)] by simp
  note names = descriptor_names [OF mem]
  obtain p where p: "require_job_retry_policy (retry_policy_id d) = Inr p"
    using descriptor_policies(2) [OF mem] by blast
  have "policy_for (job_type d) = Some p" by (simp add: policy_for_def names(1) p)
  then show ?thesis
    using assms(3) names(3) record_post_init_Inr(1,4) [OF assms(4)]
    by (auto simp: record_ok_def attempts_ok_def finished_def)
qed

lemma job_enqueue_step:
  assumes "repository_ok repo" "job_enqueue name key ref sha corr now repo = (res, repo')"
    and "length (job_name (next_id repo)) \<le> 128"
  shows "repository_ok repo' \<and> repository_step repo repo'"
  using assms(2)
proof (cases rule: job_enqueue_cases)
  case same
  then show ?thesis using assms(1) by (simp add: repository_step_refl)
next
  case (rejected e)
  have "\<exists>n < next_id repo'. x = job_name n" if "\<exists>n < next_id repo. x = job_name n" for x
    using that rejected by (auto intro: less_SucI)
  then show ?thesis
    using assms(1) rejected by (simp add: repository_ok_def repository_step_def)
next
  case (created d r)
  have ok: "record_ok (job_name (next_id repo)) r"
    by (rule new_record_ok [OF created(1) assms(3) job_name_clean [OF assms(3)] created(3)])
  have "dict_get (records repo) (job_name (next_id repo)) = None"
  proof (rule ccontr)
    assume "dict_get (records repo) (job_name (next_id repo)) \<noteq> None"
    then have "\<exists>n < next_id repo. job_name (next_id repo) = job_name n"
      using assms(1) unfolding repository_ok_def by blast
    then obtain n where "n < next_id repo" "job_name (next_id repo) = job_name n" by blast
    then show False using job_name_inj by blast
  qed
  then show ?thesis using repository_set [OF assms(1) ok, of repo'] created(5) by auto
qed

section \<open>Histories of the repository\<close>

text \<open>
  One call by any process. A lease is settled under the retry policy of its job's type, as the
  kernel does. An identifier longer than 128 characters would be cut in its record; it takes
  more than ten to the 120 jobs to get there.
\<close>

inductive job_step :: "JobRepository \<Rightarrow> JobRepository \<Rightarrow> bool" where
  enqueue: "length (job_name (next_id s)) \<le> 128 \<Longrightarrow>
    job_enqueue name key ref sha corr now s = (res, t) \<Longrightarrow> job_step s t"
| claim: "job_claim name worker policy token now s = (res', t) \<Longrightarrow> job_step s t"
| heartbeat: "job_heartbeat l policy now s = (res'', t) \<Longrightarrow> job_step s t"
| settle: "(\<And>r. dict_get (records s) (jl_job_id l) = Some r \<Longrightarrow> policy_for (descriptor_id r) = Some p) \<Longrightarrow>
    job_settle l result p now s = (res, t) \<Longrightarrow> job_step s t"
| recover: "recover_expired require_job_retry_policy now s = (n, t) \<Longrightarrow> job_step s t"

lemma job_step_ok:
  assumes "job_step s t" "repository_ok s"
  shows "repository_ok t \<and> repository_step s t"
  using assms
proof cases
  case enqueue
  then show ?thesis by (intro job_enqueue_step [OF assms(2)])
next
  case settle
  then show ?thesis by (intro job_settle_step [OF assms(2)])
qed (auto dest: job_claim_step job_heartbeat_step recover_expired_step)

text \<open>The index of idempotency keys leads to stored records and is only ever extended.\<close>

definition index_ok :: "JobRepository \<Rightarrow> bool" where
  "index_ok repo \<longleftrightarrow>
     (\<forall>k jid. dict_get (idempotency repo) k = Some jid \<longrightarrow> dict_get (records repo) jid \<noteq> None)"

definition repository_inv :: "JobRepository \<Rightarrow> bool" where
  "repository_inv repo \<longleftrightarrow> repository_ok repo \<and> index_ok repo"

lemma recover_loop_index:
  "recover_loop resolver now due repo = (res, repo') \<Longrightarrow> idempotency repo' = idempotency repo"
  by (induction due arbitrary: repo) (auto split: sum.splits)

lemma same_index:
  "job_claim name worker policy token now s = (res, t) \<Longrightarrow> idempotency t = idempotency s"
  "job_heartbeat l policy now s = (res', t) \<Longrightarrow> idempotency t = idempotency s"
  "job_settle l result p now s = (res'', t) \<Longrightarrow> idempotency t = idempotency s"
  "recover_expired resolver now s = (n, t) \<Longrightarrow> idempotency t = idempotency s"
proof -
  show "idempotency t = idempotency s" if "job_claim name worker policy token now s = (res, t)"
    using that by (cases rule: job_claim_cases) auto
  show "idempotency t = idempotency s" if "job_heartbeat l policy now s = (res', t)"
    using that by (auto simp: job_heartbeat_def split: sum.splits)
  show "idempotency t = idempotency s" if "job_settle l result p now s = (res'', t)"
    using that by (cases rule: job_settle_cases) auto
  show "idempotency t = idempotency s" if "recover_expired resolver now s = (n, t)"
    using that by (auto simp: recover_expired_def Let_def dest: recover_loop_index
        split: sum.splits prod.splits)
qed

lemma enqueue_index:
  assumes "job_enqueue name key ref sha corr now s = (res, t)"
  shows "dict_get (idempotency s) k = Some jid \<Longrightarrow> dict_get (idempotency t) k = Some jid"
    and "index_ok s \<Longrightarrow> index_ok t"
proof -
  show "dict_get (idempotency t) k = Some jid" if "dict_get (idempotency s) k = Some jid"
    using assms that by (cases rule: job_enqueue_cases) auto
  show "index_ok t" if "index_ok s"
    using assms that by (cases rule: job_enqueue_cases) (auto simp: index_ok_def)
qed

lemma index_ok_kept:
  assumes "repository_step s t" "idempotency t = idempotency s" "index_ok s"
  shows "index_ok t"
  unfolding index_ok_def
proof (intro allI impI)
  fix k jid
  assume "dict_get (idempotency t) k = Some jid"
  then have "dict_get (records s) jid \<noteq> None" using assms(2,3) unfolding index_ok_def by metis
  then obtain r where "dict_get (records s) jid = Some r" by blast
  then show "dict_get (records t) jid \<noteq> None" using assms(1) unfolding repository_step_def by blast
qed

lemma job_step_index:
  assumes "job_step s t"
  shows "dict_get (idempotency s) k = Some jid \<Longrightarrow> dict_get (idempotency t) k = Some jid"
    and "repository_inv s \<Longrightarrow> repository_inv t"
proof -
  show "dict_get (idempotency t) k = Some jid" if "dict_get (idempotency s) k = Some jid"
    using assms that
    by cases (simp_all add: enqueue_index(1) same_index)
  assume inv: "repository_inv s"
  then have ok: "repository_ok t \<and> repository_step s t"
    using job_step_ok [OF assms] by (simp add: repository_inv_def)
  have idx: "index_ok s" using inv by (simp add: repository_inv_def)
  have "index_ok t"
    using assms
  proof cases
    case enqueue
    then show ?thesis using enqueue_index(2) idx by blast
  qed (rule index_ok_kept [OF conjunct2 [OF ok] _ idx], erule same_index)+
  with ok show "repository_inv t" by (simp add: repository_inv_def)
qed

section \<open>The contracts of the repository\<close>

definition job_generation_of :: "JobRepository \<Rightarrow> pystr \<Rightarrow> int" where
  "job_generation_of repo jid =
     (case dict_get (records repo) jid of None \<Rightarrow> 0 | Some r \<Rightarrow> job_generation r)"

text \<open>The key that the attempts of a job have been given, once there has been one.\<close>

definition side_effect_key :: "JobRepository \<Rightarrow> pystr \<Rightarrow> pystr option" where
  "side_effect_key repo jid =
     (case dict_get (records repo) jid of
        None \<Rightarrow> None
      | Some r \<Rightarrow> if job_attempt_count r > 0 then Some (idempotency_key r) else None)"

lemma record_ok_generation: "record_ok jid r \<Longrightarrow> job_generation r = job_attempt_count r \<and> 0 \<le> job_attempt_count r"
proof -
  have nonneg: "0 \<le> n" if "attempts_ok st n limit" for st n limit
    using that by (auto simp: attempts_ok_def split: JobStatus.splits)
  assume ok: "record_ok jid r"
  then show ?thesis using record_ok_fields(1) [OF ok] by (auto simp: record_ok_def dest!: nonneg)
qed

lemma repository_ok_get: "repository_ok s \<Longrightarrow> dict_get (records s) jid = Some r \<Longrightarrow> record_ok jid r"
  by (simp add: repository_ok_def)

lemma record_ok_lease: "record_ok jid r \<Longrightarrow> job_lease r = Some l \<Longrightarrow> jl_job_id l = jid \<and> jl_generation l = job_generation r"
  unfolding record_ok_def by blast

lemma record_ok_key: "record_ok jid r \<Longrightarrow> job_attempt_count r > 0 \<Longrightarrow> safe_text 256 (idempotency_key r) = idempotency_key r"
  unfolding record_ok_def by blast

lemma stored_record:
  assumes "job_step s t" "repository_inv s" "dict_get (records s) jid = Some r"
  obtains r' where "dict_get (records t) jid = Some r'" "record_ok jid r" "record_ok jid r'"
    "r' = r \<or> record_step r r'"
proof -
  have ok: "repository_ok s" "repository_ok t" "repository_step s t"
    using assms(2) job_step_ok [OF assms(1)] by (auto simp: repository_inv_def)
  then obtain r' where "dict_get (records t) jid = Some r'" "r' = r \<or> record_step r r'"
    using assms(3) unfolding repository_step_def by blast
  with ok assms(3) show thesis by (intro that repository_ok_get) simp_all
qed

lemma job_generation_kept:
  assumes "job_step s t" "repository_inv s"
  shows "job_generation_of s jid \<le> job_generation_of t jid"
proof (cases "dict_get (records s) jid")
  case None
  have "repository_ok t" using job_step_ok [OF assms(1)] assms(2) by (simp add: repository_inv_def)
  then have "0 \<le> job_generation r" if "dict_get (records t) jid = Some r" for r
    using record_ok_generation [OF repository_ok_get [OF _ that]] by simp
  then show ?thesis using None by (simp add: job_generation_of_def split: option.splits)
next
  case (Some r)
  from stored_record [OF assms Some] obtain r' where "dict_get (records t) jid = Some r'"
    "r' = r \<or> record_step r r'" by blast
  then show ?thesis using Some by (auto simp: job_generation_of_def record_step_def)
qed

lemma side_effect_key_kept:
  assumes "job_step s t" "repository_inv s" "side_effect_key s jid = Some key"
  shows "side_effect_key t jid = Some key"
proof -
  obtain r where r: "dict_get (records s) jid = Some r" "job_attempt_count r > 0" "idempotency_key r = key"
    using assms(3) by (auto simp: side_effect_key_def split: option.splits if_splits)
  from stored_record [OF assms(1,2) r(1)] obtain r' where r': "dict_get (records t) jid = Some r'"
    "record_ok jid r" "record_ok jid r'" "r' = r \<or> record_step r r'" .
  have "safe_text 256 key = key" using r'(2) r(2,3) by (simp add: record_ok_def)
  moreover have "job_attempt_count r' > 0"
    using r'(4) r(2) record_ok_generation [OF r'(2)] record_ok_generation [OF r'(3)]
    by (auto simp: record_step_def)
  ultimately show ?thesis using r' r(3) by (auto simp: side_effect_key_def record_step_def)
qed

interpretation job_keys: write_once job_step repository_inv side_effect_key
  by unfold_locales (auto intro: job_step_index(2) side_effect_key_kept)

interpretation job_index: write_once job_step repository_inv "\<lambda>s. dict_get (idempotency s)"
  by unfold_locales (rule job_step_index(1))

interpretation job_generations: monotone_counter job_step repository_inv job_generation_of
  by unfold_locales (rule job_generation_kept)

lemma repository_inv_empty [simp]: "repository_inv empty_repository"
  by (simp add: repository_inv_def repository_ok_def index_ok_def empty_repository_def)

lemmas job_reachable_inv = job_keys.reach_inv [OF _ repository_inv_empty]

lemma claimed_record:
  assumes "repository_inv s" "job_claim name worker policy token now s = (Inr (Some (r, l)), t)"
  shows "dict_get (records t) (job_id r) = Some r \<and> record_ok (job_id r) r \<and> job_lease r = Some l \<and>
    job_status r = JOB_RUNNING \<and> job_attempt_count r > 0 \<and> idempotency_key r \<noteq> [] \<and>
    job_generation_of s (job_id r) = job_generation r - 1"
  using assms(2)
proof (cases rule: job_claim_cases)
  case (claimed d r0 l0 running)
  have ok: "repository_ok s" using assms(1) by (simp add: repository_inv_def)
  note mem = claim_candidates_mem [OF claimed(3) ok]
  note rec = claim_record_ok [OF mem(3,2) claimed(4,5)]
  have eq: "running = r" "l0 = l" using claimed(6) by auto
  note post = record_post_init_Inr [OF claimed(5), unfolded eq]
  have ids: "job_id r = job_id r0" using rec(1) eq by (simp add: record_ok_def)
  then have "dict_get (records t) (job_id r) = Some r" and "record_ok (job_id r) r"
    using claimed(7) rec(1) eq by auto
  moreover have "job_lease r = Some l" "job_status r = JOB_RUNNING" "idempotency_key r \<noteq> []"
    using post(5) by (simp_all add: post(1))
  moreover have "job_attempt_count r > 0" using record_ok_generation [OF mem(3)] by (simp add: post(1))
  moreover have "job_generation_of s (job_id r) = job_generation r - 1"
    unfolding ids using mem(1) by (simp add: job_generation_of_def post(1))
  ultimately show ?thesis by simp
qed auto

lemmas claimed_stored = claimed_record [THEN conjunct1]
  and claimed_ok = claimed_record [THEN conjunct2, THEN conjunct1]
  and claimed_lease = claimed_record [THEN conjunct2, THEN conjunct2, THEN conjunct1]
  and claimed_rest = claimed_record [THEN conjunct2, THEN conjunct2, THEN conjunct2]

lemma reach_repository_step:
  assumes "reach job_step s t" "repository_inv s"
  shows "repository_step s t"
  using assms
proof (induction rule: reach.induct)
  case (reach_step s t u)
  have "repository_ok s" "repository_ok t"
    using reach_step.prems job_keys.reach_inv [OF reach_step.hyps(1)] by (auto simp: repository_inv_def)
  then show ?case
    using reach_step.IH [OF reach_step.prems] job_step_ok [OF reach_step.hyps(2)]
    by (blast intro: repository_step_trans)
qed (rule repository_step_refl)

text \<open>A lease of an older generation than the stored record is refused.\<close>

lemma old_generation_rejected:
  assumes "jl_generation l < job_generation_of s (jl_job_id l)" "repository_inv s"
  shows "require_lease l now s = Inl JobLeaseLost"
proof (cases "dict_get (records s) (jl_job_id l)")
  case None
  then show ?thesis by (simp add: require_lease_def)
next
  case (Some r)
  have ok: "record_ok (jl_job_id l) r"
    using assms(2) Some by (auto simp: repository_inv_def intro: repository_ok_get)
  have "job_generation r \<noteq> jl_generation l" using assms(1) by (simp add: job_generation_of_def Some)
  then have "\<not> job_lease_matches r l now" using lease_fields(1) [OF ok] by metis
  then show ?thesis by (simp add: require_lease_def Some)
qed

section \<open>When calls succeed\<close>

lemma required_ok: "safe_text n v \<noteq> [] \<Longrightarrow> required n v = Inr (safe_text n v)"
  by (simp add: required_Inr)

lemma record_post_init_succeeds:
  assumes "safe_text 128 (job_id r) \<noteq> []" "safe_text 128 (descriptor_id r) \<noteq> []"
    and "safe_text 256 (idempotency_key r) \<noteq> []" "safe_text 512 (payload_ref r) \<noteq> []"
    and "hex64 (job_payload_sha256 r)" "0 \<le> job_generation r" "0 \<le> job_attempt_count r"
    and "job_status r = JOB_RUNNING \<longleftrightarrow> job_lease r \<noteq> None"
    and "job_status r = RETRY_WAIT \<longleftrightarrow> next_attempt_at r \<noteq> None"
  shows "\<exists>r'. JobRecord_post_init r = Inr r'"
proof -
  have sha: "clean_text 64 (job_payload_sha256 r)" using assms(5) by (rule hex64_clean)
  then have "safe_text 64 (job_payload_sha256 r) = job_payload_sha256 r" "job_payload_sha256 r \<noteq> []"
    by (auto simp: safe_text_clean clean_text_def)
  then have "required 64 (job_payload_sha256 r) = Inr (job_payload_sha256 r)" by (simp add: required_Inr)
  then show ?thesis
    unfolding JobRecord_post_init_def using assms(5-9)
    by (simp add: required_ok [OF assms(1)] required_ok [OF assms(2)] required_ok [OF assms(3)]
        required_ok [OF assms(4)])
qed

lemma job_name_not_Nil [simp]: "job_name n \<noteq> []"
  by (simp add: job_name_def lit_def)

lemma job_types_not_Nil: "d \<in> set job_descriptors \<Longrightarrow> job_type d \<noteq> []"
proof -
  assume "d \<in> set job_descriptors"
  then have "job_type d \<in> set (map job_type job_descriptors)" by simp
  then show ?thesis unfolding job_types by (auto simp: lit_def)
qed

lemma stored_names:
  assumes "repository_ok s" "dict_get (records s) jid = Some r"
  shows "safe_text 128 (job_id r) \<noteq> []" "safe_text 128 (descriptor_id r) \<noteq> []"
    "hex64 (job_payload_sha256 r)" "job_generation r = job_attempt_count r" "0 \<le> job_attempt_count r"
proof -
  have ok: "record_ok jid r" using repository_ok_get [OF assms] .
  show "hex64 (job_payload_sha256 r)" using ok unfolding record_ok_def by blast
  show "job_generation r = job_attempt_count r" "0 \<le> job_attempt_count r"
    using record_ok_generation [OF ok] by simp_all
  obtain n where "jid = job_name n" using assms unfolding repository_ok_def by blast
  then show "safe_text 128 (job_id r) \<noteq> []" using ok unfolding record_ok_def by auto
  obtain p where "policy_for (descriptor_id r) = Some p" and clean: "safe_text 128 (descriptor_id r) = descriptor_id r"
    using ok unfolding record_ok_def by blast
  then obtain d where "require_descriptor (descriptor_id r) = Inr d"
    by (auto simp: policy_for_def split: sum.splits)
  from require_descriptor_Inr [OF this] have "py_strip (descriptor_id r) \<noteq> []" using job_types_not_Nil by auto
  then have "descriptor_id r \<noteq> []" by (auto simp: py_strip_def)
  then show "safe_text 128 (descriptor_id r) \<noteq> []" using clean by simp
qed

lemma descriptors_active: "d \<in> set job_descriptors \<Longrightarrow> lifecycle d = ACTIVE"
  by (auto simp: job_descriptors_def job_descriptor_def Let_def)

lemma job_claim_succeeds:
  assumes "repository_inv s" "require_descriptor name = Inr d" "claim_candidates now (job_type d) s = r # rest"
    and "safe_text 128 worker \<noteq> []" "safe_text 128 token \<noteq> []"
    and "safe_text 256 (idempotency_key r) \<noteq> []" "safe_text 512 (payload_ref r) \<noteq> []"
  obtains running l s1 where
    "job_claim name worker policy token now s = (Inr (Some (running, l)), s1)"
    "job_id running = job_id r" "descriptor_id running = job_type d"
    "job_attempt_count running = job_attempt_count r + 1"
    "payload_ref running = safe_text 512 (payload_ref r)"
    "jl_expires_at l = now + timedelta_seconds (lease_seconds policy)"
proof -
  have ok: "repository_ok s" using assms(1) by (simp add: repository_inv_def)
  have mem: "dict_get (records s) (job_id r) = Some r" "claimable now (job_type d) r"
    using claim_candidates_mem [OF _ ok, of r now "job_type d"] assms(3) by auto
  note names = stored_names [OF ok mem(1)]
  have dd: "descriptor_id r = job_type d" using mem(2) by (simp add: claimable_def)
  have d: "d \<in> set job_descriptors" using require_descriptor_Inr [OF assms(2)] by simp
  let ?raw = "\<lparr>jl_job_id = job_id r, jl_worker_id = worker, jl_owner_token = token,
         jl_generation = job_generation r + 1, jl_attempt_no = job_attempt_count r + 1,
         jl_expires_at = now + timedelta_seconds (lease_seconds policy)\<rparr>"
  obtain l where l: "JobLease_post_init ?raw = Inr l"
    using names by (simp add: JobLease_post_init_def required_ok assms(4,5))
  let ?run = "r\<lparr>job_status := JOB_RUNNING, job_generation := job_generation r + 1,
         job_attempt_count := job_attempt_count r + 1, next_attempt_at := None, job_lease := Some l,
         job_failure := None, job_finished_at := None, job_updated_at := now\<rparr>"
  obtain running where run: "JobRecord_post_init ?run = Inr running"
    using record_post_init_succeeds [of ?run] names assms(6,7) by auto
  have rok: "record_ok (job_id r) r" by (rule repository_ok_get [OF ok mem(1)])
  have "job_id running = job_id r" "descriptor_id running = job_type d"
    using claim_record_ok(2) [OF rok mem(2) l run] dd by (auto simp: record_step_def)
  moreover have "job_attempt_count running = job_attempt_count r + 1"
    "payload_ref running = safe_text 512 (payload_ref r)"
    by (simp_all add: record_post_init_Inr(1) [OF run])
  moreover have "jl_expires_at l = now + timedelta_seconds (lease_seconds policy)"
    by (simp add: lease_post_init_Inr [OF l])
  moreover have "job_claim name worker policy token now s = (Inr (Some (running, l)),
      s\<lparr>records := dict_set (job_id r) running (records s), mutation_count := mutation_count s + 1\<rparr>)"
    by (simp add: job_claim_def assms(2,3) descriptors_active [OF d] l run Let_def)
  ultimately show thesis by (intro that)
qed

lemma retry_limits: "list_all (\<lambda>p. backoff_multiplier p = 2 \<and> max_attempts p \<le> 5) retry_policies"
  by (simp add: retry_policies_def retry_policy_def)

lemma delay_defined:
  assumes "p \<in> set retry_policies" "1 \<le> n" "n < max_attempts p"
  shows "\<exists>delay. delay_seconds p n = Inr delay"
proof -
  have p: "backoff_multiplier p = 2" "max_attempts p \<le> 5"
    using retry_limits assms(1) by (auto simp: list_all_iff)
  then have "nat (n - 1) \<le> 4" using assms(3) by simp
  then have "(2 :: rat) ^ nat (n - 1) \<le> 2 ^ 4" by (intro power_increasing) auto
  also have "\<dots> < float_overflow" by (simp add: float_overflow_def)
  finally show ?thesis using assms(2) by (simp add: delay_seconds_def p Let_def)
qed

lemma settled_state_defined:
  assumes "p \<in> set retry_policies" "1 \<le> n" "JobResult_post_init res0 = Inr result"
  shows "\<exists>x. settled_state p result n now = Inr x"
proof (cases "res_outcome result")
  case OUTCOME_FAILED
  then obtain f where f: "res_failure result = Some f"
    using assms(3) by (auto simp: JobResult_post_init_def result_simps)
  have "\<exists>y. after_failure p f n now = Inr y"
    using delay_defined [OF assms(1,2)] by (auto simp: after_failure_def allows_retry_def)
  then show ?thesis using OUTCOME_FAILED f by (auto simp: settled_state_def)
qed (auto simp: settled_state_def)

lemma schedule_leases: "list_all (\<lambda>p. 1 \<le> lease_seconds p) schedule_policies"
  by (simp add: schedule_policies_def)

lemma job_settle_succeeds:
  assumes "repository_inv s" "dict_get (records s) (jl_job_id l) = Some r" "job_lease r = Some l"
    and "job_status r = JOB_RUNNING" "jl_expires_at l > now" "policy_for (descriptor_id r) = Some p"
    and "p \<in> set retry_policies" "JobResult_post_init res0 = Inr result"
    and "safe_text 256 (idempotency_key r) \<noteq> []" "safe_text 512 (payload_ref r) \<noteq> []"
  obtains settled s1 where "job_settle l result p now s = (Inr settled, s1)"
    "dict_get (records s1) (jl_job_id l) = Some settled" "job_id settled = jl_job_id l"
    "job_attempt_count settled = job_attempt_count r"
    "finished (job_status settled) \<or> job_status settled = RETRY_WAIT \<and> job_attempt_count settled < max_attempts p"
proof -
  have ok: "repository_ok s" using assms(1) by (simp add: repository_inv_def)
  note rok = repository_ok_get [OF ok assms(2)] and names = stored_names [OF ok assms(2)]
  have jid: "job_id r = jl_job_id l" using rok by (simp add: record_ok_def)
  have lease: "require_lease l now s = Inr r"
    using assms(3-5) by (simp add: require_lease_def assms(2) job_lease_matches_def)
  have att: "attempts_ok JOB_RUNNING (job_attempt_count r) (max_attempts p)"
    using record_ok_fields(3) [OF rok assms(6)] assms(4) by simp
  then have one: "1 \<le> job_attempt_count r" by (simp add: attempts_ok_def)
  then obtain st nxt fin failure where
    st: "settled_state p result (job_attempt_count r) now = Inr (st, nxt, fin, failure)"
    using settled_state_defined [OF assms(7) _ assms(8), of "job_attempt_count r" now] by (metis prod_cases4)
  note ended = settled_state_ok [OF st att]
  let ?new = "r\<lparr>job_status := st, job_lease := None, next_attempt_at := nxt, job_failure := failure,
       job_result_ref := res_result_ref result, job_finished_at := fin, job_updated_at := now\<rparr>"
  obtain settled where new: "JobRecord_post_init ?new = Inr settled"
    using record_post_init_succeeds [of ?new] names ended assms(9,10) by auto
  have run: "job_settle l result p now s = (Inr settled, s\<lparr>records := dict_set (jl_job_id l) settled (records s),
      mutation_count := mutation_count s + 1\<rparr>)"
    by (simp add: job_settle_def lease st new jid)
  have eqs: "job_status settled = st" "job_attempt_count settled = job_attempt_count r"
    by (simp_all add: record_post_init_Inr(1) [OF new])
  have "record_ok (jl_job_id l) settled \<and> record_step r settled"
    by (rule ended_record_ok [OF rok assms(6,4) _ _ _ new]) (use ended in auto)
  then have "job_id settled = jl_job_id l" by (simp add: record_ok_def)
  moreover have "finished st \<or> st = RETRY_WAIT \<and> job_attempt_count r < max_attempts p"
    using ended one by (cases st) (auto simp: finished_def attempts_ok_def)
  ultimately show thesis using run eqs by (intro that [OF run]) auto
qed

lemma stored_payload:
  assumes "repository_inv s" "dict_get (records s) jid = Some r"
  shows "safe_text 512 (safe_text 512 (payload_ref r)) = safe_text 512 (payload_ref r)"
proof -
  have "record_ok jid r" using assms by (auto simp: repository_inv_def intro: repository_ok_get)
  then obtain x where "payload_ref r = safe_text 512 x" unfolding record_ok_def by blast
  then show ?thesis by (simp only: safe_text_thrice)
qed

end
