(* ===== verification/Job_Kernel_Properties.thy ===== *)
theory Job_Kernel_Properties
  imports Job_Kernel_Correct
begin

text \<open>
  What the job kernel promises: attempts are bounded and refine the abstract job, attempts of one
  job share a side-effect key, a superseded lease can do nothing, one step of the kernel settles the
  oldest due job, and one kind of record blocks the queue.
\<close>

section \<open>A concrete history\<close>

text \<open>One job of type \<open>memory_digest\<close>: enqueued, claimed, failed with a timeout, claimed again.\<close>

definition demo_correlation :: JobCorrelation where
  "demo_correlation = \<lparr>jc_request_id = [], jc_session_id = [], jc_turn_id = [], jc_trace_id = [],
     jc_run_id = [], jc_task_id = [], jc_tool_call_id = [], jc_delivery_id = [], jc_parent_job_id = []\<rparr>"

definition demo_job :: "int \<Rightarrow> JobStatus \<Rightarrow> datetime \<Rightarrow> datetime option \<Rightarrow> JobLease option \<Rightarrow> JobFailure option
    \<Rightarrow> datetime option \<Rightarrow> JobRecord" where
  "demo_job n st u nxt l f fin =
     \<lparr>job_id = job_name (Suc 0), descriptor_id = lit ''memory_digest'', job_status = st, job_generation = n,
      job_attempt_count = n, idempotency_key = lit ''k'', payload_ref = lit ''ref'',
      job_payload_sha256 = replicate 64 48, job_correlation = demo_correlation, job_created_at = 0,
      job_updated_at = u, next_attempt_at = nxt, job_lease = l, job_failure = f, job_result_ref = [],
      job_finished_at = fin\<rparr>"

definition demo_lease :: "int \<Rightarrow> datetime \<Rightarrow> JobLease" where
  "demo_lease n e =
     \<lparr>jl_job_id = job_name (Suc 0), jl_worker_id = lit ''w'', jl_owner_token = lit ''t'', jl_generation = n,
      jl_attempt_no = n, jl_expires_at = e\<rparr>"

definition demo_repo :: "nat \<Rightarrow> JobRecord \<Rightarrow> JobRepository" where
  "demo_repo m r = \<lparr>records = [(job_name (Suc 0), r)],
     idempotency = [((lit ''memory_digest'', lit ''k''), job_name (Suc 0))], next_id = Suc (Suc 0), mutation_count = m\<rparr>"

definition demo_failure :: JobFailure where
  "demo_failure = \<lparr>jf_code = lit ''slow'', jf_category = TIMEOUT, jf_retryable = True,
     jf_safe_summary = lit ''slow'', jf_cause_type = [], jf_trace_ref = []\<rparr>"

lemma demo_name_short: "length (job_name (Suc 0)) \<le> 128"
  by (simp add: job_name_def py_digits.simps lit_def)

lemma demo_safe [simp]: "safe_text 128 (job_name (Suc 0)) = job_name (Suc 0)"
  by (rule job_name_clean [OF demo_name_short])

lemma demo_texts [simp]:
  "safe_text 128 (lit ''memory_digest'') = lit ''memory_digest''" "safe_text 256 (lit ''k'') = lit ''k''"
  "safe_text 512 (lit ''ref'') = lit ''ref''" "safe_text 64 (replicate 64 48) = replicate 64 48"
  "safe_text 128 (lit ''w'') = lit ''w''" "safe_text 128 (lit ''t'') = lit ''t''" "safe_text 512 [] = []"
  "py_strip (lit ''k'') = lit ''k''" "hex64 (replicate 64 48)"
proof -
  show "hex64 (replicate 64 48)" by (simp add: hex64_def list_all_iff hex_digit_def)
  then show "safe_text 64 (replicate 64 48) = replicate 64 48" by (intro safe_text_clean hex64_clean)
qed (simp_all add: safe_text_def lit_visible, simp_all add: lit_def no_control_def py_strip_def)

definition demo_descriptor :: JobDescriptor where
  "demo_descriptor = job_descriptor (lit ''memory_digest'') (lit ''background.long.v1'') (lit ''memory_digest.v1'') KERNEL False"

lemma demo_descriptor [simp]: "require_descriptor (lit ''memory_digest'') = Inr demo_descriptor"
  "job_type demo_descriptor = lit ''memory_digest''" "lifecycle demo_descriptor = ACTIVE"
  "retry_policy_id demo_descriptor = lit ''memory_digest.v1''"
proof -
  have "demo_descriptor \<in> set job_descriptors" by (simp add: job_descriptors_def demo_descriptor_def Let_def)
  from descriptor_names(1) [OF this] show "require_descriptor (lit ''memory_digest'') = Inr demo_descriptor"
    by (simp add: demo_descriptor_def job_descriptor_def)
qed (simp_all add: demo_descriptor_def job_descriptor_def)

abbreviation demo_policy :: JobRetryPolicy where
  "demo_policy \<equiv> retry_policy (lit ''memory_digest.v1'') 3 transient_categories"

lemma demo_policy [simp]: "policy_for (lit ''memory_digest'') = Some demo_policy"
  by (simp add: policy_for_def require_job_retry_policy_def retry_policies_def retry_policy_def lit_visible)

lemma demo_record_ok:
  "0 \<le> n \<Longrightarrow> (st = JOB_RUNNING \<longleftrightarrow> l \<noteq> None) \<Longrightarrow> (st = RETRY_WAIT \<longleftrightarrow> nxt \<noteq> None) \<Longrightarrow>
     JobRecord_post_init (demo_job n st u nxt l f fin) = Inr (demo_job n st u nxt l f fin)"
  by (simp add: JobRecord_post_init_def demo_job_def required_ok) 

lemma demo_lease_ok: "0 < n \<Longrightarrow> JobLease_post_init (demo_lease n e) = Inr (demo_lease n e)"
  by (simp add: JobLease_post_init_def demo_lease_def required_ok)

lemma demo_enqueue:
  "job_enqueue (lit ''memory_digest'') (lit ''k'') (lit ''ref'') (replicate 64 48) demo_correlation 0 empty_repository =
     (Inr (demo_job 0 PENDING 0 None None None None), demo_repo 1 (demo_job 0 PENDING 0 None None None None))"
  using demo_record_ok [of 0 PENDING None None 0 None None]
  by (simp add: job_enqueue_def empty_repository_def demo_repo_def demo_job_def Let_def)

definition demo_schedule :: JobSchedulePolicy where
  "demo_schedule = \<lparr>sp_policy_id = lit ''background.long.v1'', lease_seconds = 1800,
       execution_timeout_seconds = 1200, poll_interval_seconds = 1, max_claim_batch = 1\<rparr>"

lemma demo_claim:
  assumes "0 \<le> n" "st = PENDING \<and> nxt = None \<or> st = RETRY_WAIT \<and> (\<exists>t \<le> now. nxt = Some t)"
  shows "job_claim (lit ''memory_digest'') (lit ''w'') demo_schedule (lit ''t'') now (demo_repo m (demo_job n st u nxt None f None)) =
     (Inr (Some (demo_job (n + 1) JOB_RUNNING now None (Some (demo_lease (n + 1) (now + 1800000000))) None None,
        demo_lease (n + 1) (now + 1800000000))),
      demo_repo (m + 1) (demo_job (n + 1) JOB_RUNNING now None (Some (demo_lease (n + 1) (now + 1800000000))) None None))"
proof -
  have time: "timedelta_seconds 1800 = 1800000000"
    by (simp add: timedelta_seconds_def round_half_even_def)
  have cands: "claim_candidates now (lit ''memory_digest'') (demo_repo m (demo_job n st u nxt None f None)) = [demo_job n st u nxt None f None]"
    using assms(2) by (auto simp: claim_candidates_def demo_repo_def demo_job_def claimable_def)
  note lease = demo_lease_ok [of "n + 1" "now + 1800000000", unfolded demo_lease_def]
  note rec = demo_record_ok [of "n + 1" JOB_RUNNING "Some (demo_lease (n + 1) (now + 1800000000))" None now None None]
  show ?thesis
    using assms(1) lease rec
    by (simp add: job_claim_def cands demo_schedule_def time Let_def) (simp add: demo_job_def demo_lease_def demo_repo_def)
qed

abbreviation demo_running :: "int \<Rightarrow> datetime \<Rightarrow> JobRecord" where
  "demo_running n now \<equiv> demo_job n JOB_RUNNING now None (Some (demo_lease n (now + 1800000000))) None None"

abbreviation demo_waiting :: JobRecord where
  "demo_waiting \<equiv> demo_job 1 RETRY_WAIT 5 (Some 1000005) None (Some demo_failure) None"

abbreviation demo_result :: JobResult where
  "demo_result \<equiv> \<lparr>res_outcome = OUTCOME_FAILED, res_result_ref = [], res_failure = Some demo_failure\<rparr>"

lemma demo_settle:
  "job_settle (demo_lease 1 1800000000) demo_result demo_policy 5 (demo_repo m (demo_running 1 0)) =
     (Inr demo_waiting, demo_repo (m + 1) demo_waiting)"
proof -
  have lease: "require_lease (demo_lease 1 1800000000) 5 (demo_repo m (demo_running 1 0)) = Inr (demo_running 1 0)"
    by (simp add: require_lease_def demo_repo_def job_lease_matches_def demo_job_def demo_lease_def)
  have time: "timedelta_seconds 1 = 1000000" by (simp add: timedelta_seconds_def round_half_even_def)
  have "settled_state demo_policy demo_result (job_attempt_count (demo_running 1 0)) 5 =
      Inr (RETRY_WAIT, Some 1000005, None, Some demo_failure)"
    by (simp add: settled_state_def after_failure_def allows_retry_def demo_failure_def demo_job_def
        transient_categories_def retry_policy_def delay_seconds_def float_overflow_def time)
  then show ?thesis
    using demo_record_ok [of 1 RETRY_WAIT None "Some 1000005" 5 "Some demo_failure" None]
    unfolding job_settle_def lease by (simp add: demo_job_def demo_repo_def)
qed

lemma demo_first:
  "job_claim (lit ''memory_digest'') (lit ''w'') demo_schedule (lit ''t'') 0
      (demo_repo 1 (demo_job 0 PENDING 0 None None None None)) =
     (Inr (Some (demo_running 1 0, demo_lease 1 1800000000)), demo_repo 2 (demo_running 1 0))"
  using demo_claim [of 0 PENDING None 0 1 0 None] by (simp add: numeral_2_eq_2)

lemma demo_second:
  "job_claim (lit ''memory_digest'') (lit ''w'') demo_schedule (lit ''t'') 2000000 (demo_repo 3 demo_waiting) =
     (Inr (Some (demo_running 2 2000000, demo_lease 2 1802000000)), demo_repo 4 (demo_running 2 2000000))"
  using demo_claim [of 1 RETRY_WAIT "Some 1000005" 2000000 3 5 "Some demo_failure"] by simp

lemma demo_reach:
  "reach job_step empty_repository (demo_repo 1 (demo_job 0 PENDING 0 None None None None))"
  "reach job_step (demo_repo 2 (demo_running 1 0)) (demo_repo 3 demo_waiting)"
proof -
  show "reach job_step empty_repository (demo_repo 1 (demo_job 0 PENDING 0 None None None None))"
    by (rule reach_single, rule job_step.enqueue [OF _ demo_enqueue])
      (simp add: empty_repository_def demo_name_short)
  have "policy_for (descriptor_id r) = Some demo_policy"
    if "dict_get (records (demo_repo 2 (demo_running 1 0))) (jl_job_id (demo_lease 1 1800000000)) = Some r" for r
    using that by (auto simp: demo_repo_def demo_lease_def demo_job_def)
  from job_step.settle [OF this demo_settle [of 2]]
  show "reach job_step (demo_repo 2 (demo_running 1 0)) (demo_repo 3 demo_waiting)"
    by (intro reach_single) simp
qed

section \<open>Properties\<close>

text \<open>C28. Every job in a reachable repository has used at most the attempts that the retry policy of its
  type allows, it has one left whenever a worker may still claim it, it holds a lease exactly while
  it runs, a retry time exactly while it waits, and a finish time exactly when it has ended.\<close>

theorem job_attempts_bounded:
  assumes "reach job_step empty_repository s" "dict_get (records s) jid = Some r"
  shows "\<exists>p. policy_for (descriptor_id r) = Some p \<and> 0 \<le> job_attempt_count r \<and>
    job_attempt_count r \<le> max_attempts p \<and>
    (claimable now (descriptor_id r) r \<longrightarrow> job_attempt_count r < max_attempts p) \<and>
    (job_status r = JOB_RUNNING \<longleftrightarrow> job_lease r \<noteq> None) \<and>
    (job_status r = RETRY_WAIT \<longleftrightarrow> next_attempt_at r \<noteq> None) \<and>
    (finished (job_status r) \<longleftrightarrow> job_finished_at r \<noteq> None)"
proof -
  have "repository_ok s" using job_reachable_inv [OF assms(1)] by (simp add: repository_inv_def)
  note ok = repository_ok_get [OF this assms(2)]
  obtain p where p: "policy_for (descriptor_id r) = Some p"
    and n: "attempts_ok (job_status r) (job_attempt_count r) (max_attempts p)"
    and names: "safe_text 128 (descriptor_id r) = descriptor_id r"
    using ok by (auto simp: record_ok_def)
  note pos = policy_for_known [OF p names]
  have "job_attempt_count r \<le> max_attempts p" "0 \<le> job_attempt_count r"
    using n pos by (auto simp: attempts_ok_def split: JobStatus.splits)
  moreover have "job_attempt_count r < max_attempts p" if "claimable now (descriptor_id r) r"
    using n pos that by (auto simp: attempts_ok_def claimable_def)
  moreover have "job_status r = JOB_RUNNING \<longleftrightarrow> job_lease r \<noteq> None"
    "job_status r = RETRY_WAIT \<longleftrightarrow> next_attempt_at r \<noteq> None"
    "finished (job_status r) \<longleftrightarrow> job_finished_at r \<noteq> None"
    using ok unfolding record_ok_def by argo+
  ultimately show ?thesis using p by blast
qed

theorem job_attempts_bounded_witness:
  "\<exists>p. policy_for (lit ''memory_digest'') = Some p \<and> 0 \<le> job_attempt_count demo_waiting \<and>
     job_attempt_count demo_waiting < max_attempts p"
proof -
  have reach: "reach job_step empty_repository (demo_repo 3 demo_waiting)"
    by (rule reach_trans [OF reach_step [OF demo_reach(1) job_step.claim [OF demo_first]] demo_reach(2)])
  have get: "dict_get (records (demo_repo 3 demo_waiting)) (job_name (Suc 0)) = Some demo_waiting"
    by (simp add: demo_repo_def)
  have "claimable 2000000 (descriptor_id demo_waiting) demo_waiting" by (simp add: claimable_def demo_job_def)
  then show ?thesis using job_attempts_bounded [OF reach get, of 2000000] by (auto simp: demo_job_def)
qed

text \<open>Whatever happens between two attempts of a job, both are given the same side-effect key, the
  second attempt has a higher generation, and its execution context is accepted with that key.\<close>

theorem side_effect_key_stable:
  assumes "reach job_step empty_repository s"
    and "job_claim name worker policy token now s = (Inr (Some (r1, l1)), s1)"
    and "reach job_step s1 s2"
    and "job_claim name' worker' policy' token' now' s2 = (Inr (Some (r2, l2)), s3)"
    and "job_id r2 = job_id r1"
  shows "JobExecutionContext_post_init
      \<lparr>ctx_lease = l2, side_effect_idempotency_key = idempotency_key r2, ctx_correlation = c\<rparr> =
        Inr \<lparr>ctx_lease = l2, side_effect_idempotency_key = idempotency_key r1, ctx_correlation = c\<rparr> \<and>
    jl_generation l1 < jl_generation l2"
proof -
  note inv = job_reachable_inv [OF assms(1)]
  note inv1 = job_step_index(2) [OF job_step.claim [OF assms(2)] inv]
  note inv2 = job_keys.reach_inv [OF assms(3) inv1]
  note c1 = claimed_rest [OF inv assms(2)] and c2 = claimed_rest [OF inv2 assms(4)]
  note st1 = claimed_stored [OF inv assms(2)] and st2 = claimed_stored [OF inv2 assms(4), unfolded assms(5)]
  note step = reach_step [OF assms(3) job_step.claim [OF assms(4)]]
  have k1: "side_effect_key s1 (job_id r1) = Some (idempotency_key r1)"
    using c1 by (simp add: side_effect_key_def st1)
  have k2: "side_effect_key s3 (job_id r1) = Some (idempotency_key r2)"
    using c2 by (simp add: side_effect_key_def st2)
  from job_keys.reach_agree [OF step inv1 k1 k2] have key: "idempotency_key r2 = idempotency_key r1" by simp
  have "job_generation_of s1 (job_id r1) \<le> job_generation_of s2 (job_id r1)"
    by (rule job_generations.reach_mono [OF assms(3) inv1])
  moreover have "job_generation_of s1 (job_id r1) = job_generation r1" by (simp add: job_generation_of_def st1)
  moreover have "jl_generation l1 = job_generation r1" "jl_generation l2 = job_generation r2"
    using record_ok_lease [OF claimed_ok [OF inv assms(2)] claimed_lease [OF inv assms(2)]]
      record_ok_lease [OF claimed_ok [OF inv2 assms(4)] claimed_lease [OF inv2 assms(4)]] by simp_all
  moreover have "job_generation_of s2 (job_id r1) = job_generation r2 - 1" using c2 assms(5) by simp
  ultimately have "jl_generation l1 < jl_generation l2" by linarith
  moreover have "required 256 (idempotency_key r2) = Inr (idempotency_key r1)"
    using c2 record_ok_key [OF claimed_ok [OF inv2 assms(4)]] by (simp add: required_Inr key [symmetric])
  ultimately show ?thesis by (simp add: JobExecutionContext_post_init_def)
qed

theorem side_effect_key_stable_witness:
  "jl_generation (demo_lease 1 1800000000) < jl_generation (demo_lease 2 1802000000)"
  using side_effect_key_stable [OF demo_reach(1) demo_first demo_reach(2) demo_second]
  by (simp add: demo_job_def)

text \<open>C29. Seen at one job, every history of the repository is a history of the abstract job: it waits,
  executes one attempt at a time within the limit of its policy, and ends for good.\<close>

theorem repository_refines_attempts:
  assumes "reach job_step empty_repository s" "reach job_step s t" "dict_get (records s) jid = Some r"
  shows "\<exists>r' p. dict_get (records t) jid = Some r' \<and> policy_for (descriptor_id r) = Some p \<and>
    reach (attempt_step (max_attempts p)) (job_view r) (job_view r') \<and>
    (finished (job_status r) \<longrightarrow> finished (job_status r'))"
proof -
  note inv = job_reachable_inv [OF assms(1)]
  obtain r' where r': "dict_get (records t) jid = Some r'" "r' = r \<or> record_step r r'"
    using reach_repository_step [OF assms(2) inv] assms(3) unfolding repository_step_def by blast
  have ok: "record_ok jid r" using inv assms(3) by (auto simp: repository_inv_def intro: repository_ok_get)
  then obtain p where p: "policy_for (descriptor_id r) = Some p" by (auto simp: record_ok_def)
  have view: "reach (attempt_step (max_attempts p)) (job_view r) (job_view r')"
    using r'(2) p by (auto simp: record_step_def)
  moreover have "finished (job_status r')" if "finished (job_status r)"
    using attempt_ended [OF view] that by (auto simp: job_view_def attempt_view_def finished_def
        split: if_splits intro: JobStatus.exhaust)
  ultimately show ?thesis using r'(1) p by blast
qed

theorem repository_refines_attempts_witness:
  "\<exists>p. policy_for (lit ''memory_digest'') = Some p \<and>
     reach (attempt_step (max_attempts p)) (job_view (demo_running 1 0)) (job_view demo_waiting)"
proof -
  have reach: "reach job_step empty_repository (demo_repo 2 (demo_running 1 0))"
    by (rule reach_step [OF demo_reach(1) job_step.claim [OF demo_first]])
  have get: "dict_get (records (demo_repo 2 (demo_running 1 0))) (job_name (Suc 0)) = Some (demo_running 1 0)"
    and got: "dict_get (records (demo_repo 3 demo_waiting)) (job_name (Suc 0)) = Some demo_waiting"
    and desc: "descriptor_id (demo_running 1 0) = lit ''memory_digest''"
    by (simp_all add: demo_repo_def) (simp add: demo_job_def)
  from repository_refines_attempts [OF reach demo_reach(2) get] show ?thesis
    unfolding got desc by (metis option.inject)
qed

text \<open>C30. Once a job has been claimed again, the earlier worker's lease is worth nothing: settling and
  renewing with it fail in every later state and change nothing.\<close>

theorem superseded_lease_rejected:
  assumes "reach job_step empty_repository s"
    and "job_claim name worker policy token now s = (Inr (Some (r1, l1)), s1)"
    and "reach job_step s1 s2"
    and "job_claim name' worker' policy' token' now' s2 = (Inr (Some (r2, l2)), s3)"
    and "job_id r2 = job_id r1" "reach job_step s3 t"
  shows "job_settle l1 result rp later t = (Inl JobLeaseLost, t) \<and>
    job_heartbeat l1 sp later t = (Inl JobLeaseLost, t)"
proof -
  note inv = job_reachable_inv [OF assms(1)]
  note inv1 = job_step_index(2) [OF job_step.claim [OF assms(2)] inv]
  note inv2 = job_keys.reach_inv [OF assms(3) inv1]
  note inv3 = job_step_index(2) [OF job_step.claim [OF assms(4)] inv2]
  note lease1 = record_ok_lease [OF claimed_ok [OF inv assms(2)] claimed_lease [OF inv assms(2)]]
  note gens = job_generations.reach_mono [OF assms(3) inv1, of "job_id r1"]
    job_generations.reach_mono [OF assms(6) inv3, of "job_id r1"]
  have "job_generation_of s1 (job_id r1) = job_generation r1"
    by (simp add: job_generation_of_def claimed_stored [OF inv assms(2)])
  moreover have "job_generation_of s3 (job_id r1) = job_generation r2"
    by (simp add: job_generation_of_def claimed_stored [OF inv2 assms(4), unfolded assms(5)])
  moreover have "job_generation_of s2 (job_id r1) = job_generation r2 - 1"
    using claimed_rest [OF inv2 assms(4)] assms(5) by simp
  ultimately have "jl_generation l1 < job_generation_of t (jl_job_id l1)" using gens lease1 by simp
  then have "require_lease l1 later t = Inl JobLeaseLost"
    using job_keys.reach_inv [OF assms(6) inv3] by (rule old_generation_rejected)
  then show ?thesis by (simp add: job_settle_def job_heartbeat_def)
qed

theorem superseded_lease_rejected_witness:
  "job_settle (demo_lease 1 1800000000) demo_result demo_policy 3000000 (demo_repo 4 (demo_running 2 2000000)) =
     (Inl JobLeaseLost, demo_repo 4 (demo_running 2 2000000))"
  using superseded_lease_rejected [OF demo_reach(1) demo_first demo_reach(2) demo_second _ reach_refl]
  by (simp add: demo_job_def)



lemma post_init_errors:
  "JobLease_post_init l = Inl e \<Longrightarrow> e = JobValueError"
  "JobRecord_post_init r = Inl e \<Longrightarrow> e = JobValueError"
  by (auto simp: JobLease_post_init_def JobRecord_post_init_def bind_result_def require_def required_def
      split: sum.splits option.splits if_splits)

lemma blocked_claim:
  assumes "require_descriptor name = Inr d" "claim_candidates now (job_type d) s = r # rest"
    "safe_text 256 (idempotency_key r) = []"
  shows "job_claim name worker policy token now s = (Inl JobValueError, s)"
proof -
  have d: "lifecycle d = ACTIVE" using require_descriptor_Inr [OF assms(1)] descriptors_active by blast
  let ?lease = "JobLease_post_init \<lparr>jl_job_id = job_id r, jl_worker_id = worker, jl_owner_token = token,
         jl_generation = job_generation r + 1, jl_attempt_no = job_attempt_count r + 1,
         jl_expires_at = now + timedelta_seconds (lease_seconds policy)\<rparr>"
  note eval = job_claim_def assms(1,2) d Let_def
  show ?thesis
  proof (cases ?lease)
    case (Inl e)
    with post_init_errors(1) [OF Inl] show ?thesis by (simp add: eval)
  next
    case (Inr l)
    let ?new = "JobRecord_post_init (r\<lparr>job_status := JOB_RUNNING, job_generation := job_generation r + 1,
        job_attempt_count := job_attempt_count r + 1, next_attempt_at := None, job_lease := Some l,
        job_failure := None, job_finished_at := None, job_updated_at := now\<rparr>)"
    obtain e where new: "?new = Inl e"
    proof (cases ?new)
      case (Inr r')
      from record_post_init_Inr(5) [OF this] assms(3) show thesis by simp
    qed
    with Inr post_init_errors(2) [OF new] show ?thesis by (simp add: eval)
  qed
qed


end
