(* ===== verification/Runtime_Budget.thy ===== *)
theory Runtime_Budget
  imports Protocols Python_Text "HOL-Library.List_Lexorder"
begin

text \<open>
  The budget account of a run (\<open>core/agent_runtime/governance.py\<close> and the budget and access
  declarations of \<open>governance_contracts.py\<close>): hard limits for the run, the turn, tools and
  subagents, reservations made before a call and settled after it, and the manager that keeps
  the accounts of a process.

  An account is changed only by the event loop's thread, so each method is one step; where a
  method reads the clock several times, every reading is an argument. Clock readings and prices
  are rational numbers. Prices are the decimal numbers that \<open>Decimal(str(value))\<close> denotes; decimal
  arithmetic rounds to 28 significant digits, half to even. What the decision sink receives is
  the account's \<open>decisions\<close>: scope, operation, outcome, reason, resource and counters; the
  limits, time and digest it also carries are left out. A method that raises returns the changed account too.
\<close>

section \<open>Limits\<close>

datatype RuntimeBudgetScope = RUN_SCOPE | TURN_SCOPE | TOOL_SCOPE | SUBAGENT_SCOPE

datatype budget_error =
    BudgetExceeded RuntimeBudgetScope pystr
  | BudgetValueError
  | BudgetImbalance
  | BudgetIndexError

record RuntimeBudgetLimit =
  bl_scope :: RuntimeBudgetScope
  model_call_limit :: int
  token_limit :: int
  cost_limit_microunits :: int
  step_limit :: int
  time_limit_ms :: int
  concurrency_limit :: int
  allowed_model_ids :: "pystr list"

text \<open>\<open>_required\<close> and \<open>_identifiers\<close>.\<close>

definition gov_required :: "nat \<Rightarrow> pystr \<Rightarrow> budget_error + pystr" where
  "gov_required max_length value =
     (let s = py_strip value
      in require (s \<noteq> []) BudgetValueError
         (require (length s \<le> max_length) BudgetValueError (Inr s)))"

definition wildcard :: "pystr \<Rightarrow> bool" where
  "wildcard s \<longleftrightarrow> 42 \<in> set s \<or> 63 \<in> set s"

definition gov_identifiers :: "pystr list \<Rightarrow> budget_error + pystr list" where
  "gov_identifiers values =
     bind_result (map_result (gov_required 256) values) (\<lambda>items.
       let normalized = sort (remdups items)
       in require (\<not> list_ex wildcard normalized) BudgetValueError (Inr normalized))"

definition in_range :: "int \<Rightarrow> int \<Rightarrow> bool" where
  "in_range v maximum \<longleftrightarrow> 0 \<le> v \<and> v \<le> maximum"

definition RuntimeBudgetLimit_post_init :: "RuntimeBudgetLimit \<Rightarrow> budget_error + RuntimeBudgetLimit" where
  "RuntimeBudgetLimit_post_init l =
     require (in_range (model_call_limit l) 100000 \<and> in_range (token_limit l) 100000000 \<and>
              in_range (cost_limit_microunits l) 10000000000 \<and> in_range (step_limit l) 1000000 \<and>
              in_range (time_limit_ms l) 86400000 \<and> in_range (concurrency_limit l) 1024) BudgetValueError
     (bind_result (gov_identifiers (allowed_model_ids l)) (\<lambda>ids.
        require (\<not> (model_call_limit l = 0 \<and> ids \<noteq> [])) BudgetValueError
          (Inr (l\<lparr>allowed_model_ids := ids\<rparr>))))"

definition with_models :: "pystr list \<Rightarrow> RuntimeBudgetLimit \<Rightarrow> budget_error + RuntimeBudgetLimit" where
  "with_models model_ids l =
     (if model_call_limit l = 0
      then require (model_ids = []) BudgetValueError (Inr l)
      else RuntimeBudgetLimit_post_init (l\<lparr>allowed_model_ids := model_ids\<rparr>))"

definition numeric_policy :: "RuntimeBudgetLimit \<Rightarrow> int \<times> int \<times> int \<times> int \<times> int \<times> int" where
  "numeric_policy l =
     (model_call_limit l, token_limit l, cost_limit_microunits l, step_limit l, time_limit_ms l,
      concurrency_limit l)"

record RuntimeBudgetEnvelope =
  be_run :: RuntimeBudgetLimit
  be_turn :: RuntimeBudgetLimit
  be_tool :: RuntimeBudgetLimit
  be_subagent :: RuntimeBudgetLimit

definition narrower :: "RuntimeBudgetLimit \<Rightarrow> RuntimeBudgetLimit \<Rightarrow> bool" where
  "narrower child run \<longleftrightarrow>
     model_call_limit child \<le> model_call_limit run \<and> token_limit child \<le> token_limit run \<and>
     cost_limit_microunits child \<le> cost_limit_microunits run \<and> step_limit child \<le> step_limit run \<and>
     time_limit_ms child \<le> time_limit_ms run \<and> concurrency_limit child \<le> concurrency_limit run"

definition RuntimeBudgetEnvelope_post_init ::
  "RuntimeBudgetEnvelope \<Rightarrow> budget_error + RuntimeBudgetEnvelope" where
  "RuntimeBudgetEnvelope_post_init b =
     require (bl_scope (be_run b) = RUN_SCOPE \<and> bl_scope (be_turn b) = TURN_SCOPE \<and>
              bl_scope (be_tool b) = TOOL_SCOPE \<and> bl_scope (be_subagent b) = SUBAGENT_SCOPE) BudgetValueError
     (require (list_all (\<lambda>c. narrower c (be_run b)) [be_turn b, be_tool b, be_subagent b]) BudgetValueError
     (require (allowed_model_ids (be_run b) = [] \<or>
               list_all (\<lambda>c. set (allowed_model_ids c) \<subseteq> set (allowed_model_ids (be_run b)))
                 [be_turn b, be_subagent b]) BudgetValueError
        (Inr b)))"

definition bind_model :: "pystr \<Rightarrow> RuntimeBudgetEnvelope \<Rightarrow> budget_error + RuntimeBudgetEnvelope" where
  "bind_model model_id b =
     bind_result (gov_required 256 model_id) (\<lambda>m.
     bind_result (with_models [m] (be_run b)) (\<lambda>run.
     bind_result (with_models [m] (be_turn b)) (\<lambda>turn.
     bind_result (if model_call_limit (be_subagent b) \<noteq> 0 then with_models [m] (be_subagent b)
                  else Inr (be_subagent b)) (\<lambda>sub.
       RuntimeBudgetEnvelope_post_init
         \<lparr>be_run = run, be_turn = turn, be_tool = be_tool b, be_subagent = sub\<rparr>))))"

section \<open>Access\<close>

datatype RuntimeAccessKind = FILE | NETWORK | TOOL | SKILL | MCP | MEMORY

record RuntimeAccessGrant =
  ag_kind :: RuntimeAccessKind
  ag_resource :: pystr
  ag_operations :: "pystr list"
  ag_authorization :: pystr

definition RuntimeAccessGrant_post_init :: "RuntimeAccessGrant \<Rightarrow> budget_error + RuntimeAccessGrant" where
  "RuntimeAccessGrant_post_init g =
     bind_result (gov_required 512 (ag_resource g)) (\<lambda>resource.
     require (\<not> wildcard resource) BudgetValueError
     (bind_result (gov_identifiers (ag_operations g)) (\<lambda>operations.
      require (operations \<noteq> []) BudgetValueError
      (bind_result (gov_required 128 (ag_authorization g)) (\<lambda>auth.
         Inr (g\<lparr>ag_resource := resource, ag_operations := operations, ag_authorization := auth\<rparr>))))))"

text \<open>\<open>RuntimeAccessEnvelope.find\<close>: an exact grant, else for tools the grant of the resolved plan.\<close>

definition grants_operation :: "RuntimeAccessKind \<Rightarrow> pystr \<Rightarrow> pystr \<Rightarrow> RuntimeAccessGrant \<Rightarrow> bool" where
  "grants_operation kind resource operation g \<longleftrightarrow>
     ag_kind g = kind \<and> ag_resource g = resource \<and> operation \<in> set (ag_operations g)"

definition find_access ::
  "RuntimeAccessGrant list \<Rightarrow> RuntimeAccessKind \<Rightarrow> pystr \<Rightarrow> pystr \<Rightarrow> RuntimeAccessGrant option" where
  "find_access grants kind resource operation =
     (case find (grants_operation kind (py_strip resource) (py_strip operation)) grants of
        Some g \<Rightarrow> Some g
      | None \<Rightarrow>
          if kind = TOOL
          then find (grants_operation TOOL (lit ''tool-plan:resolved'') (py_strip operation)) grants
          else None)"

record RuntimeGovernanceEnvelope =
  policy_id :: pystr
  budgets :: RuntimeBudgetEnvelope
  access :: "RuntimeAccessGrant list"

record RuntimeActor =
  ac_type :: pystr
  ac_id :: pystr
  ac_parent_id :: pystr

record RuntimePrincipal =
  pr_platform :: pystr
  pr_owner_type :: pystr
  pr_owner_id :: pystr

record RuntimeRunIdentity =
  ri_run_id :: pystr
  ri_turn_id :: pystr
  ri_correlation_id :: pystr
  ri_actor :: RuntimeActor
  ri_owner :: RuntimePrincipal

record RuntimeUsage =
  input_tokens :: int
  output_tokens :: int
  cached_input_tokens :: int
  reasoning_tokens :: int
  cost_microunits :: int

definition RuntimeUsage_valid :: "RuntimeUsage \<Rightarrow> bool" where
  "RuntimeUsage_valid u \<longleftrightarrow>
     0 \<le> input_tokens u \<and> 0 \<le> output_tokens u \<and> 0 \<le> cached_input_tokens u \<and>
     0 \<le> reasoning_tokens u \<and> 0 \<le> cost_microunits u"

definition total_tokens :: "RuntimeUsage \<Rightarrow> int" where
  "total_tokens u = input_tokens u + output_tokens u"

section \<open>The account\<close>

record UsageState =
  us_model_calls :: int
  us_tokens :: int
  us_cost :: int
  us_steps :: int
  us_concurrency :: int
  us_started :: rat

text \<open>An amount of each dimension, as the keyword arguments of \<open>_would_exceed\<close> and \<open>_consume\<close>.\<close>

record amount =
  am_calls :: int
  am_tokens :: int
  am_cost :: int
  am_steps :: int
  am_concurrency :: int

definition nothing :: amount where
  "nothing = \<lparr>am_calls = 0, am_tokens = 0, am_cost = 0, am_steps = 0, am_concurrency = 0\<rparr>"

record RuntimeBudgetReservation =
  br_id :: pystr
  br_scope :: RuntimeBudgetScope
  br_turn_id :: pystr

record RuntimeModelBudgetReservation =
  mr_id :: pystr
  mr_turn_id :: pystr
  mr_model_id :: pystr
  mr_input_tokens :: int
  mr_max_output_tokens :: int
  mr_reserved_tokens :: int
  mr_reserved_cost :: int
  mr_cost_input_1m :: rat
  mr_cost_output_1m :: rat

record decision =
  dc_number :: nat
  dc_scope :: RuntimeBudgetScope
  dc_operation :: pystr
  dc_allow :: bool
  dc_reason :: pystr
  dc_resource :: pystr
  dc_usage :: UsageState

record BudgetAccount =
  identity :: RuntimeRunIdentity
  governance :: RuntimeGovernanceEnvelope
  run_usage :: UsageState
  turns :: "(pystr, UsageState) dict"
  turn_governance :: "(pystr, RuntimeGovernanceEnvelope) dict"
  tool_usage :: UsageState
  subagent_usage :: UsageState
  decision_sequence :: nat
  reservation_sequence :: nat
  reservations :: "(pystr, RuntimeBudgetReservation) dict"
  model_reservations :: "(pystr, RuntimeModelBudgetReservation) dict"
  decisions :: "decision list"

type_synonym 'a budget_result = "(budget_error + 'a) \<times> BudgetAccount"

definition new_usage :: "rat \<Rightarrow> UsageState" where
  "new_usage started =
     \<lparr>us_model_calls = 0, us_tokens = 0, us_cost = 0, us_steps = 0, us_concurrency = 0,
      us_started = started\<rparr>"

text \<open>\<open>_state\<close>: the usage of the current turn is always present.\<close>

definition state_of :: "BudgetAccount \<Rightarrow> RuntimeBudgetScope \<Rightarrow> UsageState" where
  "state_of a scope =
     (case scope of
        RUN_SCOPE \<Rightarrow> run_usage a
      | TURN_SCOPE \<Rightarrow> dict_get_default (turns a) (ri_turn_id (identity a)) (new_usage 0)
      | TOOL_SCOPE \<Rightarrow> tool_usage a
      | SUBAGENT_SCOPE \<Rightarrow> subagent_usage a)"

definition set_state :: "RuntimeBudgetScope \<Rightarrow> UsageState \<Rightarrow> BudgetAccount \<Rightarrow> BudgetAccount" where
  "set_state scope st a =
     (case scope of
        RUN_SCOPE \<Rightarrow> a\<lparr>run_usage := st\<rparr>
      | TURN_SCOPE \<Rightarrow> a\<lparr>turns := dict_set (ri_turn_id (identity a)) st (turns a)\<rparr>
      | TOOL_SCOPE \<Rightarrow> a\<lparr>tool_usage := st\<rparr>
      | SUBAGENT_SCOPE \<Rightarrow> a\<lparr>subagent_usage := st\<rparr>)"

definition envelope_limit :: "RuntimeBudgetEnvelope \<Rightarrow> RuntimeBudgetScope \<Rightarrow> RuntimeBudgetLimit" where
  "envelope_limit b scope =
     (case scope of RUN_SCOPE \<Rightarrow> be_run b | TURN_SCOPE \<Rightarrow> be_turn b | TOOL_SCOPE \<Rightarrow> be_tool b
      | SUBAGENT_SCOPE \<Rightarrow> be_subagent b)"

definition limit_of :: "BudgetAccount \<Rightarrow> RuntimeBudgetScope \<Rightarrow> RuntimeBudgetLimit" where
  "limit_of a scope = envelope_limit (budgets (governance a)) scope"

definition emit ::
  "RuntimeBudgetScope \<Rightarrow> pystr \<Rightarrow> bool \<Rightarrow> pystr \<Rightarrow> pystr \<Rightarrow> UsageState \<Rightarrow> BudgetAccount \<Rightarrow> BudgetAccount" where
  "emit scope operation allow reason resource st a =
     a\<lparr>decision_sequence := decision_sequence a + 1,
       decisions := decisions a @
         [\<lparr>dc_number = decision_sequence a + 1, dc_scope = scope, dc_operation = operation,
           dc_allow = allow, dc_reason = reason, dc_resource = take 512 resource, dc_usage = st\<rparr>]\<rparr>"

definition deny ::
  "RuntimeBudgetScope \<Rightarrow> pystr \<Rightarrow> pystr \<Rightarrow> pystr \<Rightarrow> BudgetAccount \<Rightarrow> 'a budget_result" where
  "deny scope operation reason resource a =
     (Inl (BudgetExceeded scope reason), emit scope operation False reason resource (state_of a scope) a)"

definition new_account :: "RuntimeRunIdentity \<Rightarrow> RuntimeGovernanceEnvelope \<Rightarrow> rat \<Rightarrow> BudgetAccount" where
  "new_account i g started =
     (let a = \<lparr>identity = i, governance = g, run_usage = new_usage started,
               turns = [(ri_turn_id i, new_usage started)], turn_governance = [(ri_turn_id i, g)],
               tool_usage = new_usage started, subagent_usage = new_usage started,
               decision_sequence = 0, reservation_sequence = 0, reservations = [],
               model_reservations = [], decisions = []\<rparr>
      in foldl (\<lambda>a scope. emit scope (lit ''declared'') True (lit ''governance_snapshot_bound'')
                  (policy_id g) (state_of a scope) a)
           a [RUN_SCOPE, TURN_SCOPE, TOOL_SCOPE, SUBAGENT_SCOPE])"

section \<open>Time\<close>

definition elapsed_ms :: "rat \<Rightarrow> UsageState \<Rightarrow> int" where
  "elapsed_ms current st = max 0 \<lfloor>(current - us_started st) * 1000\<rfloor>"

definition time_exhausted :: "rat \<Rightarrow> BudgetAccount \<Rightarrow> RuntimeBudgetScope \<Rightarrow> bool" where
  "time_exhausted current a scope \<longleftrightarrow>
     time_limit_ms (limit_of a scope) = 0 \<or>
     elapsed_ms current (state_of a scope) \<ge> time_limit_ms (limit_of a scope)"

definition check_time :: "rat \<Rightarrow> (BudgetAccount \<Rightarrow> 'a budget_result) \<Rightarrow> BudgetAccount \<Rightarrow> 'a budget_result" where
  "check_time current k a =
     (case find (time_exhausted current a) [RUN_SCOPE, TURN_SCOPE] of
        Some scope \<Rightarrow> deny scope (lit ''time_check'') (lit ''time_limit_exhausted'') (lit ''clock'') a
      | None \<Rightarrow> k a)"

definition check_subagent_time ::
  "rat \<Rightarrow> pystr \<Rightarrow> pystr \<Rightarrow> (BudgetAccount \<Rightarrow> 'a budget_result) \<Rightarrow> BudgetAccount \<Rightarrow> 'a budget_result" where
  "check_subagent_time current operation resource k a =
     (if time_exhausted current a SUBAGENT_SCOPE
      then deny SUBAGENT_SCOPE operation (lit ''time_limit_exhausted'') resource a
      else k a)"

definition scope_remaining :: "rat \<Rightarrow> BudgetAccount \<Rightarrow> RuntimeBudgetScope \<Rightarrow> rat" where
  "scope_remaining current a scope =
     max (1 / 1000)
       (of_int (time_limit_ms (limit_of a scope)) / 1000 - (current - us_started (state_of a scope)))"

definition remaining_time_seconds :: "rat \<Rightarrow> rat \<Rightarrow> BudgetAccount \<Rightarrow> rat budget_result" where
  "remaining_time_seconds t1 t2 a =
     check_time t1 (\<lambda>a. (Inr (min (scope_remaining t2 a RUN_SCOPE) (scope_remaining t2 a TURN_SCOPE)), a)) a"

definition tool_timeout_seconds :: "rat \<Rightarrow> rat \<Rightarrow> BudgetAccount \<Rightarrow> rat budget_result" where
  "tool_timeout_seconds t1 t2 a =
     (case remaining_time_seconds t1 t2 a of
        (Inl e, a') \<Rightarrow> (Inl e, a')
      | (Inr r, a') \<Rightarrow>
          (Inr (min r (max (1 / 1000) (of_int (time_limit_ms (be_tool (budgets (governance a)))) / 1000))), a'))"

definition subagent_remaining_time_seconds ::
  "rat \<Rightarrow> rat \<Rightarrow> rat \<Rightarrow> rat \<Rightarrow> rat \<Rightarrow> BudgetAccount \<Rightarrow> rat budget_result" where
  "subagent_remaining_time_seconds t1 t2 t3 t4 t5 a =
     check_time t1
       (check_subagent_time t2 (lit ''subagent_time_check'') (lit ''clock'') (\<lambda>a.
          case remaining_time_seconds t4 t5 a of
            (Inl e, a') \<Rightarrow> (Inl e, a')
          | (Inr r, a') \<Rightarrow> (Inr (min r (scope_remaining t3 a SUBAGENT_SCOPE)), a'))) a"

section \<open>Charging\<close>

text \<open>The first limit an amount would break, the empty string when there is none.\<close>

definition would_exceed :: "UsageState \<Rightarrow> RuntimeBudgetLimit \<Rightarrow> amount \<Rightarrow> pystr" where
  "would_exceed st limit x =
     (if us_model_calls st + am_calls x > model_call_limit limit then lit ''model_call_limit''
      else if us_tokens st + am_tokens x > token_limit limit then lit ''token_limit''
      else if us_cost st + am_cost x > cost_limit_microunits limit then lit ''cost_limit_microunits''
      else if us_steps st + am_steps x > step_limit limit then lit ''step_limit''
      else if us_concurrency st + am_concurrency x > concurrency_limit limit then lit ''concurrency_limit''
      else [])"

definition consume :: "amount \<Rightarrow> UsageState \<Rightarrow> UsageState" where
  "consume x st =
     st\<lparr>us_model_calls := us_model_calls st + am_calls x, us_tokens := us_tokens st + am_tokens x,
        us_cost := us_cost st + am_cost x, us_steps := us_steps st + am_steps x,
        us_concurrency := us_concurrency st + am_concurrency x\<rparr>"

text \<open>The loops over scopes: the first one that refuses, then charging each of them.\<close>

fun first_refusal :: "(RuntimeBudgetScope \<Rightarrow> pystr) \<Rightarrow> RuntimeBudgetScope list \<Rightarrow> (RuntimeBudgetScope \<times> pystr) option" where
  "first_refusal f [] = None"
| "first_refusal f (scope # rest) = (if f scope \<noteq> [] then Some (scope, f scope) else first_refusal f rest)"

definition charge_scope ::
  "pystr \<Rightarrow> pystr \<Rightarrow> pystr \<Rightarrow> amount \<Rightarrow> BudgetAccount \<Rightarrow> RuntimeBudgetScope \<Rightarrow> BudgetAccount" where
  "charge_scope operation reason resource x a scope =
     (let a1 = set_state scope (consume x (state_of a scope)) a
      in emit scope operation True reason resource (state_of a1 scope) a1)"

definition charge ::
  "RuntimeBudgetScope list \<Rightarrow> pystr \<Rightarrow> pystr \<Rightarrow> pystr \<Rightarrow> amount \<Rightarrow> BudgetAccount \<Rightarrow> BudgetAccount" where
  "charge scopes operation reason resource x a = foldl (charge_scope operation reason resource x) a scopes"

abbreviation model_scopes :: "RuntimeBudgetScope list" where
  "model_scopes \<equiv> [RUN_SCOPE, TURN_SCOPE]"

definition exceeds :: "BudgetAccount \<Rightarrow> amount \<Rightarrow> RuntimeBudgetScope \<Rightarrow> pystr" where
  "exceeds a x scope = would_exceed (state_of a scope) (limit_of a scope) x"

definition model_refusal :: "BudgetAccount \<Rightarrow> pystr \<Rightarrow> RuntimeBudgetScope \<Rightarrow> pystr" where
  "model_refusal a model scope =
     (if allowed_model_ids (limit_of a scope) \<noteq> [] \<and> model \<notin> set (allowed_model_ids (limit_of a scope))
      then lit ''model_scope_denied''
      else exceeds a (nothing\<lparr>am_calls := 1, am_steps := 1\<rparr>) scope)"

definition model_name :: "pystr \<Rightarrow> pystr" where
  "model_name model_id = (let s = py_strip model_id in if s = [] then lit ''host-bound'' else s)"

definition reserve_model :: "pystr \<Rightarrow> rat \<Rightarrow> BudgetAccount \<Rightarrow> unit budget_result" where
  "reserve_model model_id current =
     check_time current (\<lambda>a.
       let model = model_name model_id
       in case first_refusal (model_refusal a model) model_scopes of
            Some (scope, reason) \<Rightarrow> deny scope (lit ''model_reservation'') reason model a
          | None \<Rightarrow>
              (Inr (), charge model_scopes (lit ''model_reservation'') (lit ''within_limit'') model
                 (nothing\<lparr>am_calls := 1, am_steps := 1\<rparr>) a))"

section \<open>Prices\<close>

text \<open>
  Decimal arithmetic in the default context: the result of an operation is rounded to 28
  significant digits, half to even.
\<close>

definition ten_power :: "int \<Rightarrow> rat" where
  "ten_power e = (if e \<ge> 0 then 10 ^ nat e else 1 / 10 ^ nat (- e))"

definition decimal_exponent :: "rat \<Rightarrow> int" where
  "decimal_exponent x =
     (let (n, d) = quotient_of \<bar>x\<bar>;
          e = int (length (py_digits (nat n))) - int (length (py_digits (nat d)))
      in if \<bar>x\<bar> \<ge> ten_power e then e else e - 1)"

definition decimal :: "rat \<Rightarrow> rat" where
  "decimal x =
     (if x = 0 then 0
      else let unit = ten_power (decimal_exponent x - 27)
           in of_int (round_half_even (x / unit)) * unit)"

text \<open>\<open>_model_price\<close>; \<open>None\<close> inside the result is an unknown price.\<close>

definition model_price :: "pyfloat option \<Rightarrow> budget_error + rat option" where
  "model_price value =
     (case value of
        None \<Rightarrow> Inr None
      | Some (Finite p) \<Rightarrow> if p < 0 then Inl BudgetValueError else Inr (Some p)
      | Some _ \<Rightarrow> Inl BudgetValueError)"

definition model_cost_microunits :: "int \<Rightarrow> int \<Rightarrow> rat \<Rightarrow> rat \<Rightarrow> int" where
  "model_cost_microunits inp out pin pout =
     \<lceil>decimal (decimal (of_int inp * pin) + decimal (of_int out * pout))\<rceil>"

text \<open>
  The output tokens a scope can pay for: limited by its tokens, by the request and by its money.
  The left value is the refusal.
\<close>

definition output_cap ::
  "BudgetAccount \<Rightarrow> int \<Rightarrow> int option \<Rightarrow> rat \<Rightarrow> rat \<Rightarrow> RuntimeBudgetScope
     \<Rightarrow> (RuntimeBudgetScope \<times> pystr) + int" where
  "output_cap a inp max_out pin pout scope =
     (let st = state_of a scope; limit = limit_of a scope;
          remaining_tokens = token_limit limit - us_tokens st
      in if remaining_tokens \<le> inp then Inl (scope, lit ''token_limit'')
         else
           let token_cap = remaining_tokens - inp;
               cap1 = (case max_out of None \<Rightarrow> token_cap | Some m \<Rightarrow> min token_cap m);
               remaining_cost = cost_limit_microunits limit - us_cost st;
               input_cost = decimal (of_int inp * pin)
           in if input_cost > of_int remaining_cost then Inl (scope, lit ''cost_limit_microunits'')
              else
                let cap2 = (if pout > 0
                            then min cap1 \<lfloor>decimal (decimal (of_int remaining_cost - input_cost) / pout)\<rfloor>
                            else cap1)
                in if cap2 \<le> 0
                   then Inl (scope, if token_cap > 0 then lit ''cost_limit_microunits'' else lit ''token_limit'')
                   else Inr cap2)"

definition model_reservation_id :: "BudgetAccount \<Rightarrow> pystr" where
  "model_reservation_id a =
     lit ''model-budget-reservation:'' @ ri_run_id (identity a) @ lit '':'' @
     py_digits (reservation_sequence a + 1)"

definition reserve_worst_case ::
  "pystr \<Rightarrow> int \<Rightarrow> int \<Rightarrow> rat \<Rightarrow> rat \<Rightarrow> BudgetAccount \<Rightarrow> RuntimeModelBudgetReservation budget_result" where
  "reserve_worst_case model inp out pin pout a =
     (let reserved_tokens = inp + out;
          reserved_cost = model_cost_microunits inp out pin pout;
          x = nothing\<lparr>am_calls := 1, am_tokens := reserved_tokens, am_cost := reserved_cost, am_steps := 1\<rparr>
      in case first_refusal (exceeds a x) model_scopes of
           Some (scope, reason) \<Rightarrow> deny scope (lit ''model_attempt_reservation'') reason model a
         | None \<Rightarrow>
             let res = \<lparr>mr_id = model_reservation_id a, mr_turn_id = ri_turn_id (identity a),
                        mr_model_id = model, mr_input_tokens = inp, mr_max_output_tokens = out,
                        mr_reserved_tokens = reserved_tokens, mr_reserved_cost = reserved_cost,
                        mr_cost_input_1m = pin, mr_cost_output_1m = pout\<rparr>;
                 a1 = charge model_scopes (lit ''model_attempt_reservation'') (lit ''pessimistic_charge'') model x
                        (a\<lparr>reservation_sequence := reservation_sequence a + 1\<rparr>)
             in (Inr res, a1\<lparr>model_reservations := dict_set (mr_id res) res (model_reservations a1)\<rparr>))"

definition reserve_model_attempt ::
  "pystr \<Rightarrow> int \<Rightarrow> int option \<Rightarrow> pyfloat option \<Rightarrow> pyfloat option \<Rightarrow> rat \<Rightarrow> BudgetAccount
     \<Rightarrow> RuntimeModelBudgetReservation budget_result" where
  "reserve_model_attempt model_id inp max_out cost_in cost_out current a =
     (if inp < 0 \<or> (case max_out of None \<Rightarrow> False | Some m \<Rightarrow> m \<le> 0) then (Inl BudgetValueError, a)
      else case (model_price cost_in, model_price cost_out) of
        (Inr price_in, Inr price_out) \<Rightarrow>
          check_time current (\<lambda>a.
            let model = model_name model_id
            in case first_refusal (model_refusal a model) model_scopes of
                 Some (scope, reason) \<Rightarrow> deny scope (lit ''model_attempt_reservation'') reason model a
               | None \<Rightarrow>
                   (case (price_in, price_out) of
                      (Some pin, Some pout) \<Rightarrow>
                        (case map_result (output_cap a inp max_out pin pout) model_scopes of
                           Inl (scope, reason) \<Rightarrow>
                             deny scope (lit ''model_attempt_reservation'') reason model a
                         | Inr caps \<Rightarrow> reserve_worst_case model inp (Min (set caps)) pin pout a)
                    | _ \<Rightarrow>
                        deny RUN_SCOPE (lit ''model_attempt_reservation'') (lit ''model_pricing_unknown'')
                          model a)) a
      | _ \<Rightarrow> (Inl BudgetValueError, a))"

section \<open>Settling a model call\<close>

definition pending_model_reservation ::
  "RuntimeModelBudgetReservation \<Rightarrow> BudgetAccount \<Rightarrow> budget_error + RuntimeModelBudgetReservation option" where
  "pending_model_reservation res a =
     (case dict_get (model_reservations a) (mr_id res) of
        None \<Rightarrow> Inr None
      | Some existing \<Rightarrow>
          require (existing = res) BudgetValueError
          (require (mr_turn_id res = ri_turn_id (identity a)) BudgetValueError (Inr (Some existing))))"

definition note_settled :: "pystr \<Rightarrow> pystr \<Rightarrow> BudgetAccount \<Rightarrow> RuntimeBudgetScope \<Rightarrow> BudgetAccount" where
  "note_settled reason resource a scope =
     emit scope (lit ''model_attempt_settlement'') True reason resource (state_of a scope) a"

definition charge_model_attempt_unknown ::
  "RuntimeModelBudgetReservation \<Rightarrow> pystr \<Rightarrow> BudgetAccount \<Rightarrow> bool budget_result" where
  "charge_model_attempt_unknown res reason a =
     (case pending_model_reservation res a of
        Inl e \<Rightarrow> (Inl e, a)
      | Inr None \<Rightarrow> (Inr False, a)
      | Inr (Some existing) \<Rightarrow>
          let why = (let s = py_strip reason in if s = [] then lit ''unknown'' else s);
              resource = mr_model_id existing @ lit '':'' @ why
          in (Inr True, foldl (note_settled (lit ''charged_unknown'') resource)
                (a\<lparr>model_reservations := dict_pop (mr_id existing) (model_reservations a)\<rparr>) model_scopes))"

text \<open>The refund loop: it stops at the first scope whose total would fall below zero.\<close>

fun refund_scopes ::
  "int \<Rightarrow> int \<Rightarrow> pystr \<Rightarrow> RuntimeBudgetScope list \<Rightarrow> BudgetAccount \<Rightarrow> unit budget_result" where
  "refund_scopes tokens cost model [] a = (Inr (), a)"
| "refund_scopes tokens cost model (scope # rest) a =
     (let st = (state_of a scope)\<lparr>us_tokens := us_tokens (state_of a scope) - tokens,
                                   us_cost := us_cost (state_of a scope) - cost\<rparr>;
          a1 = set_state scope st a
      in if us_tokens st < 0 \<or> us_cost st < 0 then (Inl BudgetImbalance, a1)
         else refund_scopes tokens cost model rest
                (note_settled (lit ''actual_usage_reconciled'') model a1 scope))"

definition actual_usage :: "RuntimeModelBudgetReservation \<Rightarrow> RuntimeUsage \<Rightarrow> RuntimeUsage" where
  "actual_usage existing u =
     u\<lparr>cost_microunits := max (cost_microunits u)
        (model_cost_microunits (input_tokens u) (output_tokens u) (mr_cost_input_1m existing)
           (mr_cost_output_1m existing))\<rparr>"

definition settle_model_attempt ::
  "RuntimeModelBudgetReservation \<Rightarrow> RuntimeUsage option \<Rightarrow> BudgetAccount \<Rightarrow> RuntimeUsage option budget_result" where
  "settle_model_attempt res usage a =
     (case pending_model_reservation res a of
        Inl e \<Rightarrow> (Inl e, a)
      | Inr None \<Rightarrow> (Inl BudgetValueError, a)
      | Inr (Some existing) \<Rightarrow>
          (case usage of
             Some u \<Rightarrow>
               if input_tokens u = 0 \<or> output_tokens u = 0
               then (case charge_model_attempt_unknown existing (lit ''usage_unavailable'') a of
                       (Inl e, a1) \<Rightarrow> (Inl e, a1) | (Inr _, a1) \<Rightarrow> (Inr usage, a1))
               else
                 let actual = actual_usage existing u
                 in if total_tokens actual > mr_reserved_tokens existing \<or>
                       cost_microunits actual > mr_reserved_cost existing
                    then deny TURN_SCOPE (lit ''model_attempt_settlement'')
                           (if total_tokens actual > mr_reserved_tokens existing
                            then lit ''model_usage_exceeds_token_reservation''
                            else lit ''model_usage_exceeds_cost_reservation'')
                           (mr_model_id existing) a
                    else
                      (case refund_scopes (mr_reserved_tokens existing - total_tokens actual)
                              (mr_reserved_cost existing - cost_microunits actual)
                              (mr_model_id existing) model_scopes
                              (a\<lparr>model_reservations := dict_pop (mr_id existing) (model_reservations a)\<rparr>) of
                         (Inl e, a1) \<Rightarrow> (Inl e, a1)
                       | (Inr _, a1) \<Rightarrow> (Inr (Some actual), a1))
           | None \<Rightarrow>
               (case charge_model_attempt_unknown existing (lit ''usage_unavailable'') a of
                  (Inl e, a1) \<Rightarrow> (Inl e, a1) | (Inr _, a1) \<Rightarrow> (Inr None, a1))))"

definition record_usage :: "RuntimeUsage option \<Rightarrow> BudgetAccount \<Rightarrow> unit budget_result" where
  "record_usage usage a =
     (case usage of
        None \<Rightarrow> (Inr (), a)
      | Some u \<Rightarrow>
          let x = nothing\<lparr>am_tokens := total_tokens u, am_cost := cost_microunits u\<rparr>
          in case first_refusal (exceeds a x) model_scopes of
               Some (scope, reason) \<Rightarrow> deny scope (lit ''usage_recorded'') reason (lit ''model_usage'') a
             | None \<Rightarrow>
                 (Inr (), charge model_scopes (lit ''usage_recorded'') (lit ''within_limit'')
                    (lit ''model_usage'') x a))"

section \<open>Tools and subagents\<close>

abbreviation call_amount :: amount where
  "call_amount \<equiv> nothing\<lparr>am_steps := 1, am_concurrency := 1\<rparr>"

definition reserve_call ::
  "RuntimeBudgetScope \<Rightarrow> pystr \<Rightarrow> pystr \<Rightarrow> BudgetAccount \<Rightarrow> RuntimeBudgetReservation budget_result" where
  "reserve_call scope operation resource a =
     (let rid = lit ''budget-reservation:'' @ ri_run_id (identity a) @ lit '':'' @
                py_digits (reservation_sequence a + 1);
          a1 = charge [RUN_SCOPE, TURN_SCOPE, scope] operation (lit ''within_limit'') resource call_amount
                 (a\<lparr>reservation_sequence := reservation_sequence a + 1\<rparr>);
          res = \<lparr>br_id = rid, br_scope = scope, br_turn_id = ri_turn_id (identity a)\<rparr>
      in (Inr res, a1\<lparr>reservations := dict_set rid res (reservations a1)\<rparr>))"

definition reserve_tool :: "pystr \<Rightarrow> rat \<Rightarrow> BudgetAccount \<Rightarrow> RuntimeBudgetReservation budget_result" where
  "reserve_tool tool_name current =
     check_time current (\<lambda>a.
       let tool = py_strip tool_name; grants = access (governance a)
       in if find_access grants TOOL (lit ''tool:'' @ tool) (lit ''execute'') = None \<and>
             find_access grants TOOL tool (lit ''execute'') = None
          then deny TOOL_SCOPE (lit ''tool_reservation'') (lit ''tool_access_scope_denied'') tool a
          else case first_refusal (exceeds a call_amount) [RUN_SCOPE, TURN_SCOPE, TOOL_SCOPE] of
                 Some (scope, reason) \<Rightarrow> deny scope (lit ''tool_reservation'') reason tool a
               | None \<Rightarrow> reserve_call TOOL_SCOPE (lit ''tool_reservation'') tool a)"

definition reserve_subagent :: "pystr \<Rightarrow> rat \<Rightarrow> rat \<Rightarrow> BudgetAccount \<Rightarrow> RuntimeBudgetReservation budget_result" where
  "reserve_subagent agent_id t1 t2 =
     check_time t1 (\<lambda>a.
       let agent = (let s = py_strip agent_id in if s = [] then lit ''subagent'' else s)
       in case first_refusal (exceeds a call_amount) [RUN_SCOPE, TURN_SCOPE, SUBAGENT_SCOPE] of
            Some (scope, reason) \<Rightarrow> deny scope (lit ''subagent_reservation'') reason agent a
          | None \<Rightarrow>
              check_subagent_time t2 (lit ''subagent_reservation'') agent
                (reserve_call SUBAGENT_SCOPE (lit ''subagent_reservation'') agent) a)"

definition release_scope :: "BudgetAccount \<Rightarrow> RuntimeBudgetScope \<Rightarrow> BudgetAccount" where
  "release_scope a scope =
     set_state scope ((state_of a scope)\<lparr>us_concurrency := us_concurrency (state_of a scope) - 1\<rparr>) a"

definition release :: "RuntimeBudgetReservation \<Rightarrow> BudgetAccount \<Rightarrow> unit budget_result" where
  "release res a =
     (case dict_get (reservations a) (br_id res) of
        None \<Rightarrow> (Inl BudgetValueError, a)
      | Some existing \<Rightarrow>
          if existing \<noteq> res \<or> br_turn_id res \<noteq> ri_turn_id (identity a) \<or>
             br_scope res \<notin> {TOOL_SCOPE, SUBAGENT_SCOPE}
          then (Inl BudgetValueError, a)
          else
            let scopes = [RUN_SCOPE, TURN_SCOPE, br_scope res]
            in if list_ex (\<lambda>s. us_concurrency (state_of a s) \<le> 0) scopes then (Inl BudgetImbalance, a)
               else (Inr (), foldl release_scope
                       (a\<lparr>reservations := dict_pop (br_id res) (reservations a)\<rparr>) scopes))"

definition record_subagent_usage ::
  "RuntimeUsage \<Rightarrow> int \<Rightarrow> int \<Rightarrow> rat \<Rightarrow> rat \<Rightarrow> BudgetAccount \<Rightarrow> unit budget_result" where
  "record_subagent_usage u model_calls tool_calls t1 t2 a =
     (if model_calls < 0 \<or> tool_calls < 0 then (Inl BudgetValueError, a)
      else check_time t1
        (check_subagent_time t2 (lit ''subagent_usage_recorded'') (lit ''subagent_usage'') (\<lambda>a.
           let x = \<lparr>am_calls = model_calls, am_tokens = total_tokens u, am_cost = cost_microunits u,
                    am_steps = tool_calls, am_concurrency = 0\<rparr>;
               scopes = [RUN_SCOPE, TURN_SCOPE, SUBAGENT_SCOPE]
           in case first_refusal (exceeds a x) scopes of
                Some (scope, reason) \<Rightarrow>
                  deny scope (lit ''subagent_usage_recorded'') reason (lit ''subagent_usage'') a
              | None \<Rightarrow>
                  (Inr (), charge scopes (lit ''subagent_usage_recorded'') (lit ''within_limit'')
                     (lit ''subagent_usage'') x a))) a)"

section \<open>Binding a turn\<close>

definition numerics_differ :: "BudgetAccount \<Rightarrow> RuntimeGovernanceEnvelope \<Rightarrow> RuntimeBudgetScope \<Rightarrow> bool" where
  "numerics_differ a g scope \<longleftrightarrow>
     numeric_policy (envelope_limit (budgets g) scope) \<noteq> numeric_policy (limit_of a scope)"

text \<open>The changes a binding refuses, in the order of the source.\<close>

definition bind_refusal ::
  "RuntimeRunIdentity \<Rightarrow> RuntimeGovernanceEnvelope \<Rightarrow> BudgetAccount \<Rightarrow> (RuntimeBudgetScope \<times> pystr) option" where
  "bind_refusal i g a =
     (if policy_id g \<noteq> policy_id (governance a) then Some (RUN_SCOPE, lit ''governance_policy_changed'')
      else if numerics_differ a g RUN_SCOPE then Some (RUN_SCOPE, lit ''run_budget_policy_changed'')
      else if numerics_differ a g TOOL_SCOPE then Some (TOOL_SCOPE, lit ''tool_budget_policy_changed'')
      else if numerics_differ a g SUBAGENT_SCOPE then Some (SUBAGENT_SCOPE, lit ''subagent_budget_policy_changed'')
      else if access g \<noteq> access (governance a) then Some (RUN_SCOPE, lit ''access_scope_changed'')
      else case dict_get (turn_governance a) (ri_turn_id i) of
             None \<Rightarrow> None
           | Some old \<Rightarrow>
               if numeric_policy (be_turn (budgets old)) \<noteq> numeric_policy (be_turn (budgets g))
               then Some (TURN_SCOPE, lit ''turn_budget_policy_changed'') else None)"

definition open_turn :: "RuntimeRunIdentity \<Rightarrow> RuntimeGovernanceEnvelope \<Rightarrow> rat \<Rightarrow> BudgetAccount \<Rightarrow> BudgetAccount" where
  "open_turn i g started a =
     (let a1 = a\<lparr>turns := dict_set (ri_turn_id i) (new_usage started) (turns a),
                 turn_governance := dict_set (ri_turn_id i) g (turn_governance a)\<rparr>
      in emit TURN_SCOPE (lit ''declared'') True (lit ''turn_governance_bound'') (policy_id g)
           (new_usage started) a1)"

text \<open>A refusal of the turn's limits reports the usage of the turn that would be bound.\<close>

definition bind_account ::
  "RuntimeRunIdentity \<Rightarrow> RuntimeGovernanceEnvelope \<Rightarrow> rat \<Rightarrow> rat \<Rightarrow> BudgetAccount \<Rightarrow> unit budget_result" where
  "bind_account i g t1 t2 a =
     (if ri_run_id i \<noteq> ri_run_id (identity a) \<or> ri_owner i \<noteq> ri_owner (identity a)
      then (Inl BudgetValueError, a)
      else case bind_refusal i g a of
        Some (scope, reason) \<Rightarrow>
          (Inl (BudgetExceeded scope reason),
           emit scope (lit ''policy_bind'') False reason (policy_id g)
             (if scope = TURN_SCOPE then dict_get_default (turns a) (ri_turn_id i) (new_usage 0)
              else state_of a scope) a)
      | None \<Rightarrow>
          let a1 = (if dict_get (turn_governance a) (ri_turn_id i) = None then open_turn i g t1 a else a)
          in check_time t2 (\<lambda>a. (Inr (), a)) (a1\<lparr>identity := i, governance := g\<rparr>))"

section \<open>The manager\<close>

record BudgetManager =
  max_accounts :: nat
  accounts :: "(pystr, BudgetAccount) dict"
  order :: "pystr list"

definition new_manager :: "nat \<Rightarrow> budget_error + BudgetManager" where
  "new_manager n = require (n > 0) BudgetValueError (Inr \<lparr>max_accounts = n, accounts = [], order = []\<rparr>)"

definition add_account ::
  "RuntimeRunIdentity \<Rightarrow> BudgetAccount \<Rightarrow> BudgetManager \<Rightarrow> (budget_error + BudgetAccount) \<times> BudgetManager" where
  "add_account i account m =
     (Inr account, m\<lparr>accounts := dict_set (ri_run_id i) account (accounts m),
                     order := order m @ [ri_run_id i]\<rparr>)"

definition manager_bind ::
  "RuntimeRunIdentity \<Rightarrow> RuntimeGovernanceEnvelope \<Rightarrow> rat \<Rightarrow> rat \<Rightarrow> BudgetManager
     \<Rightarrow> (budget_error + BudgetAccount) \<times> BudgetManager" where
  "manager_bind i g t1 t2 m =
     (case dict_get (accounts m) (ri_run_id i) of
        None \<Rightarrow>
          if length (accounts m) \<ge> max_accounts m
          then (case order m of
                  [] \<Rightarrow> (Inl BudgetIndexError, m)
                | stale # rest \<Rightarrow>
                    add_account i (new_account i g t1)
                      (m\<lparr>order := rest, accounts := dict_pop stale (accounts m)\<rparr>))
          else add_account i (new_account i g t1) m
      | Some account \<Rightarrow>
          (case bind_account i g t1 t2 account of
             (Inl e, account') \<Rightarrow> (Inl e, m\<lparr>accounts := dict_set (ri_run_id i) account' (accounts m)\<rparr>)
           | (Inr _, account') \<Rightarrow>
               (Inr account', m\<lparr>accounts := dict_set (ri_run_id i) account' (accounts m)\<rparr>)))"

definition manager_discard :: "pystr \<Rightarrow> BudgetManager \<Rightarrow> BudgetManager" where
  "manager_discard run_id m =
     (let r = py_strip run_id
      in m\<lparr>accounts := dict_pop r (accounts m), order := remove1 r (order m)\<rparr>)"

end
