(* ===== verification/Runtime_Budget_Correct.thy ===== *)
theory Runtime_Budget_Correct
  imports Runtime_Budget
begin

text \<open>
  Correctness of the budget account: no counter ever passes its limit, the counters agree with the
  outstanding reservations, so that releasing and settling never find them out of balance, a
  refused call changes no counter, and settling a call refunds exactly what it did not use.
\<close>

section \<open>Counters by slot\<close>

text \<open>
  The counters of an account are those of the run, of each of its turns, of tools and of
  subagents. A scope of a method stands for one of these slots.
\<close>

datatype slot = Run_slot | Turn_slot pystr | Tool_slot | Subagent_slot

definition slot_of :: "BudgetAccount \<Rightarrow> RuntimeBudgetScope \<Rightarrow> slot" where
  "slot_of a scope =
     (case scope of RUN_SCOPE \<Rightarrow> Run_slot | TURN_SCOPE \<Rightarrow> Turn_slot (ri_turn_id (identity a))
      | TOOL_SCOPE \<Rightarrow> Tool_slot | SUBAGENT_SCOPE \<Rightarrow> Subagent_slot)"

definition slot_usage :: "BudgetAccount \<Rightarrow> slot \<Rightarrow> UsageState option" where
  "slot_usage a s =
     (case s of Run_slot \<Rightarrow> Some (run_usage a) | Turn_slot t \<Rightarrow> dict_get (turns a) t
      | Tool_slot \<Rightarrow> Some (tool_usage a) | Subagent_slot \<Rightarrow> Some (subagent_usage a))"

type_synonym limits = "int \<times> int \<times> int \<times> int \<times> int \<times> int"

definition slot_limits :: "BudgetAccount \<Rightarrow> slot \<Rightarrow> limits option" where
  "slot_limits a s =
     (case s of
        Run_slot \<Rightarrow> Some (numeric_policy (be_run (budgets (governance a))))
      | Turn_slot t \<Rightarrow> map_option (\<lambda>g. numeric_policy (be_turn (budgets g))) (dict_get (turn_governance a) t)
      | Tool_slot \<Rightarrow> Some (numeric_policy (be_tool (budgets (governance a))))
      | Subagent_slot \<Rightarrow> Some (numeric_policy (be_subagent (budgets (governance a)))))"

lemma slot_of_inject [simp]: "slot_of a s = slot_of a s' \<longleftrightarrow> s = s'"
  by (auto simp: slot_of_def split: RuntimeBudgetScope.splits)

definition usage_ok :: "UsageState \<Rightarrow> limits \<Rightarrow> bool" where
  "usage_ok st l =
     (case l of (calls, tokens, cost, steps, time, conc) \<Rightarrow>
        0 \<le> us_model_calls st \<and> us_model_calls st \<le> calls \<and> 0 \<le> us_tokens st \<and> us_tokens st \<le> tokens \<and>
        0 \<le> us_cost st \<and> us_cost st \<le> cost \<and> 0 \<le> us_steps st \<and> us_steps st \<le> steps \<and>
        0 \<le> us_concurrency st \<and> us_concurrency st \<le> conc)"

text \<open>Which slots a reservation counts in.\<close>

definition covers :: "slot \<Rightarrow> RuntimeBudgetReservation \<Rightarrow> bool" where
  "covers s r =
     (case s of Run_slot \<Rightarrow> True | Turn_slot t \<Rightarrow> br_turn_id r = t | Tool_slot \<Rightarrow> br_scope r = TOOL_SCOPE
      | Subagent_slot \<Rightarrow> br_scope r = SUBAGENT_SCOPE)"

definition model_covers :: "slot \<Rightarrow> RuntimeModelBudgetReservation \<Rightarrow> bool" where
  "model_covers s r = (case s of Run_slot \<Rightarrow> True | Turn_slot t \<Rightarrow> mr_turn_id r = t | _ \<Rightarrow> False)"

definition calls_in :: "slot \<Rightarrow> (pystr, RuntimeBudgetReservation) dict \<Rightarrow> int" where
  "calls_in s d = (\<Sum>r \<leftarrow> map snd d. if covers s r then 1 else 0)"

definition tokens_in :: "slot \<Rightarrow> (pystr, RuntimeModelBudgetReservation) dict \<Rightarrow> int" where
  "tokens_in s d = (\<Sum>r \<leftarrow> map snd d. if model_covers s r then mr_reserved_tokens r else 0)"

definition cost_in :: "slot \<Rightarrow> (pystr, RuntimeModelBudgetReservation) dict \<Rightarrow> int" where
  "cost_in s d = (\<Sum>r \<leftarrow> map snd d. if model_covers s r then mr_reserved_cost r else 0)"

definition books_fit ::
  "limits option \<Rightarrow> (pystr, RuntimeBudgetReservation) dict \<Rightarrow> (pystr, RuntimeModelBudgetReservation) dict
     \<Rightarrow> slot \<Rightarrow> UsageState \<Rightarrow> bool" where
  "books_fit bound calls models s st \<longleftrightarrow>
     (\<exists>l. bound = Some l \<and> usage_ok st l) \<and> us_concurrency st = calls_in s calls \<and>
     tokens_in s models \<le> us_tokens st \<and> cost_in s models \<le> us_cost st"

definition slot_ok :: "BudgetAccount \<Rightarrow> slot \<Rightarrow> UsageState \<Rightarrow> bool" where
  "slot_ok a s st \<longleftrightarrow> books_fit (slot_limits a s) (reservations a) (model_reservations a) s st"

definition call_id :: "pystr \<Rightarrow> nat \<Rightarrow> pystr" where
  "call_id run n = lit ''budget-reservation:'' @ run @ lit '':'' @ py_digits n"

definition model_call_id :: "pystr \<Rightarrow> nat \<Rightarrow> pystr" where
  "model_call_id run n = lit ''model-budget-reservation:'' @ run @ lit '':'' @ py_digits n"

definition calls_ok :: "BudgetAccount \<Rightarrow> bool" where
  "calls_ok a \<longleftrightarrow>
     distinct (map fst (reservations a)) \<and>
     (\<forall>(k, r) \<in> set (reservations a). br_id r = k \<and> br_scope r \<in> {TOOL_SCOPE, SUBAGENT_SCOPE} \<and>
        br_turn_id r \<in> fst ` set (turn_governance a) \<and>
        (\<exists>n \<le> reservation_sequence a. k = call_id (ri_run_id (identity a)) n))"

definition models_ok :: "BudgetAccount \<Rightarrow> bool" where
  "models_ok a \<longleftrightarrow>
     distinct (map fst (model_reservations a)) \<and>
     (\<forall>(k, r) \<in> set (model_reservations a). mr_id r = k \<and> 0 \<le> mr_reserved_tokens r \<and> 0 \<le> mr_reserved_cost r \<and>
        mr_turn_id r \<in> fst ` set (turn_governance a) \<and>
        (\<exists>n \<le> reservation_sequence a. k = model_call_id (ri_run_id (identity a)) n))"

definition current_turn_ok :: "BudgetAccount \<Rightarrow> bool" where
  "current_turn_ok a \<longleftrightarrow>
     dict_get (turns a) (ri_turn_id (identity a)) \<noteq> None \<and>
     slot_limits a (Turn_slot (ri_turn_id (identity a))) = Some (numeric_policy (be_turn (budgets (governance a))))"

definition account_inv :: "BudgetAccount \<Rightarrow> bool" where
  "account_inv a \<longleftrightarrow>
     (\<forall>s st. slot_usage a s = Some st \<longrightarrow> slot_ok a s st) \<and> calls_ok a \<and> models_ok a \<and> current_turn_ok a \<and>
     (\<forall>t. dict_get (turns a) t = None \<longleftrightarrow> dict_get (turn_governance a) t = None)"

section \<open>Decisions do not touch the counters\<close>

text \<open>Two accounts that differ only in their decision log.\<close>

definition same_books :: "BudgetAccount \<Rightarrow> BudgetAccount \<Rightarrow> bool" where
  "same_books a b \<longleftrightarrow> (\<exists>n ds. b = a\<lparr>decision_sequence := n, decisions := ds\<rparr>)"

lemma same_books_refl [simp]: "same_books a a"
  unfolding same_books_def by (intro exI [of _ "decision_sequence a"] exI [of _ "decisions a"]) simp

lemma same_books_trans: "same_books a b \<Longrightarrow> same_books b c \<Longrightarrow> same_books a c"
  by (clarsimp simp: same_books_def) blast

lemma same_books_emit [simp]: "same_books a (emit scope op' allow reason resource st a)"
  by (auto simp: same_books_def emit_def)

lemma same_books_fields:
  assumes "same_books a b"
  shows "identity b = identity a" "governance b = governance a" "turns b = turns a"
    "run_usage b = run_usage a" "tool_usage b = tool_usage a" "subagent_usage b = subagent_usage a"
    "turn_governance b = turn_governance a"
    "reservations b = reservations a" "model_reservations b = model_reservations a"
    "reservation_sequence b = reservation_sequence a"
  using assms by (auto simp: same_books_def)

lemma same_books_inv: "same_books a b \<Longrightarrow> account_inv a \<Longrightarrow> account_inv b"
  by (auto simp: same_books_def account_inv_def slot_usage_def slot_ok_def slot_limits_def calls_ok_def
      models_ok_def current_turn_ok_def split: slot.splits)

lemma same_books_state: "same_books a b \<Longrightarrow> state_of b = state_of a"
  by (rule ext) (auto simp: same_books_def state_of_def split: RuntimeBudgetScope.splits)

lemma deny_books: "deny scope op' reason resource a = (res, b) \<Longrightarrow> same_books a b \<and> res = Inl (BudgetExceeded scope reason)"
  by (auto simp: deny_def)

section \<open>Charging the slots\<close>

text \<open>An account in which only counters, decisions and the reservation number have changed.\<close>

definition same_frame :: "BudgetAccount \<Rightarrow> BudgetAccount \<Rightarrow> bool" where
  "same_frame a b \<longleftrightarrow>
     identity b = identity a \<and> governance b = governance a \<and> turn_governance b = turn_governance a \<and>
     reservations b = reservations a \<and> model_reservations b = model_reservations a"

lemma same_frame_slots:
  assumes "same_frame a b"
  shows "slot_of b = slot_of a" "slot_limits b = slot_limits a" "limit_of b = limit_of a"
  using assms by (auto simp: same_frame_def slot_of_def slot_limits_def limit_of_def fun_eq_iff
      split: RuntimeBudgetScope.splits slot.splits)

lemma set_state_frame [simp]:
  "same_frame a (set_state scope st a)" "reservation_sequence (set_state scope st a) = reservation_sequence a"
  by (cases scope; simp add: same_frame_def set_state_def)+

lemma emit_frame [simp]:
  "same_frame a (emit scope op' allow reason resource st a)"
  "reservation_sequence (emit scope op' allow reason resource st a) = reservation_sequence a"
  by (simp_all add: same_frame_def emit_def)

lemma slot_usage_emit [simp]: "slot_usage (emit scope op' allow reason resource st a) = slot_usage a"
  by (auto simp: emit_def slot_usage_def fun_eq_iff split: slot.splits)

lemma state_of_emit [simp]: "state_of (emit scope op' allow reason resource st a) = state_of a"
  by (auto simp: emit_def state_of_def fun_eq_iff split: RuntimeBudgetScope.splits)

lemma slot_usage_set [simp]: "slot_usage (set_state scope st a) = (slot_usage a)(slot_of a scope \<mapsto> st)"
  by (cases scope) (auto simp: set_state_def slot_usage_def slot_of_def fun_eq_iff split: slot.splits)

lemma state_of_slot: "current_turn_ok a \<Longrightarrow> slot_usage a (slot_of a scope) = Some (state_of a scope)"
  by (cases scope) (auto simp: slot_usage_def slot_of_def state_of_def current_turn_ok_def dict_get_default_def)

lemma same_frame_trans: "same_frame a b \<Longrightarrow> same_frame b c \<Longrightarrow> same_frame a c"
  by (auto simp: same_frame_def)

lemma same_frame_refl [simp]: "same_frame a a"
  by (simp add: same_frame_def)

definition turns_present :: "BudgetAccount \<Rightarrow> BudgetAccount \<Rightarrow> bool" where
  "turns_present a b \<longleftrightarrow> (\<forall>s. slot_usage b s = None \<longleftrightarrow> slot_usage a s = None)"

lemma current_turn_kept:
  assumes "same_frame a b" "turns_present a b" "current_turn_ok a"
  shows "current_turn_ok b"
proof -
  have ids: "identity b = identity a" "governance b = governance a" using assms(1) by (auto simp: same_frame_def)
  have "dict_get (turns b) t = None \<longleftrightarrow> dict_get (turns a) t = None" for t
    using assms(2) by (auto simp: turns_present_def slot_usage_def dest: spec [of _ "Turn_slot t"])
  from this [of "ri_turn_id (identity a)"] show ?thesis
    using assms(3) unfolding current_turn_ok_def ids same_frame_slots(2) [OF assms(1)] by argo
qed

text \<open>Changing the counters of some scopes, one after the other, by the same function.\<close>

definition on_slots :: "BudgetAccount \<Rightarrow> RuntimeBudgetScope list \<Rightarrow> (UsageState \<Rightarrow> UsageState) \<Rightarrow> BudgetAccount \<Rightarrow> bool" where
  "on_slots a scopes f b \<longleftrightarrow>
     same_frame a b \<and> current_turn_ok b \<and>
     slot_usage b = (\<lambda>s. if s \<in> slot_of a ` set scopes then map_option f (slot_usage a s) else slot_usage a s)"

lemma on_slots_Nil: "current_turn_ok a \<Longrightarrow> on_slots a [] f a"
  by (simp add: on_slots_def)

lemma on_slots_snoc:
  assumes "on_slots a scopes f b" "scope \<notin> set scopes" "current_turn_ok a"
    and "same_frame b c" "slot_usage c = (slot_usage b)(slot_of b scope \<mapsto> f (state_of b scope))"
  shows "on_slots a (scopes @ [scope]) f c"
proof -
  have ab: "same_frame a b" and cur: "current_turn_ok b"
    and usage: "slot_usage b = (\<lambda>s. if s \<in> slot_of a ` set scopes then map_option f (slot_usage a s) else slot_usage a s)"
    using assms(1) by (auto simp: on_slots_def)
  note so = same_frame_slots(1) [OF ab]
  have new: "slot_of a scope \<notin> slot_of a ` set scopes" using assms(2) by auto
  have st: "slot_usage a (slot_of a scope) = Some (state_of b scope)"
    using state_of_slot [OF cur, of scope] new by (simp add: so usage)
  have "turns_present b c"
    unfolding turns_present_def assms(5) using state_of_slot [OF cur, of scope] by (auto simp: so)
  then have "current_turn_ok c" using current_turn_kept [OF assms(4) _ cur] by simp
  moreover have "slot_usage c = (\<lambda>s. if s \<in> slot_of a ` set (scopes @ [scope]) then map_option f (slot_usage a s) else slot_usage a s)"
    using new st by (auto simp: assms(5) so usage fun_eq_iff)
  ultimately show ?thesis using same_frame_trans [OF ab assms(4)] by (simp add: on_slots_def)
qed

lemma foldl_on_slots:
  assumes "current_turn_ok a" "distinct scopes"
    and g: "\<And>b scope. same_frame b (g b scope)" "\<And>b scope. reservation_sequence (g b scope) = reservation_sequence b"
      "\<And>b scope. slot_usage (g b scope) = (slot_usage b)(slot_of b scope \<mapsto> f (state_of b scope))"
  shows "on_slots a scopes f (foldl g a scopes) \<and> reservation_sequence (foldl g a scopes) = reservation_sequence a"
  using assms(2)
proof (induction scopes rule: rev_induct)
  case Nil
  then show ?case using assms(1) by (simp add: on_slots_Nil)
next
  case (snoc scope scopes)
  have IH: "on_slots a scopes f (foldl g a scopes)" "reservation_sequence (foldl g a scopes) = reservation_sequence a"
    using snoc by auto
  from on_slots_snoc [OF IH(1) _ assms(1) g(1) g(3)] snoc.prems IH(2) g(2) show ?case by simp
qed

lemma charge_on_slots:
  assumes "current_turn_ok a" "distinct scopes"
  shows "on_slots a scopes (consume x) (charge scopes op' reason resource x a) \<and>
    reservation_sequence (charge scopes op' reason resource x a) = reservation_sequence a"
  unfolding charge_def
  by (rule foldl_on_slots [OF assms])
    (auto simp: charge_scope_def Let_def intro: same_frame_trans [OF set_state_frame(1) emit_frame(1)])

lemma not_exceeding:
  "would_exceed st l x = [] \<longleftrightarrow>
     us_model_calls st + am_calls x \<le> model_call_limit l \<and> us_tokens st + am_tokens x \<le> token_limit l \<and>
     us_cost st + am_cost x \<le> cost_limit_microunits l \<and> us_steps st + am_steps x \<le> step_limit l \<and>
     us_concurrency st + am_concurrency x \<le> concurrency_limit l"
  by (auto simp: would_exceed_def)

lemma first_refusal_None: "first_refusal f scopes = None \<longleftrightarrow> (\<forall>s \<in> set scopes. f s = [])"
  by (induction scopes) auto

lemma current_limits:
  "current_turn_ok a \<Longrightarrow> slot_limits a (slot_of a scope) = Some (numeric_policy (limit_of a scope))"
  by (cases scope) (auto simp: current_turn_ok_def slot_limits_def slot_of_def limit_of_def envelope_limit_def)

lemma current_turn_known: "current_turn_ok a \<Longrightarrow> ri_turn_id (identity a) \<in> fst ` set (turn_governance a)"
  by (auto simp: current_turn_ok_def slot_limits_def image_iff dest!: map_of_SomeD) force

definition nonneg :: "amount \<Rightarrow> bool" where
  "nonneg x \<longleftrightarrow> 0 \<le> am_calls x \<and> 0 \<le> am_tokens x \<and> 0 \<le> am_cost x \<and> 0 \<le> am_steps x \<and> 0 \<le> am_concurrency x"

lemma consume_ok:
  assumes "usage_ok st (numeric_policy l)" "would_exceed st l x = []" "nonneg x"
  shows "usage_ok (consume x st) (numeric_policy l)"
  using assms unfolding not_exceeding by (auto simp: usage_ok_def numeric_policy_def consume_def nonneg_def)

lemma consume_fields [simp]:
  "us_model_calls (consume x st) = us_model_calls st + am_calls x"
  "us_tokens (consume x st) = us_tokens st + am_tokens x" "us_cost (consume x st) = us_cost st + am_cost x"
  "us_steps (consume x st) = us_steps st + am_steps x"
  "us_concurrency (consume x st) = us_concurrency st + am_concurrency x"
  by (simp_all add: consume_def)

lemma turns_slot: "slot_usage a (Turn_slot t) = dict_get (turns a) t"
  by (simp add: slot_usage_def)

text \<open>
  The general step: the counters of some scopes change by \<open>f\<close>, and with them the tables of
  reservations. What has to be shown is that each slot still fits its tables.
\<close>

lemma account_inv_change:
  assumes "account_inv a" "on_slots a scopes f b"
    and "same_books b b'" "c = b'\<lparr>reservations := calls, model_reservations := models, reservation_sequence := n\<rparr>"
    and "calls_ok c" "models_ok c"
    and "\<And>s st. slot_usage a s = Some st \<Longrightarrow> books_fit (slot_limits a s) (reservations a) (model_reservations a) s st \<Longrightarrow>
      books_fit (slot_limits a s) calls models s (if s \<in> slot_of a ` set scopes then f st else st)"
  shows "account_inv c"
proof -
  have ab: "same_frame a b" and cur: "current_turn_ok b"
    and usage: "slot_usage b = (\<lambda>s. if s \<in> slot_of a ` set scopes then map_option f (slot_usage a s) else slot_usage a s)"
    using assms(2) by (auto simp: on_slots_def)
  note fb = same_books_fields [OF assms(3)]
  have frame: "identity c = identity a" "governance c = governance a" "turn_governance c = turn_governance a" "turns c = turns b"
    using ab by (auto simp: assms(4) fb same_frame_def)
  have su: "slot_usage c = slot_usage b"
    by (rule ext) (simp add: assms(4) slot_usage_def fb split: slot.splits)
  have sl: "slot_limits c = slot_limits a"
    by (rule ext) (simp add: slot_limits_def frame split: slot.splits)
  have tables: "reservations c = calls" "model_reservations c = models" by (simp_all add: assms(4))
  have "slot_ok c s st" if "slot_usage c s = Some st" for s st
  proof -
    have "(if s \<in> slot_of a ` set scopes then map_option f (slot_usage a s) else slot_usage a s) = Some st"
      using that by (simp only: su usage)
    then obtain st0 where st0: "slot_usage a s = Some st0" "st = (if s \<in> slot_of a ` set scopes then f st0 else st0)"
      by (cases "slot_usage a s") (auto split: if_splits)
    have "books_fit (slot_limits a s) (reservations a) (model_reservations a) s st0"
      using assms(1) st0(1) by (simp add: account_inv_def slot_ok_def)
    from assms(7) [OF st0(1) this] show ?thesis
      unfolding slot_ok_def sl tables st0(2) .
  qed
  moreover have "current_turn_ok c"
    using cur ab unfolding current_turn_ok_def same_frame_def slot_limits_def frame by simp
  moreover have "dict_get (turns c) t = None \<longleftrightarrow> dict_get (turn_governance c) t = None" for t
  proof -
    have "dict_get (turns b) t = None \<longleftrightarrow> dict_get (turns a) t = None"
      using fun_cong [OF usage, of "Turn_slot t"] by (auto simp: turns_slot split: if_splits)
    moreover have "dict_get (turns a) t = None \<longleftrightarrow> dict_get (turn_governance a) t = None"
      using assms(1) unfolding account_inv_def by blast
    ultimately show ?thesis unfolding frame by argo
  qed
  ultimately show ?thesis using assms(5,6) unfolding account_inv_def by blast
qed

section \<open>The operations keep the books\<close>

lemma account_invD:
  assumes "account_inv a"
  shows "current_turn_ok a" "calls_ok a" "models_ok a"
    "usage_ok (state_of a scope) (numeric_policy (limit_of a scope))"
    "slot_ok a (slot_of a scope) (state_of a scope)"
proof -
  show cur: "current_turn_ok a" and "calls_ok a" "models_ok a" using assms by (auto simp: account_inv_def)
  show ok: "slot_ok a (slot_of a scope) (state_of a scope)"
    using assms state_of_slot [OF cur, of scope] by (simp add: account_inv_def)
  then show "usage_ok (state_of a scope) (numeric_policy (limit_of a scope))"
    by (simp add: slot_ok_def books_fit_def current_limits [OF cur])
qed

lemma slot_image: "s \<in> slot_of a ` set scopes \<longleftrightarrow> (\<exists>scope \<in> set scopes. s = slot_of a scope)"
  by auto

text \<open>A charge that fits every scope, without a new reservation.\<close>

lemma charge_inv:
  assumes "account_inv a" "distinct scopes" "nonneg x" "am_concurrency x = 0"
    and "first_refusal (exceeds a x) scopes = None"
  shows "account_inv (charge scopes op' reason resource x a)"
proof -
  let ?b = "charge scopes op' reason resource x a"
  note inv = account_invD [OF assms(1)]
  note ch = charge_on_slots [OF inv(1) assms(2), of x op' reason resource]
  have frame: "reservations ?b = reservations a" "model_reservations ?b = model_reservations a"
    "identity ?b = identity a" "reservation_sequence ?b = reservation_sequence a" "turn_governance ?b = turn_governance a"
    using ch by (auto simp: on_slots_def same_frame_def)
  show ?thesis
  proof (rule account_inv_change [OF assms(1) conjunct1 [OF ch] same_books_refl])
    show "?b = ?b\<lparr>reservations := reservations a, model_reservations := model_reservations a,
        reservation_sequence := reservation_sequence a\<rparr>"
      by (simp flip: frame)
    show "calls_ok ?b" "models_ok ?b" using inv(2,3) by (simp_all add: calls_ok_def models_ok_def frame)
    fix s st
    assume st: "slot_usage a s = Some st" "books_fit (slot_limits a s) (reservations a) (model_reservations a) s st"
    show "books_fit (slot_limits a s) (reservations a) (model_reservations a) s
        (if s \<in> slot_of a ` set scopes then consume x st else st)"
    proof (cases "s \<in> slot_of a ` set scopes")
      case True
      then obtain scope where scope: "scope \<in> set scopes" "s = slot_of a scope" by auto
      have eq: "st = state_of a scope" using st(1) state_of_slot [OF inv(1), of scope] scope by simp
      have "would_exceed st (limit_of a scope) x = []"
        using assms(5) scope(1) by (simp add: first_refusal_None exceeds_def eq)
      then have "usage_ok (consume x st) (numeric_policy (limit_of a scope))"
        using consume_ok [OF _ _ assms(3)] inv(4) [of scope] by (simp add: eq)
      then show ?thesis
        using st(2) True assms(3,4)
        by (auto simp: books_fit_def scope(2) current_limits [OF inv(1)] nonneg_def)
    qed (use st(2) in simp)
  qed
qed

lemma check_time_inv:
  assumes "check_time t k a = (res, b)" "account_inv a"
    and "\<And>res b. k a = (res, b) \<Longrightarrow> account_inv b"
  shows "account_inv b"
  using assms same_books_inv deny_books
  by (fastforce simp: check_time_def split: option.splits)

lemma check_subagent_time_inv:
  assumes "check_subagent_time t op' resource k a = (res, b)" "account_inv a"
    and "\<And>res b. k a = (res, b) \<Longrightarrow> account_inv b"
  shows "account_inv b"
  using assms same_books_inv deny_books
  by (fastforce simp: check_subagent_time_def split: if_splits)

lemma reserve_model_inv:
  assumes "reserve_model model t a = (res, b)" "account_inv a"
  shows "account_inv b"
proof (rule check_time_inv [OF assms(1) [unfolded reserve_model_def] assms(2)])
  fix res b
  let ?x = "nothing\<lparr>am_calls := 1, am_steps := 1\<rparr>"
  assume k: "(let m = model_name model
     in case first_refusal (model_refusal a m) model_scopes of
          None \<Rightarrow> (Inr (), charge model_scopes (lit ''model_reservation'') (lit ''within_limit'') m ?x a)
        | Some (scope, reason) \<Rightarrow> deny scope (lit ''model_reservation'') reason m a) = (res, b)"
  show "account_inv b"
  proof (cases "first_refusal (model_refusal a (model_name model)) model_scopes")
    case None
    then have "first_refusal (exceeds a ?x) model_scopes = None"
      by (auto simp: first_refusal_None model_refusal_def split: if_splits)
    then show ?thesis
      using charge_inv [OF assms(2), of model_scopes ?x] k None by (auto simp: Let_def nonneg_def nothing_def)
  next
    case (Some r)
    then show ?thesis using k same_books_inv [OF _ assms(2)] deny_books by (fastforce simp: Let_def split: prod.splits)
  qed
qed

section \<open>Tables of reservations\<close>

lemma sum_pop:
  fixes f :: "'v \<Rightarrow> int"
  assumes "distinct (map fst d)" "dict_get d k = Some v"
  shows "(\<Sum>x \<leftarrow> map snd (dict_pop k d). f x) = (\<Sum>x \<leftarrow> map snd d. f x) - f v"
  using assms
proof (induction d)
  case (Cons p d)
  obtain k' v' where p: "p = (k', v')" by (cases p)
  show ?case
  proof (cases "k' = k")
    case True
    then have "k \<notin> fst ` set d" using Cons.prems(1) p by auto
    then have "dict_pop k d = d" by (simp add: delete_id)
    then show ?thesis using Cons.prems(2) p True by simp
  next
    case False
    then show ?thesis using Cons p by simp
  qed
qed simp

lemma sum_nonneg_le:
  fixes f :: "'v \<Rightarrow> int"
  assumes "distinct (map fst d)" "dict_get d k = Some v" "\<And>x. x \<in> snd ` set d \<Longrightarrow> 0 \<le> f x"
  shows "f v \<le> (\<Sum>x \<leftarrow> map snd d. f x)"
proof -
  have "set (dict_pop k d) \<subseteq> set d" by (auto simp: AList.delete_eq)
  then have "0 \<le> (\<Sum>x \<leftarrow> map snd (dict_pop k d). f x)"
    using assms(3) by (intro sum_list_nonneg) fastforce
  then show ?thesis using sum_pop [OF assms(1,2), of f] by simp
qed

lemma calls_in_snoc [simp]: "calls_in s (d @ [(k, r)]) = calls_in s d + (if covers s r then 1 else 0)"
  by (simp add: calls_in_def)

lemma calls_in_pop:
  "distinct (map fst d) \<Longrightarrow> dict_get d k = Some r \<Longrightarrow>
     calls_in s (dict_pop k d) = calls_in s d - (if covers s r then 1 else 0)"
  unfolding calls_in_def by (rule sum_pop)

lemma models_in_snoc [simp]:
  "tokens_in s (d @ [(k, r)]) = tokens_in s d + (if model_covers s r then mr_reserved_tokens r else 0)"
  "cost_in s (d @ [(k, r)]) = cost_in s d + (if model_covers s r then mr_reserved_cost r else 0)"
  by (simp_all add: tokens_in_def cost_in_def)

lemma models_in_pop:
  assumes "distinct (map fst d)" "dict_get d k = Some r"
  shows "tokens_in s (dict_pop k d) = tokens_in s d - (if model_covers s r then mr_reserved_tokens r else 0)"
    "cost_in s (dict_pop k d) = cost_in s d - (if model_covers s r then mr_reserved_cost r else 0)"
  unfolding tokens_in_def cost_in_def by (rule sum_pop [OF assms])+

lemma models_in_ge:
  assumes "models_ok a" "dict_get (model_reservations a) k = Some r" "model_covers s r"
  shows "mr_reserved_tokens r \<le> tokens_in s (model_reservations a)" "mr_reserved_cost r \<le> cost_in s (model_reservations a)"
proof -
  have d: "distinct (map fst (model_reservations a))"
    and nn: "0 \<le> mr_reserved_tokens x" "0 \<le> mr_reserved_cost x" if "x \<in> snd ` set (model_reservations a)" for x
    using assms(1) that by (auto simp: models_ok_def)
  have d: "distinct (map fst (model_reservations a))" using assms(1) by (simp add: models_ok_def)
  show "mr_reserved_tokens r \<le> tokens_in s (model_reservations a)"
    using sum_nonneg_le [OF d assms(2), of "\<lambda>r. if model_covers s r then mr_reserved_tokens r else 0"] nn assms(3)
    by (simp add: tokens_in_def)
  show "mr_reserved_cost r \<le> cost_in s (model_reservations a)"
    using sum_nonneg_le [OF d assms(2), of "\<lambda>r. if model_covers s r then mr_reserved_cost r else 0"] nn assms(3)
    by (simp add: cost_in_def)
qed

lemma py_digits_inject [simp]: "py_digits m = py_digits n \<longleftrightarrow> m = n"
  by (metis digits_value_py_digits)

lemma ids_inject [simp]: "call_id run m = call_id run n \<longleftrightarrow> m = n" "model_call_id run m = model_call_id run n \<longleftrightarrow> m = n"
  by (simp_all add: call_id_def model_call_id_def)

lemma fresh_ids:
  assumes "reservation_sequence a < n"
  shows "calls_ok a \<Longrightarrow> call_id (ri_run_id (identity a)) n \<notin> fst ` set (reservations a)"
    "models_ok a \<Longrightarrow> model_call_id (ri_run_id (identity a)) n \<notin> fst ` set (model_reservations a)"
proof -
  show "call_id (ri_run_id (identity a)) n \<notin> fst ` set (reservations a)" if ok: "calls_ok a"
  proof
    assume "call_id (ri_run_id (identity a)) n \<in> fst ` set (reservations a)"
    then obtain r where "(call_id (ri_run_id (identity a)) n, r) \<in> set (reservations a)" by auto
    then obtain m where "m \<le> reservation_sequence a" "n = m" using ok by (fastforce simp: calls_ok_def)
    then show False using assms by simp
  qed
  show "model_call_id (ri_run_id (identity a)) n \<notin> fst ` set (model_reservations a)" if ok: "models_ok a"
  proof
    assume "model_call_id (ri_run_id (identity a)) n \<in> fst ` set (model_reservations a)"
    then obtain r where "(model_call_id (ri_run_id (identity a)) n, r) \<in> set (model_reservations a)" by auto
    then obtain m where "m \<le> reservation_sequence a" "n = m" using ok by (fastforce simp: models_ok_def)
    then show False using assms by simp
  qed
qed

section \<open>Reserving and releasing calls\<close>

lemma covers_slots:
  "scope \<in> {TOOL_SCOPE, SUBAGENT_SCOPE} \<Longrightarrow>
     covers s \<lparr>br_id = i, br_scope = scope, br_turn_id = ri_turn_id (identity a)\<rparr> \<longleftrightarrow>
       s \<in> slot_of a ` set [RUN_SCOPE, TURN_SCOPE, scope]"
  by (cases s) (auto simp: covers_def slot_of_def)

lemma table_updates [simp]:
  "state_of (a\<lparr>reservation_sequence := n\<rparr>) = state_of a" "limit_of (a\<lparr>reservation_sequence := n\<rparr>) = limit_of a"
  "slot_of (a\<lparr>reservation_sequence := n\<rparr>) = slot_of a" "exceeds (a\<lparr>reservation_sequence := n\<rparr>) = exceeds a"
  "state_of (a\<lparr>reservations := calls\<rparr>) = state_of a" "slot_of (a\<lparr>reservations := calls\<rparr>) = slot_of a"
  "state_of (a\<lparr>model_reservations := models\<rparr>) = state_of a"
  "slot_of (a\<lparr>model_reservations := models\<rparr>) = slot_of a"
  by (auto simp: fun_eq_iff state_of_def limit_of_def slot_of_def exceeds_def split: RuntimeBudgetScope.splits)

lemma same_tables: "a = a\<lparr>reservations := reservations a, model_reservations := model_reservations a,
    reservation_sequence := reservation_sequence a\<rparr>"
  by simp

lemma account_inv_sequence:
  assumes "account_inv a" "reservation_sequence a \<le> n"
  shows "account_inv (a\<lparr>reservation_sequence := n\<rparr>)"
proof -
  have up: "\<exists>m \<le> n. k = f m" if "\<exists>m \<le> reservation_sequence a. k = f m" for k and f :: "nat \<Rightarrow> pystr"
    using that assms(2) order_trans by blast
  have c: "calls_ok (a\<lparr>reservation_sequence := n\<rparr>)" using account_invD(2) [OF assms(1)] up by (fastforce simp: calls_ok_def)
  have m: "models_ok (a\<lparr>reservation_sequence := n\<rparr>)" using account_invD(3) [OF assms(1)] up by (fastforce simp: models_ok_def)
  show ?thesis
    by (rule account_inv_change [OF assms(1) on_slots_Nil [OF account_invD(1) [OF assms(1)], of id] same_books_refl _ c m])
      auto
qed

lemma reserve_call_inv:
  assumes "account_inv a" "scope \<in> {TOOL_SCOPE, SUBAGENT_SCOPE}"
    and "first_refusal (exceeds a call_amount) [RUN_SCOPE, TURN_SCOPE, scope] = None"
    and "reserve_call scope op' resource a = (res, b)"
  shows "account_inv b"
proof -
  let ?n = "reservation_sequence a + 1" and ?scopes = "[RUN_SCOPE, TURN_SCOPE, scope]"
  let ?id = "call_id (ri_run_id (identity a)) ?n"
  let ?res = "\<lparr>br_id = ?id, br_scope = scope, br_turn_id = ri_turn_id (identity a)\<rparr>"
  define a0 where "a0 = a\<lparr>reservation_sequence := ?n\<rparr>"
  have inv0: "account_inv a0" unfolding a0_def by (rule account_inv_sequence [OF assms(1)]) simp
  note inv = account_invD [OF inv0]
  have a0: "identity a0 = identity a" "reservations a0 = reservations a" "reservation_sequence a0 = ?n"
    "model_reservations a0 = model_reservations a" "slot_of a0 = slot_of a" "turn_governance a0 = turn_governance a"
    by (simp_all add: a0_def)
  have ref: "first_refusal (exceeds a0 call_amount) ?scopes = None"
    using assms(3) by (simp add: exceeds_def a0_def)
  let ?a1 = "charge ?scopes op' (lit ''within_limit'') resource call_amount a0"
  have dist: "distinct ?scopes" using assms(2) by auto
  note ch = charge_on_slots [OF inv(1) dist, of call_amount op' "lit ''within_limit''" resource]
  have frame: "reservations ?a1 = reservations a" "model_reservations ?a1 = model_reservations a"
    "identity ?a1 = identity a" "reservation_sequence ?a1 = ?n" "turn_governance ?a1 = turn_governance a"
    using ch by (auto simp: on_slots_def same_frame_def a0)
  have new: "?id \<notin> fst ` set (reservations a)" using fresh_ids(1) [of a ?n] account_invD(2) [OF assms(1)] by simp
  have b: "b = ?a1\<lparr>reservations := reservations a @ [(?id, ?res)], model_reservations := model_reservations a,
      reservation_sequence := ?n\<rparr>"
  proof -
    have "reserve_call scope op' resource a = (Inr ?res, ?a1\<lparr>reservations := dict_set ?id ?res (reservations ?a1)\<rparr>)"
      unfolding reserve_call_def Let_def call_id_def a0_def by simp
    then have "b = ?a1\<lparr>reservations := reservations a @ [(?id, ?res)]\<rparr>"
      using assms(4) dict_set_new [OF new, of ?res] frame(1) by simp
    then show ?thesis using same_tables [of "?a1\<lparr>reservations := reservations a @ [(?id, ?res)]\<rparr>"] frame by simp
  qed
  show ?thesis
  proof (rule account_inv_change [OF inv0 conjunct1 [OF ch] same_books_refl b])
    show "calls_ok b"
      using inv(2) new assms(2) current_turn_known [OF inv(1)] by (auto simp: calls_ok_def b frame a0 call_id_def)
    show "models_ok b" using inv(3) by (auto simp: models_ok_def b frame a0)
    fix s st
    assume st: "slot_usage a0 s = Some st" "books_fit (slot_limits a0 s) (reservations a0) (model_reservations a0) s st"
    show "books_fit (slot_limits a0 s) (reservations a @ [(?id, ?res)]) (model_reservations a) s
        (if s \<in> slot_of a0 ` set ?scopes then consume call_amount st else st)"
    proof (cases "s \<in> slot_of a0 ` set ?scopes")
      case True
      then obtain sc where sc: "sc \<in> set ?scopes" "s = slot_of a0 sc" by auto
      have eq: "st = state_of a0 sc" using st(1) state_of_slot [OF inv(1), of sc] sc by simp
      have "would_exceed st (limit_of a0 sc) call_amount = []"
        using ref sc(1) unfolding first_refusal_None by (auto simp: exceeds_def eq)
      then have "usage_ok (consume call_amount st) (numeric_policy (limit_of a0 sc))"
        using consume_ok inv(4) [of sc] by (simp add: eq nonneg_def nothing_def)
      moreover have "covers s ?res" using covers_slots [OF assms(2), of s ?id a] True by (simp add: a0)
      ultimately show ?thesis
        using st(2) True current_limits [OF inv(1), of sc] by (simp add: books_fit_def a0 sc(2) nothing_def)
    next
      case False
      then have "\<not> covers s ?res" using covers_slots [OF assms(2), of s ?id a] by (simp add: a0)
      then show ?thesis using st(2) False by (simp add: books_fit_def a0)
    qed
  qed
qed

lemma reserve_tool_inv:
  assumes "reserve_tool tool t a = (res, b)" "account_inv a"
  shows "account_inv b"
proof (rule check_time_inv [OF assms(1) [unfolded reserve_tool_def] assms(2)], goal_cases)
  case (1 res b)
  then show ?case
    using reserve_call_inv [OF assms(2), of TOOL_SCOPE] same_books_inv [OF _ assms(2)] deny_books
    by (fastforce simp: Let_def split: if_splits option.splits)
qed

lemma reserve_subagent_inv:
  assumes "reserve_subagent agent t1 t2 a = (res, b)" "account_inv a"
  shows "account_inv b"
proof (rule check_time_inv [OF assms(1) [unfolded reserve_subagent_def] assms(2)], goal_cases)
  case (1 res b)
  define name where "name = (let s = py_strip agent in if s = [] then lit ''subagent'' else s)"
  show ?case
  proof (cases "first_refusal (exceeds a call_amount) [RUN_SCOPE, TURN_SCOPE, SUBAGENT_SCOPE]")
    case None
    then have "check_subagent_time t2 (lit ''subagent_reservation'') name
        (reserve_call SUBAGENT_SCOPE (lit ''subagent_reservation'') name) a = (res, b)"
      using 1 by (simp add: name_def Let_def)
    then show ?thesis
      by (rule check_subagent_time_inv [OF _ assms(2)]) (use reserve_call_inv [OF assms(2) _ None] in blast)
  next
    case (Some r)
    then show ?thesis using 1 same_books_inv [OF _ assms(2)] deny_books
      by (fastforce simp: Let_def split: prod.splits)
  qed
qed

definition one_less :: "UsageState \<Rightarrow> UsageState" where
  "one_less st = st\<lparr>us_concurrency := us_concurrency st - 1\<rparr>"

lemma one_less_fields [simp]:
  "us_concurrency (one_less st) = us_concurrency st - 1" "us_tokens (one_less st) = us_tokens st"
  "us_cost (one_less st) = us_cost st"
  by (simp_all add: one_less_def)

lemma one_less_ok: "usage_ok st l \<Longrightarrow> 0 < us_concurrency st \<Longrightarrow> usage_ok (one_less st) l"
  by (auto simp: usage_ok_def one_less_def split: prod.splits)

lemma release_on_slots:
  assumes "current_turn_ok a" "distinct scopes"
  shows "on_slots a scopes one_less (foldl release_scope a scopes) \<and>
    reservation_sequence (foldl release_scope a scopes) = reservation_sequence a"
  by (rule foldl_on_slots [OF assms]) (auto simp: release_scope_def one_less_def)

lemma stored_call:
  assumes "calls_ok a" "dict_get (reservations a) k = Some r"
  shows "br_id r = k" "br_scope r \<in> {TOOL_SCOPE, SUBAGENT_SCOPE}"
proof -
  have "(k, r) \<in> set (reservations a)" using assms(2) by (rule map_of_SomeD)
  then show "br_id r = k" "br_scope r \<in> {TOOL_SCOPE, SUBAGENT_SCOPE}" using assms(1) unfolding calls_ok_def by blast+
qed

lemma set_dict_pop: "set (dict_pop k d) \<subseteq> set d" "distinct (map fst d) \<Longrightarrow> distinct (map fst (dict_pop k d))"
  by (auto simp: AList.delete_eq distinct_map_filter)

lemma tables_pop:
  "calls_ok a \<Longrightarrow> identity c = identity a \<Longrightarrow> reservation_sequence c = reservation_sequence a \<Longrightarrow>
     turn_governance c = turn_governance a \<Longrightarrow> reservations c = dict_pop k (reservations a) \<Longrightarrow> calls_ok c"
  "models_ok a \<Longrightarrow> identity c = identity a \<Longrightarrow> reservation_sequence c = reservation_sequence a \<Longrightarrow>
     turn_governance c = turn_governance a \<Longrightarrow> model_reservations c = dict_pop k (model_reservations a) \<Longrightarrow> models_ok c"
proof -
  show "calls_ok c" if "calls_ok a" "identity c = identity a" "reservation_sequence c = reservation_sequence a"
    "turn_governance c = turn_governance a" "reservations c = dict_pop k (reservations a)"
    using that(1) set_dict_pop [where k = k and d = "reservations a"] unfolding calls_ok_def that(2-5) by blast
  show "models_ok c" if "models_ok a" "identity c = identity a" "reservation_sequence c = reservation_sequence a"
    "turn_governance c = turn_governance a" "model_reservations c = dict_pop k (model_reservations a)"
    using that(1) set_dict_pop [where k = k and d = "model_reservations a"] unfolding models_ok_def that(2-5) by blast
qed

lemma tables_same:
  "calls_ok a \<Longrightarrow> identity c = identity a \<Longrightarrow> reservation_sequence c = reservation_sequence a \<Longrightarrow>
     turn_governance c = turn_governance a \<Longrightarrow> reservations c = reservations a \<Longrightarrow> calls_ok c"
  "models_ok a \<Longrightarrow> identity c = identity a \<Longrightarrow> reservation_sequence c = reservation_sequence a \<Longrightarrow>
     turn_governance c = turn_governance a \<Longrightarrow> model_reservations c = model_reservations a \<Longrightarrow> models_ok c"
  by (simp_all add: calls_ok_def models_ok_def)

lemma covered_slots:
  assumes "br_scope r \<in> {TOOL_SCOPE, SUBAGENT_SCOPE}" "br_turn_id r = ri_turn_id (identity a)"
  shows "covers s r \<longleftrightarrow> s \<in> slot_of a ` set [RUN_SCOPE, TURN_SCOPE, br_scope r]"
  using covers_slots [OF assms(1), of s "br_id r" a] assms(2) by (cases r) simp

text \<open>An outstanding reservation of the current turn is always released.\<close>

lemma release_outstanding:
  assumes "account_inv a" "dict_get (reservations a) (br_id r) = Some r" "br_turn_id r = ri_turn_id (identity a)"
  shows "\<exists>b. release r a = (Inr (), b) \<and> account_inv b \<and> dict_get (reservations b) (br_id r) = None"
proof -
  note inv = account_invD [OF assms(1)]
  note r = stored_call [OF inv(2) assms(2)]
  let ?scopes = "[RUN_SCOPE, TURN_SCOPE, br_scope r]"
  have dk: "distinct (map fst (reservations a))" using inv(2) by (simp add: calls_ok_def)
  have pos: "0 < us_concurrency (state_of a sc)" if "sc \<in> set ?scopes" for sc
  proof -
    have cov: "covers (slot_of a sc) r" unfolding covered_slots [OF r(2) assms(3)] using that by (rule imageI)
    have "us_concurrency (state_of a sc) = calls_in (slot_of a sc) (reservations a)"
      using inv(5) [of sc] by (simp add: slot_ok_def books_fit_def)
    also have "\<dots> \<ge> 1"
      using sum_nonneg_le [OF dk assms(2), of "\<lambda>r. if covers (slot_of a sc) r then 1 else 0"] cov
      by (simp add: calls_in_def)
    finally show ?thesis by simp
  qed
  let ?a0 = "a\<lparr>reservations := dict_pop (br_id r) (reservations a)\<rparr>"
  define b0 where "b0 = foldl release_scope a ?scopes"
  have dist: "distinct ?scopes" using r(2) by auto
  note rel = release_on_slots [OF inv(1) dist, folded b0_def]
  have frame: "model_reservations b0 = model_reservations a" "identity b0 = identity a" "reservation_sequence b0 = reservation_sequence a"
    "turn_governance b0 = turn_governance a"
    using rel by (auto simp: on_slots_def same_frame_def)
  have comm: "release_scope (x\<lparr>reservations := d\<rparr>) sc = (release_scope x sc)\<lparr>reservations := d\<rparr>" for x d sc
    by (cases sc) (simp_all add: release_scope_def set_state_def)
  have run: "release r a = (Inr (), b0\<lparr>reservations := dict_pop (br_id r) (reservations a)\<rparr>)"
    using assms(2,3) r(2) pos by (fastforce simp: release_def Let_def comm not_le b0_def)
  define b where "b = b0\<lparr>reservations := dict_pop (br_id r) (reservations a), model_reservations := model_reservations a,
    reservation_sequence := reservation_sequence a\<rparr>"
  have b: "b0\<lparr>reservations := dict_pop (br_id r) (reservations a)\<rparr> = b"
    unfolding b_def using same_tables [of "b0\<lparr>reservations := dict_pop (br_id r) (reservations a)\<rparr>"] frame by simp
  have "account_inv b"
  proof (rule account_inv_change [OF assms(1) conjunct1 [OF rel] same_books_refl b_def])
    show "calls_ok b" by (rule tables_pop(1) [OF inv(2)]) (simp_all add: b_def frame)
    show "models_ok b" by (rule tables_same(2) [OF inv(3)]) (simp_all add: b_def frame)
    fix s st
    assume st: "slot_usage a s = Some st" "books_fit (slot_limits a s) (reservations a) (model_reservations a) s st"
    note pop = calls_in_pop [OF dk assms(2), of s] and cov = covered_slots [OF r(2) assms(3), of s]
    show "books_fit (slot_limits a s) (dict_pop (br_id r) (reservations a)) (model_reservations a) s
        (if s \<in> slot_of a ` set ?scopes then one_less st else st)"
    proof (cases "s \<in> slot_of a ` set ?scopes")
      case True
      then obtain sc where sc: "sc \<in> set ?scopes" "s = slot_of a sc" by (rule imageE) simp
      have eq: "st = state_of a sc" using st(1) state_of_slot [OF inv(1), of sc] sc(2) by simp
      have "covers s r" unfolding cov using True .
      moreover have "usage_ok (one_less st) l" if "usage_ok st l" for l
        using one_less_ok [OF that] pos [OF sc(1)] by (simp add: eq)
      moreover have "(if s \<in> slot_of a ` set ?scopes then one_less st else st) = one_less st" using True by (rule if_P)
      ultimately show ?thesis using st(2) by (auto simp: books_fit_def pop)
    next
      case False
      then have "\<not> covers s r" unfolding cov .
      moreover have "(if s \<in> slot_of a ` set ?scopes then one_less st else st) = st" using False by (rule if_not_P)
      ultimately show ?thesis using st(2) by (auto simp: books_fit_def pop)
    qed
  qed
  moreover have "dict_get (reservations b) (br_id r) = None" by (simp add: b_def)
  ultimately show ?thesis using run b by auto
qed

lemma release_inv:
  assumes "release r a = (res, b)" "account_inv a"
  shows "account_inv b \<and> res \<noteq> Inl BudgetImbalance"
proof (cases "dict_get (reservations a) (br_id r) = Some r \<and> br_turn_id r = ri_turn_id (identity a)")
  case True
  then show ?thesis using release_outstanding [OF assms(2), of r] assms(1) by auto
next
  case False
  then show ?thesis using assms by (auto simp: release_def split: option.splits)
qed

section \<open>Model calls\<close>

lemma decimal_nonneg: "0 \<le> x \<Longrightarrow> 0 \<le> decimal x"
proof -
  assume x: "0 \<le> x"
  have u: "0 < ten_power e" for e by (simp add: ten_power_def)
  have "0 \<le> round_half_even y" if "0 \<le> y" for y
  proof -
    have "- 1 < y - 1 / 2" using that by linarith
    also have "\<dots> \<le> of_int (round_half_even y)" by (rule round_half_even_bounds(1))
    finally show ?thesis by linarith
  qed
  then show ?thesis using x u [of "decimal_exponent x - 27"] by (simp add: decimal_def Let_def)
qed

lemma model_cost_nonneg:
  assumes "0 \<le> inp" "0 \<le> out" "0 \<le> pin" "0 \<le> pout"
  shows "0 \<le> model_cost_microunits inp out pin pout"
proof -
  have "0 \<le> decimal (decimal (of_int inp * pin) + decimal (of_int out * pout))"
    using assms by (intro decimal_nonneg add_nonneg_nonneg) auto
  then show ?thesis unfolding model_cost_microunits_def by linarith
qed

lemma model_covers_slots:
  "mr_turn_id r = ri_turn_id (identity a) \<Longrightarrow> model_covers s r \<longleftrightarrow> s \<in> slot_of a ` set model_scopes"
  by (cases s) (auto simp: model_covers_def slot_of_def)

lemma reserve_worst_case_inv:
  assumes "account_inv a" "0 \<le> inp" "0 \<le> out" "0 \<le> pin" "0 \<le> pout"
    and "reserve_worst_case model inp out pin pout a = (res, b)"
  shows "account_inv b"
proof -
  let ?cost = "model_cost_microunits inp out pin pout"
  let ?x = "nothing\<lparr>am_calls := 1, am_tokens := inp + out, am_cost := ?cost, am_steps := 1\<rparr>"
  show ?thesis
  proof (cases "first_refusal (exceeds a ?x) model_scopes")
    case (Some r)
    obtain scope reason where r: "r = (scope, reason)" by (cases r)
    have "deny scope (lit ''model_attempt_reservation'') reason model a = (res, b)"
      using assms(6) Some by (simp add: reserve_worst_case_def Let_def r)
    then show ?thesis using same_books_inv [OF _ assms(1)] deny_books by blast
  next
    case None
    let ?n = "reservation_sequence a + 1"
    let ?id = "model_call_id (ri_run_id (identity a)) ?n"
    let ?res = "\<lparr>mr_id = ?id, mr_turn_id = ri_turn_id (identity a), mr_model_id = model, mr_input_tokens = inp,
        mr_max_output_tokens = out, mr_reserved_tokens = inp + out, mr_reserved_cost = ?cost,
        mr_cost_input_1m = pin, mr_cost_output_1m = pout\<rparr>"
    define a0 where "a0 = a\<lparr>reservation_sequence := ?n\<rparr>"
    have inv0: "account_inv a0" unfolding a0_def by (rule account_inv_sequence [OF assms(1)]) simp
    note inv = account_invD [OF inv0]
    have a0: "identity a0 = identity a" "reservations a0 = reservations a" "reservation_sequence a0 = ?n"
      "model_reservations a0 = model_reservations a" "slot_of a0 = slot_of a" "turn_governance a0 = turn_governance a"
      by (simp_all add: a0_def)
    have nn: "nonneg ?x" using model_cost_nonneg [OF assms(2-5)] assms(2,3) by (simp add: nonneg_def nothing_def)
    have ref: "first_refusal (exceeds a0 ?x) model_scopes = None" using None by (simp add: a0_def)
    let ?a1 = "charge model_scopes (lit ''model_attempt_reservation'') (lit ''pessimistic_charge'') model ?x a0"
    have "distinct model_scopes" by simp
    note ch = charge_on_slots [OF inv(1) this, of ?x "lit ''model_attempt_reservation''" "lit ''pessimistic_charge''" model]
    have frame: "reservations ?a1 = reservations a" "model_reservations ?a1 = model_reservations a"
      "identity ?a1 = identity a" "reservation_sequence ?a1 = ?n" "turn_governance ?a1 = turn_governance a"
      using ch by (auto simp: on_slots_def same_frame_def a0)
    have new: "?id \<notin> fst ` set (model_reservations a)" using fresh_ids(2) [of a ?n] account_invD(3) [OF assms(1)] by simp
    have b: "b = ?a1\<lparr>reservations := reservations a, model_reservations := model_reservations a @ [(?id, ?res)],
        reservation_sequence := ?n\<rparr>"
    proof -
      have "reserve_worst_case model inp out pin pout a =
          (Inr ?res, ?a1\<lparr>model_reservations := dict_set ?id ?res (model_reservations ?a1)\<rparr>)"
        unfolding reserve_worst_case_def Let_def None model_call_id_def a0_def model_reservation_id_def by simp
      then have "b = ?a1\<lparr>model_reservations := model_reservations a @ [(?id, ?res)]\<rparr>"
        using assms(6) dict_set_new [OF new, of ?res] frame(2) by simp
      then show ?thesis using same_tables [of "?a1\<lparr>model_reservations := model_reservations a @ [(?id, ?res)]\<rparr>"] frame by simp
    qed
    show ?thesis
    proof (rule account_inv_change [OF inv0 conjunct1 [OF ch] same_books_refl b])
      show "calls_ok b" using inv(2) by (auto simp: calls_ok_def b frame a0)
      show "models_ok b"
        using inv(3) new assms(2,3) model_cost_nonneg [OF assms(2-5)] current_turn_known [OF inv(1)]
        by (auto simp: models_ok_def b frame a0)
      fix s st
      assume st: "slot_usage a0 s = Some st" "books_fit (slot_limits a0 s) (reservations a0) (model_reservations a0) s st"
      have cov: "model_covers s ?res \<longleftrightarrow> s \<in> slot_of a0 ` set model_scopes"
        using model_covers_slots [of ?res a s] by (simp add: a0)
      show "books_fit (slot_limits a0 s) (reservations a) (model_reservations a @ [(?id, ?res)]) s
          (if s \<in> slot_of a0 ` set model_scopes then consume ?x st else st)"
      proof (cases "s \<in> slot_of a0 ` set model_scopes")
        case True
        then obtain sc where sc: "sc \<in> set model_scopes" "s = slot_of a0 sc" by (rule imageE) simp
        have eq: "st = state_of a0 sc" using st(1) state_of_slot [OF inv(1), of sc] sc(2) by simp
        have "would_exceed st (limit_of a0 sc) ?x = []"
          using ref sc(1) unfolding first_refusal_None by (auto simp: exceeds_def eq)
        then have fits: "usage_ok (consume ?x st) (numeric_policy (limit_of a0 sc))"
          using consume_ok [OF _ _ nn] inv(4) [of sc] by (simp add: eq)
        have "(if s \<in> slot_of a0 ` set model_scopes then consume ?x st else st) = consume ?x st" using True by (rule if_P)
        then show ?thesis
          using st(2) True cov fits current_limits [OF inv(1), of sc] by (simp add: books_fit_def a0 sc(2) nothing_def)
      next
        case False
        have "(if s \<in> slot_of a0 ` set model_scopes then consume ?x st else st) = st" using False by (rule if_not_P)
        then show ?thesis using st(2) False cov by (simp add: books_fit_def a0)
      qed
    qed
  qed
qed

lemma output_cap_pos: "output_cap a inp max_out pin pout scope = Inr cap \<Longrightarrow> 0 < cap"
  by (auto simp: output_cap_def Let_def split: if_splits)

lemma model_price_nonneg: "model_price v = Inr (Some p) \<Longrightarrow> 0 \<le> p"
  by (auto simp: model_price_def split: option.splits pyfloat.splits if_splits)

lemma reserve_model_attempt_inv:
  assumes "reserve_model_attempt model inp max_out price1 price2 t a = (res, b)" "account_inv a"
  shows "account_inv b"
proof (cases "inp < 0 \<or> (case max_out of None \<Rightarrow> False | Some m \<Rightarrow> m \<le> 0) \<or>
    (\<exists>e. model_price price1 = Inl e) \<or> (\<exists>e. model_price price2 = Inl e)")
  case True
  then show ?thesis using assms by (auto simp: reserve_model_attempt_def split: sum.splits if_splits)
next
  case False
  then obtain price_in price_out where pr: "model_price price1 = Inr price_in" "model_price price2 = Inr price_out"
    by (metis sum.exhaust)
  note k = assms(1) [unfolded reserve_model_attempt_def pr]
  let ?k = "\<lambda>a. let m = model_name model
       in case first_refusal (model_refusal a m) model_scopes of
            Some (scope, reason) \<Rightarrow> deny scope (lit ''model_attempt_reservation'') reason m a
          | None \<Rightarrow>
              (case (price_in, price_out) of
                 (Some pin, Some pout) \<Rightarrow>
                   (case map_result (output_cap a inp max_out pin pout) model_scopes of
                      Inl (scope, reason) \<Rightarrow> deny scope (lit ''model_attempt_reservation'') reason m a
                    | Inr caps \<Rightarrow> reserve_worst_case m inp (Min (set caps)) pin pout a)
               | _ \<Rightarrow> deny RUN_SCOPE (lit ''model_attempt_reservation'') (lit ''model_pricing_unknown'') m a)"
  have "check_time t ?k a = (res, b)" using k False by simp
  then show ?thesis
  proof (rule check_time_inv [OF _ assms(2)])
    fix res b
    assume kk: "?k a = (res, b)"
    show "account_inv b"
    proof (cases "\<exists>pin pout caps. price_in = Some pin \<and> price_out = Some pout \<and>
        map_result (output_cap a inp max_out pin pout) model_scopes = Inr caps \<and>
        first_refusal (model_refusal a (model_name model)) model_scopes = None")
      case True
      then obtain pin pout caps where p: "price_in = Some pin" "price_out = Some pout"
        "map_result (output_cap a inp max_out pin pout) model_scopes = Inr caps"
        "first_refusal (model_refusal a (model_name model)) model_scopes = None" by blast
      have run: "reserve_worst_case (model_name model) inp (Min (set caps)) pin pout a = (res, b)"
        using kk by (simp add: Let_def p del: first_refusal.simps map_result.simps)
      have "\<forall>c \<in> set caps. 0 < c" "caps \<noteq> []"
        using p(3) by (auto simp: result_simps dest: output_cap_pos)
      then have "0 < Min (set caps)" by simp
      then show ?thesis
        using reserve_worst_case_inv [OF assms(2) _ _ _ _ run] False p(1,2) pr model_price_nonneg by fastforce
    next
      case False
      then have "\<exists>scope op' reason resource. deny scope op' reason resource a = (res, b)"
        using kk by (auto simp: Let_def split: option.splits sum.splits prod.splits)
      then show ?thesis using same_books_inv [OF _ assms(2)] deny_books by blast
    qed
  qed
qed

lemma record_usage_inv:
  assumes "record_usage u a = (res, b)" "account_inv a" "\<And>x. u = Some x \<Longrightarrow> RuntimeUsage_valid x"
  shows "account_inv b"
proof (cases u)
  case None
  then show ?thesis using assms(1,2) by (simp add: record_usage_def)
next
  case (Some v)
  let ?x = "nothing\<lparr>am_tokens := total_tokens v, am_cost := cost_microunits v\<rparr>"
  have nn: "nonneg ?x" "am_concurrency ?x = 0"
    using assms(3) [OF Some] by (auto simp: nonneg_def nothing_def RuntimeUsage_valid_def total_tokens_def)
  show ?thesis
  proof (cases "first_refusal (exceeds a ?x) model_scopes")
    case None
    then show ?thesis using charge_inv [OF assms(2) _ nn None] assms(1) Some by (auto simp: record_usage_def Let_def)
  next
    case (Some r)
    then show ?thesis using assms(1) \<open>u = Some v\<close> same_books_inv [OF _ assms(2)] deny_books
      by (fastforce simp: record_usage_def Let_def split: prod.splits)
  qed
qed

lemma record_subagent_usage_inv:
  assumes "record_subagent_usage u mc tc t1 t2 a = (res, b)" "account_inv a" "RuntimeUsage_valid u"
  shows "account_inv b"
proof (cases "mc < 0 \<or> tc < 0")
  case True
  then show ?thesis using assms by (simp add: record_subagent_usage_def)
next
  case False
  let ?x = "\<lparr>am_calls = mc, am_tokens = total_tokens u, am_cost = cost_microunits u, am_steps = tc, am_concurrency = 0\<rparr>"
  let ?scopes = "[RUN_SCOPE, TURN_SCOPE, SUBAGENT_SCOPE]"
  have nn: "nonneg ?x" "am_concurrency ?x = 0"
    using assms(3) False by (auto simp: nonneg_def RuntimeUsage_valid_def total_tokens_def)
  have dist: "distinct ?scopes" by simp
  show ?thesis
  proof (rule check_time_inv [OF _ assms(2)])
    show "check_time t1 (check_subagent_time t2 (lit ''subagent_usage_recorded'') (lit ''subagent_usage'')
        (\<lambda>a. case first_refusal (exceeds a ?x) ?scopes of
              Some (scope, reason) \<Rightarrow> deny scope (lit ''subagent_usage_recorded'') reason (lit ''subagent_usage'') a
            | None \<Rightarrow> (Inr (), charge ?scopes (lit ''subagent_usage_recorded'') (lit ''within_limit'')
                 (lit ''subagent_usage'') ?x a))) a = (res, b)"
      using assms(1) False by (simp add: record_subagent_usage_def Let_def)
  next
    fix res b
    assume "check_subagent_time t2 (lit ''subagent_usage_recorded'') (lit ''subagent_usage'')
        (\<lambda>a. case first_refusal (exceeds a ?x) ?scopes of
              Some (scope, reason) \<Rightarrow> deny scope (lit ''subagent_usage_recorded'') reason (lit ''subagent_usage'') a
            | None \<Rightarrow> (Inr (), charge ?scopes (lit ''subagent_usage_recorded'') (lit ''within_limit'')
                 (lit ''subagent_usage'') ?x a)) a = (res, b)"
    then show "account_inv b"
    proof (rule check_subagent_time_inv [OF _ assms(2)])
      fix res b
      assume k: "(case first_refusal (exceeds a ?x) ?scopes of
              Some (scope, reason) \<Rightarrow> deny scope (lit ''subagent_usage_recorded'') reason (lit ''subagent_usage'') a
            | None \<Rightarrow> (Inr (), charge ?scopes (lit ''subagent_usage_recorded'') (lit ''within_limit'')
                 (lit ''subagent_usage'') ?x a)) = (res, b)"
      show "account_inv b"
      proof (cases "first_refusal (exceeds a ?x) ?scopes")
        case None
        then show ?thesis using charge_inv [OF assms(2) dist nn None] k by auto
      next
        case (Some r)
        then show ?thesis using k same_books_inv [OF _ assms(2)] deny_books by (cases r) fastforce
      qed
    qed
  qed
qed

section \<open>Settling model calls\<close>

lemma stored_model:
  assumes "models_ok a" "dict_get (model_reservations a) k = Some r"
  shows "mr_id r = k" "0 \<le> mr_reserved_tokens r" "0 \<le> mr_reserved_cost r"
proof -
  have "(k, r) \<in> set (model_reservations a)" using assms(2) by (rule map_of_SomeD)
  then show "mr_id r = k" "0 \<le> mr_reserved_tokens r" "0 \<le> mr_reserved_cost r"
    using assms(1) unfolding models_ok_def by blast+
qed

lemma foldl_books:
  "(\<And>x sc. same_books x (g x sc)) \<Longrightarrow> same_books a (foldl g a scopes)"
  by (induction scopes arbitrary: a) (auto intro: same_books_trans)

text \<open>Keeping the whole reservation: the charge stays, the reservation goes.\<close>

lemma keep_charge_inv:
  assumes "account_inv a" "dict_get (model_reservations a) k = Some r"
    and "same_books (a\<lparr>model_reservations := dict_pop k (model_reservations a)\<rparr>) c"
  shows "account_inv c"
proof -
  note inv = account_invD [OF assms(1)]
  let ?b = "a\<lparr>reservations := reservations a, model_reservations := dict_pop k (model_reservations a),
    reservation_sequence := reservation_sequence a\<rparr>"
  have dk: "distinct (map fst (model_reservations a))" using inv(3) by (simp add: models_ok_def)
  have "account_inv ?b"
  proof (rule account_inv_change [OF assms(1) on_slots_Nil [OF inv(1), of id] same_books_refl refl])
    show "calls_ok ?b" by (rule tables_same(1) [OF inv(2)]) simp_all
    show "models_ok ?b" by (rule tables_pop(2) [OF inv(3)]) simp_all
    fix s st
    assume "books_fit (slot_limits a s) (reservations a) (model_reservations a) s st"
    then show "books_fit (slot_limits a s) (reservations a) (dict_pop k (model_reservations a)) s
        (if s \<in> slot_of a ` set [] then id st else st)"
      using models_in_pop [OF dk assms(2), of s] stored_model(2,3) [OF inv(3) assms(2)]
      by (auto simp: books_fit_def)
  qed
  then show ?thesis using assms(3) same_books_inv by simp
qed

definition refunded :: "int \<Rightarrow> int \<Rightarrow> UsageState \<Rightarrow> UsageState" where
  "refunded tk co st = st\<lparr>us_tokens := us_tokens st - tk, us_cost := us_cost st - co\<rparr>"

lemma refunded_fields [simp]:
  "us_tokens (refunded tk co st) = us_tokens st - tk" "us_cost (refunded tk co st) = us_cost st - co"
  "us_concurrency (refunded tk co st) = us_concurrency st" "us_steps (refunded tk co st) = us_steps st"
  "us_model_calls (refunded tk co st) = us_model_calls st"
  by (simp_all add: refunded_def)

lemma refunded_ok:
  "usage_ok st l \<Longrightarrow> 0 \<le> tk \<Longrightarrow> 0 \<le> co \<Longrightarrow> tk \<le> us_tokens st \<Longrightarrow> co \<le> us_cost st \<Longrightarrow> usage_ok (refunded tk co st) l"
  by (auto simp: usage_ok_def split: prod.splits)

definition refund_scope :: "int \<Rightarrow> int \<Rightarrow> pystr \<Rightarrow> BudgetAccount \<Rightarrow> RuntimeBudgetScope \<Rightarrow> BudgetAccount" where
  "refund_scope tk co model a scope =
     note_settled (lit ''actual_usage_reconciled'') model (set_state scope (refunded tk co (state_of a scope)) a) scope"

lemma state_of_set: "state_of (set_state sc st a) sc' = (if sc' = sc then st else state_of a sc')"
  by (cases sc; cases sc') (auto simp: state_of_def set_state_def)

lemma refund_scopes_ok:
  assumes "\<And>sc. sc \<in> set scopes \<Longrightarrow> tk \<le> us_tokens (state_of a sc) \<and> co \<le> us_cost (state_of a sc)" "distinct scopes"
  shows "refund_scopes tk co model scopes a = (Inr (), foldl (refund_scope tk co model) a scopes)"
  using assms
proof (induction scopes arbitrary: a)
  case (Cons sc scopes)
  have other: "state_of (refund_scope tk co model a sc) sc' = state_of a sc'" if "sc' \<noteq> sc" for sc'
    using that by (simp add: refund_scope_def note_settled_def state_of_set)
  have "refund_scopes tk co model scopes (refund_scope tk co model a sc) =
      (Inr (), foldl (refund_scope tk co model) (refund_scope tk co model a sc) scopes)"
  proof (rule Cons.IH)
    fix sc'
    assume m: "sc' \<in> set scopes"
    then have "sc' \<noteq> sc" using Cons.prems(2) by auto
    with m show "tk \<le> us_tokens (state_of (refund_scope tk co model a sc) sc') \<and>
        co \<le> us_cost (state_of (refund_scope tk co model a sc) sc')"
      using Cons.prems(1) [of sc'] other by simp
  qed (use Cons.prems(2) in simp)
  moreover have "tk \<le> us_tokens (state_of a sc)" "co \<le> us_cost (state_of a sc)" using Cons.prems(1) [of sc] by auto
  moreover have "refund_scopes tk co model (sc # scopes) a = refund_scopes tk co model scopes (refund_scope tk co model a sc)"
    using calculation(2,3) by (simp add: Let_def refund_scope_def refunded_def)
  ultimately show ?case by simp
qed simp

lemma refund_on_slots:
  assumes "current_turn_ok a" "distinct scopes"
  shows "on_slots a scopes (refunded tk co) (foldl (refund_scope tk co model) a scopes) \<and>
    reservation_sequence (foldl (refund_scope tk co model) a scopes) = reservation_sequence a"
  by (rule foldl_on_slots [OF assms])
    (auto simp: refund_scope_def note_settled_def intro: same_frame_trans [OF set_state_frame(1) emit_frame(1)])

lemma refund_comm:
  "foldl (refund_scope tk co model) (a\<lparr>model_reservations := d\<rparr>) scopes =
     (foldl (refund_scope tk co model) a scopes)\<lparr>model_reservations := d\<rparr>"
proof (induction scopes arbitrary: a)
  case (Cons sc scopes)
  have "refund_scope tk co model (a\<lparr>model_reservations := d\<rparr>) sc = (refund_scope tk co model a sc)\<lparr>model_reservations := d\<rparr>"
    by (cases sc) (simp_all add: refund_scope_def note_settled_def emit_def set_state_def state_of_def)
  then show ?case using Cons.IH by simp
qed simp

text \<open>A call that used no more than was reserved is charged exactly what it used.\<close>

lemma settle_exact:
  assumes "account_inv a" "dict_get (model_reservations a) (mr_id r) = Some r" "mr_turn_id r = ri_turn_id (identity a)"
    and "RuntimeUsage_valid u" "input_tokens u \<noteq> 0" "output_tokens u \<noteq> 0"
    and "total_tokens u \<le> mr_reserved_tokens r" "cost_microunits (actual_usage r u) \<le> mr_reserved_cost r"
  shows "\<exists>b. settle_model_attempt r (Some u) a = (Inr (Some (actual_usage r u)), b) \<and> account_inv b \<and>
    slot_usage b = (\<lambda>s. if s \<in> slot_of a ` set model_scopes
      then map_option (refunded (mr_reserved_tokens r - total_tokens u)
             (mr_reserved_cost r - cost_microunits (actual_usage r u))) (slot_usage a s)
      else slot_usage a s) \<and>
    dict_get (model_reservations b) (mr_id r) = None"
proof -
  note inv = account_invD [OF assms(1)]
  let ?tk = "mr_reserved_tokens r - total_tokens u" and ?co = "mr_reserved_cost r - cost_microunits (actual_usage r u)"
  have tot: "total_tokens (actual_usage r u) = total_tokens u" by (simp add: actual_usage_def total_tokens_def)
  have nn: "0 \<le> total_tokens u" "0 \<le> cost_microunits (actual_usage r u)"
    using assms(4) by (auto simp: RuntimeUsage_valid_def total_tokens_def actual_usage_def)
  have dk: "distinct (map fst (model_reservations a))" using inv(3) by (simp add: models_ok_def)
  have enough: "?tk \<le> us_tokens st \<and> ?co \<le> us_cost st"
    if "model_covers s r" "books_fit (slot_limits a s) (reservations a) (model_reservations a) s st" for s st
    using models_in_ge [OF inv(3) assms(2) that(1)] that(2) nn by (auto simp: books_fit_def)
  have cov: "model_covers s r \<longleftrightarrow> s \<in> slot_of a ` set model_scopes" for s by (rule model_covers_slots [OF assms(3)])
  define b0 where "b0 = foldl (refund_scope ?tk ?co (mr_model_id r)) a model_scopes"
  have "distinct model_scopes" by simp
  note rf = refund_on_slots [OF inv(1) this, of ?tk ?co "mr_model_id r", folded b0_def]
  have frame: "reservations b0 = reservations a" "identity b0 = identity a" "reservation_sequence b0 = reservation_sequence a"
    "turn_governance b0 = turn_governance a"
    using rf by (auto simp: on_slots_def same_frame_def)
  define b where "b = b0\<lparr>reservations := reservations a, model_reservations := dict_pop (mr_id r) (model_reservations a),
    reservation_sequence := reservation_sequence a\<rparr>"
  have b: "b0\<lparr>model_reservations := dict_pop (mr_id r) (model_reservations a)\<rparr> = b"
    unfolding b_def using same_tables [of "b0\<lparr>model_reservations := dict_pop (mr_id r) (model_reservations a)\<rparr>"] frame by simp
  have fits: "books_fit (slot_limits a s) (reservations a) (dict_pop (mr_id r) (model_reservations a)) s
      (if s \<in> slot_of a ` set model_scopes then refunded ?tk ?co st else st)"
    if st: "slot_usage a s = Some st" "books_fit (slot_limits a s) (reservations a) (model_reservations a) s st" for s st
  proof (cases "s \<in> slot_of a ` set model_scopes")
    case True
    then have c: "model_covers s r" using cov by simp
    have "usage_ok (refunded ?tk ?co st) l" if "usage_ok st l" for l
      using refunded_ok [OF that] enough [OF c st(2)] assms(7,8) by simp
    moreover have "(if s \<in> slot_of a ` set model_scopes then refunded ?tk ?co st else st) = refunded ?tk ?co st"
      using True by (rule if_P)
    ultimately show ?thesis using st(2) c nn models_in_pop [OF dk assms(2), of s] by (auto simp: books_fit_def)
  next
    case False
    then have "\<not> model_covers s r" using cov by simp
    moreover have "(if s \<in> slot_of a ` set model_scopes then refunded ?tk ?co st else st) = st"
      using False by (rule if_not_P)
    ultimately show ?thesis using st(2) models_in_pop [OF dk assms(2), of s] by (simp add: books_fit_def)
  qed
  have inv_b: "account_inv b"
    by (rule account_inv_change [OF assms(1) conjunct1 [OF rf] same_books_refl b_def _ _ fits])
      (auto intro: tables_same(1) [OF inv(2)] tables_pop(2) [OF inv(3)] simp: b_def frame)
  have "?tk \<le> us_tokens (state_of a sc) \<and> ?co \<le> us_cost (state_of a sc)" if "sc \<in> set model_scopes" for sc
    using enough [of "slot_of a sc" "state_of a sc"] that cov [of "slot_of a sc"] inv(5) [of sc]
    by (simp add: slot_ok_def)
  then have "refund_scopes ?tk ?co (mr_model_id r) model_scopes
      (a\<lparr>model_reservations := dict_pop (mr_id r) (model_reservations a)\<rparr>) = (Inr (), b)"
    using refund_scopes_ok [of model_scopes ?tk "a\<lparr>model_reservations := dict_pop (mr_id r) (model_reservations a)\<rparr>" ?co]
    by (simp add: refund_comm b0_def flip: b del: foldl.simps refund_scopes.simps)
  then have run: "settle_model_attempt r (Some u) a = (Inr (Some (actual_usage r u)), b)"
    using assms(2,3,5-8)
    by (simp add: settle_model_attempt_def pending_model_reservation_def tot del: refund_scopes.simps)
  have "slot_usage b = slot_usage b0" by (rule ext) (simp add: b_def slot_usage_def split: slot.splits)
  then show ?thesis
    using run inv_b rf by (auto simp: on_slots_def b_def)
qed

end
