(* ===== verification/Runtime_Budget_Properties.thy ===== *)
theory Runtime_Budget_Properties
  imports Runtime_Budget_Correct
begin

text \<open>
  The remaining operations of the budget account keep the books too: settling, binding a turn,
  opening an account. On top of them, the histories of an account as sequences of calls, the
  properties that hold in each of its states, and the manager of a process.
\<close>

section \<open>Settling and binding\<close>

lemma pending_found:
  "pending_model_reservation r a = Inr (Some e) \<Longrightarrow>
     e = r \<and> dict_get (model_reservations a) (mr_id r) = Some r \<and> mr_turn_id r = ri_turn_id (identity a)"
  by (auto simp: pending_model_reservation_def require_def split: option.splits if_splits)

lemma pending_error: "pending_model_reservation r a = Inl e \<Longrightarrow> e = BudgetValueError"
  by (auto simp: pending_model_reservation_def require_def split: option.splits if_splits)

lemma note_settled_books: "same_books a (foldl (note_settled reason resource) a scopes)"
  by (rule foldl_books) (simp add: note_settled_def)

lemma charge_unknown_inv:
  assumes "charge_model_attempt_unknown r reason a = (res, b)" "account_inv a"
  shows "account_inv b \<and> (\<forall>e. res = Inl e \<longrightarrow> e = BudgetValueError)"
proof (cases "pending_model_reservation r a")
  case (Inl e)
  then show ?thesis using assms pending_error [OF Inl] by (auto simp: charge_model_attempt_unknown_def)
next
  case (Inr p)
  show ?thesis
  proof (cases p)
    case None
    then show ?thesis using assms Inr by (auto simp: charge_model_attempt_unknown_def)
  next
    case (Some e)
    note found = pending_found [OF Inr [unfolded Some]]
    have "account_inv b"
      by (rule keep_charge_inv [OF assms(2), of "mr_id r" r])
        (use assms(1) Inr Some found note_settled_books in
          \<open>auto simp: charge_model_attempt_unknown_def Let_def simp del: foldl.simps\<close>)
    then show ?thesis using assms(1) Inr Some by (auto simp: charge_model_attempt_unknown_def Let_def)
  qed
qed

lemma settle_inv:
  assumes "settle_model_attempt r usage a = (res, b)" "account_inv a" "\<And>u. usage = Some u \<Longrightarrow> RuntimeUsage_valid u"
  shows "account_inv b \<and> res \<noteq> Inl BudgetImbalance"
proof (cases "pending_model_reservation r a")
  case (Inl e)
  then show ?thesis using assms pending_error [OF Inl] by (auto simp: settle_model_attempt_def)
next
  case (Inr p)
  show ?thesis
  proof (cases p)
    case None
    then show ?thesis using assms Inr by (auto simp: settle_model_attempt_def)
  next
    case (Some e)
    note found = pending_found [OF Inr [unfolded Some]]
    obtain k c where unknown: "charge_model_attempt_unknown r (lit ''usage_unavailable'') a = (k, c)" by fastforce
    note kept = charge_unknown_inv [OF unknown assms(2)]
    show ?thesis
    proof (cases "usage = None \<or> (\<exists>u. usage = Some u \<and> (input_tokens u = 0 \<or> output_tokens u = 0))")
      case True
      then have "b = c \<and> (\<forall>e. res = Inl e \<longrightarrow> k = Inl e)"
        using assms(1) Inr Some found unknown
        by (auto simp: settle_model_attempt_def split: sum.splits)
      then show ?thesis using kept by auto
    next
      case False
      then obtain u where u: "usage = Some u" "input_tokens u \<noteq> 0" "output_tokens u \<noteq> 0" by auto
      have tot: "total_tokens (actual_usage r u) = total_tokens u" by (simp add: actual_usage_def total_tokens_def)
      show ?thesis
      proof (cases "total_tokens u \<le> mr_reserved_tokens r \<and> cost_microunits (actual_usage r u) \<le> mr_reserved_cost r")
        case True
        then show ?thesis
          using settle_exact [OF assms(2) _ _ assms(3) [OF u(1)] u(2,3)] found assms(1) u(1) by fastforce
      next
        case False
        then have "\<exists>reason. deny TURN_SCOPE (lit ''model_attempt_settlement'') reason (mr_model_id r) a = (res, b)"
          using assms(1) Inr Some found u tot
          by (auto simp: settle_model_attempt_def Let_def simp del: refund_scopes.simps split: if_splits)
        then show ?thesis using same_books_inv [OF _ assms(2)] deny_books by blast
      qed
    qed
  qed
qed

text \<open>What the constructors of the limits guarantee.\<close>

definition limits_nonneg :: "limits \<Rightarrow> bool" where
  "limits_nonneg l =
     (case l of (calls, tokens, cost, steps, time, conc) \<Rightarrow>
        0 \<le> calls \<and> 0 \<le> tokens \<and> 0 \<le> cost \<and> 0 \<le> steps \<and> 0 \<le> time \<and> 0 \<le> conc)"

definition governance_ok :: "RuntimeGovernanceEnvelope \<Rightarrow> bool" where
  "governance_ok g \<longleftrightarrow> (\<forall>scope. limits_nonneg (numeric_policy (envelope_limit (budgets g) scope)))"

lemma checked_limits: "RuntimeBudgetLimit_post_init l = Inr l' \<Longrightarrow> limits_nonneg (numeric_policy l')"
  by (auto simp: RuntimeBudgetLimit_post_init_def limits_nonneg_def numeric_policy_def in_range_def require_def
      bind_result_def split: if_splits sum.splits)

lemma new_usage_ok: "limits_nonneg l \<Longrightarrow> usage_ok (new_usage t) l"
  by (auto simp: limits_nonneg_def usage_ok_def new_usage_def split: prod.splits)

lemma sum_list_zero: "\<forall>x \<in> set xs. f x = 0 \<Longrightarrow> (\<Sum>x \<leftarrow> xs. f x) = (0 :: int)"
  by (induction xs) auto

lemma unknown_turn_empty:
  assumes "calls_ok a" "models_ok a" "t \<notin> fst ` set (turn_governance a)"
  shows "calls_in (Turn_slot t) (reservations a) = 0" "tokens_in (Turn_slot t) (model_reservations a) = 0"
    "cost_in (Turn_slot t) (model_reservations a) = 0"
proof -
  have "\<not> covers (Turn_slot t) r" if "(k, r) \<in> set (reservations a)" for k r
    using assms(1,3) that by (fastforce simp: calls_ok_def covers_def)
  then show "calls_in (Turn_slot t) (reservations a) = 0"
    unfolding calls_in_def by (intro sum_list_zero) auto
  have "\<not> model_covers (Turn_slot t) r" if "(k, r) \<in> set (model_reservations a)" for k r
    using assms(2,3) that by (fastforce simp: models_ok_def model_covers_def)
  then show "tokens_in (Turn_slot t) (model_reservations a) = 0" "cost_in (Turn_slot t) (model_reservations a) = 0"
    unfolding tokens_in_def cost_in_def by (intro sum_list_zero; auto)+
qed

lemma turns_known: "account_inv a \<Longrightarrow> dict_get (turn_governance a) t = None \<Longrightarrow> dict_get (turns a) t = None"
  unfolding account_inv_def by blast

lemma turn_tables_grow:
  assumes "fst ` set (turn_governance a) \<subseteq> fst ` set tg"
  shows "calls_ok a \<Longrightarrow> calls_ok (a\<lparr>turns := u, turn_governance := tg\<rparr>)"
    "models_ok a \<Longrightarrow> models_ok (a\<lparr>turns := u, turn_governance := tg\<rparr>)"
  using subsetD [OF assms] unfolding calls_ok_def models_ok_def by (simp_all add: case_prod_beta)

lemma open_turn_inv:
  assumes "account_inv a" "dict_get (turn_governance a) (ri_turn_id i) = None" "governance_ok g"
  shows "account_inv (open_turn i g started a)"
proof -
  note inv = account_invD [OF assms(1)]
  let ?t = "ri_turn_id i"
  let ?b = "a\<lparr>turns := dict_set ?t (new_usage started) (turns a), turn_governance := dict_set ?t g (turn_governance a)\<rparr>"
  have new: "?t \<notin> fst ` set (turn_governance a)" using assms(2) by (simp add: map_of_eq_None_iff)
  have other: "ri_turn_id (identity a) \<noteq> ?t" using inv(1) assms(2) by (auto simp: current_turn_ok_def slot_limits_def)
  have grown: "fst ` set (turn_governance a) \<subseteq> fst ` set (dict_set ?t g (turn_governance a))"
    by (auto simp: dict_set_new [OF new])
  have "limits_nonneg (numeric_policy (be_turn (budgets g)))"
    using assms(3) by (auto simp: governance_ok_def envelope_limit_def dest: spec [of _ TURN_SCOPE])
  then have fresh: "slot_ok ?b (Turn_slot ?t) (new_usage started)"
    using new_usage_ok unknown_turn_empty [OF inv(2,3) new]
    by (auto simp: slot_ok_def books_fit_def slot_limits_def new_usage_def)
  have kept: "slot_ok ?b s st" if "slot_usage a s = Some st" "s \<noteq> Turn_slot ?t" for s st
  proof -
    have "slot_limits ?b s = slot_limits a s" using that(2) by (auto simp: slot_limits_def split: slot.splits)
    moreover have "slot_ok a s st" using assms(1) that(1) by (simp add: account_inv_def)
    ultimately show ?thesis by (simp add: slot_ok_def)
  qed
  have usage: "slot_usage ?b = (slot_usage a)(Turn_slot ?t \<mapsto> new_usage started)"
    by (auto simp: fun_eq_iff slot_usage_def split: slot.splits)
  have slots: "slot_ok ?b s st" if st: "slot_usage ?b s = Some st" for s st
  proof (cases "s = Turn_slot ?t")
    case True
    then show ?thesis using st fresh unfolding usage by simp
  next
    case False
    then have "slot_usage a s = Some st" using st unfolding usage by simp
    then show ?thesis by (rule kept [OF _ False])
  qed
  have "calls_ok ?b" "models_ok ?b" using turn_tables_grow [OF grown] inv(2,3) by blast+
  moreover from inv(1) other have "current_turn_ok ?b" by (simp add: current_turn_ok_def slot_limits_def)
  moreover have "dict_get (turns ?b) t = None \<longleftrightarrow> dict_get (turn_governance ?b) t = None" for t
  proof -
    have "dict_get (turns a) t = None \<longleftrightarrow> dict_get (turn_governance a) t = None"
      using assms(1) unfolding account_inv_def by blast
    then show ?thesis by simp
  qed
  ultimately have "account_inv ?b" using slots unfolding account_inv_def by blast
  then show ?thesis by (simp add: open_turn_def Let_def same_books_inv [OF same_books_emit])
qed

lemma open_turn_fields [simp]:
  "identity (open_turn i g started a) = identity a" "governance (open_turn i g started a) = governance a"
  "turn_governance (open_turn i g started a) = dict_set (ri_turn_id i) g (turn_governance a)"
  by (simp_all add: open_turn_def Let_def emit_def)

text \<open>A binding keeps the numeric limits of the run, of tools and of subagents.\<close>

definition same_numerics :: "RuntimeGovernanceEnvelope \<Rightarrow> RuntimeGovernanceEnvelope \<Rightarrow> bool" where
  "same_numerics g h \<longleftrightarrow>
     numeric_policy (be_run (budgets g)) = numeric_policy (be_run (budgets h)) \<and>
     numeric_policy (be_tool (budgets g)) = numeric_policy (be_tool (budgets h)) \<and>
     numeric_policy (be_subagent (budgets g)) = numeric_policy (be_subagent (budgets h))"

lemma rebind_inv:
  assumes "account_inv a" "ri_run_id i = ri_run_id (identity a)" "same_numerics g (governance a)"
    and "dict_get (turn_governance a) (ri_turn_id i) = Some old"
    and "numeric_policy (be_turn (budgets old)) = numeric_policy (be_turn (budgets g))"
  shows "account_inv (a\<lparr>identity := i, governance := g\<rparr>)"
proof -
  let ?b = "a\<lparr>identity := i, governance := g\<rparr>"
  have lims: "slot_limits ?b = slot_limits a"
    using assms(3) by (auto simp: fun_eq_iff slot_limits_def same_numerics_def split: slot.splits)
  have usage: "slot_usage ?b = slot_usage a" by (auto simp: fun_eq_iff slot_usage_def split: slot.splits)
  have "slot_ok ?b s st" if "slot_usage ?b s = Some st" for s st
  proof -
    have "slot_ok a s st" using that assms(1) unfolding usage account_inv_def by blast
    then show ?thesis by (simp add: slot_ok_def lims)
  qed
  moreover have known: "dict_get (turns a) (ri_turn_id i) \<noteq> None"
    using assms(1,4) unfolding account_inv_def by (metis option.distinct(1))
  moreover have "current_turn_ok ?b"
    using known assms(4,5) unfolding current_turn_ok_def lims by (simp add: slot_limits_def)
  moreover have "calls_ok ?b" "models_ok ?b"
    using account_invD(2,3) [OF assms(1)] assms(2) by (auto simp: calls_ok_def models_ok_def)
  moreover have "dict_get (turns ?b) t = None \<longleftrightarrow> dict_get (turn_governance ?b) t = None" for t
    using assms(1) unfolding account_inv_def by simp
  ultimately show ?thesis unfolding account_inv_def by blast
qed

lemma bind_refusal_None:
  assumes "bind_refusal i g a = None"
  shows "same_numerics g (governance a)"
    "dict_get (turn_governance a) (ri_turn_id i) = Some old \<Longrightarrow>
       numeric_policy (be_turn (budgets old)) = numeric_policy (be_turn (budgets g))"
  using assms
  by (auto simp: bind_refusal_def same_numerics_def numerics_differ_def limit_of_def envelope_limit_def
      split: if_splits option.splits)

text \<open>The account that a permitted binding leaves, before the clock is checked.\<close>

definition rebound ::
  "RuntimeRunIdentity \<Rightarrow> RuntimeGovernanceEnvelope \<Rightarrow> rat \<Rightarrow> BudgetAccount \<Rightarrow> BudgetAccount" where
  "rebound i g t a =
     (if dict_get (turn_governance a) (ri_turn_id i) = None then open_turn i g t a else a)\<lparr>identity := i, governance := g\<rparr>"

lemma rebound_inv:
  assumes "account_inv a" "ri_run_id i = ri_run_id (identity a)" "bind_refusal i g a = None" "governance_ok g"
  shows "account_inv (rebound i g t a)"
proof (cases "dict_get (turn_governance a) (ri_turn_id i)")
  case None
  let ?a = "open_turn i g t a"
  have "account_inv (?a\<lparr>identity := i, governance := g\<rparr>)"
    by (rule rebind_inv [OF open_turn_inv [OF assms(1) None assms(4)], of _ _ g])
      (use assms(2) bind_refusal_None(1) [OF assms(3)] in simp_all)
  then show ?thesis using None by (simp add: rebound_def)
next
  case (Some old)
  then show ?thesis
    using rebind_inv [OF assms(1,2) bind_refusal_None(1) [OF assms(3)] Some bind_refusal_None(2) [OF assms(3) Some]]
    by (simp add: rebound_def)
qed

lemma bind_account_cases:
  assumes "bind_account i g t1 t2 a = (res, b)"
  obtains (invalid) "res = Inl BudgetValueError" "b = a"
  | (refused) scope reason where "res = Inl (BudgetExceeded scope reason)" "same_books a b"
  | (bound) "ri_run_id i = ri_run_id (identity a)" "bind_refusal i g a = None"
      "check_time t2 (\<lambda>a. (Inr (), a)) (rebound i g t1 a) = (res, b)"
  using assms that by (auto simp: bind_account_def rebound_def Let_def split: if_splits option.splits)

lemma bind_account_inv:
  assumes "bind_account i g t1 t2 a = (res, b)" "account_inv a" "governance_ok g"
  shows "account_inv b"
  using assms(1)
proof (cases rule: bind_account_cases)
  case bound
  note inv = rebound_inv [OF assms(2) bound(1,2) assms(3), of t1]
  show ?thesis by (rule check_time_inv [OF bound(3) inv]) (use inv in simp)
qed (use assms(2) same_books_inv in auto)

lemma new_account_books:
  "same_books \<lparr>identity = i, governance = g, run_usage = new_usage t,
     turns = [(ri_turn_id i, new_usage t)], turn_governance = [(ri_turn_id i, g)],
     tool_usage = new_usage t, subagent_usage = new_usage t,
     decision_sequence = 0, reservation_sequence = 0, reservations = [],
     model_reservations = [], decisions = []\<rparr> (new_account i g t)"
  unfolding new_account_def Let_def by (rule foldl_books) (rule same_books_emit)

lemma new_account_inv:
  assumes "governance_ok g"
  shows "account_inv (new_account i g t)"
proof (rule same_books_inv [OF new_account_books])
  have "limits_nonneg (numeric_policy (be_run (budgets g)))" "limits_nonneg (numeric_policy (be_turn (budgets g)))"
    "limits_nonneg (numeric_policy (be_tool (budgets g)))" "limits_nonneg (numeric_policy (be_subagent (budgets g)))"
    using assms unfolding governance_ok_def envelope_limit_def
    by (metis RuntimeBudgetScope.simps(13) RuntimeBudgetScope.simps(14) RuntimeBudgetScope.simps(15) RuntimeBudgetScope.simps(16))+
  then have ok: "usage_ok (new_usage t) (numeric_policy (be_run (budgets g)))" "usage_ok (new_usage t) (numeric_policy (be_turn (budgets g)))"
    "usage_ok (new_usage t) (numeric_policy (be_tool (budgets g)))" "usage_ok (new_usage t) (numeric_policy (be_subagent (budgets g)))"
    by (auto intro: new_usage_ok)
  have z: "us_concurrency (new_usage t) = 0" "us_tokens (new_usage t) = 0" "us_cost (new_usage t) = 0" by (simp_all add: new_usage_def)
  show "account_inv \<lparr>identity = i, governance = g, run_usage = new_usage t,
     turns = [(ri_turn_id i, new_usage t)], turn_governance = [(ri_turn_id i, g)],
     tool_usage = new_usage t, subagent_usage = new_usage t,
     decision_sequence = 0, reservation_sequence = 0, reservations = [],
     model_reservations = [], decisions = []\<rparr>"
    using ok by (auto simp: account_inv_def slot_usage_def slot_ok_def books_fit_def slot_limits_def calls_ok_def
        models_ok_def current_turn_ok_def calls_in_def tokens_in_def cost_in_def z simp del: split_paired_Ex
        split: slot.splits if_splits)
qed

section \<open>Refusals\<close>

text \<open>
  A call keeps the identity and the limits of its account, and when it is refused it has only
  recorded the refusal.
\<close>

definition same_policy :: "BudgetAccount \<Rightarrow> BudgetAccount \<Rightarrow> bool" where
  "same_policy a b \<longleftrightarrow>
     identity b = identity a \<and> governance b = governance a \<and> turn_governance b = turn_governance a"

definition orderly :: "BudgetAccount \<Rightarrow> 'a budget_result \<Rightarrow> bool" where
  "orderly a r \<longleftrightarrow>
     same_policy a (snd r) \<and>
     (\<forall>scope reason. fst r = Inl (BudgetExceeded scope reason) \<longrightarrow>
        (\<exists>op' resource. snd r = emit scope op' False reason resource (state_of a scope) a))"

lemma same_policy_simps [simp]:
  "same_policy a a" "same_policy a (emit scope op' allow reason resource st b) = same_policy a b"
  "same_policy a (set_state scope st b) = same_policy a b"
  "same_policy a (b\<lparr>reservation_sequence := n\<rparr>) = same_policy a b"
  "same_policy a (b\<lparr>reservations := calls\<rparr>) = same_policy a b"
  "same_policy a (b\<lparr>model_reservations := models\<rparr>) = same_policy a b"
  by (auto simp: same_policy_def emit_def set_state_def split: RuntimeBudgetScope.splits)

lemma same_policy_foldl:
  "(\<And>x sc. same_policy a x \<Longrightarrow> same_policy a (g x sc)) \<Longrightarrow> same_policy a b \<Longrightarrow> same_policy a (foldl g b scopes)"
  by (induction scopes arbitrary: b) auto

lemma same_policy_charge [simp]: "same_policy a b \<Longrightarrow> same_policy a (charge scopes op' reason resource x b)"
  unfolding charge_def by (rule same_policy_foldl) (simp_all add: charge_scope_def Let_def)

lemma same_policy_release [simp]: "same_policy a b \<Longrightarrow> same_policy a (foldl release_scope b scopes)"
  by (rule same_policy_foldl) (simp_all add: release_scope_def)

lemma same_policy_settled [simp]: "same_policy a b \<Longrightarrow> same_policy a (foldl (note_settled reason resource) b scopes)"
  by (rule same_policy_foldl) (simp_all add: note_settled_def)

lemma orderly_Inr: "same_policy a b \<Longrightarrow> orderly a (Inr x, b)"
  by (simp add: orderly_def)

lemma orderly_invalid: "e = BudgetValueError \<or> e = BudgetImbalance \<Longrightarrow> orderly a (Inl e, a)"
  by (auto simp: orderly_def)

lemma orderly_deny: "orderly a (deny scope op' reason resource a)"
  by (auto simp: orderly_def deny_def)

lemma orderly_check_time: "orderly a (k a) \<Longrightarrow> orderly a (check_time t k a)"
  by (auto simp: check_time_def intro: orderly_deny split: option.splits)

lemma orderly_check_subagent_time: "orderly a (k a) \<Longrightarrow> orderly a (check_subagent_time t op' resource k a)"
  by (auto simp: check_subagent_time_def intro: orderly_deny)

lemma orderly_reserve_call: "orderly a (reserve_call scope op' resource a)"
  by (simp add: reserve_call_def Let_def orderly_Inr)

lemma orderly_worst_case: "orderly a (reserve_worst_case model inp out pin pout a)"
  by (auto simp: reserve_worst_case_def Let_def orderly_Inr orderly_deny simp del: first_refusal.simps
      split: option.splits)

lemma orderly_calls:
  "orderly a (reserve_model model t1 a)" "orderly a (reserve_tool tool t1 a)" "orderly a (reserve_subagent agent t1 t2 a)"
  "orderly a (record_usage usage a)" "orderly a (record_subagent_usage u mc tc t1 t2 a)"
  "orderly a (release res a)" "orderly a (remaining_time_seconds t1 t2 a)"
  unfolding reserve_model_def reserve_tool_def reserve_subagent_def record_usage_def record_subagent_usage_def
    release_def remaining_time_seconds_def Let_def
  by (auto intro!: orderly_check_time orderly_check_subagent_time orderly_Inr orderly_deny orderly_invalid
        orderly_reserve_call simp del: first_refusal.simps foldl.simps split: option.splits)

lemma orderly_reserve_attempt: "orderly a (reserve_model_attempt model inp max_out cin cout t a)"
  unfolding reserve_model_attempt_def Let_def
  by (auto intro!: orderly_check_time orderly_Inr orderly_deny orderly_invalid orderly_worst_case
      simp del: first_refusal.simps map_result.simps split: option.splits sum.splits)

lemma orderly_charge_unknown: "orderly a (charge_model_attempt_unknown r reason a)"
  by (auto simp: charge_model_attempt_unknown_def Let_def simp del: foldl.simps dest: pending_error
      intro!: orderly_Inr orderly_invalid split: sum.splits option.splits)

lemma refund_policy:
  "refund_scopes tk co model scopes b = (res, c) \<Longrightarrow> same_policy a b \<Longrightarrow>
     same_policy a c \<and> (\<forall>e. res = Inl e \<longrightarrow> e = BudgetImbalance)"
  by (induction scopes arbitrary: b) (auto simp: Let_def note_settled_def split: if_splits)

lemma orderly_map:
  "orderly a r \<Longrightarrow> orderly a (case r of (Inl e, b) \<Rightarrow> (Inl e, b) | (Inr x, b) \<Rightarrow> (Inr (f x b), b))"
  by (auto simp: orderly_def split: prod.splits sum.splits)

lemma orderly_refund:
  "orderly a (case refund_scopes tk co model scopes (a\<lparr>model_reservations := d\<rparr>) of
     (Inl e, b) \<Rightarrow> (Inl e, b) | (Inr _, b) \<Rightarrow> (Inr x, b))"
  using refund_policy [of tk co model scopes "a\<lparr>model_reservations := d\<rparr>" _ _ a]
  by (auto simp: orderly_def split: prod.splits sum.splits)

lemma orderly_settle: "orderly a (settle_model_attempt r usage a)"
  by (auto simp: settle_model_attempt_def Let_def simp del: refund_scopes.simps dest: pending_error
      intro!: orderly_map orderly_invalid orderly_deny orderly_refund orderly_charge_unknown
      split: sum.split option.split)

lemma orderly_times:
  "orderly a (tool_timeout_seconds t1 t2 a)" "orderly a (subagent_remaining_time_seconds t1 t2 t3 t4 t5 a)"
  by (auto simp: tool_timeout_seconds_def subagent_remaining_time_seconds_def
      intro!: orderly_map orderly_calls orderly_check_time orderly_check_subagent_time)

section \<open>Histories of an account\<close>

datatype budget_call =
    Reserve_model pystr rat
  | Reserve_attempt pystr int "int option" "pyfloat option" "pyfloat option" rat
  | Charge_unknown RuntimeModelBudgetReservation pystr
  | Settle RuntimeModelBudgetReservation "RuntimeUsage option"
  | Record_usage "RuntimeUsage option"
  | Reserve_tool pystr rat
  | Reserve_subagent pystr rat rat
  | Release RuntimeBudgetReservation
  | Record_subagent RuntimeUsage int int rat rat
  | Remaining_time rat rat
  | Tool_timeout rat rat
  | Subagent_time rat rat rat rat rat

definition raised :: "'a budget_result \<Rightarrow> budget_error option \<times> BudgetAccount" where
  "raised r = (case r of (Inl e, a) \<Rightarrow> (Some e, a) | (Inr _, a) \<Rightarrow> (None, a))"

fun run_call :: "budget_call \<Rightarrow> BudgetAccount \<Rightarrow> budget_error option \<times> BudgetAccount" where
  "run_call (Reserve_model model t) a = raised (reserve_model model t a)"
| "run_call (Reserve_attempt model inp out cin cout t) a = raised (reserve_model_attempt model inp out cin cout t a)"
| "run_call (Charge_unknown r reason) a = raised (charge_model_attempt_unknown r reason a)"
| "run_call (Settle r usage) a = raised (settle_model_attempt r usage a)"
| "run_call (Record_usage usage) a = raised (record_usage usage a)"
| "run_call (Reserve_tool tool t) a = raised (reserve_tool tool t a)"
| "run_call (Reserve_subagent agent t1 t2) a = raised (reserve_subagent agent t1 t2 a)"
| "run_call (Release r) a = raised (release r a)"
| "run_call (Record_subagent u mc tc t1 t2) a = raised (record_subagent_usage u mc tc t1 t2 a)"
| "run_call (Remaining_time t1 t2) a = raised (remaining_time_seconds t1 t2 a)"
| "run_call (Tool_timeout t1 t2) a = raised (tool_timeout_seconds t1 t2 a)"
| "run_call (Subagent_time t1 t2 t3 t4 t5) a = raised (subagent_remaining_time_seconds t1 t2 t3 t4 t5 a)"

text \<open>The usage a call reports is a checked value.\<close>

fun usage_of :: "budget_call \<Rightarrow> RuntimeUsage option" where
  "usage_of (Settle r usage) = usage"
| "usage_of (Record_usage usage) = usage"
| "usage_of (Record_subagent u mc tc t1 t2) = Some u"
| "usage_of _ = None"

definition reports_valid :: "budget_call \<Rightarrow> bool" where
  "reports_valid c = (case usage_of c of None \<Rightarrow> True | Some u \<Rightarrow> RuntimeUsage_valid u)"

lemma raisedE:
  assumes "raised r = (e, b)"
  obtains x where "r = (x, b)" "e = (case x of Inl err \<Rightarrow> Some err | Inr _ \<Rightarrow> None)"
  using assms by (auto simp: raised_def split: prod.splits sum.splits)

lemma raised_account: "raised r = (e, b) \<Longrightarrow> (\<And>x. r = (x, b) \<Longrightarrow> P b) \<Longrightarrow> P b"
  by (auto elim: raisedE)

lemma orderly_raised:
  assumes "orderly a r" "raised r = (e, b)"
  shows "same_policy a b \<and> (\<forall>scope reason. e = Some (BudgetExceeded scope reason) \<longrightarrow>
    (\<exists>op' resource. b = emit scope op' False reason resource (state_of a scope) a))"
  using assms(1) by (rule_tac raisedE [OF assms(2)]) (auto simp: orderly_def split: sum.splits)

lemma run_call_orderly:
  assumes "run_call c a = (e, b)"
  shows "same_policy a b \<and> (\<forall>scope reason. e = Some (BudgetExceeded scope reason) \<longrightarrow>
    (\<exists>op' resource. b = emit scope op' False reason resource (state_of a scope) a))"
  using assms
  by (cases c) (simp_all only: run_call.simps, (rule orderly_raised; (assumption | rule orderly_calls orderly_reserve_attempt orderly_charge_unknown orderly_settle orderly_times))+)

lemma times_inv:
  assumes "account_inv a"
  shows "remaining_time_seconds t1 t2 a = (r, b) \<Longrightarrow> account_inv b"
    "tool_timeout_seconds t1 t2 a = (r, b) \<Longrightarrow> account_inv b"
    "subagent_remaining_time_seconds t1 t2 t3 t4 t5 a = (r, b) \<Longrightarrow> account_inv b"
proof -
  have remaining: "account_inv b" if "remaining_time_seconds t1 t2 a = (r, b)" for r b t1 t2
    by (rule check_time_inv [OF that [unfolded remaining_time_seconds_def] assms]) (use assms in simp)
  then show "remaining_time_seconds t1 t2 a = (r, b) \<Longrightarrow> account_inv b" .
  show "account_inv b" if "tool_timeout_seconds t1 t2 a = (r, b)"
    using that remaining by (auto simp: tool_timeout_seconds_def split: prod.splits sum.splits)
  show "account_inv b" if "subagent_remaining_time_seconds t1 t2 t3 t4 t5 a = (r, b)"
    by (rule check_time_inv [OF that [unfolded subagent_remaining_time_seconds_def] assms],
        erule check_subagent_time_inv [OF _ assms]) (use remaining in \<open>auto split: prod.splits sum.splits\<close>)
qed

lemma run_call_inv:
  assumes "run_call c a = (e, b)" "account_inv a" "reports_valid c"
  shows "account_inv b"
proof (cases c)
  case (Settle r usage)
  then show ?thesis using assms settle_inv [OF _ assms(2), of r usage]
    by (auto simp: reports_valid_def elim!: raised_account split: option.splits)
next
  case (Record_usage usage)
  then show ?thesis using assms record_usage_inv [OF _ assms(2), of usage]
    by (auto simp: reports_valid_def elim!: raised_account split: option.splits)
next
  case (Record_subagent u mc tc t1 t2)
  then show ?thesis using assms record_subagent_usage_inv [OF _ assms(2), of u mc tc t1 t2]
    by (auto simp: reports_valid_def elim!: raised_account)
next
  case (Charge_unknown r reason)
  then show ?thesis using assms(1) charge_unknown_inv [OF _ assms(2), of r reason] by (auto elim!: raised_account)
next
  case (Release r)
  then show ?thesis using assms(1) release_inv [OF _ assms(2), of r] by (auto elim!: raised_account)
qed (use assms(1) reserve_model_inv [OF _ assms(2)] reserve_model_attempt_inv [OF _ assms(2)] reserve_tool_inv [OF _ assms(2)]
      reserve_subagent_inv [OF _ assms(2)] times_inv [OF assms(2)] in \<open>auto elim!: raised_account\<close>)

text \<open>One step: a call, or the binding of a turn.\<close>

inductive account_step :: "BudgetAccount \<Rightarrow> BudgetAccount \<Rightarrow> bool" where
  account_call: "run_call c a = (e, b) \<Longrightarrow> reports_valid c \<Longrightarrow> account_step a b"
| account_bind: "bind_account i g t1 t2 a = (r, b) \<Longrightarrow> governance_ok g \<Longrightarrow> account_step a b"

interpretation books: preserved_invariant account_step account_inv
proof
  show "account_inv b" if "account_step a b" "account_inv a" for a b
    using that by cases (use run_call_inv bind_account_inv in blast)+
qed

lemma bind_keeps_limits:
  assumes "bind_account i g t1 t2 a = (r, b)" "slot_limits a s = Some l"
  shows "slot_limits b s = Some l"
  using assms(1)
proof (cases rule: bind_account_cases)
  case refused
  then show ?thesis using assms(2) same_books_fields(2,7) [OF refused(2)] by (auto simp: slot_limits_def split: slot.splits)
next
  case bound
  have num: "same_numerics g (governance a)" by (rule bind_refusal_None(1) [OF bound(2)])
  have b: "same_books (rebound i g t1 a) b"
    using bound(3) by (auto simp: check_time_def deny_def split: option.splits)
  have "slot_limits (rebound i g t1 a) s = Some l"
    using assms(2) num by (auto simp: rebound_def slot_limits_def same_numerics_def split: slot.splits)
  then show ?thesis using same_books_fields(2,7) [OF b] by (auto simp: slot_limits_def split: slot.splits)
qed (use assms(2) in simp)

interpretation limits: write_once account_step account_inv slot_limits
proof
  show "slot_limits b s = Some l" if "account_step a b" "account_inv a" "slot_limits a s = Some l" for a b s l
    using that(1)
  proof cases
    case (account_call c e)
    then have "same_policy a b" using run_call_orderly by blast
    then show ?thesis using that(3) by (auto simp: same_policy_def slot_limits_def split: slot.splits)
  next
    case account_bind
    then show ?thesis using bind_keeps_limits that(3) by blast
  qed
qed

lemma new_account_fields:
  "identity (new_account i g t) = i" "governance (new_account i g t) = g" "reservations (new_account i g t) = []"
  "model_reservations (new_account i g t) = []" "state_of (new_account i g t) scope = new_usage t"
  "turn_governance (new_account i g t) = [(ri_turn_id i, g)]"
  using same_books_fields [OF new_account_books [of i g t]] same_books_state [OF new_account_books [of i g t]]
  by (auto simp: state_of_def dict_get_default_def split: RuntimeBudgetScope.splits)

lemma fixed_limits:
  assumes "reach account_step (new_account i g t) a" "governance_ok g" "scope \<noteq> TURN_SCOPE"
  shows "numeric_policy (limit_of a scope) = numeric_policy (envelope_limit (budgets g) scope)"
proof -
  let ?n = "new_account i g t"
  have inv: "account_inv ?n" by (rule new_account_inv [OF assms(2)])
  have slot: "slot_of a scope = slot_of ?n scope" using assms(3) by (cases scope) (simp_all add: slot_of_def)
  have "slot_limits ?n (slot_of ?n scope) = Some (numeric_policy (envelope_limit (budgets g) scope))"
    using current_limits [OF account_invD(1) [OF inv], of scope] by (simp add: limit_of_def new_account_fields)
  then have "slot_limits a (slot_of ?n scope) = Some (numeric_policy (envelope_limit (budgets g) scope))"
    by (rule limits.reach_keeps [OF assms(1) inv])
  then show ?thesis
    using current_limits [OF account_invD(1) [OF books.reach_inv [OF assms(1) inv]], of scope] slot by simp
qed

section \<open>What an account guarantees\<close>

text \<open>
  C33. A budget is never exceeded: whatever calls a run makes, in any order and with any clock,
  the calls, tokens, cost, steps and concurrency counted for the run, its turn, its tools and its
  subagents lie between zero and their limits, and the limits of the run, tools and subagents are
  those the account was opened with, however often a turn has been bound.
\<close>

theorem budget_never_exceeded:
  assumes "reach account_step (new_account i g t) a" "governance_ok g"
  shows "usage_ok (state_of a scope) (numeric_policy (limit_of a scope)) \<and>
    (scope \<noteq> TURN_SCOPE \<longrightarrow> numeric_policy (limit_of a scope) = numeric_policy (envelope_limit (budgets g) scope))"
  using account_invD(4) [OF books.reach_inv [OF assms(1) new_account_inv [OF assms(2)]]] fixed_limits [OF assms] by blast

lemma calls_in_run: "calls_in Run_slot d = int (length d)"
  by (induction d) (auto simp: calls_in_def covers_def)


text \<open>
  A refused call changes nothing but the record of decisions: it adds one decision, a refusal
  with the scope and the reason the caller is told and the usage at that moment, and leaves every
  counter, every limit and every reservation as it was.
\<close>

theorem refused_call_changes_nothing:
  assumes "run_call c a = (Some (BudgetExceeded scope reason), b)"
  shows "\<exists>d. b = a\<lparr>decision_sequence := decision_sequence a + 1, decisions := decisions a @ [d]\<rparr> \<and>
    \<not> dc_allow d \<and> dc_scope d = scope \<and> dc_reason d = reason \<and> dc_number d = decision_sequence a + 1 \<and>
    dc_usage d = state_of a scope"
  using run_call_orderly [OF assms] by (auto simp: emit_def)

lemma on_slots_state:
  assumes "on_slots a scopes f b" "current_turn_ok a"
  shows "state_of b scope = (if scope \<in> set scopes then f (state_of a scope) else state_of a scope)"
proof -
  have b: "same_frame a b" "current_turn_ok b" using assms(1) by (auto simp: on_slots_def)
  have "Some (state_of b scope) = slot_usage b (slot_of a scope)"
    using state_of_slot [OF b(2), of scope] same_frame_slots(1) [OF b(1)] by simp
  also have "\<dots> = Some (if scope \<in> set scopes then f (state_of a scope) else state_of a scope)"
    using assms(1) state_of_slot [OF assms(2), of scope] by (auto simp: on_slots_def)
  finally show ?thesis by simp
qed

definition attempt_amount :: "RuntimeModelBudgetReservation \<Rightarrow> amount" where
  "attempt_amount r =
     nothing\<lparr>am_calls := 1, am_tokens := mr_reserved_tokens r, am_cost := mr_reserved_cost r, am_steps := 1\<rparr>"

text \<open>A reserved model call is charged its worst case and entered in the table.\<close>

lemma reserved_worst_case:
  assumes "reserve_worst_case model inp out pin pout a = (Inr r, b)" "account_inv a"
  shows "state_of b scope = (if scope \<in> set model_scopes then consume (attempt_amount r) (state_of a scope) else state_of a scope)"
    "dict_get (model_reservations b) (mr_id r) = Some r" "mr_turn_id r = ri_turn_id (identity b)"
proof -
  let ?x = "attempt_amount r" and ?op = "lit ''model_attempt_reservation''" and ?why = "lit ''pessimistic_charge''"
  let ?a0 = "a\<lparr>reservation_sequence := reservation_sequence a + 1\<rparr>"
  let ?c = "charge model_scopes ?op ?why model ?x ?a0"
  have none: "first_refusal (exceeds a (nothing\<lparr>am_calls := 1, am_tokens := inp + out,
      am_cost := model_cost_microunits inp out pin pout, am_steps := 1\<rparr>)) model_scopes = None"
    using assms(1) by (auto simp: reserve_worst_case_def Let_def deny_def simp del: first_refusal.simps split: option.splits)
  have r: "mr_reserved_tokens r = inp + out" "mr_reserved_cost r = model_cost_microunits inp out pin pout"
    "mr_turn_id r = ri_turn_id (identity a)"
    using assms(1) none by (auto simp: reserve_worst_case_def Let_def simp del: first_refusal.simps)
  have b: "b = ?c\<lparr>model_reservations := dict_set (mr_id r) r (model_reservations ?c)\<rparr>"
    using assms(1) none r unfolding attempt_amount_def
    by (auto simp: reserve_worst_case_def Let_def simp del: first_refusal.simps)
  have inv0: "account_inv ?a0" by (rule account_inv_sequence [OF assms(2)]) simp
  have "distinct model_scopes" by simp
  note ch = conjunct1 [OF charge_on_slots [OF account_invD(1) [OF inv0] this, of ?x ?op ?why model]]
  show "state_of b scope = (if scope \<in> set model_scopes then consume ?x (state_of a scope) else state_of a scope)"
    using on_slots_state [OF ch account_invD(1) [OF inv0], of scope] by (simp add: b)
  show "dict_get (model_reservations b) (mr_id r) = Some r" by (simp add: b)
  have "identity ?c = identity a" using ch by (simp add: on_slots_def same_frame_def)
  then show "mr_turn_id r = ri_turn_id (identity b)" using r(3) by (simp add: b)
qed

lemma reserve_attempt_worst_case:
  assumes "reserve_model_attempt model inp max_out cin cout t a = (Inr r, b)"
  shows "\<exists>m out pin pout. reserve_worst_case m inp out pin pout a = (Inr r, b)"
  using assms
  by (auto simp: reserve_model_attempt_def check_time_def deny_def Let_def simp del: first_refusal.simps map_result.simps
      split: if_splits sum.splits option.splits)

lemma attempt_refunded:
  "refunded (mr_reserved_tokens r - tk) (mr_reserved_cost r - co) (consume (attempt_amount r) st) =
     st\<lparr>us_model_calls := us_model_calls st + 1, us_tokens := us_tokens st + tk, us_cost := us_cost st + co,
        us_steps := us_steps st + 1\<rparr>"
  by (simp add: refunded_def consume_def attempt_amount_def nothing_def)


section \<open>The manager\<close>

text \<open>The eviction order lists the keys of the table, and the table never outgrows its bound.\<close>

definition manager_inv :: "BudgetManager \<Rightarrow> bool" where
  "manager_inv m \<longleftrightarrow>
     0 < max_accounts m \<and> distinct (order m) \<and> set (order m) = fst ` set (accounts m) \<and>
     distinct (map fst (accounts m)) \<and> length (accounts m) \<le> max_accounts m"

text \<open>A run's account changes in place, through the reference that the binding returned.\<close>

inductive manager_step :: "BudgetManager \<Rightarrow> BudgetManager \<Rightarrow> bool" where
  manager_binds: "manager_bind i g t1 t2 m = (r, m') \<Longrightarrow> governance_ok g \<Longrightarrow> manager_step m m'"
| manager_discards: "manager_step m (manager_discard run_id m)"
| manager_calls: "dict_get (accounts m) k = Some a \<Longrightarrow> run_call c a = (e, b) \<Longrightarrow> reports_valid c \<Longrightarrow>
    manager_step m (m\<lparr>accounts := dict_set k b (accounts m)\<rparr>)"

lemma manager_inv_order: "manager_inv m \<Longrightarrow> length (order m) = length (accounts m)"
  unfolding manager_inv_def by (metis distinct_card length_map list.set_map)

lemma manager_inv_update:
  "manager_inv m \<Longrightarrow> dict_get (accounts m) k = Some a \<Longrightarrow> manager_inv (m\<lparr>accounts := dict_set k b (accounts m)\<rparr>)"
proof -
  assume inv: "manager_inv m" and k: "dict_get (accounts m) k = Some a"
  have "k \<in> fst ` set (accounts m)" using map_of_SomeD [OF k] by force
  then have keys: "map fst (dict_set k b (accounts m)) = map fst (accounts m)" by (simp add: update_keys)
  moreover have "length (dict_set k b (accounts m)) = length (accounts m)" using keys by (metis length_map)
  moreover have "fst ` set (dict_set k b (accounts m)) = fst ` set (accounts m)" using keys by (metis list.set_map)
  ultimately show ?thesis using inv by (simp add: manager_inv_def)
qed

lemma pop_keys: "fst ` set (dict_pop k d) = fst ` set d - {k}"
  by (induction d) auto

lemma manager_inv_drop:
  assumes "manager_inv m"
  shows "manager_inv (m\<lparr>accounts := dict_pop k (accounts m), order := remove1 k (order m)\<rparr>)"
  using assms length_delete_le [of k "accounts m"]
  by (simp add: manager_inv_def pop_keys set_dict_pop(2))

lemma manager_inv_add:
  assumes "manager_inv m" "ri_run_id i \<notin> fst ` set (accounts m)" "length (accounts m) < max_accounts m"
    and "add_account i a m = (r, m')"
  shows "manager_inv m'"
proof -
  have "m' = m\<lparr>accounts := accounts m @ [(ri_run_id i, a)], order := order m @ [ri_run_id i]\<rparr>"
    using assms(4) dict_set_new [OF assms(2)] by (simp add: add_account_def)
  then show ?thesis using assms(1-3) by (simp add: manager_inv_def)
qed

lemma manager_bind_inv:
  assumes "manager_bind i g t1 t2 m = (r, m')" "manager_inv m"
  shows "manager_inv m' \<and> r \<noteq> Inl BudgetIndexError"
proof (cases "dict_get (accounts m) (ri_run_id i)")
  case (Some a)
  obtain e b where b: "bind_account i g t1 t2 a = (e, b)" by fastforce
  then have "e \<noteq> Inl BudgetIndexError" by (rule bind_account_cases) (auto simp: check_time_def deny_def split: option.splits)
  moreover have "m' = m\<lparr>accounts := dict_set (ri_run_id i) b (accounts m)\<rparr> \<and> (\<forall>err. r = Inl err \<longrightarrow> e = Inl err)"
    using assms(1) Some b by (auto simp: manager_bind_def split: sum.splits)
  ultimately show ?thesis using manager_inv_update [OF assms(2) Some] by auto
next
  case None
  then have new: "ri_run_id i \<notin> fst ` set (accounts m)" by (simp add: map_of_eq_None_iff)
  show ?thesis
  proof (cases "length (accounts m) < max_accounts m")
    case True
    then have "add_account i (new_account i g t1) m = (r, m')" using assms(1) None by (simp add: manager_bind_def)
    then show ?thesis using manager_inv_add [OF assms(2) new True] by (auto simp: add_account_def)
  next
    case False
    then have full: "length (order m) = max_accounts m" "0 < max_accounts m"
      using manager_inv_order [OF assms(2)] assms(2) by (auto simp: manager_inv_def)
    then obtain stale rest where order: "order m = stale # rest" by (cases "order m") auto
    let ?m = "m\<lparr>order := rest, accounts := dict_pop stale (accounts m)\<rparr>"
    have inv: "manager_inv ?m" using manager_inv_drop [OF assms(2), of stale] by (simp add: order manager_inv_def)
    have "add_account i (new_account i g t1) ?m = (r, m')"
      using assms(1) None False by (simp add: manager_bind_def order)
    moreover have "length (accounts ?m) < max_accounts ?m"
      using manager_inv_order [OF inv] full by (simp add: order)
    ultimately show ?thesis using manager_inv_add [OF inv] new by (auto simp: add_account_def pop_keys)
  qed
qed

interpretation manager: preserved_invariant manager_step manager_inv
proof
  show "manager_inv m'" if "manager_step m m'" "manager_inv m" for m m'
    using that
    by cases (use manager_bind_inv manager_inv_drop manager_inv_update in \<open>fastforce simp: manager_discard_def Let_def\<close>)+
qed

lemma new_manager_inv: "new_manager n = Inr m \<Longrightarrow> manager_inv m"
  by (auto simp: new_manager_def require_def manager_inv_def split: if_splits)

lemma bind_keeps_usage:
  assumes "bind_account i g t1 t2 a = (r, b)"
  shows "run_usage b = run_usage a \<and> tool_usage b = tool_usage a \<and> subagent_usage b = subagent_usage a"
  using assms
proof (cases rule: bind_account_cases)
  case bound
  have "same_books (rebound i g t1 a) b"
    using bound(3) by (auto simp: check_time_def deny_def split: option.splits)
  then show ?thesis by (auto simp: same_books_def rebound_def open_turn_def Let_def emit_def)
qed (auto simp: same_books_def)


section \<open>An example run\<close>

text \<open>Small limits, one tool that may be called, one run with one turn.\<close>

definition demo_limit :: "RuntimeBudgetScope \<Rightarrow> RuntimeBudgetLimit" where
  "demo_limit scope =
     \<lparr>bl_scope = scope, model_call_limit = 2, token_limit = 40, cost_limit_microunits = 100, step_limit = 3,
      time_limit_ms = 1000, concurrency_limit = 1, allowed_model_ids = []\<rparr>"

definition demo_governance :: RuntimeGovernanceEnvelope where
  "demo_governance =
     \<lparr>policy_id = [112],
      budgets = \<lparr>be_run = demo_limit RUN_SCOPE, be_turn = demo_limit TURN_SCOPE, be_tool = demo_limit TOOL_SCOPE,
                 be_subagent = demo_limit SUBAGENT_SCOPE\<rparr>,
      access = [\<lparr>ag_kind = TOOL, ag_resource = [116], ag_operations = [lit ''execute''], ag_authorization = [97]\<rparr>]\<rparr>"

definition demo_identity :: RuntimeRunIdentity where
  "demo_identity = \<lparr>ri_run_id = [114], ri_turn_id = [116], ri_correlation_id = [99],
      ri_actor = \<lparr>ac_type = lit ''user'', ac_id = [97], ac_parent_id = []\<rparr>,
      ri_owner = \<lparr>pr_platform = [113], pr_owner_type = lit ''user'', pr_owner_id = [111]\<rparr>\<rparr>"

abbreviation demo_account :: BudgetAccount where
  "demo_account \<equiv> new_account demo_identity demo_governance 0"

lemma demo_governance_ok: "governance_ok demo_governance"
  by (auto simp: governance_ok_def envelope_limit_def demo_governance_def demo_limit_def numeric_policy_def
      limits_nonneg_def split: RuntimeBudgetScope.splits)

lemma demo_limit_of: "limit_of demo_account scope = demo_limit scope"
  by (simp add: limit_of_def new_account_fields envelope_limit_def demo_governance_def split: RuntimeBudgetScope.splits)

lemma demo_state: "state_of demo_account scope = new_usage 0"
  by (rule new_account_fields)

lemma demo_time: "check_time 0 k demo_account = k demo_account"
  by (simp add: check_time_def time_exhausted_def demo_limit_of demo_state elapsed_ms_def new_usage_def demo_limit_def)

lemma demo_fits:
  "am_calls x \<le> 2 \<and> am_tokens x \<le> 40 \<and> am_cost x \<le> 100 \<and> am_steps x \<le> 3 \<and> am_concurrency x \<le> 1 \<Longrightarrow>
     first_refusal (exceeds demo_account x) scopes = None"
  unfolding first_refusal_None
  by (auto simp: exceeds_def would_exceed_def demo_state demo_limit_of new_usage_def demo_limit_def)

lemma demo_strip: "py_strip [116] = [116]" "py_strip (lit ''execute'') = lit ''execute''"
  by (rule py_strip_visible, simp add: py_isspace_def lit_def)+

lemma demo_access: "find_access (access (governance demo_account)) TOOL [116] (lit ''execute'') \<noteq> None"
  by (simp add: find_access_def demo_strip new_account_fields demo_governance_def grants_operation_def)

lemma demo_reserve:
  "reserve_tool [116] 0 demo_account = reserve_call TOOL_SCOPE (lit ''tool_reservation'') [116] demo_account"
proof -
  have "first_refusal (exceeds demo_account call_amount) [RUN_SCOPE, TURN_SCOPE, TOOL_SCOPE] = None"
    by (rule demo_fits) (simp add: nothing_def)
  then show ?thesis
    using demo_access by (auto simp: reserve_tool_def demo_time demo_strip Let_def simp del: first_refusal.simps)
qed

definition demo_busy :: BudgetAccount where
  "demo_busy = snd (run_call (Reserve_tool [116] 0) demo_account)"

lemma demo_busy_reach: "reach account_step demo_account demo_busy"
  by (rule reach_single, rule account_call [of "Reserve_tool [116] 0" _ "fst (run_call (Reserve_tool [116] 0) demo_account)"])
    (simp_all add: demo_busy_def reports_valid_def)

lemma demo_busy_state: "us_concurrency (run_usage demo_busy) = 1" "length (reservations demo_busy) = 1"
proof -
  let ?a0 = "demo_account\<lparr>reservation_sequence := reservation_sequence demo_account + 1\<rparr>"
  let ?c = "charge [RUN_SCOPE, TURN_SCOPE, TOOL_SCOPE] (lit ''tool_reservation'') (lit ''within_limit'') [116] call_amount ?a0"
  have inv: "account_inv demo_account" by (rule new_account_inv [OF demo_governance_ok])
  have cur: "current_turn_ok ?a0" by (rule account_invD(1) [OF account_inv_sequence [OF inv]]) simp
  have dist: "distinct [RUN_SCOPE, TURN_SCOPE, TOOL_SCOPE]" by simp
  note ch = conjunct1 [OF charge_on_slots [OF cur dist, of call_amount "lit ''tool_reservation''" "lit ''within_limit''" "[116]"]]
  have "state_of ?c RUN_SCOPE = consume call_amount (new_usage 0)"
    using on_slots_state [OF ch cur, of RUN_SCOPE] demo_state by simp
  moreover have "reservations ?c = []" using ch by (simp add: on_slots_def same_frame_def new_account_fields)
  ultimately show "us_concurrency (run_usage demo_busy) = 1" "length (reservations demo_busy) = 1"
    by (simp_all add: demo_busy_def demo_reserve reserve_call_def raised_def Let_def state_of_def new_usage_def nothing_def)
qed

lemma demo_decimal: "decimal 4 = 4" "decimal 96 = 96" "decimal 48 = 48" "decimal 12 = 12" "decimal 16 = 16" "decimal 6 = 6" "decimal 10 = 10"
  by (simp_all add: decimal_def decimal_exponent_def ten_power_def py_digits.simps round_half_even_def Let_def)

lemma demo_cost: "model_cost_microunits 4 6 1 2 = 16" "model_cost_microunits 4 3 1 2 = 10"
  by (simp_all add: model_cost_microunits_def demo_decimal)

definition demo_attempt :: RuntimeModelBudgetReservation where
  "demo_attempt =
     \<lparr>mr_id = model_reservation_id demo_account, mr_turn_id = [116], mr_model_id = [109], mr_input_tokens = 4,
      mr_max_output_tokens = 6, mr_reserved_tokens = 10, mr_reserved_cost = 16, mr_cost_input_1m = 1, mr_cost_output_1m = 2\<rparr>"

abbreviation demo_request :: "RuntimeModelBudgetReservation budget_result" where
  "demo_request \<equiv> reserve_model_attempt [109] 4 (Some 6) (Some (Finite 1)) (Some (Finite 2)) 0 demo_account"

definition demo_usage :: RuntimeUsage where
  "demo_usage =
     \<lparr>input_tokens = 4, output_tokens = 3, cached_input_tokens = 0, reasoning_tokens = 0, cost_microunits = 0\<rparr>"

lemma demo_output_cap: "output_cap demo_account 4 (Some 6) 1 2 scope = Inr 6"
  by (simp add: output_cap_def demo_state demo_limit_of new_usage_def demo_limit_def demo_decimal Let_def)

lemma demo_request: "demo_request = (Inr demo_attempt, snd demo_request)"
proof -
  let ?x = "nothing\<lparr>am_calls := 1, am_tokens := 4 + 6, am_cost := model_cost_microunits 4 6 1 2, am_steps := 1\<rparr>"
  have m: "model_name [109] = [109]"
    using py_strip_visible [of "[109]"] by (simp add: model_name_def py_isspace_def)
  have "first_refusal (exceeds demo_account ?x) model_scopes = None"
    by (rule demo_fits) (simp add: nothing_def demo_cost)
  then have "fst (reserve_worst_case [109] 4 6 1 2 demo_account) = Inr demo_attempt"
    by (simp add: reserve_worst_case_def Let_def demo_attempt_def demo_cost new_account_fields demo_identity_def
        del: first_refusal.simps)
  moreover have "first_refusal (model_refusal demo_account [109]) model_scopes = None"
    using demo_fits [of "nothing\<lparr>am_calls := 1, am_steps := 1\<rparr>" model_scopes]
    unfolding first_refusal_None by (simp add: model_refusal_def demo_limit_of demo_limit_def nothing_def)
  ultimately have "fst demo_request = Inr demo_attempt"
    by (simp add: reserve_model_attempt_def model_price_def demo_time m demo_output_cap map_result.simps result_simps
        Let_def del: first_refusal.simps)
  then show ?thesis by (metis prod.collapse)
qed

lemma demo_actual: "actual_usage demo_attempt demo_usage = demo_usage\<lparr>cost_microunits := 10\<rparr>"
  by (simp add: actual_usage_def demo_attempt_def demo_usage_def demo_cost)

text \<open>A tool call on the way: the counter of concurrent calls stands at its limit of one.\<close>

theorem budget_never_exceeded_witness:
  "usage_ok (state_of demo_busy RUN_SCOPE) (numeric_policy (demo_limit RUN_SCOPE)) \<and> us_concurrency (run_usage demo_busy) = 1"
proof -
  note bound = budget_never_exceeded [OF demo_busy_reach demo_governance_ok, of RUN_SCOPE]
  have "numeric_policy (limit_of demo_busy RUN_SCOPE) = numeric_policy (demo_limit RUN_SCOPE)"
    using conjunct2 [OF bound] by (simp add: envelope_limit_def demo_governance_def)
  with conjunct1 [OF bound] show ?thesis using demo_busy_state by simp
qed


text \<open>After a second the run's time is over.\<close>

theorem refused_call_changes_nothing_witness:
  "\<exists>d. snd (run_call (Reserve_model [109] 1) demo_account) =
     demo_account\<lparr>decision_sequence := decision_sequence demo_account + 1, decisions := decisions demo_account @ [d]\<rparr> \<and>
     dc_reason d = lit ''time_limit_exhausted''"
proof -
  have "fst (run_call (Reserve_model [109] 1) demo_account) = Some (BudgetExceeded RUN_SCOPE (lit ''time_limit_exhausted''))"
    by (simp add: reserve_model_def check_time_def time_exhausted_def demo_limit_of demo_state elapsed_ms_def
        new_usage_def demo_limit_def deny_def raised_def)
  then have "run_call (Reserve_model [109] 1) demo_account =
      (Some (BudgetExceeded RUN_SCOPE (lit ''time_limit_exhausted'')), snd (run_call (Reserve_model [109] 1) demo_account))"
    by (metis prod.collapse)
  from refused_call_changes_nothing [OF this] show ?thesis by blast
qed


definition demo_manager :: BudgetManager where
  "demo_manager = \<lparr>max_accounts = 1, accounts = [([114], demo_busy)], order = [[114]]\<rparr>"

lemma demo_manager_reach:
  "reach manager_step \<lparr>max_accounts = 1, accounts = [], order = []\<rparr> demo_manager"
proof -
  let ?m0 = "\<lparr>max_accounts = 1, accounts = [], order = []\<rparr>"
  let ?m1 = "\<lparr>max_accounts = 1, accounts = [([114], demo_account)], order = [[114]]\<rparr>"
  have "manager_bind demo_identity demo_governance 0 0 ?m0 = (Inr demo_account, ?m1)"
    by (simp add: manager_bind_def add_account_def demo_identity_def)
  then have first: "manager_step ?m0 ?m1" by (rule manager_binds [OF _ demo_governance_ok])
  have "manager_step ?m1 (?m1\<lparr>accounts := dict_set [114] demo_busy (accounts ?m1)\<rparr>)"
    by (rule manager_calls [of _ _ demo_account "Reserve_tool [116] 0" "fst (run_call (Reserve_tool [116] 0) demo_account)"])
      (simp_all add: demo_busy_def reports_valid_def)
  then have "manager_step ?m1 demo_manager" by (simp add: demo_manager_def)
  then show ?thesis using first by (blast intro: reach.intros)
qed


end
