(* ===== verification/Agent_Plan.thy ===== *)
theory Agent_Plan
  imports Json_Text Runtime_Budget
begin

text \<open>
  The frozen plan of a multi-agent run (\<open>core/agent_orchestration/contracts.py\<close>): roles, tasks
  with their dependencies, inputs, outputs, retries and budgets, the checks of each constructor,
  the cycle check, and the barriers in which the tasks of a plan are executed.

  Every constructor raises \<open>ValueError\<close>; a \<open>UnicodeEncodeError\<close> of the canonical JSON is one too.
  Checks of the Python type of an argument hold by typing. SHA-256 and the printing of floats are
  the fields of \<open>plan_codec\<close>.
\<close>

section \<open>Fields\<close>

record plan_codec =
  pc_sha256 :: "bytes \<Rightarrow> pystr"
  pc_float_repr :: "rat \<Rightarrow> pystr"

datatype plan_error = PlanValueError

type_synonym 'a checked = "plan_error + 'a"

abbreviation MAX_ROLE_COUNT :: nat where "MAX_ROLE_COUNT \<equiv> 32"
abbreviation MAX_TASK_COUNT :: nat where "MAX_TASK_COUNT \<equiv> 64"
abbreviation MAX_TASK_RETRY_ATTEMPTS :: int where "MAX_TASK_RETRY_ATTEMPTS \<equiv> 5"
abbreviation MAX_TASK_OUTPUT_BYTES :: nat where "MAX_TASK_OUTPUT_BYTES \<equiv> 524288"
abbreviation MAX_CHECKPOINT_BYTES :: int where "MAX_CHECKPOINT_BYTES \<equiv> 4194304"

definition plan_text :: "nat \<Rightarrow> pystr \<Rightarrow> pystr checked" where
  "plan_text max_chars value =
     (let normalized = py_strip value
      in require (normalized \<noteq> [] \<and> length normalized \<le> max_chars \<and>
                  \<not> list_ex (\<lambda>c. c < 32 \<and> c \<noteq> 10 \<and> c \<noteq> 9) normalized) PlanValueError
           (Inr normalized))"

definition id_field :: "nat \<Rightarrow> pystr \<Rightarrow> pystr checked" where
  "id_field max_chars value =
     bind_result (plan_text max_chars value) (\<lambda>normalized.
       require (\<not> list_ex py_isspace normalized) PlanValueError (Inr normalized))"

definition optional_id_field :: "nat \<Rightarrow> pystr \<Rightarrow> pystr checked" where
  "optional_id_field max_chars value =
     (let s = py_strip value in if s = [] then Inr [] else id_field max_chars s)"

definition plan_sha256 :: "bool \<Rightarrow> pystr \<Rightarrow> pystr checked" where
  "plan_sha256 allow_empty value =
     (let normalized = py_lower (py_strip value)
      in if normalized = [] \<and> allow_empty then Inr []
         else require (hex64 normalized) PlanValueError (Inr normalized))"

definition positive_int :: "int \<Rightarrow> int \<Rightarrow> int checked" where
  "positive_int maximum value = require (1 \<le> value \<and> value \<le> maximum) PlanValueError (Inr value)"

definition text_tuple :: "nat \<Rightarrow> nat \<Rightarrow> bool \<Rightarrow> pystr list \<Rightarrow> pystr list checked" where
  "text_tuple max_items max_chars allow_empty values =
     bind_result (map_result (plan_text max_chars) values) (\<lambda>normalized.
       require (length normalized \<le> max_items \<and> distinct normalized) PlanValueError
       (require (allow_empty \<or> normalized \<noteq> []) PlanValueError (Inr normalized)))"

definition sorted_texts :: "nat \<Rightarrow> nat \<Rightarrow> bool \<Rightarrow> pystr list \<Rightarrow> pystr list checked" where
  "sorted_texts max_items max_chars allow_empty values =
     bind_result (text_tuple max_items max_chars allow_empty values) (\<lambda>ts. Inr (sort ts))"

section \<open>JSON\<close>

fun freeze_json :: "nat \<Rightarrow> json \<Rightarrow> json checked" where
  "freeze_json depth j =
     require (depth \<le> 16) PlanValueError
     (case j of
        JFloat x \<Rightarrow> require (isfinite x) PlanValueError (Inr j)
      | JStr s \<Rightarrow> require (length s \<le> MAX_TASK_OUTPUT_BYTES \<and> 0 \<notin> set s) PlanValueError (Inr j)
      | JList xs \<Rightarrow>
          require (length xs \<le> 1024) PlanValueError
          (bind_result (map_result (freeze_json (depth + 1)) xs) (\<lambda>ys. Inr (JList ys)))
      | JObject d \<Rightarrow>
          require (length d \<le> 256) PlanValueError
          (bind_result (map_result (\<lambda>kv. bind_result (id_field 128 (fst kv)) (\<lambda>k.
               bind_result (freeze_json (depth + 1) (snd kv)) (\<lambda>v. Inr (k, v)))) (sort_key fst d)) (\<lambda>items.
             require (distinct (map fst items)) PlanValueError (Inr (JObject items))))
      | _ \<Rightarrow> Inr j)"

declare freeze_json.simps [simp del]

definition freeze_object :: "(pystr, json) dict \<Rightarrow> (pystr, json) dict checked" where
  "freeze_object d =
     bind_result (freeze_json 0 (JObject d)) (\<lambda>j. case j of JObject items \<Rightarrow> Inr items | _ \<Rightarrow> Inl PlanValueError)"

definition canonical_json_bytes :: "plan_codec \<Rightarrow> json \<Rightarrow> bytes checked" where
  "canonical_json_bytes cd j =
     (case utf8_encode (dumps (pc_float_repr cd) j) of None \<Rightarrow> Inl PlanValueError | Some b \<Rightarrow> Inr b)"

definition json_digest :: "plan_codec \<Rightarrow> json \<Rightarrow> pystr checked" where
  "json_digest cd j = bind_result (canonical_json_bytes cd j) (\<lambda>b. Inr (pc_sha256 cd b))"

definition json_size :: "plan_codec \<Rightarrow> json \<Rightarrow> int checked" where
  "json_size cd j = bind_result (canonical_json_bytes cd j) (\<lambda>b. Inr (int (length b)))"

text \<open>A digest given with the content has to be the digest of the content.\<close>

definition declared_digest :: "plan_codec \<Rightarrow> json \<Rightarrow> pystr \<Rightarrow> pystr checked" where
  "declared_digest cd j given =
     bind_result (json_digest cd j) (\<lambda>digest.
       let declared = py_lower (py_strip given)
       in if declared = [] then Inr digest
          else bind_result (plan_sha256 False declared) (\<lambda>d.
                 require (d = digest) PlanValueError (Inr digest)))"

definition strs :: "pystr list \<Rightarrow> json" where
  "strs xs = JList (map JStr xs)"

record JsonObjectContract =
  required_keys :: "pystr list"
  optional_keys :: "pystr list"
  jc_max_bytes :: int

definition JsonObjectContract_post_init :: "JsonObjectContract \<Rightarrow> JsonObjectContract checked" where
  "JsonObjectContract_post_init c =
     bind_result (text_tuple 128 128 True (required_keys c)) (\<lambda>required.
     bind_result (text_tuple 128 128 True (optional_keys c)) (\<lambda>optional.
     require (set required \<inter> set optional = {}) PlanValueError
     (bind_result (positive_int MAX_CHECKPOINT_BYTES (jc_max_bytes c)) (\<lambda>n.
        Inr \<lparr>required_keys = sort required, optional_keys = sort optional, jc_max_bytes = n\<rparr>))))"

definition allowed_keys :: "JsonObjectContract \<Rightarrow> pystr set" where
  "allowed_keys c = set (required_keys c) \<union> set (optional_keys c)"

definition validate_object ::
  "plan_codec \<Rightarrow> JsonObjectContract \<Rightarrow> (pystr, json) dict \<Rightarrow> (pystr, json) dict checked" where
  "validate_object cd c value =
     bind_result (freeze_object value) (\<lambda>frozen.
     require (set (required_keys c) \<subseteq> fst ` set frozen) PlanValueError
     (require (fst ` set frozen \<subseteq> allowed_keys c) PlanValueError
     (bind_result (json_size cd (JObject frozen)) (\<lambda>n.
        require (n \<le> jc_max_bytes c) PlanValueError (Inr frozen)))))"

definition validate_partial ::
  "plan_codec \<Rightarrow> JsonObjectContract \<Rightarrow> pystr list \<Rightarrow> (pystr, json) dict \<Rightarrow> (pystr, json) dict checked" where
  "validate_partial cd c extra_keys value =
     bind_result (text_tuple 16 128 True extra_keys) (\<lambda>extras.
     bind_result (freeze_object value) (\<lambda>frozen.
     require (fst ` set frozen \<subseteq> allowed_keys c \<union> set extras) PlanValueError
     (bind_result (json_size cd (JObject (filter (\<lambda>kv. \<not> (fst kv \<in> set extras \<and> fst kv \<notin> allowed_keys c)) frozen))) (\<lambda>n.
        require (n \<le> jc_max_bytes c) PlanValueError (Inr frozen)))))"

definition contract_dict :: "JsonObjectContract \<Rightarrow> json" where
  "contract_dict c =
     JObject [(lit ''required_keys'', strs (required_keys c)), (lit ''optional_keys'', strs (optional_keys c)),
              (lit ''max_bytes'', JInt (jc_max_bytes c))]"

section \<open>Roles and authority\<close>

datatype AgentRoleKind = COORDINATOR | WORKER | REVIEWER | AGGREGATOR

datatype AgentTaskPurpose = EXPLORE | RETRIEVE | EXECUTE | VERIFY | JUDGE | AGGREGATE

datatype AgentModelClass = ECONOMY | QUALITY

definition role_kind_value :: "AgentRoleKind \<Rightarrow> pystr" where
  "role_kind_value k =
     (case k of COORDINATOR \<Rightarrow> lit ''coordinator'' | WORKER \<Rightarrow> lit ''worker'' | REVIEWER \<Rightarrow> lit ''reviewer''
      | AGGREGATOR \<Rightarrow> lit ''aggregator'')"

definition purpose_value :: "AgentTaskPurpose \<Rightarrow> pystr" where
  "purpose_value p =
     (case p of EXPLORE \<Rightarrow> lit ''explore'' | RETRIEVE \<Rightarrow> lit ''retrieve'' | EXECUTE \<Rightarrow> lit ''execute''
      | VERIFY \<Rightarrow> lit ''verify'' | JUDGE \<Rightarrow> lit ''judge'' | AGGREGATE \<Rightarrow> lit ''aggregate'')"

definition access_kind_value :: "RuntimeAccessKind \<Rightarrow> pystr" where
  "access_kind_value k =
     (case k of FILE \<Rightarrow> lit ''file'' | NETWORK \<Rightarrow> lit ''network'' | TOOL \<Rightarrow> lit ''tool'' | SKILL \<Rightarrow> lit ''skill''
      | MCP \<Rightarrow> lit ''mcp'' | MEMORY \<Rightarrow> lit ''memory'')"

record AgentRoleDefinition =
  ro_id :: pystr
  ro_kind :: AgentRoleKind
  ro_description :: pystr
  ro_capabilities :: "pystr list"

definition AgentRoleDefinition_post_init :: "AgentRoleDefinition \<Rightarrow> AgentRoleDefinition checked" where
  "AgentRoleDefinition_post_init r =
     bind_result (id_field 128 (ro_id r)) (\<lambda>i.
     bind_result (plan_text 1000 (ro_description r)) (\<lambda>d.
     bind_result (sorted_texts 64 128 True (ro_capabilities r)) (\<lambda>cs.
       Inr (r\<lparr>ro_id := i, ro_description := d, ro_capabilities := cs\<rparr>))))"

definition role_dict :: "AgentRoleDefinition \<Rightarrow> json" where
  "role_dict r =
     JObject [(lit ''role_id'', JStr (ro_id r)), (lit ''kind'', JStr (role_kind_value (ro_kind r))),
              (lit ''description'', JStr (ro_description r)), (lit ''capabilities'', strs (ro_capabilities r))]"

record AgentTaskAccessRequirement =
  ar_kind :: RuntimeAccessKind
  ar_resource :: pystr
  ar_operations :: "pystr list"

definition AgentTaskAccessRequirement_post_init ::
  "AgentTaskAccessRequirement \<Rightarrow> AgentTaskAccessRequirement checked" where
  "AgentTaskAccessRequirement_post_init r =
     bind_result (id_field 512 (ar_resource r)) (\<lambda>resource.
     require (\<not> wildcard resource) PlanValueError
     (bind_result (sorted_texts 32 128 False (ar_operations r)) (\<lambda>ops.
        Inr (r\<lparr>ar_resource := resource, ar_operations := ops\<rparr>))))"

definition access_dict :: "AgentTaskAccessRequirement \<Rightarrow> json" where
  "access_dict r =
     JObject [(lit ''kind'', JStr (access_kind_value (ar_kind r))), (lit ''resource'', JStr (ar_resource r)),
              (lit ''operations'', strs (ar_operations r))]"

record AgentTaskAuthority =
  au_access :: "AgentTaskAccessRequirement list"
  au_skill_ids :: "pystr list"
  au_mcp_tool_names :: "pystr list"

definition tool_prefix :: pystr where
  "tool_prefix = lit ''tool:''"

definition tool_names :: "AgentTaskAccessRequirement list \<Rightarrow> pystr list" where
  "tool_names needs =
     map (\<lambda>r. drop (length tool_prefix) (ar_resource r))
       (filter (\<lambda>r. ar_kind r = TOOL \<and> take (length tool_prefix) (ar_resource r) = tool_prefix \<and>
                    lit ''execute'' \<in> set (ar_operations r)) needs)"

definition has_kind :: "RuntimeAccessKind \<Rightarrow> AgentTaskAccessRequirement list \<Rightarrow> bool" where
  "has_kind k needs = list_ex (\<lambda>r. ar_kind r = k) needs"

text \<open>The sort key is the pair of the kind's name and the resource, compared in this order.\<close>

definition AgentTaskAuthority_post_init :: "AgentTaskAuthority \<Rightarrow> AgentTaskAuthority checked" where
  "AgentTaskAuthority_post_init a =
     (let needs = sort_key (\<lambda>r. [access_kind_value (ar_kind r), ar_resource r]) (au_access a)
      in require (distinct (map (\<lambda>r. (ar_kind r, ar_resource r)) needs)) PlanValueError
         (bind_result (sorted_texts 64 256 True (au_skill_ids a)) (\<lambda>skills.
          bind_result (sorted_texts 64 128 True (au_mcp_tool_names a)) (\<lambda>mcps.
          require (skills \<noteq> [] \<longrightarrow> has_kind SKILL needs) PlanValueError
          (require (skills = [] \<longrightarrow> \<not> has_kind SKILL needs) PlanValueError
          (require (set mcps \<subseteq> set (tool_names needs)) PlanValueError
          (require (mcps \<noteq> [] \<longrightarrow> has_kind MCP needs) PlanValueError
            (Inr \<lparr>au_access = needs, au_skill_ids = skills, au_mcp_tool_names = mcps\<rparr>))))))))"

definition authority_dict :: "AgentTaskAuthority \<Rightarrow> json" where
  "authority_dict a =
     JObject [(lit ''access'', JList (map access_dict (au_access a))), (lit ''skill_ids'', strs (au_skill_ids a)),
              (lit ''mcp_tool_names'', strs (au_mcp_tool_names a))]"

section \<open>Policies of a task\<close>

record AgentTaskRuntimeBudget =
  tb_model_calls :: int
  tb_tokens :: int
  tb_cost :: int
  tb_tool_calls :: int
  tb_time_ms :: int

definition AgentTaskRuntimeBudget_post_init :: "AgentTaskRuntimeBudget \<Rightarrow> AgentTaskRuntimeBudget checked" where
  "AgentTaskRuntimeBudget_post_init b =
     require (1 \<le> tb_model_calls b \<and> tb_model_calls b \<le> 10000 \<and> 1 \<le> tb_tokens b \<and> tb_tokens b \<le> 100000000 \<and>
              in_range (tb_cost b) 10000000000 \<and> in_range (tb_tool_calls b) 100000 \<and>
              1 \<le> tb_time_ms b \<and> tb_time_ms b \<le> 3600000) PlanValueError (Inr b)"

definition runtime_budget_dict :: "AgentTaskRuntimeBudget \<Rightarrow> json" where
  "runtime_budget_dict b =
     JObject [(lit ''model_call_limit'', JInt (tb_model_calls b)), (lit ''token_limit'', JInt (tb_tokens b)),
              (lit ''cost_limit_microunits'', JInt (tb_cost b)), (lit ''tool_call_limit'', JInt (tb_tool_calls b)),
              (lit ''time_limit_ms'', JInt (tb_time_ms b))]"

record AgentTaskRuntimePolicy =
  rp_purpose :: AgentTaskPurpose
  rp_model_class :: AgentModelClass
  rp_model_route_id :: pystr
  rp_model_route_sha256 :: pystr
  rp_authority :: AgentTaskAuthority
  rp_budget :: AgentTaskRuntimeBudget

definition AgentTaskRuntimePolicy_post_init :: "AgentTaskRuntimePolicy \<Rightarrow> AgentTaskRuntimePolicy checked" where
  "AgentTaskRuntimePolicy_post_init p =
     bind_result (id_field 256 (rp_model_route_id p)) (\<lambda>route.
     bind_result (plan_sha256 False (rp_model_route_sha256 p)) (\<lambda>digest.
     require (rp_model_class p = ECONOMY \<longrightarrow> rp_purpose p \<in> {EXPLORE, RETRIEVE}) PlanValueError
     (require (rp_purpose p \<in> {VERIFY, JUDGE, AGGREGATE} \<longrightarrow> rp_model_class p = QUALITY) PlanValueError
       (Inr (p\<lparr>rp_model_route_id := route, rp_model_route_sha256 := digest\<rparr>)))))"

definition runtime_policy_dict :: "AgentTaskRuntimePolicy \<Rightarrow> json" where
  "runtime_policy_dict p =
     JObject [(lit ''purpose'', JStr (purpose_value (rp_purpose p))),
              (lit ''model_class'', JStr (case rp_model_class p of ECONOMY \<Rightarrow> lit ''economy'' | QUALITY \<Rightarrow> lit ''quality'')),
              (lit ''model_route_id'', JStr (rp_model_route_id p)),
              (lit ''model_route_sha256'', JStr (rp_model_route_sha256 p)),
              (lit ''authority'', authority_dict (rp_authority p)), (lit ''budget'', runtime_budget_dict (rp_budget p))]"

record AgentTaskInputBinding =
  ib_target_key :: pystr
  ib_source_key :: pystr
  ib_source_task_id :: pystr
  ib_required :: bool

definition AgentTaskInputBinding_post_init :: "AgentTaskInputBinding \<Rightarrow> AgentTaskInputBinding checked" where
  "AgentTaskInputBinding_post_init b =
     bind_result (id_field 128 (ib_target_key b)) (\<lambda>target.
     bind_result (id_field 128 (ib_source_key b)) (\<lambda>source.
     bind_result (optional_id_field 128 (ib_source_task_id b)) (\<lambda>task.
       Inr (b\<lparr>ib_target_key := target, ib_source_key := source, ib_source_task_id := task\<rparr>))))"

definition from_root :: "AgentTaskInputBinding \<Rightarrow> bool" where
  "from_root b \<longleftrightarrow> ib_source_task_id b = []"

definition binding_dict :: "AgentTaskInputBinding \<Rightarrow> json" where
  "binding_dict b =
     JObject [(lit ''target_key'', JStr (ib_target_key b)), (lit ''source_key'', JStr (ib_source_key b)),
              (lit ''source_task_id'', JStr (ib_source_task_id b)), (lit ''required'', JBool (ib_required b))]"

datatype AgentTaskOutputStatus = SUCCESS | WARNING | ERROR

definition output_status_value :: "AgentTaskOutputStatus \<Rightarrow> pystr" where
  "output_status_value st = (case st of SUCCESS \<Rightarrow> lit ''success'' | WARNING \<Rightarrow> lit ''warning'' | ERROR \<Rightarrow> lit ''error'')"

record RuntimeArtifactRef =
  af_artifact_id :: pystr
  af_uri :: pystr
  af_sha256 :: pystr
  af_media_type :: pystr
  af_size_bytes :: int
  af_version :: int
  af_source_run_id :: pystr

record AgentTaskOutput =
  to_status :: AgentTaskOutputStatus
  to_summary :: pystr
  to_next_actions :: "pystr list"
  to_artifacts :: "RuntimeArtifactRef list"
  to_data :: "(pystr, json) dict"
  to_usage :: RuntimeUsage
  to_model_calls :: int
  to_tool_calls :: int

record AgentTaskCompletionCondition =
  accepted_statuses :: "AgentTaskOutputStatus list"
  required_data_keys :: "pystr list"
  minimum_artifacts :: int

definition AgentTaskCompletionCondition_post_init ::
  "AgentTaskCompletionCondition \<Rightarrow> AgentTaskCompletionCondition checked" where
  "AgentTaskCompletionCondition_post_init c =
     (let statuses = sort_key output_status_value (remdups (accepted_statuses c))
      in require (statuses \<noteq> [] \<and> ERROR \<notin> set statuses) PlanValueError
         (bind_result (sorted_texts 128 128 True (required_data_keys c)) (\<lambda>ks.
          require (in_range (minimum_artifacts c) 128) PlanValueError
            (Inr (c\<lparr>accepted_statuses := statuses, required_data_keys := ks\<rparr>)))))"

definition completion_matches :: "AgentTaskCompletionCondition \<Rightarrow> AgentTaskOutput \<Rightarrow> bool" where
  "completion_matches c out \<longleftrightarrow>
     to_status out \<in> set (accepted_statuses c) \<and> set (required_data_keys c) \<subseteq> fst ` set (to_data out) \<and>
     int (length (to_artifacts out)) \<ge> minimum_artifacts c"

definition completion_dict :: "AgentTaskCompletionCondition \<Rightarrow> json" where
  "completion_dict c =
     JObject [(lit ''accepted_statuses'', strs (map output_status_value (accepted_statuses c))),
              (lit ''required_data_keys'', strs (required_data_keys c)),
              (lit ''minimum_artifacts'', JInt (minimum_artifacts c))]"

definition NON_RETRYABLE_ERROR_CODES :: "pystr list" where
  "NON_RETRYABLE_ERROR_CODES =
     map lit [''budget_identity_mismatch'', ''checkpoint_store_failed'', ''child_access_scope_denied'',
       ''child_mcp_scope_denied'', ''child_mcp_server_access_missing'', ''child_model_catalog_mismatch'',
       ''child_model_route_drift'', ''child_model_scope_denied'', ''child_parent_identity_mismatch'',
       ''child_prompt_payload_too_large'', ''child_prompt_runtime_invalid'', ''child_reported_budget_exceeded'',
       ''child_runtime_capability_missing'', ''child_runtime_factory_invalid'', ''child_runtime_not_isolated'',
       ''child_runtime_stop_failed'', ''child_runtime_stop_unconfirmed'', ''child_scope_plan_missing'',
       ''child_skill_dependency_missing'', ''child_skill_permission_missing'', ''child_skill_scope_denied'',
       ''child_skill_tool_missing'', ''child_task_plan_mismatch'', ''child_tool_access_invalid'',
       ''child_tool_plan_missing'', ''child_tool_policy_unavailable'', ''child_tool_scope_denied'',
       ''dependency_not_succeeded'', ''dependency_output_missing'', ''orchestration_budget_exceeded'',
       ''recursive_spawn_denied'', ''runtime_budget_exceeded'', ''review_model_not_independent'',
       ''subagent_budget_denied'', ''task_cancelled'', ''task_cancel_unconfirmed'', ''task_input_missing'',
       ''task_runtime_policy_missing'']"

record AgentTaskRetryPolicy =
  retry_max_attempts :: int
  retryable_error_codes :: "pystr list"
  backoff_ms :: "int list"
  idempotency_key :: pystr

definition AgentTaskRetryPolicy_post_init :: "AgentTaskRetryPolicy \<Rightarrow> AgentTaskRetryPolicy checked" where
  "AgentTaskRetryPolicy_post_init p =
     bind_result (positive_int MAX_TASK_RETRY_ATTEMPTS (retry_max_attempts p)) (\<lambda>attempts.
     bind_result (sorted_texts 32 128 True (retryable_error_codes p)) (\<lambda>codes.
     require (set codes \<inter> set NON_RETRYABLE_ERROR_CODES = {}) PlanValueError
     (require (int (length (backoff_ms p)) = max 0 (attempts - 1) \<and> list_all (\<lambda>v. in_range v 60000) (backoff_ms p))
        PlanValueError
     (let key = py_strip (idempotency_key p)
      in if attempts = 1
         then require (codes = [] \<and> backoff_ms p = [] \<and> key = []) PlanValueError
                (Inr (p\<lparr>retryable_error_codes := codes, idempotency_key := key\<rparr>))
         else require (codes \<noteq> []) PlanValueError
                (bind_result (id_field 200 key) (\<lambda>k.
                   Inr (p\<lparr>retryable_error_codes := codes, idempotency_key := k\<rparr>)))))))"

definition permits :: "AgentTaskRetryPolicy \<Rightarrow> pystr \<Rightarrow> int \<Rightarrow> bool" where
  "permits p error_code attempt_no \<longleftrightarrow>
     attempt_no < retry_max_attempts p \<and> error_code \<in> set (retryable_error_codes p)"

definition retry_delay_seconds :: "AgentTaskRetryPolicy \<Rightarrow> int \<Rightarrow> rat checked" where
  "retry_delay_seconds p attempt_no =
     require (1 \<le> attempt_no \<and> attempt_no < retry_max_attempts p) PlanValueError
       (Inr (of_int (backoff_ms p ! nat (attempt_no - 1)) / 1000))"

definition retry_dict :: "AgentTaskRetryPolicy \<Rightarrow> json" where
  "retry_dict p =
     JObject [(lit ''max_attempts'', JInt (retry_max_attempts p)),
              (lit ''retryable_error_codes'', strs (retryable_error_codes p)),
              (lit ''backoff_ms'', JList (map JInt (backoff_ms p))), (lit ''idempotency_key'', JStr (idempotency_key p))]"

section \<open>Outputs\<close>

definition usage_dict :: "RuntimeUsage \<Rightarrow> json" where
  "usage_dict u =
     JObject [(lit ''input_tokens'', JInt (input_tokens u)), (lit ''output_tokens'', JInt (output_tokens u)),
              (lit ''cached_input_tokens'', JInt (cached_input_tokens u)),
              (lit ''reasoning_tokens'', JInt (reasoning_tokens u)), (lit ''cost_microunits'', JInt (cost_microunits u))]"

definition artifact_dict :: "RuntimeArtifactRef \<Rightarrow> json" where
  "artifact_dict a =
     JObject [(lit ''artifact_id'', JStr (af_artifact_id a)), (lit ''uri'', JStr (af_uri a)),
              (lit ''sha256'', JStr (af_sha256 a)), (lit ''media_type'', JStr (af_media_type a)),
              (lit ''size_bytes'', JInt (af_size_bytes a)), (lit ''version'', JInt (af_version a)),
              (lit ''source_run_id'', JStr (af_source_run_id a))]"

definition output_dict :: "AgentTaskOutput \<Rightarrow> json" where
  "output_dict out =
     JObject [(lit ''status'', JStr (output_status_value (to_status out))), (lit ''summary'', JStr (to_summary out)),
              (lit ''next_actions'', strs (to_next_actions out)),
              (lit ''artifacts'', JList (map artifact_dict (to_artifacts out))), (lit ''data'', JObject (to_data out)),
              (lit ''usage'', usage_dict (to_usage out)), (lit ''model_calls'', JInt (to_model_calls out)),
              (lit ''tool_calls'', JInt (to_tool_calls out))]"

definition AgentTaskOutput_post_init :: "plan_codec \<Rightarrow> AgentTaskOutput \<Rightarrow> AgentTaskOutput checked" where
  "AgentTaskOutput_post_init cd out =
     bind_result (plan_text 2000 (to_summary out)) (\<lambda>summary.
     bind_result (text_tuple 16 500 True (to_next_actions out)) (\<lambda>actions.
     require (length (to_artifacts out) \<le> 128 \<and> distinct (map af_artifact_id (to_artifacts out))) PlanValueError
     (bind_result (freeze_object (to_data out)) (\<lambda>frozen.
     require (RuntimeUsage_valid (to_usage out)) PlanValueError
     (require (in_range (to_model_calls out) 100000) PlanValueError
     (require (in_range (to_tool_calls out) 100000) PlanValueError
     (let out' = out\<lparr>to_summary := summary, to_next_actions := actions, to_data := frozen\<rparr>
      in bind_result (json_size cd (output_dict out')) (\<lambda>n.
           require (n \<le> int MAX_TASK_OUTPUT_BYTES) PlanValueError (Inr out')))))))))"

section \<open>Tasks\<close>

record AgentTaskDefinition =
  ta_task_id :: pystr
  ta_role_id :: pystr
  ta_description :: pystr
  ta_dependencies :: "pystr list"
  ta_input_contract :: JsonObjectContract
  ta_input_bindings :: "AgentTaskInputBinding list"
  ta_output_contract :: JsonObjectContract
  ta_completion :: AgentTaskCompletionCondition
  ta_timeout_ms :: int
  ta_runtime_policy :: "AgentTaskRuntimePolicy option"
  ta_retry_policy :: AgentTaskRetryPolicy

definition binding_sources :: "AgentTaskInputBinding list \<Rightarrow> pystr set" where
  "binding_sources bs = ib_source_task_id ` {b \<in> set bs. ib_source_task_id b \<noteq> []}"

definition AgentTaskDefinition_post_init :: "AgentTaskDefinition \<Rightarrow> AgentTaskDefinition checked" where
  "AgentTaskDefinition_post_init t =
     bind_result (id_field 128 (ta_task_id t)) (\<lambda>i.
     bind_result (id_field 128 (ta_role_id t)) (\<lambda>role.
     bind_result (plan_text 4000 (ta_description t)) (\<lambda>description.
     bind_result (sorted_texts MAX_TASK_COUNT 128 True (ta_dependencies t)) (\<lambda>deps.
     require (i \<notin> set deps) PlanValueError
     (let bindings = sort_key ib_target_key (ta_input_bindings t); targets = map ib_target_key bindings
      in require (distinct targets) PlanValueError
         (require (set targets = allowed_keys (ta_input_contract t)) PlanValueError
         (require (ib_target_key ` {b \<in> set bindings. ib_required b} = set (required_keys (ta_input_contract t)))
            PlanValueError
         (require (binding_sources bindings \<subseteq> set deps) PlanValueError
         (require (set (required_data_keys (ta_completion t)) \<subseteq> allowed_keys (ta_output_contract t)) PlanValueError
         (bind_result (positive_int 3600000 (ta_timeout_ms t)) (\<lambda>timeout.
          require (case ta_runtime_policy t of None \<Rightarrow> True | Some p \<Rightarrow> tb_time_ms (rp_budget p) \<le> timeout) PlanValueError
            (Inr (t\<lparr>ta_task_id := i, ta_role_id := role, ta_description := description, ta_dependencies := deps,
                    ta_input_bindings := bindings, ta_timeout_ms := timeout\<rparr>))))))))))))) "

definition task_dict :: "AgentTaskDefinition \<Rightarrow> json" where
  "task_dict t =
     JObject [(lit ''task_id'', JStr (ta_task_id t)), (lit ''role_id'', JStr (ta_role_id t)),
              (lit ''description'', JStr (ta_description t)), (lit ''dependencies'', strs (ta_dependencies t)),
              (lit ''input_contract'', contract_dict (ta_input_contract t)),
              (lit ''input_bindings'', JList (map binding_dict (ta_input_bindings t))),
              (lit ''output_contract'', contract_dict (ta_output_contract t)),
              (lit ''completion'', completion_dict (ta_completion t)), (lit ''timeout_ms'', JInt (ta_timeout_ms t)),
              (lit ''runtime_policy'', case ta_runtime_policy t of None \<Rightarrow> JNull | Some p \<Rightarrow> runtime_policy_dict p),
              (lit ''retry_policy'', retry_dict (ta_retry_policy t))]"

record AgentOrchestrationBudget =
  max_tasks :: int
  max_concurrency :: int
  max_model_calls :: int
  max_tokens :: int
  max_cost_microunits :: int
  max_elapsed_ms :: int
  max_output_bytes :: int
  max_checkpoints :: int
  max_spawn_depth :: int
  max_tool_calls :: int

definition AgentOrchestrationBudget_post_init :: "AgentOrchestrationBudget \<Rightarrow> AgentOrchestrationBudget checked" where
  "AgentOrchestrationBudget_post_init b =
     require (list_all (\<lambda>(v, m). 1 \<le> v \<and> v \<le> m)
                [(max_tasks b, 64), (max_concurrency b, 8), (max_model_calls b, 100000), (max_tokens b, 100000000),
                 (max_cost_microunits b, 10000000000), (max_elapsed_ms b, 86400000),
                 (max_output_bytes b, MAX_CHECKPOINT_BYTES), (max_checkpoints b, 64)] \<and>
              in_range (max_tool_calls b) 100000) PlanValueError
     (require (max_concurrency b \<le> max_tasks b) PlanValueError
     (require (max_spawn_depth b = 1) PlanValueError (Inr b)))"

definition orchestration_budget_dict :: "AgentOrchestrationBudget \<Rightarrow> json" where
  "orchestration_budget_dict b =
     JObject [(lit ''max_tasks'', JInt (max_tasks b)), (lit ''max_concurrency'', JInt (max_concurrency b)),
              (lit ''max_model_calls'', JInt (max_model_calls b)), (lit ''max_tokens'', JInt (max_tokens b)),
              (lit ''max_cost_microunits'', JInt (max_cost_microunits b)),
              (lit ''max_elapsed_ms'', JInt (max_elapsed_ms b)), (lit ''max_output_bytes'', JInt (max_output_bytes b)),
              (lit ''max_checkpoints'', JInt (max_checkpoints b)), (lit ''max_spawn_depth'', JInt (max_spawn_depth b)),
              (lit ''max_tool_calls'', JInt (max_tool_calls b))]"

section \<open>Barriers\<close>

record AgentTaskBarrier =
  ba_barrier_id :: pystr
  ba_sequence :: int
  ba_task_ids :: "pystr list"
  ba_completed_before :: "pystr list"

definition AgentTaskBarrier_post_init :: "AgentTaskBarrier \<Rightarrow> AgentTaskBarrier checked" where
  "AgentTaskBarrier_post_init b =
     bind_result (id_field 200 (ba_barrier_id b)) (\<lambda>i.
     bind_result (positive_int (int MAX_TASK_COUNT) (ba_sequence b)) (\<lambda>n.
     bind_result (sorted_texts MAX_TASK_COUNT 128 False (ba_task_ids b)) (\<lambda>ids.
     bind_result (sorted_texts MAX_TASK_COUNT 128 True (ba_completed_before b)) (\<lambda>done.
     require (set ids \<inter> set done = {}) PlanValueError
       (Inr \<lparr>ba_barrier_id = i, ba_sequence = n, ba_task_ids = ids, ba_completed_before = done\<rparr>)))))"

definition make_barrier :: "plan_codec \<Rightarrow> nat \<Rightarrow> pystr list \<Rightarrow> pystr list \<Rightarrow> AgentTaskBarrier checked" where
  "make_barrier cd n task_ids completed =
     bind_result (json_digest cd (strs task_ids)) (\<lambda>digest.
       AgentTaskBarrier_post_init
         \<lparr>ba_barrier_id = lit ''barrier-'' @ zero_padded 4 (int n) @ lit ''-'' @ take 16 digest, ba_sequence = int n,
          ba_task_ids = task_ids, ba_completed_before = sort completed\<rparr>)"

text \<open>The tasks of one wave, in slices of at most \<open>max_concurrency\<close>; a step of zero raises.\<close>

function slice_barriers ::
  "plan_codec \<Rightarrow> nat \<Rightarrow> pystr list \<Rightarrow> pystr list \<Rightarrow> AgentTaskBarrier list
     \<Rightarrow> (pystr list \<times> AgentTaskBarrier list) checked" where
  "slice_barriers cd step ready completed barriers =
     (if step = 0 then Inl PlanValueError
      else if ready = [] then Inr (completed, barriers)
      else bind_result (make_barrier cd (length barriers + 1) (take step ready) completed) (\<lambda>b.
             slice_barriers cd step (drop step ready) (completed @ take step ready) (barriers @ [b])))"
  by pat_completeness auto
termination by (relation "measure (\<lambda>(cd, step, ready, completed, barriers). length ready)") auto

declare slice_barriers.simps [simp del]

definition dependencies_of :: "AgentTaskDefinition list \<Rightarrow> pystr \<Rightarrow> pystr list" where
  "dependencies_of tasks i = (case find (\<lambda>t. ta_task_id t = i) tasks of None \<Rightarrow> [] | Some t \<Rightarrow> ta_dependencies t)"

definition ready_tasks :: "AgentTaskDefinition list \<Rightarrow> pystr list \<Rightarrow> pystr list \<Rightarrow> pystr list" where
  "ready_tasks tasks remaining completed =
     sort (filter (\<lambda>i. set (dependencies_of tasks i) \<subseteq> set completed) remaining)"

text \<open>\<open>_validate_acyclic\<close>: remove the tasks that are ready until none is left.\<close>

function validate_acyclic_loop :: "AgentTaskDefinition list \<Rightarrow> pystr list \<Rightarrow> pystr list \<Rightarrow> unit checked" where
  "validate_acyclic_loop tasks remaining completed =
     (if remaining = [] then Inr ()
      else let ready = ready_tasks tasks remaining completed
           in if ready = [] then Inl PlanValueError
              else validate_acyclic_loop tasks (filter (\<lambda>i. i \<notin> set ready) remaining) (completed @ ready))"
  by pat_completeness auto
termination
proof (relation "measure (\<lambda>(tasks, remaining, completed). length remaining)")
  fix tasks and remaining completed :: "pystr list" and ready
  assume "ready = ready_tasks tasks remaining completed" "ready \<noteq> []"
  then obtain i where "i \<in> set ready" "i \<in> set remaining" by (fastforce simp: ready_tasks_def filter_empty_conv)
  then have "length (filter (\<lambda>i. i \<notin> set ready) remaining) < length remaining"
    by (intro length_filter_less) auto
  then show "((tasks, filter (\<lambda>i. i \<notin> set ready) remaining, completed @ ready), tasks, remaining, completed)
      \<in> measure (\<lambda>(tasks, remaining, completed). length remaining)" by simp
qed simp

declare validate_acyclic_loop.simps [simp del]

definition validate_acyclic :: "AgentTaskDefinition list \<Rightarrow> unit checked" where
  "validate_acyclic tasks = validate_acyclic_loop tasks (map ta_task_id tasks) []"

text \<open>
  \<open>execution_barriers\<close> has no check that a wave is not empty: on a cycle it does not return, which
  is the value \<open>None\<close>.
\<close>

partial_function (option) barrier_loop ::
  "plan_codec \<Rightarrow> nat \<Rightarrow> AgentTaskDefinition list \<Rightarrow> pystr list \<Rightarrow> pystr list \<Rightarrow> AgentTaskBarrier list
     \<Rightarrow> AgentTaskBarrier list checked option" where
  "barrier_loop cd step tasks remaining completed barriers =
     (if remaining = [] then Some (Inr barriers)
      else let ready = ready_tasks tasks remaining completed
           in case slice_barriers cd step ready completed barriers of
                Inl e \<Rightarrow> Some (Inl e)
              | Inr (completed', barriers') \<Rightarrow>
                  barrier_loop cd step tasks (filter (\<lambda>i. i \<notin> set ready) remaining) completed' barriers')"

section \<open>Plans\<close>

record AgentOrchestrationPlan =
  pl_plan_id :: pystr
  pl_revision :: int
  pl_roles :: "AgentRoleDefinition list"
  pl_tasks :: "AgentTaskDefinition list"
  pl_root_input_contract :: JsonObjectContract
  pl_aggregation_task_id :: pystr
  pl_budget :: AgentOrchestrationBudget
  pl_content_sha256 :: pystr

definition execution_barriers ::
  "plan_codec \<Rightarrow> AgentOrchestrationPlan \<Rightarrow> AgentTaskBarrier list checked option" where
  "execution_barriers cd p =
     barrier_loop cd (nat (max_concurrency (pl_budget p))) (pl_tasks p) (map ta_task_id (pl_tasks p)) [] []"

definition plan_dict :: "AgentOrchestrationPlan \<Rightarrow> json" where
  "plan_dict p =
     JObject [(lit ''schema_version'', JInt 3), (lit ''plan_id'', JStr (pl_plan_id p)),
              (lit ''revision'', JInt (pl_revision p)), (lit ''roles'', JList (map role_dict (pl_roles p))),
              (lit ''tasks'', JList (map task_dict (pl_tasks p))),
              (lit ''root_input_contract'', contract_dict (pl_root_input_contract p)),
              (lit ''aggregation_task_id'', JStr (pl_aggregation_task_id p)),
              (lit ''budget'', orchestration_budget_dict (pl_budget p)),
              (lit ''communication_mode'', JStr (lit ''coordinator_mediated''))]"

definition find_role :: "AgentRoleDefinition list \<Rightarrow> pystr \<Rightarrow> AgentRoleDefinition option" where
  "find_role roles i = find (\<lambda>r. ro_id r = i) roles"

definition find_task :: "AgentTaskDefinition list \<Rightarrow> pystr \<Rightarrow> AgentTaskDefinition option" where
  "find_task tasks i = find (\<lambda>t. ta_task_id t = i) tasks"

definition roles_valid :: "AgentRoleDefinition list \<Rightarrow> bool" where
  "roles_valid roles \<longleftrightarrow>
     roles \<noteq> [] \<and> length roles \<le> MAX_ROLE_COUNT \<and> distinct (map ro_id roles) \<and>
     length (filter (\<lambda>r. ro_kind r = COORDINATOR) roles) = 1"

definition task_valid ::
  "AgentRoleDefinition list \<Rightarrow> pystr list \<Rightarrow> JsonObjectContract \<Rightarrow> AgentTaskDefinition \<Rightarrow> bool" where
  "task_valid roles ids contract t \<longleftrightarrow>
     (case find_role roles (ta_role_id t) of None \<Rightarrow> False | Some r \<Rightarrow> ro_kind r \<noteq> COORDINATOR) \<and>
     set (ta_dependencies t) \<subseteq> set ids \<and>
     list_all (\<lambda>b. from_root b \<longrightarrow> ib_source_key b \<in> allowed_keys contract) (ta_input_bindings t)"

definition aggregation_valid ::
  "AgentRoleDefinition list \<Rightarrow> AgentTaskDefinition list \<Rightarrow> pystr \<Rightarrow> bool" where
  "aggregation_valid roles tasks i \<longleftrightarrow>
     (case find_task tasks i of
        None \<Rightarrow> False
      | Some t \<Rightarrow>
          (case find_role roles (ta_role_id t) of None \<Rightarrow> False | Some r \<Rightarrow> ro_kind r = AGGREGATOR) \<and>
          set (ta_dependencies t) = set (map ta_task_id tasks) - {i} \<and>
          binding_sources (ta_input_bindings t) = set (map ta_task_id tasks) - {i} \<and>
          list_all (\<lambda>u. i \<notin> set (ta_dependencies u)) tasks)"

definition runtime_total :: "(AgentTaskRuntimeBudget \<Rightarrow> int) \<Rightarrow> AgentTaskDefinition list \<Rightarrow> int" where
  "runtime_total f tasks =
     (\<Sum>t \<leftarrow> tasks. case ta_runtime_policy t of None \<Rightarrow> 0
        | Some p \<Rightarrow> f (rp_budget p) * retry_max_attempts (ta_retry_policy t))"

definition task_route :: "AgentTaskDefinition list \<Rightarrow> pystr \<Rightarrow> pystr option" where
  "task_route tasks i =
     Option.bind (find_task tasks i) (\<lambda>t. map_option rp_model_route_id (ta_runtime_policy t))"

definition purpose_valid ::
  "AgentRoleDefinition list \<Rightarrow> AgentTaskDefinition list \<Rightarrow> AgentTaskDefinition \<Rightarrow> bool" where
  "purpose_valid roles tasks t \<longleftrightarrow>
     (case (ta_runtime_policy t, find_role roles (ta_role_id t)) of
        (Some p, Some r) \<Rightarrow>
          (ro_kind r = WORKER \<longrightarrow> rp_purpose p \<in> {EXPLORE, RETRIEVE, EXECUTE}) \<and>
          (ro_kind r = REVIEWER \<longrightarrow>
             rp_purpose p \<in> {VERIFY, JUDGE} \<and> ta_dependencies t \<noteq> [] \<and>
             Some (rp_model_route_id p) \<notin> task_route tasks ` set (ta_dependencies t)) \<and>
          (ro_kind r = AGGREGATOR \<longrightarrow> rp_purpose p = AGGREGATE)
      | _ \<Rightarrow> False)"

definition runtime_valid ::
  "AgentRoleDefinition list \<Rightarrow> AgentTaskDefinition list \<Rightarrow> AgentOrchestrationBudget \<Rightarrow> bool" where
  "runtime_valid roles tasks b \<longleftrightarrow>
     (let runtime = filter (\<lambda>t. ta_runtime_policy t \<noteq> None) tasks
      in runtime = [] \<or>
         length runtime = length tasks \<and>
         runtime_total tb_model_calls runtime \<le> max_model_calls b \<and> runtime_total tb_tokens runtime \<le> max_tokens b \<and>
         runtime_total tb_cost runtime \<le> max_cost_microunits b \<and>
         runtime_total tb_tool_calls runtime \<le> max_tool_calls b \<and>
         list_all (purpose_valid roles tasks) runtime)"

definition maximum_attempts :: "AgentOrchestrationPlan \<Rightarrow> int" where
  "maximum_attempts p = (\<Sum>t \<leftarrow> pl_tasks p. retry_max_attempts (ta_retry_policy t))"

definition plan_fields :: "AgentOrchestrationPlan \<Rightarrow> AgentOrchestrationPlan checked" where
  "plan_fields p =
     (let roles = sort_key ro_id (pl_roles p); tasks = sort_key ta_task_id (pl_tasks p); ids = map ta_task_id tasks
      in bind_result (id_field 160 (pl_plan_id p)) (\<lambda>i.
         bind_result (positive_int 1000000 (pl_revision p)) (\<lambda>n.
         require (roles_valid roles) PlanValueError
         (require (tasks \<noteq> [] \<and> int (length tasks) \<le> max_tasks (pl_budget p) \<and> distinct ids) PlanValueError
         (require (list_all (task_valid roles ids (pl_root_input_contract p)) tasks) PlanValueError
         (bind_result (id_field 128 (pl_aggregation_task_id p)) (\<lambda>agg.
          require (aggregation_valid roles tasks agg) PlanValueError
          (require (runtime_valid roles tasks (pl_budget p)) PlanValueError
          (bind_result (validate_acyclic tasks) (\<lambda>_.
             Inr (p\<lparr>pl_plan_id := i, pl_revision := n, pl_roles := roles, pl_tasks := tasks,
                    pl_aggregation_task_id := agg\<rparr>)))))))))))"

text \<open>The constructor of a plan; \<open>None\<close> would be a constructor that does not return.\<close>

definition AgentOrchestrationPlan_post_init ::
  "plan_codec \<Rightarrow> AgentOrchestrationPlan \<Rightarrow> AgentOrchestrationPlan checked option" where
  "AgentOrchestrationPlan_post_init cd p =
     (case plan_fields p of
        Inl e \<Rightarrow> Some (Inl e)
      | Inr q \<Rightarrow>
          (case execution_barriers cd q of
             None \<Rightarrow> None
           | Some (Inl e) \<Rightarrow> Some (Inl e)
           | Some (Inr barriers) \<Rightarrow>
               Some (require (int (length barriers) \<le> max_checkpoints (pl_budget q)) PlanValueError
                 (bind_result (declared_digest cd (plan_dict q) (pl_content_sha256 p)) (\<lambda>digest.
                    Inr (q\<lparr>pl_content_sha256 := digest\<rparr>))))))"

section \<open>Approval and request\<close>

record AgentOrchestrationApproval =
  ap_approval_id :: pystr
  ap_plan_id :: pystr
  ap_plan_revision :: int
  ap_plan_sha256 :: pystr
  ap_approved_by :: pystr
  ap_approved_at :: datetime

definition AgentOrchestrationApproval_post_init ::
  "AgentOrchestrationApproval \<Rightarrow> AgentOrchestrationApproval checked" where
  "AgentOrchestrationApproval_post_init a =
     bind_result (id_field 160 (ap_approval_id a)) (\<lambda>i.
     bind_result (id_field 160 (ap_plan_id a)) (\<lambda>plan.
     bind_result (positive_int 1000000 (ap_plan_revision a)) (\<lambda>n.
     bind_result (plan_sha256 False (ap_plan_sha256 a)) (\<lambda>digest.
     bind_result (id_field 160 (ap_approved_by a)) (\<lambda>by_whom.
       Inr (a\<lparr>ap_approval_id := i, ap_plan_id := plan, ap_plan_revision := n, ap_plan_sha256 := digest,
              ap_approved_by := by_whom\<rparr>))))))"

definition approval_validates :: "AgentOrchestrationApproval \<Rightarrow> AgentOrchestrationPlan \<Rightarrow> bool" where
  "approval_validates a p \<longleftrightarrow>
     ap_plan_id a = pl_plan_id p \<and> ap_plan_revision a = pl_revision p \<and> ap_plan_sha256 a = pl_content_sha256 p"

record AgentOrchestrationFreeze =
  fz_freeze_id :: pystr
  fz_approval_id :: pystr
  fz_plan_id :: pystr
  fz_plan_revision :: int
  fz_plan_sha256 :: pystr
  fz_frozen_by :: pystr
  fz_frozen_at :: datetime

definition AgentOrchestrationFreeze_post_init :: "AgentOrchestrationFreeze \<Rightarrow> AgentOrchestrationFreeze checked" where
  "AgentOrchestrationFreeze_post_init f =
     bind_result (id_field 160 (fz_freeze_id f)) (\<lambda>i.
     bind_result (id_field 160 (fz_approval_id f)) (\<lambda>approval.
     bind_result (id_field 160 (fz_plan_id f)) (\<lambda>plan.
     bind_result (positive_int 1000000 (fz_plan_revision f)) (\<lambda>n.
     bind_result (plan_sha256 False (fz_plan_sha256 f)) (\<lambda>digest.
     bind_result (id_field 160 (fz_frozen_by f)) (\<lambda>by_whom.
       Inr (f\<lparr>fz_freeze_id := i, fz_approval_id := approval, fz_plan_id := plan, fz_plan_revision := n,
              fz_plan_sha256 := digest, fz_frozen_by := by_whom\<rparr>)))))))"

definition freeze_validates ::
  "AgentOrchestrationFreeze \<Rightarrow> AgentOrchestrationPlan \<Rightarrow> AgentOrchestrationApproval \<Rightarrow> bool" where
  "freeze_validates f p a \<longleftrightarrow>
     approval_validates a p \<and> fz_approval_id f = ap_approval_id a \<and> fz_plan_id f = pl_plan_id p \<and>
     fz_plan_revision f = pl_revision p \<and> fz_plan_sha256 f = pl_content_sha256 p \<and>
     fz_frozen_at f \<ge> ap_approved_at a"

record AgentOrchestrationRequest =
  rq_orchestration_id :: pystr
  rq_identity :: RuntimeRunIdentity
  rq_plan :: AgentOrchestrationPlan
  rq_approval :: AgentOrchestrationApproval
  rq_freeze :: AgentOrchestrationFreeze
  rq_root_input :: "(pystr, json) dict"
  rq_nesting_depth :: int

definition AgentOrchestrationRequest_post_init ::
  "plan_codec \<Rightarrow> AgentOrchestrationRequest \<Rightarrow> AgentOrchestrationRequest checked" where
  "AgentOrchestrationRequest_post_init cd r =
     bind_result (id_field 160 (rq_orchestration_id r)) (\<lambda>i.
     require (approval_validates (rq_approval r) (rq_plan r)) PlanValueError
     (require (freeze_validates (rq_freeze r) (rq_plan r) (rq_approval r)) PlanValueError
     (bind_result (validate_object cd (pl_root_input_contract (rq_plan r)) (rq_root_input r)) (\<lambda>input.
      require (rq_nesting_depth r \<ge> 0) PlanValueError
        (Inr (r\<lparr>rq_orchestration_id := i, rq_root_input := input\<rparr>))))))"

end
