(* ===== verification/Agent_Records.thy ===== *)
theory Agent_Records
  imports Agent_Plan
begin

text \<open>
  What a multi-agent run leaves behind (\<open>core/agent_orchestration/contracts.py\<close>): the receipt of an
  attempt, the usage so far, the checkpoint of a barrier and the result, with the checks of their
  constructors; and the checkpoint store in memory (\<open>checkpoint_store.py\<close>).

  As for plans, every constructor raises \<open>ValueError\<close>; time stamps carry a time zone by typing.
\<close>

section \<open>Receipts\<close>

datatype AgentTaskState = PENDING | RUNNING | SUCCEEDED | FAILED | BLOCKED | CANCELLED | TIMED_OUT

definition task_terminal :: "AgentTaskState \<Rightarrow> bool" where
  "task_terminal st \<longleftrightarrow> st \<notin> {PENDING, RUNNING}"

definition task_state_value :: "AgentTaskState \<Rightarrow> pystr" where
  "task_state_value st =
     (case st of PENDING \<Rightarrow> lit ''pending'' | RUNNING \<Rightarrow> lit ''running'' | SUCCEEDED \<Rightarrow> lit ''succeeded''
      | FAILED \<Rightarrow> lit ''failed'' | BLOCKED \<Rightarrow> lit ''blocked'' | CANCELLED \<Rightarrow> lit ''cancelled''
      | TIMED_OUT \<Rightarrow> lit ''timed_out'')"

record AgentTaskExecutionReceipt =
  rt_task_id :: pystr
  rt_role_id :: pystr
  rt_state :: AgentTaskState
  rt_attempt_no :: int
  rt_dependency_ids :: "pystr list"
  rt_output_sha256 :: pystr
  rt_output_size_bytes :: int
  rt_error_code :: pystr
  rt_started_at :: datetime
  rt_finished_at :: datetime
  rt_duration_ms :: int
  rt_reservation_id :: pystr
  rt_receipt_sha256 :: pystr

definition receipt_fields :: "AgentTaskExecutionReceipt \<Rightarrow> (pystr \<times> json) list" where
  "receipt_fields r =
     [(lit ''task_id'', JStr (rt_task_id r)), (lit ''role_id'', JStr (rt_role_id r)),
      (lit ''state'', JStr (task_state_value (rt_state r))), (lit ''attempt_no'', JInt (rt_attempt_no r)),
      (lit ''dependency_ids'', strs (rt_dependency_ids r)), (lit ''output_sha256'', JStr (rt_output_sha256 r)),
      (lit ''output_size_bytes'', JInt (rt_output_size_bytes r)), (lit ''error_code'', JStr (rt_error_code r)),
      (lit ''started_at'', JStr (isoformat (rt_started_at r))), (lit ''finished_at'', JStr (isoformat (rt_finished_at r))),
      (lit ''duration_ms'', JInt (rt_duration_ms r)), (lit ''reservation_id'', JStr (rt_reservation_id r))]"

definition receipt_dict :: "AgentTaskExecutionReceipt \<Rightarrow> json" where
  "receipt_dict r = JObject (receipt_fields r @ [(lit ''receipt_sha256'', JStr (rt_receipt_sha256 r))])"

definition AgentTaskExecutionReceipt_post_init ::
  "plan_codec \<Rightarrow> AgentTaskExecutionReceipt \<Rightarrow> AgentTaskExecutionReceipt checked" where
  "AgentTaskExecutionReceipt_post_init cd r =
     bind_result (id_field 128 (rt_task_id r)) (\<lambda>task.
     bind_result (id_field 128 (rt_role_id r)) (\<lambda>role.
     require (task_terminal (rt_state r)) PlanValueError
     (bind_result (positive_int MAX_TASK_RETRY_ATTEMPTS (rt_attempt_no r)) (\<lambda>attempt.
     bind_result (sorted_texts MAX_TASK_COUNT 128 True (rt_dependency_ids r)) (\<lambda>deps.
     bind_result (plan_sha256 True (rt_output_sha256 r)) (\<lambda>sha.
     require (0 \<le> rt_output_size_bytes r) PlanValueError
     (bind_result (optional_id_field 128 (rt_error_code r)) (\<lambda>code.
     require (\<not> (rt_state r = SUCCEEDED \<and> (sha = [] \<or> code \<noteq> []))) PlanValueError
     (require (\<not> (rt_state r \<noteq> SUCCEEDED \<and> code = [])) PlanValueError
     (require (rt_started_at r \<le> rt_finished_at r) PlanValueError
     (require (0 \<le> rt_duration_ms r) PlanValueError
     (bind_result (optional_id_field 200 (rt_reservation_id r)) (\<lambda>reservation.
      let r' = r\<lparr>rt_task_id := task, rt_role_id := role, rt_attempt_no := attempt, rt_dependency_ids := deps,
                 rt_output_sha256 := sha, rt_error_code := code, rt_reservation_id := reservation\<rparr>
      in bind_result (declared_digest cd (JObject (receipt_fields r')) (rt_receipt_sha256 r)) (\<lambda>digest.
           Inr (r'\<lparr>rt_receipt_sha256 := digest\<rparr>)))))))))))))))"

section \<open>Usage\<close>

record AgentOrchestrationUsage =
  ou_usage :: RuntimeUsage
  ou_model_calls :: int
  ou_tool_calls :: int
  ou_task_attempts :: int
  ou_output_bytes :: int

definition AgentOrchestrationUsage_post_init :: "AgentOrchestrationUsage \<Rightarrow> AgentOrchestrationUsage checked" where
  "AgentOrchestrationUsage_post_init u =
     require (in_range (ou_model_calls u) 32000000 \<and> in_range (ou_tool_calls u) 32000000 \<and>
              in_range (ou_task_attempts u) 320 \<and> in_range (ou_output_bytes u) 167772160) PlanValueError (Inr u)"

definition orchestration_usage_dict :: "AgentOrchestrationUsage \<Rightarrow> json" where
  "orchestration_usage_dict u =
     JObject [(lit ''usage'', usage_dict (ou_usage u)), (lit ''model_calls'', JInt (ou_model_calls u)),
              (lit ''tool_calls'', JInt (ou_tool_calls u)), (lit ''task_attempts'', JInt (ou_task_attempts u)),
              (lit ''output_bytes'', JInt (ou_output_bytes u))]"

record UsageTotals =
  ut_input_tokens :: int
  ut_output_tokens :: int
  ut_cached_input_tokens :: int
  ut_reasoning_tokens :: int
  ut_model_calls :: int
  ut_tool_calls :: int
  ut_cost_microunits :: int
  ut_task_attempts :: int
  ut_output_bytes :: int

definition no_usage :: UsageTotals where
  "no_usage =
     \<lparr>ut_input_tokens = 0, ut_output_tokens = 0, ut_cached_input_tokens = 0, ut_reasoning_tokens = 0,
      ut_model_calls = 0, ut_tool_calls = 0, ut_cost_microunits = 0, ut_task_attempts = 0, ut_output_bytes = 0\<rparr>"

definition ut_tokens :: "UsageTotals \<Rightarrow> int" where
  "ut_tokens u = ut_input_tokens u + ut_output_tokens u"

definition usage_snapshot :: "UsageTotals \<Rightarrow> AgentOrchestrationUsage checked" where
  "usage_snapshot u =
     (let usage = \<lparr>input_tokens = ut_input_tokens u, output_tokens = ut_output_tokens u,
                   cached_input_tokens = ut_cached_input_tokens u, reasoning_tokens = ut_reasoning_tokens u,
                   cost_microunits = ut_cost_microunits u\<rparr>
      in require (RuntimeUsage_valid usage) PlanValueError
         (AgentOrchestrationUsage_post_init
            \<lparr>ou_usage = usage, ou_model_calls = ut_model_calls u, ou_tool_calls = ut_tool_calls u,
             ou_task_attempts = ut_task_attempts u, ou_output_bytes = ut_output_bytes u\<rparr>))"

section \<open>Checkpoints\<close>

record AgentOrchestrationCheckpoint =
  ck_checkpoint_id :: pystr
  ck_orchestration_id :: pystr
  ck_identity :: RuntimeRunIdentity
  ck_plan_id :: pystr
  ck_plan_revision :: int
  ck_plan_sha256 :: pystr
  ck_freeze_id :: pystr
  ck_sequence :: int
  ck_parent_checkpoint_id :: pystr
  ck_barrier_id :: pystr
  ck_task_states :: "(pystr, AgentTaskState) dict"
  ck_outputs :: "(pystr, AgentTaskOutput) dict"
  ck_receipts :: "AgentTaskExecutionReceipt list"
  ck_cumulative_usage :: AgentOrchestrationUsage
  ck_created_at :: datetime
  ck_state_sha256 :: pystr

definition canonical_id :: "RuntimePrincipal \<Rightarrow> pystr" where
  "canonical_id p = pr_platform p @ 58 # pr_owner_type p @ 58 # pr_owner_id p"

definition identity_dict :: "RuntimeRunIdentity \<Rightarrow> json" where
  "identity_dict i =
     JObject [(lit ''run_id'', JStr (ri_run_id i)), (lit ''turn_id'', JStr (ri_turn_id i)),
              (lit ''correlation_id'', JStr (ri_correlation_id i)),
              (lit ''actor'', JObject [(lit ''actor_type'', JStr (ac_type (ri_actor i))),
                 (lit ''actor_id'', JStr (ac_id (ri_actor i))),
                 (lit ''parent_actor_id'', JStr (ac_parent_id (ri_actor i)))]),
              (lit ''owner'', JObject [(lit ''platform'', JStr (pr_platform (ri_owner i))),
                 (lit ''owner_type'', JStr (pr_owner_type (ri_owner i))),
                 (lit ''owner_id'', JStr (pr_owner_id (ri_owner i)))])]"

definition checkpoint_fields :: "AgentOrchestrationCheckpoint \<Rightarrow> (pystr \<times> json) list" where
  "checkpoint_fields c =
     [(lit ''schema_version'', JInt 3), (lit ''checkpoint_id'', JStr (ck_checkpoint_id c)),
      (lit ''orchestration_id'', JStr (ck_orchestration_id c)), (lit ''run_id'', JStr (ri_run_id (ck_identity c))),
      (lit ''owner'', JStr (canonical_id (ri_owner (ck_identity c)))), (lit ''identity'', identity_dict (ck_identity c)),
      (lit ''plan_id'', JStr (ck_plan_id c)), (lit ''plan_revision'', JInt (ck_plan_revision c)),
      (lit ''plan_sha256'', JStr (ck_plan_sha256 c)), (lit ''freeze_id'', JStr (ck_freeze_id c)),
      (lit ''sequence'', JInt (ck_sequence c)), (lit ''parent_checkpoint_id'', JStr (ck_parent_checkpoint_id c)),
      (lit ''barrier_id'', JStr (ck_barrier_id c)),
      (lit ''task_states'', JObject (map (\<lambda>(i, st). (i, JStr (task_state_value st))) (ck_task_states c))),
      (lit ''outputs'', JObject (map (\<lambda>(i, out). (i, output_dict out)) (ck_outputs c))),
      (lit ''receipts'', JList (map receipt_dict (ck_receipts c))),
      (lit ''cumulative_usage'', orchestration_usage_dict (ck_cumulative_usage c)),
      (lit ''created_at'', JStr (isoformat (ck_created_at c)))]"

definition checkpoint_size :: "plan_codec \<Rightarrow> AgentOrchestrationCheckpoint \<Rightarrow> int checked" where
  "checkpoint_size cd c =
     json_size cd (JObject (checkpoint_fields c @ [(lit ''state_sha256'', JStr (ck_state_sha256 c))]))"

definition attempts_of :: "pystr \<Rightarrow> AgentTaskExecutionReceipt list \<Rightarrow> AgentTaskExecutionReceipt list" where
  "attempts_of i receipts = filter (\<lambda>r. rt_task_id r = i) receipts"

text \<open>The receipts of a task: consecutive attempts, only the last one successful, agreeing with state and output.\<close>

definition attempts_valid ::
  "plan_codec \<Rightarrow> (pystr, AgentTaskState) dict \<Rightarrow> (pystr, AgentTaskOutput) dict \<Rightarrow> AgentTaskExecutionReceipt list \<Rightarrow> pystr
     \<Rightarrow> bool" where
  "attempts_valid cd states outputs receipts i \<longleftrightarrow>
     (let attempts = attempts_of i receipts
      in map rt_attempt_no attempts = map int [1..<Suc (length attempts)] \<and>
         \<not> list_ex (\<lambda>r. rt_state r = SUCCEEDED) (butlast attempts) \<and>
         dict_get states i = Some (rt_state (last attempts)) \<and>
         (case dict_get outputs i of
            None \<Rightarrow> False
          | Some out \<Rightarrow> json_digest cd (output_dict out) = Inr (rt_output_sha256 (last attempts)) \<and>
                        json_size cd (output_dict out) = Inr (rt_output_size_bytes (last attempts))))"

definition named_states :: "(pystr, AgentTaskState) dict \<Rightarrow> (pystr, AgentTaskState) dict checked" where
  "named_states states =
     bind_result (map_result (\<lambda>kv. bind_result (id_field 128 (fst kv)) (\<lambda>k. Inr (k, snd kv))) states) (\<lambda>items.
       Inr (foldl (\<lambda>d kv. dict_set (fst kv) (snd kv) d) [] items))"

definition AgentOrchestrationCheckpoint_post_init ::
  "plan_codec \<Rightarrow> AgentOrchestrationCheckpoint \<Rightarrow> AgentOrchestrationCheckpoint checked" where
  "AgentOrchestrationCheckpoint_post_init cd c =
     bind_result (id_field 200 (ck_checkpoint_id c)) (\<lambda>i.
     bind_result (id_field 160 (ck_orchestration_id c)) (\<lambda>orchestration.
     bind_result (id_field 160 (ck_plan_id c)) (\<lambda>plan.
     bind_result (positive_int 1000000 (ck_plan_revision c)) (\<lambda>revision.
     bind_result (plan_sha256 False (ck_plan_sha256 c)) (\<lambda>plan_digest.
     bind_result (id_field 160 (ck_freeze_id c)) (\<lambda>fz.
     bind_result (positive_int (int MAX_TASK_COUNT) (ck_sequence c)) (\<lambda>sequence.
     bind_result (optional_id_field 200 (ck_parent_checkpoint_id c)) (\<lambda>parent.
     require ((sequence = 1) = (parent = [])) PlanValueError
     (bind_result (id_field 200 (ck_barrier_id c)) (\<lambda>barrier.
     bind_result (named_states (ck_task_states c)) (\<lambda>states.
     require (RUNNING \<notin> snd ` set states) PlanValueError
     (let outputs = sort_key fst (ck_outputs c); receipts = ck_receipts c; sorted_states = sort_key fst states;
          terminal_ids = fst ` {kv \<in> set states. task_terminal (snd kv)}
      in require (fst ` set outputs \<subseteq> fst ` set states) PlanValueError
         (require (receipts \<noteq> []) PlanValueError
         (require (distinct (map (\<lambda>r. (rt_task_id r, rt_attempt_no r)) receipts)) PlanValueError
         (require (rt_task_id ` set receipts = terminal_ids \<and> fst ` set outputs = terminal_ids) PlanValueError
         (require (list_all (attempts_valid cd states outputs receipts) (map rt_task_id receipts)) PlanValueError
         (require (ou_task_attempts (ck_cumulative_usage c) = int (length receipts)) PlanValueError
         (let c' = c\<lparr>ck_checkpoint_id := i, ck_orchestration_id := orchestration, ck_plan_id := plan,
                    ck_plan_revision := revision, ck_plan_sha256 := plan_digest, ck_freeze_id := fz,
                    ck_sequence := sequence, ck_parent_checkpoint_id := parent, ck_barrier_id := barrier,
                    ck_task_states := sorted_states, ck_outputs := outputs\<rparr>
          in bind_result (declared_digest cd (JObject (checkpoint_fields c')) (ck_state_sha256 c)) (\<lambda>digest.
             let c2 = c'\<lparr>ck_state_sha256 := digest\<rparr>
             in bind_result (checkpoint_size cd c2) (\<lambda>n.
                  require (n \<le> MAX_CHECKPOINT_BYTES) PlanValueError (Inr c2)))))))))))))))))))))"

definition receipt_sha256s :: "AgentOrchestrationCheckpoint \<Rightarrow> pystr list" where
  "receipt_sha256s c = map rt_receipt_sha256 (ck_receipts c)"

section \<open>Results\<close>

datatype AgentOrchestrationState = ORCH_READY | ORCH_RUNNING | ORCH_SUCCEEDED | ORCH_FAILED | ORCH_CANCELLED

definition orchestration_terminal :: "AgentOrchestrationState \<Rightarrow> bool" where
  "orchestration_terminal st \<longleftrightarrow> st \<in> {ORCH_SUCCEEDED, ORCH_FAILED, ORCH_CANCELLED}"

record AgentOrchestrationResult =
  re_orchestration_id :: pystr
  re_state :: AgentOrchestrationState
  re_plan_sha256 :: pystr
  re_receipts :: "AgentTaskExecutionReceipt list"
  re_outputs :: "(pystr, AgentTaskOutput) dict"
  re_aggregate_output :: "AgentTaskOutput option"
  re_latest_checkpoint_id :: pystr
  re_failure_code :: pystr

definition AgentOrchestrationResult_post_init :: "AgentOrchestrationResult \<Rightarrow> AgentOrchestrationResult checked" where
  "AgentOrchestrationResult_post_init r =
     bind_result (id_field 160 (re_orchestration_id r)) (\<lambda>i.
     require (orchestration_terminal (re_state r)) PlanValueError
     (bind_result (plan_sha256 False (re_plan_sha256 r)) (\<lambda>digest.
     require (distinct (map (\<lambda>x. (rt_task_id x, rt_attempt_no x)) (re_receipts r))) PlanValueError
     (bind_result (optional_id_field 200 (re_latest_checkpoint_id r)) (\<lambda>latest.
     bind_result (optional_id_field 128 (re_failure_code r)) (\<lambda>code.
     require (if re_state r = ORCH_SUCCEEDED then code = [] \<and> re_aggregate_output r \<noteq> None else code \<noteq> [])
       PlanValueError
       (Inr (r\<lparr>re_orchestration_id := i, re_plan_sha256 := digest, re_outputs := sort_key fst (re_outputs r),
              re_latest_checkpoint_id := latest, re_failure_code := code\<rparr>))))))))"

section \<open>The store in memory\<close>

datatype store_error = StoreValueError | StoreFull | StoreKeyError | StoreOwnerConflict

record checkpoint_store =
  cs_max_records :: nat
  cs_records :: "(pystr, AgentOrchestrationCheckpoint) dict"
  cs_order :: "(pystr, pystr list) dict"

definition new_checkpoint_store :: "int \<Rightarrow> store_error + checkpoint_store" where
  "new_checkpoint_store n =
     require (1 \<le> n \<and> n \<le> 100000) StoreValueError (Inr \<lparr>cs_max_records = nat n, cs_records = [], cs_order = []\<rparr>)"

definition continues :: "AgentOrchestrationCheckpoint \<Rightarrow> AgentOrchestrationCheckpoint \<Rightarrow> bool" where
  "continues c previous \<longleftrightarrow>
     ri_owner (ck_identity c) = ri_owner (ck_identity previous) \<and> ck_plan_sha256 c = ck_plan_sha256 previous \<and>
     ck_plan_id c = ck_plan_id previous \<and> ck_plan_revision c = ck_plan_revision previous \<and>
     ck_freeze_id c = ck_freeze_id previous \<and> ck_sequence c = ck_sequence previous + 1 \<and>
     ck_parent_checkpoint_id c = ck_checkpoint_id previous"

text \<open>The list of an orchestration is created before the checkpoint is checked against it.\<close>

definition store_save ::
  "AgentOrchestrationCheckpoint \<Rightarrow> checkpoint_store \<Rightarrow> (store_error + AgentOrchestrationCheckpoint) \<times> checkpoint_store" where
  "store_save c s =
     (case dict_get (cs_records s) (ck_checkpoint_id c) of
        Some existing \<Rightarrow> (if existing = c then Inr existing else Inl StoreValueError, s)
      | None \<Rightarrow>
          if length (cs_records s) \<ge> cs_max_records s then (Inl StoreFull, s)
          else
            let i = ck_orchestration_id c; ordered = dict_get_default (cs_order s) i [];
                s1 = s\<lparr>cs_order := dict_set i ordered (cs_order s)\<rparr>;
                accepted = (if ordered = []
                            then require (ck_sequence c = 1 \<and> ck_parent_checkpoint_id c = []) StoreValueError (Inr ())
                            else case dict_get (cs_records s) (last ordered) of
                                   None \<Rightarrow> Inl StoreKeyError
                                 | Some previous \<Rightarrow> require (continues c previous) StoreValueError (Inr ()))
            in case accepted of
                 Inl e \<Rightarrow> (Inl e, s1)
               | Inr _ \<Rightarrow>
                   (Inr c, s1\<lparr>cs_records := dict_set (ck_checkpoint_id c) c (cs_records s),
                              cs_order := dict_set i (ordered @ [ck_checkpoint_id c]) (cs_order s)\<rparr>))"

definition load_latest ::
  "pystr \<Rightarrow> pystr \<Rightarrow> checkpoint_store \<Rightarrow> store_error + AgentOrchestrationCheckpoint option" where
  "load_latest orchestration_id owner_id s =
     (let i = py_strip orchestration_id; owner = py_strip owner_id
      in require (i \<noteq> [] \<and> owner \<noteq> []) StoreValueError
         (case dict_get_default (cs_order s) i [] of
            [] \<Rightarrow> Inr None
          | ids \<Rightarrow>
              (case dict_get (cs_records s) (last ids) of
                 None \<Rightarrow> Inl StoreKeyError
               | Some c \<Rightarrow> require (canonical_id (ri_owner (ck_identity c)) = owner) StoreOwnerConflict (Inr (Some c)))))"

end
