(* ===== verification/Agent_Scheduler.thy ===== *)
theory Agent_Scheduler
  imports Agent_Records
begin

text \<open>
  The scheduler of multi-agent plans (\<open>core/agent_orchestration/scheduler.py\<close>). It runs the barriers
  of a frozen plan one after the other; the tasks of a barrier run concurrently, each with retries,
  and draw on one budget account; after every barrier a checkpoint is saved.

  The coroutines of a barrier give up control only at the executor and while they wait before a
  retry. What lies between is one event, and a run of a barrier is a list of events in any order;
  that two attempts of a task without a delay between them run without a break is not required.
  Readings of the clocks, what the executor does and the arrival of a cancellation are part of the
  events. A cancellation of the coordinator's own coroutine is left out, as are an executor that
  raises \<open>CancelledError\<close> and what the other coroutines of a barrier do after one of them has raised. Times are rational numbers.
\<close>

section \<open>Messages\<close>

definition msg_not_executed :: pystr where
  "msg_not_executed =
     [20219, 21153, 26410, 25191, 34892]"

definition msg_check_state :: pystr where
  "msg_check_state =
     [26816, 26597, 20381, 36182, 12289, 21462, 28040, 29366, 24577, 19982, 26368, 26032, 32, 99, 104,
      101, 99, 107, 112, 111, 105, 110, 116]"

definition msg_timeout :: pystr where
  "msg_timeout =
     [23376, 20219, 21153, 25191, 34892, 36229, 26102]"

definition msg_shrink_task :: pystr where
  "msg_shrink_task =
     [32553, 23567, 20219, 21153, 25110, 25552, 39640, 24050, 25209, 20934, 35745, 21010, 20869, 30340,
      21333, 20219, 21153, 36229, 26102]"

definition msg_budget :: pystr where
  "msg_budget =
     [29238, 32, 82, 117, 110, 116, 105, 109, 101, 32, 25298, 32477, 20102, 23376, 20219, 21153, 39044,
      31639, 28040, 36153]"

definition msg_smaller_plan :: pystr where
  "msg_smaller_plan =
     [26816, 26597, 24403, 21069, 32, 82, 117, 110, 32, 30340, 21097, 20313, 39044, 31639, 21518,
      25552, 20132, 26356, 23567, 30340, 26032, 35745, 21010]"

definition msg_executor :: pystr where
  "msg_executor =
     [23376, 20219, 21153, 25191, 34892, 22120, 36820, 22238, 24322, 24120]"

definition msg_check_log :: pystr where
  "msg_check_log =
     [26816, 26597, 25191, 34892, 22120, 26085, 24535, 19982, 20923, 32467, 36755, 20837, 25688, 35201,
      21518, 20877, 20915, 23450, 26159, 21542, 37325, 35797]"

definition msg_no_output :: pystr where
  "msg_no_output =
     [21327, 35843, 32773, 27809, 26377, 25214, 21040, 20381, 36182, 20219, 21153, 30340, 32467, 26500,
      21270, 36755, 20986]"

definition msg_check_receipt :: pystr where
  "msg_check_receipt =
     [26816, 26597, 32, 99, 104, 101, 99, 107, 112, 111, 105, 110, 116, 32, 19982, 32, 100, 101, 112,
      101, 110, 100, 101, 110, 99, 121, 32, 114, 101, 99, 101, 105, 112, 116, 32, 26159, 21542, 19968,
      33268]"

definition msg_no_input :: pystr where
  "msg_no_input =
     [20219, 21153, 24517, 38656, 36755, 20837, 27809, 26377, 30001, 26681, 36755, 20837, 25110, 20381,
      36182, 36755, 20986, 25552, 20379]"

definition msg_fix_binding :: pystr where
  "msg_fix_binding =
     [20462, 27491, 20923, 32467, 35745, 21010, 30340, 32, 105, 110, 112, 117, 116, 32, 98, 105, 110,
      100, 105, 110, 103]"

definition msg_over_plan :: pystr where
  "msg_over_plan =
     [23376, 20219, 21153, 32467, 26524, 36229, 36807, 35745, 21010, 32]"

definition msg_shrink_output :: pystr where
  "msg_shrink_output =
     [32553, 23567, 20219, 21153, 36755, 20986, 25110, 25552, 20132, 39044, 31639, 26356, 23567, 30340,
      26032, 35745, 21010]"

definition msg_cancelled :: pystr where
  "msg_cancelled =
     [21327, 35843, 32773, 24050, 21462, 28040, 23376, 20219, 21153]"

definition msg_check_checkpoint :: pystr where
  "msg_check_checkpoint =
     [26816, 26597, 26368, 26032, 32, 99, 104, 101, 99, 107, 112, 111, 105, 110, 116, 32, 21518, 20915,
      23450, 26159, 21542, 21019, 24314, 26032, 35745, 21010]"

definition msg_unconfirmed :: pystr where
  "msg_unconfirmed =
     [23376, 20219, 21153, 22312, 21462, 28040, 23485, 38480, 26399, 21518, 20173, 26410, 30830, 35748,
      20572, 27490]"

definition msg_interrupt :: pystr where
  "msg_interrupt =
     [20013, 26029, 24213, 23618, 32, 82, 117, 110, 116, 105, 109, 101, 32, 24182, 20572, 25918, 26412,
      27425, 32534, 25490]"

section \<open>Cancellation\<close>

type_synonym cancellation = "pystr option"

definition request_cancel :: "pystr \<Rightarrow> cancellation \<Rightarrow> bool checked \<times> cancellation" where
  "request_cancel reason c =
     (let normalized = py_strip (if reason = [] then lit ''cancel_requested'' else reason)
      in if normalized = [] \<or> length normalized > 128 \<or> list_ex py_isspace normalized then (Inl PlanValueError, c)
         else case c of Some _ \<Rightarrow> (Inr False, c) | None \<Rightarrow> (Inr True, Some normalized))"

definition cancel_reason :: "cancellation \<Rightarrow> pystr" where
  "cancel_reason c = (case c of None \<Rightarrow> lit ''cancel_requested'' | Some reason \<Rightarrow> reason)"

section \<open>Outcomes\<close>

text \<open>\<open>sd_container_str\<close> is Python's \<open>str\<close> of a tuple or mapping.\<close>

record scheduler =
  sd_codec :: plan_codec
  sd_container_str :: "json \<Rightarrow> pystr"

record TaskOutcome =
  oc_receipt :: AgentTaskExecutionReceipt
  oc_output :: AgentTaskOutput

definition TaskSeries_post_init :: "TaskOutcome list \<Rightarrow> TaskOutcome list checked" where
  "TaskSeries_post_init outcomes =
     require (outcomes \<noteq> []) PlanValueError
     (require (card (set (map (rt_task_id \<circ> oc_receipt) outcomes)) = 1 \<and>
               map (rt_attempt_no \<circ> oc_receipt) outcomes = map int [1..<Suc (length outcomes)]) PlanValueError
       (Inr outcomes))"

definition zero_usage :: RuntimeUsage where
  "zero_usage =
     \<lparr>input_tokens = 0, output_tokens = 0, cached_input_tokens = 0, reasoning_tokens = 0, cost_microunits = 0\<rparr>"

definition error_output :: "plan_codec \<Rightarrow> pystr \<Rightarrow> pystr \<Rightarrow> pystr \<Rightarrow> AgentTaskOutput checked" where
  "error_output cd code summary next_action =
     AgentTaskOutput_post_init cd
       \<lparr>to_status = ERROR, to_summary = summary, to_next_actions = [next_action], to_artifacts = [],
        to_data = [(lit ''error_code'', JStr code)], to_usage = zero_usage, to_model_calls = 0, to_tool_calls = 0\<rparr>"

definition task_receipt ::
  "plan_codec \<Rightarrow> AgentTaskDefinition \<Rightarrow> AgentTaskState \<Rightarrow> AgentTaskOutput \<Rightarrow> pystr \<Rightarrow> int \<Rightarrow> datetime \<Rightarrow> datetime
     \<Rightarrow> int \<Rightarrow> pystr \<Rightarrow> TaskOutcome checked" where
  "task_receipt cd t st out code attempt started finished duration reservation =
     bind_result (json_digest cd (output_dict out)) (\<lambda>sha.
     bind_result (json_size cd (output_dict out)) (\<lambda>n.
     bind_result (AgentTaskExecutionReceipt_post_init cd
        \<lparr>rt_task_id = ta_task_id t, rt_role_id = ta_role_id t, rt_state = st, rt_attempt_no = attempt,
         rt_dependency_ids = ta_dependencies t, rt_output_sha256 = sha, rt_output_size_bytes = n, rt_error_code = code,
         rt_started_at = started, rt_finished_at = finished, rt_duration_ms = duration,
         rt_reservation_id = reservation, rt_receipt_sha256 = []\<rparr>) (\<lambda>receipt.
       Inr \<lparr>oc_receipt = receipt, oc_output = out\<rparr>)))"

definition terminal_outcome ::
  "plan_codec \<Rightarrow> AgentTaskDefinition \<Rightarrow> AgentTaskState \<Rightarrow> pystr \<Rightarrow> datetime \<Rightarrow> TaskOutcome checked" where
  "terminal_outcome cd t st code now =
     bind_result (error_output cd code msg_not_executed msg_check_state) (\<lambda>out.
       task_receipt cd t st out code 1 now now 0 [])"

definition reported_task_error_code :: "scheduler \<Rightarrow> AgentTaskOutput \<Rightarrow> pystr" where
  "reported_task_error_code sd out =
     (let shown = (case dict_get (to_data out) (lit ''error_code'') of
                     Some (JStr s) \<Rightarrow> s
                   | Some (JBool True) \<Rightarrow> lit ''True''
                   | Some (JInt n) \<Rightarrow> if n = 0 then [] else dump_int n
                   | Some (JFloat x) \<Rightarrow> if x = Finite 0 then [] else dump_float (pc_float_repr (sd_codec sd)) x
                   | Some (JList (x # xs)) \<Rightarrow> sd_container_str sd (JList (x # xs))
                   | Some (JObject (x # xs)) \<Rightarrow> sd_container_str sd (JObject (x # xs))
                   | _ \<Rightarrow> []);
          normalized = py_strip shown
      in if normalized = [] \<or> length normalized > 128 \<or> list_ex py_isspace normalized
         then lit ''task_reported_error'' else normalized)"

section \<open>One attempt\<close>

text \<open>What the body of an attempt can raise, as its handlers tell it apart.\<close>

datatype attempt_error =
    Attempt_timeout
  | Attempt_orchestration pystr pystr pystr
  | Attempt_budget
  | Attempt_other

definition plain :: "'a checked \<Rightarrow> attempt_error + 'a" where
  "plain r = (case r of Inl _ \<Rightarrow> Inl Attempt_other | Inr x \<Rightarrow> Inr x)"

definition budget_failure :: "budget_error \<Rightarrow> attempt_error" where
  "budget_failure e = (case e of BudgetExceeded _ _ \<Rightarrow> Attempt_budget | _ \<Rightarrow> Attempt_other)"

record AgentTaskDependencyReceipt =
  dr_task_id :: pystr
  dr_state :: AgentTaskState
  dr_output_sha256 :: pystr

definition AgentTaskDependencyReceipt_post_init ::
  "AgentTaskDependencyReceipt \<Rightarrow> AgentTaskDependencyReceipt checked" where
  "AgentTaskDependencyReceipt_post_init d =
     bind_result (id_field 128 (dr_task_id d)) (\<lambda>i.
     bind_result (plan_sha256 True (dr_output_sha256 d)) (\<lambda>sha.
       Inr (d\<lparr>dr_task_id := i, dr_output_sha256 := sha\<rparr>)))"

record AgentTaskExecutionContext =
  cx_orchestration_id :: pystr
  cx_identity :: RuntimeRunIdentity
  cx_task :: AgentTaskDefinition
  cx_role :: AgentRoleDefinition
  cx_inputs :: "(pystr, json) dict"
  cx_dependencies :: "AgentTaskDependencyReceipt list"
  cx_nesting_depth :: int
  cx_spawn_allowed :: bool
  cx_attempt_no :: int
  cx_previous_attempts :: "AgentTaskExecutionReceipt list"

definition AgentTaskExecutionContext_post_init ::
  "plan_codec \<Rightarrow> AgentTaskExecutionContext \<Rightarrow> AgentTaskExecutionContext checked" where
  "AgentTaskExecutionContext_post_init cd c =
     bind_result (id_field 160 (cx_orchestration_id c)) (\<lambda>i.
     require (ta_role_id (cx_task c) = ro_id (cx_role c)) PlanValueError
     (bind_result (validate_object cd (ta_input_contract (cx_task c)) (cx_inputs c)) (\<lambda>inputs.
      let dependencies = sort_key dr_task_id (cx_dependencies c); previous = sort_key rt_attempt_no (cx_previous_attempts c)
      in require (dr_task_id ` set dependencies = set (ta_dependencies (cx_task c))) PlanValueError
         (require (cx_nesting_depth c = 1 \<and> \<not> cx_spawn_allowed c) PlanValueError
         (bind_result (positive_int (retry_max_attempts (ta_retry_policy (cx_task c))) (cx_attempt_no c)) (\<lambda>n.
          require (list_all (\<lambda>r. rt_task_id r = ta_task_id (cx_task c)) previous) PlanValueError
          (require (map rt_attempt_no previous = map int [1..<nat n]) PlanValueError
          (require (\<not> list_ex (\<lambda>r. rt_state r = SUCCEEDED) previous) PlanValueError
            (Inr (c\<lparr>cx_orchestration_id := i, cx_inputs := inputs, cx_dependencies := dependencies,
                    cx_previous_attempts := previous\<rparr>)))))))))) "

text \<open>What the batch of a barrier reads: the request, the results of earlier barriers and the deadline.\<close>

record batch_context =
  bc_request :: AgentOrchestrationRequest
  bc_outputs :: "(pystr, AgentTaskOutput) dict"
  bc_receipts :: "(pystr, AgentTaskExecutionReceipt) dict"
  bc_deadline :: rat

definition binding_source :: "batch_context \<Rightarrow> AgentTaskInputBinding \<Rightarrow> attempt_error + (pystr, json) dict" where
  "binding_source bc b =
     (if from_root b then Inr (rq_root_input (bc_request bc))
      else case dict_get (bc_outputs bc) (ib_source_task_id b) of
             None \<Rightarrow> Inl (Attempt_orchestration (lit ''dependency_output_missing'') msg_no_output msg_check_receipt)
           | Some out \<Rightarrow> Inr (to_data out))"

fun resolve_bindings ::
  "batch_context \<Rightarrow> AgentTaskInputBinding list \<Rightarrow> (pystr, json) dict \<Rightarrow> attempt_error + (pystr, json) dict" where
  "resolve_bindings bc [] resolved = Inr resolved"
| "resolve_bindings bc (b # bs) resolved =
     bind_result (binding_source bc b) (\<lambda>source.
       case dict_get source (ib_source_key b) of
         Some v \<Rightarrow> resolve_bindings bc bs (dict_set (ib_target_key b) v resolved)
       | None \<Rightarrow>
           if ib_required b
           then Inl (Attempt_orchestration (lit ''task_input_missing'') msg_no_input msg_fix_binding)
           else resolve_bindings bc bs resolved)"

definition resolve_inputs ::
  "plan_codec \<Rightarrow> batch_context \<Rightarrow> AgentTaskDefinition \<Rightarrow> attempt_error + (pystr, json) dict" where
  "resolve_inputs cd bc t =
     bind_result (resolve_bindings bc (ta_input_bindings t) []) (\<lambda>resolved.
       plain (validate_object cd (ta_input_contract t) resolved))"

definition dependency_receipt ::
  "batch_context \<Rightarrow> pystr \<Rightarrow> AgentTaskDependencyReceipt checked" where
  "dependency_receipt bc i =
     (case dict_get (bc_receipts bc) i of
        None \<Rightarrow> Inl PlanValueError
      | Some r \<Rightarrow> AgentTaskDependencyReceipt_post_init
                  \<lparr>dr_task_id = i, dr_state = rt_state r, dr_output_sha256 = rt_output_sha256 r\<rparr>)"

definition attempt_context ::
  "plan_codec \<Rightarrow> batch_context \<Rightarrow> AgentTaskDefinition \<Rightarrow> TaskOutcome list \<Rightarrow> attempt_error + AgentTaskExecutionContext" where
  "attempt_context cd bc t outcomes =
     bind_result (resolve_inputs cd bc t) (\<lambda>inputs.
     bind_result (plain (map_result (dependency_receipt bc) (ta_dependencies t))) (\<lambda>dependencies.
     case find_role (pl_roles (rq_plan (bc_request bc))) (ta_role_id t) of
       None \<Rightarrow> Inl Attempt_other
     | Some role \<Rightarrow>
         plain (AgentTaskExecutionContext_post_init cd
           \<lparr>cx_orchestration_id = rq_orchestration_id (bc_request bc), cx_identity = rq_identity (bc_request bc),
            cx_task = t, cx_role = role, cx_inputs = inputs, cx_dependencies = dependencies, cx_nesting_depth = 1,
            cx_spawn_allowed = False, cx_attempt_no = int (length outcomes) + 1,
            cx_previous_attempts = map oc_receipt outcomes\<rparr>)))"

text \<open>What the tasks of a run share and change.\<close>

record shared =
  sh_account :: BudgetAccount
  sh_usage :: UsageTotals
  sh_cancel :: cancellation

definition added_usage :: "UsageTotals \<Rightarrow> AgentTaskOutput \<Rightarrow> int \<Rightarrow> UsageTotals" where
  "added_usage u out n =
     u\<lparr>ut_input_tokens := ut_input_tokens u + input_tokens (to_usage out),
       ut_output_tokens := ut_output_tokens u + output_tokens (to_usage out),
       ut_cached_input_tokens := ut_cached_input_tokens u + cached_input_tokens (to_usage out),
       ut_reasoning_tokens := ut_reasoning_tokens u + reasoning_tokens (to_usage out),
       ut_model_calls := ut_model_calls u + to_model_calls out, ut_tool_calls := ut_tool_calls u + to_tool_calls out,
       ut_cost_microunits := ut_cost_microunits u + cost_microunits (to_usage out),
       ut_output_bytes := ut_output_bytes u + n\<rparr>"

definition plan_exceeded :: "AgentOrchestrationBudget \<Rightarrow> UsageTotals \<Rightarrow> pystr option" where
  "plan_exceeded b u =
     map_option fst (find (\<lambda>(name, value, limit). value > limit)
       [(lit ''max_model_calls'', ut_model_calls u, max_model_calls b),
        (lit ''max_tool_calls'', ut_tool_calls u, max_tool_calls b),
        (lit ''max_tokens'', ut_tokens u, max_tokens b),
        (lit ''max_cost_microunits'', ut_cost_microunits u, max_cost_microunits b),
        (lit ''max_output_bytes'', ut_output_bytes u, max_output_bytes b)])"

text \<open>\<open>_record_usage\<close>: what was used is added to the totals even when a budget then refuses it.\<close>

definition record_task_usage ::
  "plan_codec \<Rightarrow> AgentOrchestrationBudget \<Rightarrow> AgentTaskOutput \<Rightarrow> rat \<Rightarrow> rat \<Rightarrow> shared \<Rightarrow> (attempt_error + unit) \<times> shared" where
  "record_task_usage cd b out t1 t2 sh =
     (case json_size cd (output_dict out) of
        Inl _ \<Rightarrow> (Inl Attempt_other, sh)
      | Inr n \<Rightarrow>
          let projected = added_usage (sh_usage sh) out n
          in case record_subagent_usage (to_usage out) (to_model_calls out) (to_tool_calls out) t1 t2 (sh_account sh) of
               (Inl e, a) \<Rightarrow> (Inl (budget_failure e), sh\<lparr>sh_usage := projected, sh_account := a\<rparr>)
             | (Inr _, a) \<Rightarrow>
                 ((case plan_exceeded b projected of
                     None \<Rightarrow> Inr ()
                   | Some name \<Rightarrow>
                       Inl (Attempt_orchestration (lit ''orchestration_budget_exceeded'') (msg_over_plan @ name) msg_shrink_output)),
                  sh\<lparr>sh_usage := projected, sh_account := a\<rparr>))"

record start_readings =
  st_now :: datetime
  st_clock :: rat
  st_reserve :: "rat \<times> rat"
  st_deadline :: rat
  st_remaining :: "rat \<times> rat \<times> rat \<times> rat \<times> rat"

text \<open>The readings of \<open>_outcome\<close>: in the body of the attempt, and in a handler when the body raises.\<close>

record end_readings =
  en_usage :: "rat \<times> rat"
  en_now :: datetime
  en_clock :: rat
  en_handler_now :: datetime
  en_handler_clock :: rat
  en_retry_clock :: rat

record running_attempt =
  ra_started_at :: datetime
  ra_started_clock :: rat
  ra_reservation :: "RuntimeBudgetReservation option"

definition make_outcome ::
  "plan_codec \<Rightarrow> AgentTaskDefinition \<Rightarrow> nat \<Rightarrow> running_attempt \<Rightarrow> AgentTaskState \<Rightarrow> AgentTaskOutput \<Rightarrow> pystr \<Rightarrow> datetime
     \<Rightarrow> rat \<Rightarrow> TaskOutcome checked" where
  "make_outcome cd t attempt ra st out code finished clock =
     task_receipt cd t st out code (int attempt) (ra_started_at ra) finished
       (max 0 \<lfloor>(clock - ra_started_clock ra) * 1000\<rfloor>)
       (case ra_reservation ra of None \<Rightarrow> [] | Some res \<Rightarrow> br_id res)"

definition handled :: "attempt_error \<Rightarrow> AgentTaskState \<times> pystr \<times> pystr \<times> pystr" where
  "handled e =
     (case e of
        Attempt_timeout \<Rightarrow> (TIMED_OUT, lit ''task_timeout'', msg_timeout, msg_shrink_task)
      | Attempt_orchestration code summary action \<Rightarrow>
          (if code = lit ''task_cancelled'' then CANCELLED else FAILED, code, summary, action)
      | Attempt_budget \<Rightarrow> (FAILED, lit ''runtime_budget_exceeded'', msg_budget, msg_smaller_plan)
      | Attempt_other \<Rightarrow> (FAILED, lit ''task_executor_failed'', msg_executor, msg_check_log))"

definition handle_error ::
  "plan_codec \<Rightarrow> AgentTaskDefinition \<Rightarrow> nat \<Rightarrow> running_attempt \<Rightarrow> end_readings \<Rightarrow> attempt_error \<Rightarrow> TaskOutcome checked" where
  "handle_error cd t attempt ra en e =
     (case handled e of (st, code, summary, action) \<Rightarrow>
        bind_result (error_output cd code summary action) (\<lambda>out.
          make_outcome cd t attempt ra st out code (en_handler_now en) (en_handler_clock en)))"

text \<open>\<open>finally\<close>: an exception of the release replaces the outcome.\<close>

definition release_reservation ::
  "RuntimeBudgetReservation option \<Rightarrow> TaskOutcome checked \<Rightarrow> shared \<Rightarrow> TaskOutcome checked \<times> shared" where
  "release_reservation reservation r sh =
     (case reservation of
        None \<Rightarrow> (r, sh)
      | Some res \<Rightarrow>
          (case release res (sh_account sh) of
             (Inl _, a) \<Rightarrow> (Inl PlanValueError, sh\<lparr>sh_account := a\<rparr>)
           | (Inr _, a) \<Rightarrow> (r, sh\<lparr>sh_account := a\<rparr>)))"

definition end_attempt ::
  "plan_codec \<Rightarrow> AgentTaskDefinition \<Rightarrow> nat \<Rightarrow> running_attempt \<Rightarrow> end_readings \<Rightarrow> attempt_error + TaskOutcome \<Rightarrow> shared
     \<Rightarrow> TaskOutcome checked \<times> shared" where
  "end_attempt cd t attempt ra en r sh =
     release_reservation (ra_reservation ra)
       (case r of Inl e \<Rightarrow> handle_error cd t attempt ra en e | Inr x \<Rightarrow> Inr x) sh"

text \<open>The part of an attempt up to the call of the executor; on the right the time limit of the call.\<close>

definition begin_attempt ::
  "plan_codec \<Rightarrow> batch_context \<Rightarrow> AgentTaskDefinition \<Rightarrow> TaskOutcome list \<Rightarrow> start_readings \<Rightarrow> shared
     \<Rightarrow> (attempt_error + AgentTaskExecutionContext \<times> rat) \<times> running_attempt \<times> shared" where
  "begin_attempt cd bc t outcomes st sh =
     (let ra = \<lparr>ra_started_at = st_now st, ra_started_clock = st_clock st, ra_reservation = None\<rparr>;
          name = ta_task_id t @ lit '':attempt:'' @ py_digits (length outcomes + 1)
      in case reserve_subagent name (fst (st_reserve st)) (snd (st_reserve st)) (sh_account sh) of
           (Inl e, a) \<Rightarrow> (Inl (budget_failure e), ra, sh\<lparr>sh_account := a\<rparr>)
         | (Inr res, a) \<Rightarrow>
             let ra' = ra\<lparr>ra_reservation := Some res\<rparr>
             in case attempt_context cd bc t outcomes of
                  Inl e \<Rightarrow> (Inl e, ra', sh\<lparr>sh_account := a\<rparr>)
                | Inr context \<Rightarrow>
                    (case st_remaining st of (t1, t2, t3, t4, t5) \<Rightarrow>
                       case subagent_remaining_time_seconds t1 t2 t3 t4 t5 a of
                         (Inl e, a') \<Rightarrow> (Inl (budget_failure e), ra', sh\<lparr>sh_account := a'\<rparr>)
                       | (Inr remaining, a') \<Rightarrow>
                           (Inr (context, min (of_int (ta_timeout_ms t) / 1000)
                                            (min (max (1 / 1000) (bc_deadline bc - st_deadline st)) remaining)),
                            ra', sh\<lparr>sh_account := a'\<rparr>)))"

text \<open>
  The executor's work when the wait for it ends: returned, raised, or still running, and then
  whether it stops within the grace period.
\<close>

datatype work = Work_returned AgentTaskOutput | Work_raised attempt_error | Work_running bool

definition await_executor :: "bool \<Rightarrow> work \<Rightarrow> attempt_error + AgentTaskOutput" where
  "await_executor cancelled w =
     (let unconfirmed = Attempt_orchestration (lit ''task_cancel_unconfirmed'') msg_unconfirmed msg_interrupt
      in if cancelled
         then Inl (if w = Work_running False then unconfirmed
                   else Attempt_orchestration (lit ''task_cancelled'') msg_cancelled msg_check_checkpoint)
         else case w of
                Work_returned out \<Rightarrow> Inr out
              | Work_raised e \<Rightarrow> Inl e
              | Work_running stopped \<Rightarrow> Inl (if stopped then Attempt_timeout else unconfirmed))"

definition output_accepted :: "plan_codec \<Rightarrow> AgentTaskDefinition \<Rightarrow> AgentTaskOutput \<Rightarrow> bool" where
  "output_accepted cd t out \<longleftrightarrow>
     (if to_status out = ERROR
      then validate_partial cd (ta_output_contract t) [lit ''error_code''] (to_data out) \<noteq> Inl PlanValueError
      else validate_object cd (ta_output_contract t) (to_data out) \<noteq> Inl PlanValueError)"

text \<open>The part of an attempt after the call of the executor.\<close>

definition judge_output ::
  "scheduler \<Rightarrow> batch_context \<Rightarrow> AgentTaskDefinition \<Rightarrow> nat \<Rightarrow> running_attempt \<Rightarrow> end_readings \<Rightarrow> AgentTaskOutput \<Rightarrow> shared
     \<Rightarrow> (attempt_error + TaskOutcome) \<times> shared" where
  "judge_output sd bc t attempt ra en out sh =
     (if \<not> output_accepted (sd_codec sd) t out then (Inl Attempt_other, sh)
      else case record_task_usage (sd_codec sd) (pl_budget (rq_plan (bc_request bc))) out (fst (en_usage en))
                  (snd (en_usage en)) sh of
             (Inl e, sh') \<Rightarrow> (Inl e, sh')
           | (Inr _, sh') \<Rightarrow>
               (if completion_matches (ta_completion t) out
                then plain (make_outcome (sd_codec sd) t attempt ra SUCCEEDED out [] (en_now en) (en_clock en))
                else plain (make_outcome (sd_codec sd) t attempt ra FAILED out
                       (if to_status out = ERROR then reported_task_error_code sd out
                        else lit ''completion_condition_failed'') (en_now en) (en_clock en)),
                sh'))"

section \<open>A task and its retries\<close>

text \<open>\<open>_execute_task\<close>, between two points where it gives up control.\<close>

datatype task_run =
    Ready "TaskOutcome list"
  | Executing "TaskOutcome list" running_attempt AgentTaskExecutionContext rat
  | Waiting "TaskOutcome list"
  | Finished "TaskOutcome list"
  | Crashed

definition finish_series :: "TaskOutcome list \<Rightarrow> task_run" where
  "finish_series outcomes = (case TaskSeries_post_init outcomes of Inl _ \<Rightarrow> Crashed | Inr s \<Rightarrow> Finished s)"

definition after_attempt ::
  "batch_context \<Rightarrow> AgentTaskDefinition \<Rightarrow> rat \<Rightarrow> cancellation \<Rightarrow> TaskOutcome list \<Rightarrow> TaskOutcome checked \<Rightarrow> task_run" where
  "after_attempt bc t clock cancel outcomes r =
     (case r of
        Inl _ \<Rightarrow> Crashed
      | Inr x \<Rightarrow>
          let outcomes' = outcomes @ [x]; attempt = int (length outcomes) + 1; p = ta_retry_policy t
          in if rt_state (oc_receipt x) = SUCCEEDED then finish_series outcomes'
             else if \<not> permits p (rt_error_code (oc_receipt x)) attempt then finish_series outcomes'
             else case retry_delay_seconds p attempt of
                    Inl _ \<Rightarrow> Crashed
                  | Inr delay \<Rightarrow>
                      if cancel \<noteq> None \<or> clock + delay \<ge> bc_deadline bc then finish_series outcomes'
                      else if delay > 0 then Waiting outcomes' else Ready outcomes')"

definition conclude ::
  "plan_codec \<Rightarrow> batch_context \<Rightarrow> AgentTaskDefinition \<Rightarrow> TaskOutcome list \<Rightarrow> running_attempt \<Rightarrow> end_readings
     \<Rightarrow> attempt_error + TaskOutcome \<Rightarrow> shared \<Rightarrow> task_run \<times> shared" where
  "conclude cd bc t outcomes ra en r sh =
     (case end_attempt cd t (length outcomes + 1) ra en r sh of
        (x, sh') \<Rightarrow> (after_attempt bc t (en_retry_clock en) (sh_cancel sh') outcomes x, sh'))"

definition start_attempt ::
  "plan_codec \<Rightarrow> batch_context \<Rightarrow> AgentTaskDefinition \<Rightarrow> TaskOutcome list \<Rightarrow> start_readings \<Rightarrow> end_readings \<Rightarrow> shared
     \<Rightarrow> task_run \<times> shared" where
  "start_attempt cd bc t outcomes st en sh =
     (case begin_attempt cd bc t outcomes st sh of
        (Inl e, ra, sh') \<Rightarrow> conclude cd bc t outcomes ra en (Inl e) sh'
      | (Inr (context, timeout), ra, sh') \<Rightarrow> (Executing outcomes ra context timeout, sh'))"

definition finish_attempt ::
  "scheduler \<Rightarrow> batch_context \<Rightarrow> AgentTaskDefinition \<Rightarrow> TaskOutcome list \<Rightarrow> running_attempt \<Rightarrow> end_readings \<Rightarrow> work \<Rightarrow> shared
     \<Rightarrow> task_run \<times> shared" where
  "finish_attempt sd bc t outcomes ra en w sh =
     (case await_executor (sh_cancel sh \<noteq> None) w of
        Inl e \<Rightarrow> conclude (sd_codec sd) bc t outcomes ra en (Inl e) sh
      | Inr out \<Rightarrow>
          (case judge_output sd bc t (length outcomes + 1) ra en out sh of
             (r, sh') \<Rightarrow> conclude (sd_codec sd) bc t outcomes ra en r sh'))"

section \<open>The batch of a barrier\<close>

datatype batch_event =
    Attempt_starts pystr start_readings end_readings
  | Attempt_ends pystr work end_readings
  | Wait_ends pystr
  | Cancel_requested pystr

record batch =
  bt_shared :: shared
  bt_runs :: "(pystr, task_run) dict"

definition set_run :: "pystr \<Rightarrow> task_run \<times> shared \<Rightarrow> batch \<Rightarrow> batch" where
  "set_run i r b = b\<lparr>bt_shared := snd r, bt_runs := dict_set i (fst r) (bt_runs b)\<rparr>"

definition plan_task :: "batch_context \<Rightarrow> pystr \<Rightarrow> AgentTaskDefinition option" where
  "plan_task bc i = find_task (pl_tasks (rq_plan (bc_request bc))) i"

text \<open>\<open>None\<close>: the event cannot happen in this state.\<close>

fun batch_step :: "scheduler \<Rightarrow> batch_context \<Rightarrow> batch_event \<Rightarrow> batch \<Rightarrow> batch option" where
  "batch_step sd bc (Attempt_starts i st en) b =
     (case (plan_task bc i, dict_get (bt_runs b) i) of
        (Some t, Some (Ready outcomes)) \<Rightarrow>
          Some (set_run i (start_attempt (sd_codec sd) bc t outcomes st en (bt_shared b)) b)
      | _ \<Rightarrow> None)"
| "batch_step sd bc (Attempt_ends i w en) b =
     (case (plan_task bc i, dict_get (bt_runs b) i) of
        (Some t, Some (Executing outcomes ra context timeout)) \<Rightarrow>
          Some (set_run i (finish_attempt sd bc t outcomes ra en w (bt_shared b)) b)
      | _ \<Rightarrow> None)"
| "batch_step sd bc (Wait_ends i) b =
     (case dict_get (bt_runs b) i of
        Some (Waiting outcomes) \<Rightarrow>
          Some (set_run i (if sh_cancel (bt_shared b) \<noteq> None then finish_series outcomes else Ready outcomes,
                           bt_shared b) b)
      | _ \<Rightarrow> None)"
| "batch_step sd bc (Cancel_requested reason) b =
     Some (b\<lparr>bt_shared := (bt_shared b)\<lparr>sh_cancel := snd (request_cancel reason (sh_cancel (bt_shared b)))\<rparr>\<rparr>)"

fun run_batch :: "scheduler \<Rightarrow> batch_context \<Rightarrow> batch_event list \<Rightarrow> batch \<Rightarrow> batch option" where
  "run_batch sd bc [] b = Some b"
| "run_batch sd bc (e # es) b = Option.bind (batch_step sd bc e b) (run_batch sd bc es)"

end
