(* ===== verification/Agent_Plan_Correct.thy ===== *)
theory Agent_Plan_Correct
  imports Agent_Plan
begin

text \<open>
  Correctness of plans: the cycle check is exact, the constructor of a plan always returns, its
  result is a fixed point of the checks, and the barriers of a constructed plan are a schedule:
  every task once, after its dependencies, at most \<open>max_concurrency\<close> at a time, the aggregation
  alone at the end.
\<close>

section \<open>The cycle check\<close>

definition depends :: "AgentTaskDefinition list \<Rightarrow> (pystr \<times> pystr) set" where
  "depends tasks = {(d, i). i \<in> set (map ta_task_id tasks) \<and> d \<in> set (dependencies_of tasks i)}"

definition closed_tasks :: "AgentTaskDefinition list \<Rightarrow> bool" where
  "closed_tasks tasks \<longleftrightarrow> (\<forall>t \<in> set tasks. set (ta_dependencies t) \<subseteq> set (map ta_task_id tasks))"

lemma set_ready: "set (ready_tasks tasks remaining completed) =
    {i \<in> set remaining. set (dependencies_of tasks i) \<subseteq> set completed}"
  by (auto simp: ready_tasks_def)

lemma ready_cong: "set completed = set completed' \<Longrightarrow> ready_tasks tasks remaining completed = ready_tasks tasks remaining completed'"
  by (simp add: ready_tasks_def)

lemma dependencies_closed: "closed_tasks tasks \<Longrightarrow> set (dependencies_of tasks i) \<subseteq> set (map ta_task_id tasks)"
  by (cases "find (\<lambda>t. ta_task_id t = i) tasks") (auto simp: closed_tasks_def dependencies_of_def dest!: find_SomeD)

lemma depends_finite: "finite (depends tasks)"
proof -
  have "depends tasks \<subseteq> (\<Union>i \<in> set (map ta_task_id tasks). set (dependencies_of tasks i) \<times> {i})"
    by (auto simp: depends_def)
  then show ?thesis by (rule finite_subset) auto
qed

text \<open>Passing the check makes every task accessible through its dependencies.\<close>

lemma loop_accessible:
  assumes "validate_acyclic_loop tasks remaining completed = Inr ()"
    and "set completed \<subseteq> Wellfounded.acc (depends tasks)"
  shows "set remaining \<subseteq> Wellfounded.acc (depends tasks)"
  using assms
proof (induction tasks remaining completed rule: validate_acyclic_loop.induct)
  case (1 tasks remaining completed)
  let ?ready = "ready_tasks tasks remaining completed"
  show ?case
  proof (cases "remaining = []")
    case False
    have step: "?ready \<noteq> []"
      "validate_acyclic_loop tasks (filter (\<lambda>i. i \<notin> set ?ready) remaining) (completed @ ?ready) = Inr ()"
      using "1.prems"(1) False
      by (auto simp: validate_acyclic_loop.simps [of tasks remaining completed] Let_def split: if_splits)
    have "i \<in> Wellfounded.acc (depends tasks)" if "i \<in> set ?ready" for i
    proof (rule accI)
      fix d
      assume "(d, i) \<in> depends tasks"
      then show "d \<in> Wellfounded.acc (depends tasks)" using that "1.prems"(2) by (auto simp: depends_def set_ready)
    qed
    then have "set (completed @ ?ready) \<subseteq> Wellfounded.acc (depends tasks)" using "1.prems"(2) by auto
    from "1.IH" [OF False refl step(1,2) this] \<open>set (completed @ ?ready) \<subseteq> _\<close> show ?thesis by auto
  qed simp
qed

lemma loop_accepts:
  assumes "wf (depends tasks)" "closed_tasks tasks"
    and "set remaining \<subseteq> set (map ta_task_id tasks)" "set (map ta_task_id tasks) \<subseteq> set remaining \<union> set completed"
  shows "validate_acyclic_loop tasks remaining completed = Inr ()"
  using assms
proof (induction tasks remaining completed rule: validate_acyclic_loop.induct)
  case (1 tasks remaining completed)
  let ?ready = "ready_tasks tasks remaining completed"
  show ?case
  proof (cases "remaining = []")
    case False
    then obtain i0 where "i0 \<in> set remaining" by (cases remaining) auto
    from wfE_min [OF "1.prems"(1) this] obtain i where i: "i \<in> set remaining"
      "\<And>d. (d, i) \<in> depends tasks \<Longrightarrow> d \<notin> set remaining" by blast
    have "set (dependencies_of tasks i) \<subseteq> set completed"
    proof
      fix d
      assume d: "d \<in> set (dependencies_of tasks i)"
      then have "(d, i) \<in> depends tasks" using i(1) "1.prems"(3) by (auto simp: depends_def)
      then have "d \<notin> set remaining" by (rule i(2))
      then show "d \<in> set completed" using d dependencies_closed [OF "1.prems"(2), of i] "1.prems"(4) by blast
    qed
    then have ne: "?ready \<noteq> []" using i(1) by (metis (mono_tags, lifting) empty_iff empty_set mem_Collect_eq set_ready)
    have "validate_acyclic_loop tasks (filter (\<lambda>i. i \<notin> set ?ready) remaining) (completed @ ?ready) = Inr ()"
      by (rule "1.IH" [OF False refl ne "1.prems"(1,2)]) (use "1.prems"(3,4) in auto)
    then show ?thesis using False ne by (simp add: validate_acyclic_loop.simps [of tasks remaining completed] Let_def)
  qed (simp add: validate_acyclic_loop.simps)
qed

lemma validate_acyclic_iff:
  assumes "closed_tasks tasks"
  shows "validate_acyclic tasks = Inr () \<longleftrightarrow> acyclic (depends tasks)"
proof
  assume "validate_acyclic tasks = Inr ()"
  then have ids: "set (map ta_task_id tasks) \<subseteq> Wellfounded.acc (depends tasks)"
    unfolding validate_acyclic_def by (rule loop_accessible) simp
  have "i \<in> Wellfounded.acc (depends tasks)" for i
  proof (cases "i \<in> set (map ta_task_id tasks)")
    case False
    then have "(d, i) \<notin> depends tasks" for d by (simp add: depends_def)
    then show ?thesis by (blast intro: accI)
  qed (use ids in blast)
  then have "wf (depends tasks)" by (rule acc_wfI [OF allI])
  then show "acyclic (depends tasks)" by (rule wf_acyclic)
next
  assume "acyclic (depends tasks)"
  then have "wf (depends tasks)" by (rule finite_acyclic_wf [OF depends_finite])
  then show "validate_acyclic tasks = Inr ()"
    unfolding validate_acyclic_def by (rule loop_accepts [OF _ assms]) auto
qed

section \<open>The barriers\<close>

lemma slice_returns_completed:
  "slice_barriers cd step ready completed bs = Inr (completed', bs') \<Longrightarrow> completed' = completed @ ready"
proof (induction cd step ready completed bs rule: slice_barriers.induct)
  case (1 cd step ready completed bs)
  show ?case
  proof (cases "ready = []")
    case False
    then obtain b where "step \<noteq> 0" "make_barrier cd (length bs + 1) (take step ready) completed = Inr b"
      "slice_barriers cd step (drop step ready) (completed @ take step ready) (bs @ [b]) = Inr (completed', bs')"
      using "1.prems" by (auto simp: slice_barriers.simps [of cd step ready] result_simps split: if_splits)
    then have "completed' = (completed @ take step ready) @ drop step ready" using "1.IH" [OF _ False] by blast
    then show ?thesis by simp
  qed (use "1.prems" in \<open>auto simp: slice_barriers.simps split: if_splits\<close>)
qed

lemma barrier_loop_returns:
  assumes "validate_acyclic_loop tasks remaining completed = Inr ()" "set completed' = set completed"
  shows "\<exists>r. barrier_loop cd step tasks remaining completed' bs = Some r"
  using assms
proof (induction tasks remaining completed arbitrary: completed' bs rule: validate_acyclic_loop.induct)
  case (1 tasks remaining completed)
  let ?ready = "ready_tasks tasks remaining completed"
  show ?case
  proof (cases "remaining = []")
    case False
    have step: "?ready \<noteq> []"
      "validate_acyclic_loop tasks (filter (\<lambda>i. i \<notin> set ?ready) remaining) (completed @ ?ready) = Inr ()"
      using "1.prems"(1) False
      by (auto simp: validate_acyclic_loop.simps [of tasks remaining completed] Let_def split: if_splits)
    have same: "ready_tasks tasks remaining completed' = ?ready" by (rule ready_cong [OF "1.prems"(2)])
    show ?thesis
    proof (cases "slice_barriers cd step ?ready completed' bs")
      case (Inl e)
      then show ?thesis using False by (simp add: barrier_loop.simps [of cd step tasks remaining] same Let_def)
    next
      case (Inr cb)
      then obtain c2 b2 where cb: "slice_barriers cd step ?ready completed' bs = Inr (c2, b2)" by (cases cb) auto
      then have "set c2 = set (completed @ ?ready)" using slice_returns_completed "1.prems"(2) by fastforce
      from "1.IH" [OF False refl step this] show ?thesis
        using False cb by (simp add: barrier_loop.simps [of cd step tasks remaining] same Let_def)
    qed
  qed (simp add: barrier_loop.simps)
qed

lemma plan_fields_acyclic: "plan_fields p = Inr q \<Longrightarrow> validate_acyclic (pl_tasks q) = Inr ()"
  by (auto simp: plan_fields_def Let_def result_simps)

text \<open>
  C37. Constructing a plan always returns: whatever tasks and dependencies are given, with cycles,
  unknown names or duplicates, the constructor raises or yields a plan; the loop that derives the
  barriers, which would run for ever on a cycle, is only reached after the cycle check.
\<close>

theorem plan_constructor_returns: "\<exists>r. AgentOrchestrationPlan_post_init cd p = Some r"
proof (cases "plan_fields p")
  case (Inr q)
  have "\<exists>r. execution_barriers cd q = Some r"
    using plan_fields_acyclic [OF Inr] unfolding execution_barriers_def validate_acyclic_def
    by (rule barrier_loop_returns) simp
  then show ?thesis using Inr by (auto simp: AgentOrchestrationPlan_post_init_def split: sum.splits)
qed (simp add: AgentOrchestrationPlan_post_init_def)

text \<open>
  The cycle check of a plan is exact: on tasks whose dependencies are tasks of the plan it
  accepts exactly when no task depends on itself, directly or through others.
\<close>

theorem cycle_check_exact:
  assumes "closed_tasks tasks"
  shows "validate_acyclic tasks = Inr () \<longleftrightarrow> (\<forall>i. (i, i) \<notin> (depends tasks)\<^sup>+)"
  using validate_acyclic_iff [OF assms] by (simp add: acyclic_def)

section \<open>Schedules\<close>

text \<open>
  What a list of barriers promises, from a point where the tasks \<open>past\<close> are completed and \<open>n\<close>
  barriers have passed.
\<close>

fun schedule ::
  "(pystr \<Rightarrow> pystr list) \<Rightarrow> nat \<Rightarrow> pystr list \<Rightarrow> nat \<Rightarrow> AgentTaskBarrier list \<Rightarrow> bool" where
  "schedule deps width past n [] = True"
| "schedule deps width past n (b # bs) =
     (ba_sequence b = int (n + 1) \<and> ba_task_ids b \<noteq> [] \<and> length (ba_task_ids b) \<le> width \<and>
      ba_completed_before b = sort past \<and> (\<forall>i \<in> set (ba_task_ids b). set (deps i) \<subseteq> set past) \<and>
      schedule deps width (past @ ba_task_ids b) (n + 1) bs)"

lemma schedule_append:
  "schedule deps width past n (bs @ cs) \<longleftrightarrow>
     schedule deps width past n bs \<and> schedule deps width (past @ concat (map ba_task_ids bs)) (n + length bs) cs"
  by (induction bs arbitrary: past n) auto

text \<open>Names that are already in the form their constructor leaves.\<close>

definition plain_ids :: "pystr list \<Rightarrow> bool" where
  "plain_ids ids \<longleftrightarrow> (\<forall>i \<in> set ids. plan_text 128 i = Inr i)"

lemma plain_map: "plain_ids ids \<Longrightarrow> map_result (plan_text 128) ids = Inr ids"
  by (simp add: map_result_Inr_all list_all2_same plain_ids_def)

lemma plain_ids_simps [simp]:
  "plain_ids []" "plain_ids (xs @ ys) \<longleftrightarrow> plain_ids xs \<and> plain_ids ys" "plain_ids (sort xs) \<longleftrightarrow> plain_ids xs"
  by (auto simp: plain_ids_def)

lemma plain_sub: "plain_ids xs \<Longrightarrow> set ys \<subseteq> set xs \<Longrightarrow> plain_ids ys"
  by (auto simp: plain_ids_def)

lemma plain_sorted_texts:
  "plain_ids ids \<Longrightarrow> sorted_texts n 128 e ids = Inr ys \<Longrightarrow> ys = sort ids \<and> distinct ids \<and> (e \<or> ids \<noteq> [])"
  by (auto simp: sorted_texts_def text_tuple_def plain_map result_simps)

lemma made_barrier:
  assumes "make_barrier cd n ids past = Inr b" "plain_ids ids" "plain_ids past"
  shows "ba_task_ids b = sort ids" "ba_completed_before b = sort past" "ba_sequence b = int n" "ids \<noteq> []"
  using assms plain_sorted_texts [OF assms(2)] plain_sorted_texts [of "sort past"]
  by (auto simp: make_barrier_def AgentTaskBarrier_post_init_def positive_int_def result_simps sorted_sort_id)

lemma slice_schedule:
  assumes "slice_barriers cd step ready completed bs = Inr (completed', bs')"
    and "plain_ids ready" "plain_ids completed" "sorted ready" "\<forall>i \<in> set ready. set (deps i) \<subseteq> set completed"
  shows "\<exists>new. bs' = bs @ new \<and> schedule deps step completed (length bs) new \<and> concat (map ba_task_ids new) = ready"
  using assms
proof (induction cd step ready completed bs rule: slice_barriers.induct)
  case (1 cd step ready completed bs)
  show ?case
  proof (cases "ready = []")
    case True
    then show ?thesis using "1.prems"(1) by (auto simp: slice_barriers.simps split: if_splits)
  next
    case False
    let ?now = "take step ready" and ?later = "drop step ready"
    obtain b where b: "step \<noteq> 0" "make_barrier cd (length bs + 1) ?now completed = Inr b"
      "slice_barriers cd step ?later (completed @ ?now) (bs @ [b]) = Inr (completed', bs')"
      using "1.prems"(1) False by (auto simp: slice_barriers.simps [of cd step ready] result_simps split: if_splits)
    have plain: "plain_ids ?now" "plain_ids ?later"
      using "1.prems"(2) by (auto intro: plain_sub dest: in_set_takeD in_set_dropD)
    have "sorted ?now" "sorted ?later" using "1.prems"(4) by (simp_all add: sorted_wrt_take sorted_wrt_drop)
    note made = made_barrier [OF b(2) plain(1) "1.prems"(3)]
    have "\<forall>i \<in> set ?later. set (deps i) \<subseteq> set (completed @ ?now)"
      using "1.prems"(5) by (auto dest: in_set_dropD)
    with "1.IH" [OF b(1) False b(3)] plain \<open>sorted ?later\<close> "1.prems"(3)
    obtain new where new: "bs' = (bs @ [b]) @ new" "schedule deps step (completed @ ?now) (length (bs @ [b])) new"
      "concat (map ba_task_ids new) = ?later" by auto
    have ids: "ba_task_ids b = ?now" using made(1) \<open>sorted ?now\<close> by (simp add: sorted_sort_id)
    have "\<forall>i \<in> set ?now. set (deps i) \<subseteq> set completed" using "1.prems"(5) by (auto dest: in_set_takeD)
    then have "schedule deps step completed (length bs) (b # new)" using made(2-4) new(2) ids by simp
    then show ?thesis using new ids by (intro exI [of _ "b # new"]) simp
  qed
qed

lemma mset_ready:
  "mset remaining = mset (ready_tasks tasks remaining completed) +
     mset (filter (\<lambda>i. i \<notin> set (ready_tasks tasks remaining completed)) remaining)"
proof -
  let ?P = "\<lambda>i. set (dependencies_of tasks i) \<subseteq> set completed"
  have "filter (\<lambda>i. i \<notin> set (ready_tasks tasks remaining completed)) remaining = filter (\<lambda>i. \<not> ?P i) remaining"
    by (rule filter_cong) (auto simp: set_ready)
  then show ?thesis by (simp add: ready_tasks_def)
qed

lemma loop_schedule:
  assumes "validate_acyclic_loop tasks remaining completed = Inr ()"
    and "barrier_loop cd step tasks remaining completed bs = Some (Inr bs')"
    and "plain_ids remaining" "plain_ids completed"
  shows "\<exists>new. bs' = bs @ new \<and> schedule (dependencies_of tasks) step completed (length bs) new \<and>
    mset (concat (map ba_task_ids new)) = mset remaining"
  using assms
proof (induction tasks remaining completed arbitrary: bs rule: validate_acyclic_loop.induct)
  case (1 tasks remaining completed)
  let ?ready = "ready_tasks tasks remaining completed" and ?deps = "dependencies_of tasks"
  let ?rest = "filter (\<lambda>i. i \<notin> set ?ready) remaining"
  note plain = "1.prems"(3,4)
  show ?case
  proof (cases "remaining = []")
    case True
    then show ?thesis using "1.prems"(2) by (simp add: barrier_loop.simps)
  next
    case False
    have step: "?ready \<noteq> []" "validate_acyclic_loop tasks ?rest (completed @ ?ready) = Inr ()"
      using "1.prems"(1) False
      by (auto simp: validate_acyclic_loop.simps [of tasks remaining completed] Let_def split: if_splits)
    obtain c2 b2 where s: "slice_barriers cd step ?ready completed bs = Inr (c2, b2)"
      and rest: "barrier_loop cd step tasks ?rest c2 b2 = Some (Inr bs')"
      using "1.prems"(2) False
      by (auto simp: barrier_loop.simps [of cd step tasks remaining] Let_def split: sum.splits)
    have pr: "plain_ids ?ready" "plain_ids ?rest" using plain(1) by (auto intro: plain_sub simp: set_ready)
    have "sorted ?ready" "\<forall>i \<in> set ?ready. set (?deps i) \<subseteq> set completed" by (simp_all add: ready_tasks_def)
    from slice_schedule [OF s pr(1) plain(2) this] obtain n1 where
      n1: "b2 = bs @ n1" "schedule ?deps step completed (length bs) n1" "concat (map ba_task_ids n1) = ?ready" by blast
    have c2: "c2 = completed @ ?ready" by (rule slice_returns_completed [OF s])
    have "plain_ids (completed @ ?ready)" using plain(2) pr(1) by simp
    from "1.IH" [OF False refl step rest [unfolded c2] pr(2) this] obtain n2 where
      n2: "bs' = b2 @ n2" "schedule ?deps step c2 (length b2) n2" "mset (concat (map ba_task_ids n2)) = mset ?rest"
      unfolding c2 by blast
    have "mset (concat (map ba_task_ids (n1 @ n2))) = mset remaining"
      unfolding map_append concat_append mset_append n1(3) n2(3) by (rule mset_ready [symmetric])
    moreover have "schedule ?deps step completed (length bs) (n1 @ n2)"
      using n1 n2(2) c2 by (simp add: schedule_append)
    ultimately show ?thesis using n1(1) n2(1) by (intro exI [of _ "n1 @ n2"]) simp
  qed
qed

text \<open>A task on which all others are prerequisites comes alone and last.\<close>

lemma schedule_last:
  assumes "schedule deps width past n bs" "distinct (past @ concat (map ba_task_ids bs))"
    and "i \<in> set (concat (map ba_task_ids bs))" "set (past @ concat (map ba_task_ids bs)) - {i} \<subseteq> set (deps i)"
  shows "bs \<noteq> [] \<and> ba_task_ids (last bs) = [i]"
  using assms
proof (induction bs arbitrary: past n)
  case (Cons b bs)
  let ?rest = "concat (map ba_task_ids bs)"
  have sch: "schedule deps width (past @ ba_task_ids b) (n + 1) bs" "\<forall>j \<in> set (ba_task_ids b). set (deps j) \<subseteq> set past"
    using Cons.prems(1) by auto
  show ?case
  proof (cases "i \<in> set (ba_task_ids b)")
    case True
    then have sub: "set (deps i) \<subseteq> set past" using sch(2) by blast
    have "?rest = []"
    proof (rule ccontr)
      assume "?rest \<noteq> []"
      then obtain j where j: "j \<in> set ?rest" by (cases ?rest) auto
      then have "j \<noteq> i" "j \<notin> set past" using True Cons.prems(2) by auto
      then show False using j sub Cons.prems(4) by auto
    qed
    moreover have "ba_task_ids c \<noteq> []" if "c \<in> set bs" for c
      using sch(1) that by (induction bs arbitrary: past n b) (auto, metis append_assoc)
    ultimately have "bs = []" by (cases bs) auto
    have "set (ba_task_ids b) \<subseteq> {i}" using sub Cons.prems(2,4) by auto
    then have "ba_task_ids b = [i]"
      using True Cons.prems(2) by (cases "ba_task_ids b" rule: remdups_adj.cases) auto
    then show ?thesis using \<open>bs = []\<close> by simp
  next
    case False
    then show ?thesis using Cons.IH [OF sch(1)] Cons.prems(2-4) by auto
  qed
qed simp

definition constructed_tasks :: "AgentOrchestrationPlan \<Rightarrow> bool" where
  "constructed_tasks p \<longleftrightarrow> list_all (\<lambda>t. AgentTaskDefinition_post_init t = Inr t) (pl_tasks p)"

lemma constructed_task_id: "AgentTaskDefinition_post_init t = Inr t \<Longrightarrow> plan_text 128 (ta_task_id t) = Inr (ta_task_id t)"
proof -
  assume t: "AgentTaskDefinition_post_init t = Inr t"
  obtain i where i: "id_field 128 (ta_task_id t) = Inr i" "ta_task_id t = i"
  proof -
    from t obtain i where "id_field 128 (ta_task_id t) = Inr i"
      by (auto simp: AgentTaskDefinition_post_init_def result_simps)
    moreover from this t have "ta_task_id t = i"
      by (auto simp: AgentTaskDefinition_post_init_def result_simps Let_def dest: arg_cong [of _ _ ta_task_id])
    ultimately show ?thesis using that by blast
  qed
  then show ?thesis by (auto simp: id_field_def result_simps)
qed

text \<open>What the checks of a plan establish.\<close>

lemma plan_fields_spec:
  assumes "plan_fields p = Inr q"
  shows "pl_roles q = sort_key ro_id (pl_roles p)" "pl_tasks q = sort_key ta_task_id (pl_tasks p)"
    "pl_budget q = pl_budget p" "pl_root_input_contract q = pl_root_input_contract p"
    "pl_content_sha256 q = pl_content_sha256 p"
    "roles_valid (pl_roles q)" "pl_tasks q \<noteq> []" "int (length (pl_tasks q)) \<le> max_tasks (pl_budget q)"
    "distinct (map ta_task_id (pl_tasks q))"
    "list_all (task_valid (pl_roles q) (map ta_task_id (pl_tasks q)) (pl_root_input_contract q)) (pl_tasks q)"
    "aggregation_valid (pl_roles q) (pl_tasks q) (pl_aggregation_task_id q)"
    "runtime_valid (pl_roles q) (pl_tasks q) (pl_budget q)" "validate_acyclic (pl_tasks q) = Inr ()"
    "id_field 160 (pl_plan_id p) = Inr (pl_plan_id q)" "positive_int 1000000 (pl_revision p) = Inr (pl_revision q)"
    "id_field 128 (pl_aggregation_task_id p) = Inr (pl_aggregation_task_id q)"
  using assms by (auto simp: plan_fields_def Let_def result_simps)

lemma plan_post_init_Inr:
  assumes "AgentOrchestrationPlan_post_init cd p = Some (Inr q)"
  obtains q0 bs digest where "plan_fields p = Inr q0" "execution_barriers cd q0 = Some (Inr bs)"
    "int (length bs) \<le> max_checkpoints (pl_budget q0)"
    "declared_digest cd (plan_dict q0) (pl_content_sha256 p) = Inr digest" "q = q0\<lparr>pl_content_sha256 := digest\<rparr>"
  using assms
  by (auto simp: AgentOrchestrationPlan_post_init_def result_simps split: sum.splits option.splits)

lemma content_irrelevant [simp]:
  "execution_barriers cd (q\<lparr>pl_content_sha256 := d\<rparr>) = execution_barriers cd q"
  "plan_dict (q\<lparr>pl_content_sha256 := d\<rparr>) = plan_dict q"
  by (simp_all add: execution_barriers_def plan_dict_def)

lemma aggregation_dependencies:
  assumes "aggregation_valid roles tasks i"
  shows "i \<in> set (map ta_task_id tasks)" "set (dependencies_of tasks i) = set (map ta_task_id tasks) - {i}"
  using assms
  by (auto simp: aggregation_valid_def find_task_def dependencies_of_def split: option.splits dest!: find_SomeD)

lemma barriers_schedule:
  assumes "AgentOrchestrationPlan_post_init cd p = Some (Inr q)" "constructed_tasks p"
  shows "\<exists>bs. execution_barriers cd q = Some (Inr bs) \<and>
    schedule (dependencies_of (pl_tasks q)) (nat (max_concurrency (pl_budget q))) [] 0 bs \<and>
    mset (concat (map ba_task_ids bs)) = mset (map ta_task_id (pl_tasks q)) \<and>
    ba_task_ids (last bs) = [pl_aggregation_task_id q] \<and> int (length bs) \<le> max_checkpoints (pl_budget q)"
proof -
  obtain q0 bs digest where q0: "plan_fields p = Inr q0" "execution_barriers cd q0 = Some (Inr bs)"
    "int (length bs) \<le> max_checkpoints (pl_budget q0)" "q = q0\<lparr>pl_content_sha256 := digest\<rparr>"
    using plan_post_init_Inr [OF assms(1)] by metis
  note spec = plan_fields_spec [OF q0(1)]
  let ?ids = "map ta_task_id (pl_tasks q0)" and ?deps = "dependencies_of (pl_tasks q0)"
  have "plain_ids ?ids"
    using assms(2) constructed_task_id by (auto simp: plain_ids_def spec(2) constructed_tasks_def list_all_iff)
  from loop_schedule [OF spec(13) [unfolded validate_acyclic_def] q0(2) [unfolded execution_barriers_def] this]
  have sch: "schedule ?deps (nat (max_concurrency (pl_budget q0))) [] 0 bs"
    "mset (concat (map ba_task_ids bs)) = mset ?ids" by auto
  have ids: "set (concat (map ba_task_ids bs)) = set ?ids" "distinct (concat (map ba_task_ids bs))"
    using mset_eq_setD [OF sch(2)] mset_eq_imp_distinct_iff [OF sch(2)] spec(9) by auto
  note agg = aggregation_dependencies [OF spec(11)]
  have "ba_task_ids (last bs) = [pl_aggregation_task_id q0]"
    using schedule_last [OF sch(1), of "pl_aggregation_task_id q0"] unfolding append_Nil ids(1)
    using ids(2) agg by blast
  then show ?thesis using q0 sch by (intro exI [of _ bs]) simp
qed

text \<open>
  C38. The barriers of a constructed plan are a schedule: they are numbered from one, none is empty
  or holds more tasks than \<open>max_concurrency\<close>, each lists exactly the tasks of the barriers before
  it as completed and the dependencies of its tasks are among those, together they hold every
  task of the plan once, the aggregation task is alone in the last one, and there are no more
  barriers than checkpoints.
\<close>

theorem plan_barriers_schedule:
  assumes "AgentOrchestrationPlan_post_init cd p = Some (Inr q)" "constructed_tasks p"
  shows "\<exists>bs. execution_barriers cd q = Some (Inr bs) \<and>
    schedule (dependencies_of (pl_tasks q)) (nat (max_concurrency (pl_budget q))) [] 0 bs \<and>
    mset (concat (map ba_task_ids bs)) = mset (map ta_task_id (pl_tasks q)) \<and>
    ba_task_ids (last bs) = [pl_aggregation_task_id q] \<and> int (length bs) \<le> max_checkpoints (pl_budget q)"
  using assms by (rule barriers_schedule)

section \<open>Constructed plans\<close>

lemma plan_text_again: "plan_text n s = Inr t \<Longrightarrow> plan_text n t = Inr t"
  by (auto simp: plan_text_def Let_def result_simps)

lemma id_field_again: "id_field n s = Inr t \<Longrightarrow> id_field n t = Inr t"
  using plan_text_again by (auto simp: id_field_def result_simps)

text \<open>Printable ASCII text without spaces is accepted as it is.\<close>

lemma visible_text: "s \<noteq> [] \<Longrightarrow> length s \<le> n \<Longrightarrow> \<forall>c \<in> set s. 32 < c \<and> c < 127 \<Longrightarrow> plan_text n s = Inr s"
proof -
  assume s: "s \<noteq> []" "length s \<le> n" "\<forall>c \<in> set s. 32 < c \<and> c < 127"
  then have "py_strip s = s" by (intro py_strip_visible) (auto simp: py_isspace_def)
  then show ?thesis using s by (auto simp: plan_text_def list_ex_iff result_simps)
qed

lemma visible_id: "s \<noteq> [] \<Longrightarrow> length s \<le> n \<Longrightarrow> \<forall>c \<in> set s. 32 < c \<and> c < 127 \<Longrightarrow> id_field n s = Inr s"
  using visible_text [of s n] by (auto simp: id_field_def list_ex_iff result_simps py_isspace_def)

lemma visible_optional_id:
  "s \<noteq> [] \<Longrightarrow> length s \<le> n \<Longrightarrow> \<forall>c \<in> set s. 32 < c \<and> c < 127 \<Longrightarrow> optional_id_field n s = Inr s"
proof -
  assume s: "s \<noteq> []" "length s \<le> n" "\<forall>c \<in> set s. 32 < c \<and> c < 127"
  then have "py_strip s = s" by (intro py_strip_visible) (auto simp: py_isspace_def)
  then show ?thesis using s visible_id by (simp add: optional_id_field_def)
qed

lemma positive_int_Inr: "positive_int n v = Inr w \<longleftrightarrow> w = v \<and> 1 \<le> v \<and> v \<le> n"
  by (auto simp: positive_int_def result_simps)

lemma plan_sha256_normal: "hex64 s \<Longrightarrow> py_lower (py_strip s) = s"
proof -
  assume s: "hex64 s"
  have "py_strip s = s" using hex64_clean [OF s] by (simp add: clean_text_def)
  moreover have "lower_char c = [c]" if "c \<in> set s" for c
    using s that by (auto simp: hex64_def list_all_iff hex_digit_def lower_char_def)
  then have "py_lower s = concat (map (\<lambda>c. [c]) s)" unfolding py_lower_def by (metis map_cong)
  ultimately show ?thesis by simp
qed

lemma declared_digest_again:
  assumes "declared_digest cd j given = Inr digest" "\<And>b. hex64 (pc_sha256 cd b)"
  shows "declared_digest cd j digest = Inr digest"
proof -
  have d: "json_digest cd j = Inr digest"
    using assms(1) by (auto simp: declared_digest_def Let_def result_simps split: if_splits)
  then have h: "hex64 digest" using assms(2) by (auto simp: json_digest_def result_simps)
  then have "py_lower digest = digest" using plan_sha256_normal [of digest] hex64_clean [OF h] by (simp add: clean_text_def)
  then show ?thesis using d h plan_sha256_normal [OF h] hex64_clean [OF h]
    by (simp add: declared_digest_def plan_sha256_def clean_text_def)
qed

lemma plan_fields_again:
  assumes "plan_fields p = Inr q"
  shows "plan_fields (q\<lparr>pl_content_sha256 := d\<rparr>) = Inr (q\<lparr>pl_content_sha256 := d\<rparr>)"
proof -
  note spec = plan_fields_spec [OF assms]
  have "sort_key ro_id (pl_roles q) = pl_roles q" "sort_key ta_task_id (pl_tasks q) = pl_tasks q"
    by (simp_all add: spec(1,2))
  moreover have "positive_int 1000000 (pl_revision q) = Inr (pl_revision q)"
    using spec(15) by (simp add: positive_int_Inr)
  ultimately show ?thesis
    using spec(6-13) id_field_again [OF spec(14)] id_field_again [OF spec(16)]
    by (simp add: plan_fields_def Let_def result_simps)
qed

text \<open>The total of a limit over the tasks of a plan, every retry counted.\<close>

definition promised :: "(AgentTaskRuntimeBudget \<Rightarrow> int) \<Rightarrow> AgentOrchestrationPlan \<Rightarrow> int" where
  "promised f p = runtime_total f (pl_tasks p)"

lemma runtime_total_filter: "runtime_total f (filter (\<lambda>t. ta_runtime_policy t \<noteq> None) tasks) = runtime_total f tasks"
  by (induction tasks) (auto simp: runtime_total_def split: option.splits)

text \<open>
  C39. A constructed plan is of the type its class promises, and constructing it again from its own
  fields, as reading it back from storage does, gives the same plan: it has one coordinator, no
  task is the coordinator's, every dependency is a task of the plan, the aggregation depends on
  exactly the other tasks and none depends on it, the dependencies have no cycle, and the model
  calls, tokens, cost and tool calls that its tasks may use, with every retry, are within the
  budget of the plan when its tasks run on child runtimes.
\<close>

theorem constructed_plan_type:
  assumes "\<And>b. hex64 (pc_sha256 cd b)" "AgentOrchestrationPlan_post_init cd p = Some (Inr q)"
  shows "AgentOrchestrationPlan_post_init cd q = Some (Inr q) \<and>
    length (filter (\<lambda>r. ro_kind r = COORDINATOR) (pl_roles q)) = 1 \<and>
    list_all (task_valid (pl_roles q) (map ta_task_id (pl_tasks q)) (pl_root_input_contract q)) (pl_tasks q) \<and>
    set (dependencies_of (pl_tasks q) (pl_aggregation_task_id q)) =
      set (map ta_task_id (pl_tasks q)) - {pl_aggregation_task_id q} \<and>
    acyclic (depends (pl_tasks q)) \<and>
    (list_ex (\<lambda>t. ta_runtime_policy t \<noteq> None) (pl_tasks q) \<longrightarrow>
       promised tb_model_calls q \<le> max_model_calls (pl_budget q) \<and> promised tb_tokens q \<le> max_tokens (pl_budget q) \<and>
       promised tb_cost q \<le> max_cost_microunits (pl_budget q) \<and>
       promised tb_tool_calls q \<le> max_tool_calls (pl_budget q))"
proof -
  obtain q0 bs digest where q0: "plan_fields p = Inr q0" "execution_barriers cd q0 = Some (Inr bs)"
    "int (length bs) \<le> max_checkpoints (pl_budget q0)"
    "declared_digest cd (plan_dict q0) (pl_content_sha256 p) = Inr digest" "q = q0\<lparr>pl_content_sha256 := digest\<rparr>"
    using plan_post_init_Inr [OF assms(2)] by metis
  note spec = plan_fields_spec [OF q0(1)]
  have "AgentOrchestrationPlan_post_init cd q = Some (Inr q)"
    using q0 plan_fields_again [OF q0(1), of digest] declared_digest_again [OF q0(4) assms(1)]
    by (simp add: AgentOrchestrationPlan_post_init_def)
  moreover have "closed_tasks (pl_tasks q0)"
    using spec(10) by (auto simp: closed_tasks_def list_all_iff task_valid_def)
  then have "acyclic (depends (pl_tasks q0))" using spec(13) validate_acyclic_iff by blast
  moreover have "promised tb_model_calls q0 \<le> max_model_calls (pl_budget q0) \<and> promised tb_tokens q0 \<le> max_tokens (pl_budget q0) \<and>
       promised tb_cost q0 \<le> max_cost_microunits (pl_budget q0) \<and> promised tb_tool_calls q0 \<le> max_tool_calls (pl_budget q0)"
    if "list_ex (\<lambda>t. ta_runtime_policy t \<noteq> None) (pl_tasks q0)"
    using spec(12) that unfolding runtime_valid_def Let_def runtime_total_filter promised_def
    by (auto simp: filter_empty_conv list_ex_iff)
  ultimately show ?thesis
    using spec(6,10) aggregation_dependencies(2) [OF spec(11)] by (auto simp: q0(5) roles_valid_def promised_def)
qed

end
