(* ===== verification/Agent_Scheduler_Correct.thy ===== *)
theory Agent_Scheduler_Correct
  imports Agent_Scheduler Agent_Plan_Correct Runtime_Budget_Properties
begin

text \<open>
  The batch of a barrier and the budget account, under every order of the events: the reservations
  a batch holds are those of its tasks at the executor, and when there are none of these the account
  has the reservations it began with.
\<close>

section \<open>The budget account\<close>

lemma same_books_reservations: "same_books a b \<Longrightarrow> reservations b = reservations a"
  by (auto simp: same_books_def)

lemma set_state_reservations [simp]: "reservations (set_state scope st a) = reservations a"
  by (cases scope) (simp_all add: set_state_def)

lemma emit_reservations [simp]: "reservations (emit scope op' allow reason resource st a) = reservations a"
  by (simp add: emit_def)

lemma foldl_reservations:
  assumes "\<And>a s. reservations (f a s) = reservations a"
  shows "reservations (foldl f a scopes) = reservations a"
  by (induction scopes arbitrary: a) (simp_all add: assms)

lemma charge_reservations [simp]: "reservations (charge scopes op' reason resource x a) = reservations a"
  unfolding charge_def by (rule foldl_reservations) (simp add: charge_scope_def Let_def)

lemma deny_reservations: "deny scope op' reason resource a = (r, b) \<Longrightarrow> reservations b = reservations a"
  using deny_books same_books_reservations by blast

lemma check_time_reservations:
  "check_time t k a = (r, b) \<Longrightarrow> (\<And>r b. k a = (r, b) \<Longrightarrow> reservations b = reservations a) \<Longrightarrow>
     reservations b = reservations a"
  by (auto simp: check_time_def dest: deny_reservations split: option.splits)

lemma check_subagent_time_reservations:
  "check_subagent_time t op' resource k a = (r, b) \<Longrightarrow> (\<And>r b. k a = (r, b) \<Longrightarrow> reservations b = reservations a) \<Longrightarrow>
     reservations b = reservations a"
  by (auto simp: check_subagent_time_def dest: deny_reservations split: if_splits)

lemma remaining_reservations: "remaining_time_seconds t1 t2 a = (r, b) \<Longrightarrow> reservations b = reservations a"
  unfolding remaining_time_seconds_def by (erule check_time_reservations) simp

lemma subagent_remaining_reservations:
  "subagent_remaining_time_seconds t1 t2 t3 t4 t5 a = (r, b) \<Longrightarrow> reservations b = reservations a"
  unfolding subagent_remaining_time_seconds_def
  by (erule check_time_reservations, erule check_subagent_time_reservations)
    (auto dest: remaining_reservations split: prod.splits sum.splits)

lemma record_subagent_reservations:
  "record_subagent_usage u mc tc t1 t2 a = (r, b) \<Longrightarrow> reservations b = reservations a"
proof (cases "mc < 0 \<or> tc < 0")
  case False
  assume "record_subagent_usage u mc tc t1 t2 a = (r, b)"
  then show ?thesis unfolding record_subagent_usage_def if_not_P [OF False] Let_def
    by (elim check_time_reservations check_subagent_time_reservations)
      (auto dest: deny_reservations simp del: first_refusal.simps split: option.splits prod.splits)
qed (simp add: record_subagent_usage_def)

text \<open>A new reservation is appended to the reservations, under a name that is not in use.\<close>

lemma reserve_call_appends:
  assumes "account_inv a" "reserve_call scope op' resource a = (r, b)"
  obtains res where "r = Inr res" "reservations b = reservations a @ [(br_id res, res)]"
    "br_id res \<notin> fst ` set (reservations a)" "br_turn_id res = ri_turn_id (identity a)"
proof -
  let ?res = "\<lparr>br_id = call_id (ri_run_id (identity a)) (reservation_sequence a + 1), br_scope = scope,
    br_turn_id = ri_turn_id (identity a)\<rparr>"
  have new: "br_id ?res \<notin> fst ` set (reservations a)"
    using fresh_ids(1) [of a "reservation_sequence a + 1"] account_invD(2) [OF assms(1)] by simp
  have "r = Inr ?res" "reservations b = dict_set (br_id ?res) ?res (reservations a)"
    using assms(2) by (auto simp: reserve_call_def Let_def call_id_def)
  then show ?thesis using that [of ?res] new by (simp add: dict_set_new)
qed

lemma reserve_subagent_appends:
  assumes "account_inv a" "reserve_subagent name t1 t2 a = (Inr res, b)"
  shows "reservations b = reservations a @ [(br_id res, res)] \<and> br_id res \<notin> fst ` set (reservations a) \<and>
    br_turn_id res = ri_turn_id (identity a)"
proof -
  obtain agent where "reserve_call SUBAGENT_SCOPE (lit ''subagent_reservation'') agent a = (Inr res, b)"
    using assms(2)
    by (auto simp: reserve_subagent_def check_time_def check_subagent_time_def Let_def deny_def simp del: first_refusal.simps
        split: option.splits if_splits)
  then show ?thesis using reserve_call_appends [OF assms(1)] by blast
qed

lemma reserve_subagent_refused:
  assumes "account_inv a" "reserve_subagent name t1 t2 a = (Inl e, b)"
  shows "reservations b = reservations a"
proof -
  have "same_books a b"
    using assms(2)
    by (auto simp: reserve_subagent_def check_time_def check_subagent_time_def Let_def deny_def reserve_call_def
        simp del: first_refusal.simps split: option.splits if_splits)
  then show ?thesis by (rule same_books_reservations)
qed

lemma release_pops:
  assumes "release res a = (Inr (), b)"
  shows "reservations b = dict_pop (br_id res) (reservations a)"
proof -
  have scope: "reservations (release_scope x s) = reservations x" for x s by (simp add: release_scope_def)
  show ?thesis
    using assms foldl_reservations [of release_scope, OF scope]
    by (auto simp: release_def Let_def simp del: foldl.simps split: option.splits if_splits)
qed

lemma same_identity:
  "reserve_subagent name t1 t2 a = (r1, b) \<Longrightarrow> identity b = identity a"
  "record_subagent_usage u mc tc t1 t2 a = (r2, b) \<Longrightarrow> identity b = identity a"
  "release res a = (r3, b) \<Longrightarrow> identity b = identity a"
  "subagent_remaining_time_seconds t1 t2 t3 t4 t5 a = (r4, b) \<Longrightarrow> identity b = identity a"
  using orderly_calls(3) [of a name t1 t2] orderly_calls(5) [of a u mc tc t1 t2] orderly_calls(6) [of a res]
    orderly_times(2) [of a t1 t2 t3 t4 t5]
  by (auto simp: orderly_def same_policy_def)

section \<open>Reservations of a batch\<close>

text \<open>An executor that returns an output returns one that its constructor accepted; the same for an error.\<close>

definition work_ok :: "plan_codec \<Rightarrow> work \<Rightarrow> bool" where
  "work_ok cd w \<longleftrightarrow>
     (case w of
        Work_returned out \<Rightarrow> (\<exists>raw. AgentTaskOutput_post_init cd raw = Inr out)
      | Work_raised (Attempt_orchestration code summary action) \<Rightarrow> (\<exists>raw. id_field 128 raw = Inr code)
      | _ \<Rightarrow> True)"

fun event_ok :: "plan_codec \<Rightarrow> batch_event \<Rightarrow> bool" where
  "event_ok cd (Attempt_ends i w en) = work_ok cd w"
| "event_ok cd _ = True"

lemma constructed_output:
  assumes "AgentTaskOutput_post_init cd raw = Inr out"
  shows "RuntimeUsage_valid (to_usage out)" "0 \<le> to_model_calls out" "0 \<le> to_tool_calls out"
    "\<exists>n. json_size cd (output_dict out) = Inr n \<and> 0 \<le> n"
  using assms
  by (auto simp: AgentTaskOutput_post_init_def result_simps Let_def in_range_def RuntimeUsage_valid_def json_size_def)

text \<open>The account after a part of an attempt: well formed, and of the same run.\<close>

definition account_kept :: "shared \<Rightarrow> shared \<Rightarrow> bool" where
  "account_kept sh sh' \<longleftrightarrow>
     account_inv (sh_account sh') \<and> identity (sh_account sh') = identity (sh_account sh)"

lemma account_kept_trans: "account_kept s t \<Longrightarrow> account_kept t u \<Longrightarrow> account_kept s u"
  by (simp add: account_kept_def)

text \<open>A reservation of the run's turn that is outstanding.\<close>

definition outstanding :: "BudgetAccount \<Rightarrow> RuntimeBudgetReservation \<Rightarrow> bool" where
  "outstanding a res \<longleftrightarrow> dict_get (reservations a) (br_id res) = Some res \<and> br_turn_id res = ri_turn_id (identity a)"

definition held :: "task_run \<Rightarrow> RuntimeBudgetReservation option" where
  "held r = (case r of Executing _ ra _ _ \<Rightarrow> ra_reservation ra | _ \<Rightarrow> None)"

lemma begin_attempt_reserves:
  assumes "begin_attempt cd bc t outcomes st sh = (r, ra, sh')" "account_inv (sh_account sh)"
  shows "account_kept sh sh' \<and> sh_usage sh' = sh_usage sh \<and> sh_cancel sh' = sh_cancel sh \<and>
    (case ra_reservation ra of
       None \<Rightarrow> (\<exists>e. r = Inl e) \<and> reservations (sh_account sh') = reservations (sh_account sh)
     | Some res \<Rightarrow> reservations (sh_account sh') = reservations (sh_account sh) @ [(br_id res, res)] \<and>
         br_id res \<notin> fst ` set (reservations (sh_account sh)) \<and> br_turn_id res = ri_turn_id (identity (sh_account sh)))"
proof -
  let ?name = "ta_task_id t @ lit '':attempt:'' @ py_digits (length outcomes + 1)"
  obtain q a where q: "reserve_subagent ?name (fst (st_reserve st)) (snd (st_reserve st)) (sh_account sh) = (q, a)"
    by fastforce
  note a = reserve_subagent_inv [OF q assms(2)] same_identity(1) [OF q]
  obtain t1 t2 t3 t4 t5 where rem: "st_remaining st = (t1, t2, t3, t4, t5)" by (cases "st_remaining st") auto
  show ?thesis
  proof (cases q)
    case (Inl e)
    then show ?thesis
      using assms(1) a q reserve_subagent_refused [OF assms(2) q [unfolded Inl]]
      by (auto simp: begin_attempt_def Let_def account_kept_def)
  next
    case (Inr res)
    obtain z a' where z: "subagent_remaining_time_seconds t1 t2 t3 t4 t5 a = (z, a')" by fastforce
    note a' = times_inv(3) [OF a(1) z] same_identity(4) [OF z] subagent_remaining_reservations [OF z]
    have "(\<exists>e. (r, ra, sh') = (Inl e, ra, sh\<lparr>sh_account := a\<rparr>)) \<or> sh' = sh\<lparr>sh_account := a'\<rparr>" "ra_reservation ra = Some res"
      using assms(1) unfolding begin_attempt_def Let_def q Inr rem
      by (auto simp: z split: sum.splits)
    then show ?thesis
      using a a' reserve_subagent_appends [OF assms(2) q [unfolded Inr]] by (auto simp: account_kept_def)
  qed
qed

lemma release_reservation_pops:
  assumes "release_reservation (Some res) x sh = (x', sh')" "account_inv (sh_account sh)" "outstanding (sh_account sh) res"
  shows "x' = x \<and> account_kept sh sh' \<and> sh_usage sh' = sh_usage sh \<and> sh_cancel sh' = sh_cancel sh \<and>
    reservations (sh_account sh') = dict_pop (br_id res) (reservations (sh_account sh))"
proof -
  obtain b where b: "release res (sh_account sh) = (Inr (), b)" "account_inv b"
    using release_outstanding [OF assms(2)] assms(3) unfolding outstanding_def by blast
  then show ?thesis
    using assms(1) same_identity(3) [OF b(1)] release_pops [OF b(1)] by (auto simp: release_reservation_def account_kept_def)
qed

lemma after_attempt_idle: "held (after_attempt bc t clock cancel outcomes r) = None"
  by (auto simp: after_attempt_def held_def finish_series_def Let_def split: sum.splits)

lemma conclude_releases:
  assumes "conclude cd bc t outcomes ra en r sh = (run, sh')" "account_inv (sh_account sh)"
    and "\<And>res. ra_reservation ra = Some res \<Longrightarrow> outstanding (sh_account sh) res"
  shows "held run = None \<and> account_kept sh sh' \<and> sh_usage sh' = sh_usage sh \<and> sh_cancel sh' = sh_cancel sh \<and>
    reservations (sh_account sh') =
      (case ra_reservation ra of None \<Rightarrow> reservations (sh_account sh)
       | Some res \<Rightarrow> dict_pop (br_id res) (reservations (sh_account sh)))"
proof -
  obtain x where x: "end_attempt cd t (length outcomes + 1) ra en r sh = (x, sh')"
    "run = after_attempt bc t (en_retry_clock en) (sh_cancel sh') outcomes x"
    using assms(1) by (auto simp: conclude_def split: prod.splits)
  show ?thesis
  proof (cases "ra_reservation ra")
    case None
    then show ?thesis using x assms(2) by (auto simp: end_attempt_def release_reservation_def account_kept_def after_attempt_idle)
  next
    case (Some res)
    show ?thesis
      using release_reservation_pops [OF x(1) [unfolded end_attempt_def Some] assms(2) assms(3) [OF Some]] Some
      by (auto simp: x(2) after_attempt_idle)
  qed
qed

lemma pop_appended: "k \<notin> fst ` set d \<Longrightarrow> dict_pop k (d @ [(k, v)]) = d"
  by (force simp: AList.delete_eq filter_id_conv)

lemma get_appended:
  "k \<notin> fst ` set d \<Longrightarrow> dict_get (d @ [(k, v)]) k' = (if k' = k then Some v else dict_get d k')"
  by (induction d) auto

lemma start_attempt_holds:
  assumes "start_attempt cd bc t outcomes st en sh = (run, sh')" "account_inv (sh_account sh)"
  shows "account_kept sh sh' \<and> sh_usage sh' = sh_usage sh \<and> sh_cancel sh' = sh_cancel sh \<and>
    (case held run of
       None \<Rightarrow> (\<forall>os ra cx tm. run \<noteq> Executing os ra cx tm) \<and>
               reservations (sh_account sh') = reservations (sh_account sh)
     | Some res \<Rightarrow> reservations (sh_account sh') = reservations (sh_account sh) @ [(br_id res, res)] \<and>
         br_id res \<notin> fst ` set (reservations (sh_account sh)) \<and> br_turn_id res = ri_turn_id (identity (sh_account sh)))"
proof -
  obtain r ra sh1 where b: "begin_attempt cd bc t outcomes st sh = (r, ra, sh1)" by (metis prod_cases3)
  note spec = begin_attempt_reserves [OF b assms(2)]
  show ?thesis
  proof (cases r)
    case (Inl e)
    have run: "conclude cd bc t outcomes ra en (Inl e) sh1 = (run, sh')"
      using assms(1) by (simp add: start_attempt_def b Inl)
    have out: "outstanding (sh_account sh1) res" if "ra_reservation ra = Some res" for res
      using spec that get_appended [of "br_id res" "reservations (sh_account sh)" res "br_id res"]
      by (simp add: outstanding_def account_kept_def del: map_of_append)
    have idle: "\<forall>os ra cx tm. run \<noteq> Executing os ra cx tm"
      using run by (auto simp: conclude_def after_attempt_def finish_series_def Let_def split: prod.splits sum.splits if_splits)
    from conclude_releases [OF run _ out] spec idle show ?thesis
      by (auto simp: account_kept_def pop_appended split: option.splits)
  next
    case (Inr cx)
    then show ?thesis using assms(1) spec
      by (cases cx; cases "ra_reservation ra") (simp_all add: start_attempt_def b held_def, force?)
  qed
qed

lemma record_usage_keeps:
  assumes "record_task_usage cd b out t1 t2 sh = (r, sh')" "account_inv (sh_account sh)" "RuntimeUsage_valid (to_usage out)"
  shows "account_kept sh sh' \<and> reservations (sh_account sh') = reservations (sh_account sh) \<and> sh_cancel sh' = sh_cancel sh"
proof (cases "json_size cd (output_dict out)")
  case (Inr n)
  obtain q a where q: "record_subagent_usage (to_usage out) (to_model_calls out) (to_tool_calls out) t1 t2 (sh_account sh) = (q, a)"
    by fastforce
  from record_subagent_usage_inv [OF q assms(2,3)] record_subagent_reservations [OF q] same_identity(2) [OF q] assms(1)
  show ?thesis by (auto simp: record_task_usage_def Inr q Let_def account_kept_def split: sum.splits option.splits)
qed (use assms in \<open>auto simp: record_task_usage_def account_kept_def\<close>)

lemma judge_output_keeps:
  assumes "judge_output sd bc t n ra en out sh = (r, sh')" "account_inv (sh_account sh)" "RuntimeUsage_valid (to_usage out)"
  shows "account_kept sh sh' \<and> reservations (sh_account sh') = reservations (sh_account sh) \<and> sh_cancel sh' = sh_cancel sh"
proof (cases "output_accepted (sd_codec sd) t out")
  case True
  obtain q sh1 where q: "record_task_usage (sd_codec sd) (pl_budget (rq_plan (bc_request bc))) out (fst (en_usage en))
      (snd (en_usage en)) sh = (q, sh1)" by fastforce
  from record_usage_keeps [OF q assms(2,3)] assms(1) True show ?thesis
    by (auto simp: judge_output_def q split: sum.splits)
qed (use assms in \<open>auto simp: judge_output_def account_kept_def\<close>)

lemma finish_attempt_releases:
  assumes "finish_attempt sd bc t outcomes ra en w sh = (run, sh')" "account_inv (sh_account sh)" "work_ok (sd_codec sd) w"
    and "ra_reservation ra = Some res" "outstanding (sh_account sh) res"
  shows "held run = None \<and> account_kept sh sh' \<and> sh_cancel sh' = sh_cancel sh \<and>
    reservations (sh_account sh') = dict_pop (br_id res) (reservations (sh_account sh))"
proof (cases "await_executor (sh_cancel sh \<noteq> None) w")
  case (Inl e)
  then have "conclude (sd_codec sd) bc t outcomes ra en (Inl e) sh = (run, sh')"
    using assms(1) by (simp add: finish_attempt_def)
  from conclude_releases [OF this assms(2)] assms(4,5) show ?thesis by auto
next
  case (Inr out)
  then have "w = Work_returned out" by (auto simp: await_executor_def Let_def split: if_splits work.splits)
  then have valid: "RuntimeUsage_valid (to_usage out)" using assms(3) constructed_output by (auto simp: work_ok_def)
  obtain r sh1 where j: "judge_output sd bc t (length outcomes + 1) ra en out sh = (r, sh1)" by fastforce
  note kept = judge_output_keeps [OF j assms(2) valid]
  have "conclude (sd_codec sd) bc t outcomes ra en r sh1 = (run, sh')"
    using assms(1) Inr j by (simp add: finish_attempt_def)
  from conclude_releases [OF this] kept assms(4,5) show ?thesis
    by (auto simp: account_kept_def outstanding_def)
qed

text \<open>
  The reservations a batch holds are those of its executing tasks, each of them outstanding and
  of one task only; without them the account has the reservations it began with.
\<close>

definition held_by :: "batch \<Rightarrow> pystr \<Rightarrow> RuntimeBudgetReservation option" where
  "held_by b i = Option.bind (dict_get (bt_runs b) i) held"

definition held_ids :: "batch \<Rightarrow> pystr set" where
  "held_ids b = {k. \<exists>i res. held_by b i = Some res \<and> br_id res = k}"

definition is_executing :: "task_run \<Rightarrow> bool" where
  "is_executing r \<longleftrightarrow> (case r of Executing _ _ _ _ \<Rightarrow> True | _ \<Rightarrow> False)"

definition reservations_inv :: "BudgetAccount \<Rightarrow> batch \<Rightarrow> bool" where
  "reservations_inv a0 b \<longleftrightarrow>
     (let a = sh_account (bt_shared b)
      in account_inv a \<and> identity a = identity a0 \<and>
         (\<forall>i r. dict_get (bt_runs b) i = Some r \<longrightarrow> is_executing r \<longrightarrow> held r \<noteq> None) \<and>
         (\<forall>i res. held_by b i = Some res \<longrightarrow> outstanding a res) \<and>
         (\<forall>i j res res'. held_by b i = Some res \<longrightarrow> held_by b j = Some res' \<longrightarrow> br_id res = br_id res' \<longrightarrow> i = j) \<and>
         filter (\<lambda>kv. fst kv \<notin> held_ids b) (reservations a) = reservations a0)"

lemma reservations_invD:
  assumes "reservations_inv a0 b"
  shows "account_inv (sh_account (bt_shared b))" "identity (sh_account (bt_shared b)) = identity a0"
    "dict_get (bt_runs b) i = Some r \<Longrightarrow> is_executing r \<Longrightarrow> held r \<noteq> None"
    "held_by b i = Some res \<Longrightarrow> outstanding (sh_account (bt_shared b)) res"
    "held_by b i = Some res \<Longrightarrow> held_by b j = Some res' \<Longrightarrow> br_id res = br_id res' \<Longrightarrow> i = j"
    "filter (\<lambda>kv. fst kv \<notin> held_ids b) (reservations (sh_account (bt_shared b))) = reservations a0"
  using assms unfolding reservations_inv_def Let_def by blast+

lemma reservations_invI:
  assumes "account_inv (sh_account (bt_shared b))" "identity (sh_account (bt_shared b)) = identity a0"
    and "\<And>i r. dict_get (bt_runs b) i = Some r \<Longrightarrow> is_executing r \<Longrightarrow> held r \<noteq> None"
    and "\<And>i res. held_by b i = Some res \<Longrightarrow> outstanding (sh_account (bt_shared b)) res"
    and "\<And>i j res res'. held_by b i = Some res \<Longrightarrow> held_by b j = Some res' \<Longrightarrow> br_id res = br_id res' \<Longrightarrow> i = j"
    and "filter (\<lambda>kv. fst kv \<notin> held_ids b) (reservations (sh_account (bt_shared b))) = reservations a0"
  shows "reservations_inv a0 b"
  using assms unfolding reservations_inv_def Let_def by blast

lemma held_by_set: "held_by (set_run i r b) j = (if j = i then held (fst r) else held_by b j)"
  by (simp add: held_by_def set_run_def)

text \<open>Three kinds of change: nothing is held before or after, something is taken, something is given back.\<close>

lemma reservations_quiet:
  assumes "reservations_inv a0 b" "held_by b i = None" "held (fst r) = None" "\<not> is_executing (fst r)"
    and "account_kept (bt_shared b) (snd r)"
    and "reservations (sh_account (snd r)) = reservations (sh_account (bt_shared b))"
  shows "reservations_inv a0 (set_run i r b)"
proof -
  note D = reservations_invD [OF assms(1)]
  have held: "held_by (set_run i r b) = held_by b" using assms(2,3) by (auto simp: held_by_set)
  have out: "outstanding (sh_account (snd r)) = outstanding (sh_account (bt_shared b))"
    using assms(5,6) by (auto simp: outstanding_def account_kept_def)
  have sh: "bt_shared (set_run i r b) = snd r" by (simp add: set_run_def)
  have ids: "held_ids (set_run i r b) = held_ids b" by (simp add: held_ids_def held)
  show ?thesis
  proof (rule reservations_invI, unfold sh held ids out)
    show "held r' \<noteq> None" if "dict_get (bt_runs (set_run i r b)) j = Some r'" "is_executing r'" for j r'
      using that D(3) [of j r'] assms(4) by (auto simp: set_run_def split: if_splits)
  qed (use D(1,2,6) assms(5,6) in \<open>simp_all add: account_kept_def\<close>, (rule D(4,5); assumption)+)
qed

lemma reservations_taken:
  assumes "reservations_inv a0 b" "held_by b i = None" "held (fst r) = Some res"
    and "account_kept (bt_shared b) (snd r)" "br_turn_id res = ri_turn_id (identity (sh_account (bt_shared b)))"
    and "reservations (sh_account (snd r)) = reservations (sh_account (bt_shared b)) @ [(br_id res, res)]"
    and "br_id res \<notin> fst ` set (reservations (sh_account (bt_shared b)))"
  shows "reservations_inv a0 (set_run i r b)"
proof -
  note D = reservations_invD [OF assms(1)]
  let ?a = "sh_account (bt_shared b)" and ?a' = "sh_account (snd r)"
  have sh: "bt_shared (set_run i r b) = snd r" by (simp add: set_run_def)
  have ids: "held_ids (set_run i r b) = insert (br_id res) (held_ids b)"
  proof (rule set_eqI)
    fix k
    have "(\<exists>j x. held_by (set_run i r b) j = Some x \<and> br_id x = k) \<longleftrightarrow>
        k = br_id res \<or> (\<exists>j x. held_by b j = Some x \<and> br_id x = k)"
      unfolding held_by_set using assms(2,3) by (metis option.discI option.inject)
    then show "k \<in> held_ids (set_run i r b) \<longleftrightarrow> k \<in> insert (br_id res) (held_ids b)" by (simp add: held_ids_def)
  qed
  have other: "br_id res' \<noteq> br_id res" if "held_by b j = Some res'" for j res'
    using D(4) [OF that] assms(7) unfolding outstanding_def by (metis fst_conv image_eqI map_of_SomeD)
  have get: "dict_get (reservations ?a') k = (if k = br_id res then Some res else dict_get (reservations ?a) k)" for k
    unfolding assms(6) by (rule get_appended [OF assms(7)])
  show ?thesis
  proof (rule reservations_invI)
    show "held r' \<noteq> None" if "dict_get (bt_runs (set_run i r b)) j = Some r'" "is_executing r'" for j r'
      using that D(3) [of j r'] assms(3) by (auto simp: set_run_def split: if_splits)
    show "outstanding (sh_account (bt_shared (set_run i r b))) res'" if "held_by (set_run i r b) j = Some res'" for j res'
      using that assms(3-5) D(4) [of j res'] other [of j res'] unfolding outstanding_def sh get account_kept_def held_by_set
      by (auto split: if_splits)
    show "j = k" if "held_by (set_run i r b) j = Some x" "held_by (set_run i r b) k = Some y" "br_id x = br_id y" for j k x y
      using that D(5) [of j x k y] other [of j x] other [of k y] assms(3) unfolding held_by_set by (auto split: if_splits)
    have "filter (\<lambda>kv. fst kv \<notin> insert (br_id res) (held_ids b)) (reservations ?a') =
        filter (\<lambda>kv. fst kv \<notin> held_ids b) (reservations ?a)"
      unfolding assms(6) using assms(7) by (simp, intro filter_cong refl) (metis image_eqI insert_iff)
    then show "filter (\<lambda>kv. fst kv \<notin> held_ids (set_run i r b)) (reservations (sh_account (bt_shared (set_run i r b)))) =
        reservations a0"
      unfolding ids sh using D(6) by simp
  qed (use D(1,2) assms(4) in \<open>simp_all add: sh account_kept_def\<close>)
qed

lemma reservations_given_back:
  assumes "reservations_inv a0 b" "held_by b i = Some res" "held (fst r) = None" "\<not> is_executing (fst r)"
    and "account_kept (bt_shared b) (snd r)"
    and "reservations (sh_account (snd r)) = dict_pop (br_id res) (reservations (sh_account (bt_shared b)))"
  shows "reservations_inv a0 (set_run i r b)"
proof -
  note D = reservations_invD [OF assms(1)]
  let ?a = "sh_account (bt_shared b)" and ?a' = "sh_account (snd r)"
  have sh: "bt_shared (set_run i r b) = snd r" by (simp add: set_run_def)
  have other: "br_id res' \<noteq> br_id res" if "held_by b j = Some res'" "j \<noteq> i" for j res'
    using D(5) [OF that(1) assms(2)] that(2) by blast
  have ids: "held_ids (set_run i r b) = held_ids b - {br_id res}"
  proof (rule set_eqI)
    fix k
    have "(\<exists>j x. held_by (set_run i r b) j = Some x \<and> br_id x = k) \<longleftrightarrow> (\<exists>j x. j \<noteq> i \<and> held_by b j = Some x \<and> br_id x = k)"
      unfolding held_by_set using assms(3) by (metis option.discI)
    also have "\<dots> \<longleftrightarrow> (\<exists>j x. held_by b j = Some x \<and> br_id x = k) \<and> k \<noteq> br_id res"
      using other assms(2) by (metis option.inject)
    finally show "k \<in> held_ids (set_run i r b) \<longleftrightarrow> k \<in> held_ids b - {br_id res}"
      by (simp add: held_ids_def)
  qed
  show ?thesis
  proof (rule reservations_invI)
    show "held r' \<noteq> None" if "dict_get (bt_runs (set_run i r b)) j = Some r'" "is_executing r'" for j r'
      using that D(3) [of j r'] assms(4) by (auto simp: set_run_def split: if_splits)
    show "outstanding (sh_account (bt_shared (set_run i r b))) res'" if "held_by (set_run i r b) j = Some res'" for j res'
      using that assms(3,5) D(4) [of j res'] other [of j res'] unfolding outstanding_def sh assms(6) account_kept_def held_by_set
      by (auto split: if_splits)
    show "j = k" if "held_by (set_run i r b) j = Some x" "held_by (set_run i r b) k = Some y" "br_id x = br_id y" for j k x y
      using that D(5) [of j x k y] assms(3) unfolding held_by_set by (auto split: if_splits)
    have "br_id res \<in> held_ids b" using assms(2) unfolding held_ids_def by blast
    then have "filter (\<lambda>kv. fst kv \<notin> held_ids b - {br_id res}) (reservations ?a') =
        filter (\<lambda>kv. fst kv \<notin> held_ids b) (reservations ?a)"
      unfolding assms(6) AList.delete_eq filter_filter by (intro filter_cong) auto
    then show "filter (\<lambda>kv. fst kv \<notin> held_ids (set_run i r b)) (reservations (sh_account (bt_shared (set_run i r b)))) =
        reservations a0"
      unfolding ids sh using D(6) by simp
  qed (use D(1,2) assms(5) in \<open>simp_all add: sh account_kept_def\<close>)
qed

lemma finish_series_idle [simp]: "held (finish_series outcomes) = None" "\<not> is_executing (finish_series outcomes)"
  by (simp_all add: held_def is_executing_def finish_series_def split: sum.splits)

lemma held_simps [simp]:
  "held (Ready os) = None" "held (Waiting os) = None" "held (Finished os) = None" "held Crashed = None"
  "held (Executing os ra cx tm) = ra_reservation ra" "is_executing (Executing os ra cx tm)"
  "\<not> is_executing (Ready os)" "\<not> is_executing (Waiting os)" "\<not> is_executing (Finished os)" "\<not> is_executing Crashed"
  by (simp_all add: held_def is_executing_def)

lemma batch_step_reservations:
  assumes "batch_step sd bc e b = Some b'" "event_ok (sd_codec sd) e" "reservations_inv a0 b"
  shows "reservations_inv a0 b'"
proof -
  note D = reservations_invD [OF assms(3)]
  show ?thesis
  proof (cases e)
    case (Attempt_starts i st en)
    then obtain t os where t: "plan_task bc i = Some t" "dict_get (bt_runs b) i = Some (Ready os)"
      "b' = set_run i (start_attempt (sd_codec sd) bc t os st en (bt_shared b)) b"
      using assms(1) by (auto split: option.splits task_run.splits)
    obtain run sh' where run: "start_attempt (sd_codec sd) bc t os st en (bt_shared b) = (run, sh')" by fastforce
    note spec = start_attempt_holds [OF run D(1)]
    have none: "held_by b i = None" by (simp add: held_by_def t(2))
    show ?thesis
    proof (cases "held run")
      case None
      then have "\<not> is_executing run" using spec by (auto simp: is_executing_def split: task_run.splits)
      then show ?thesis unfolding t(3) run using None spec
        by (intro reservations_quiet [OF assms(3) none]) auto
    next
      case (Some res)
      then show ?thesis unfolding t(3) run using spec by (intro reservations_taken [OF assms(3) none]) auto
    qed
  next
    case (Attempt_ends i w en)
    then obtain t os ra cx tm where t: "plan_task bc i = Some t" "dict_get (bt_runs b) i = Some (Executing os ra cx tm)"
      "b' = set_run i (finish_attempt sd bc t os ra en w (bt_shared b)) b"
      using assms(1) by (auto split: option.splits task_run.splits)
    obtain run sh' where run: "finish_attempt sd bc t os ra en w (bt_shared b) = (run, sh')" by fastforce
    obtain res where res: "ra_reservation ra = Some res" using D(3) [OF t(2)] by auto
    then have by_i: "held_by b i = Some res" by (simp add: held_by_def t(2))
    have "work_ok (sd_codec sd) w" using assms(2) by (simp add: Attempt_ends)
    note spec = finish_attempt_releases [OF run D(1) this res D(4) [OF by_i]]
    have "\<not> is_executing run"
      using run by (auto simp: finish_attempt_def conclude_def after_attempt_def Let_def split: sum.splits prod.splits if_splits)
    then show ?thesis unfolding t(3) run using spec by (intro reservations_given_back [OF assms(3) by_i]) auto
  next
    case (Wait_ends i)
    then obtain os where t: "dict_get (bt_runs b) i = Some (Waiting os)"
      "b' = set_run i (if sh_cancel (bt_shared b) \<noteq> None then finish_series os else Ready os, bt_shared b) b"
      using assms(1) by (auto split: option.splits task_run.splits)
    have "held_by b i = None" by (simp add: held_by_def t(1))
    then show ?thesis unfolding t(2) using D(1)
      by (intro reservations_quiet [OF assms(3)]) (auto simp: account_kept_def)
  next
    case (Cancel_requested reason)
    then have b': "bt_runs b' = bt_runs b" "sh_account (bt_shared b') = sh_account (bt_shared b)"
      using assms(1) by auto
    then have "held_by b' = held_by b" by (auto simp: held_by_def)
    then show ?thesis using assms(3) unfolding reservations_inv_def held_ids_def b' by simp
  qed
qed

text \<open>One event of a batch, as a step relation; a run of events is a path of it.\<close>

definition batch_moves :: "scheduler \<Rightarrow> batch_context \<Rightarrow> batch \<Rightarrow> batch \<Rightarrow> bool" where
  "batch_moves sd bc b b' \<longleftrightarrow> (\<exists>e. event_ok (sd_codec sd) e \<and> batch_step sd bc e b = Some b')"

lemma run_batch_reach:
  "run_batch sd bc es b = Some b' \<Longrightarrow> list_all (event_ok (sd_codec sd)) es \<Longrightarrow> reach (batch_moves sd bc) b b'"
proof (induction es arbitrary: b)
  case (Cons e es)
  then obtain b1 where b1: "batch_step sd bc e b = Some b1" "run_batch sd bc es b1 = Some b'"
    by (auto simp: bind_eq_Some_conv)
  then have "batch_moves sd bc b b1" using Cons.prems(2) by (auto simp: batch_moves_def)
  then show ?case using Cons.IH [OF b1(2)] Cons.prems(2) reach_trans [OF reach_single] by auto
qed auto

interpretation batch_reservations: preserved_invariant "batch_moves sd bc" "reservations_inv a0" for sd bc a0
  by unfold_locales (auto simp: batch_moves_def dest: batch_step_reservations)

definition ready_batch :: "shared \<Rightarrow> pystr list \<Rightarrow> batch" where
  "ready_batch sh ids = \<lparr>bt_shared = sh, bt_runs = map (\<lambda>i. (i, Ready [])) ids\<rparr>"

lemma ready_batch_runs: "dict_get (bt_runs (ready_batch sh ids)) i = (if i \<in> set ids then Some (Ready []) else None)"
  by (auto simp: ready_batch_def map_of_map_restrict restrict_map_def)

lemma ready_batch_held [simp]: "held_by (ready_batch sh ids) i = None" "held_ids (ready_batch sh ids) = {}"
  by (simp_all add: held_ids_def held_by_def ready_batch_runs)

lemma ready_batch_reservations: "account_inv (sh_account sh) \<Longrightarrow> reservations_inv (sh_account sh) (ready_batch sh ids)"
  by (rule reservations_invI) (auto simp: ready_batch_runs split: if_splits, auto simp: ready_batch_def)

text \<open>When no task is at the executor, the batch has given back everything it had reserved.\<close>

lemma batch_releases:
  assumes "run_batch sd bc es (ready_batch sh ids) = Some b" "list_all (event_ok (sd_codec sd)) es" "account_inv (sh_account sh)"
    and "\<And>i r. dict_get (bt_runs b) i = Some r \<Longrightarrow> \<not> is_executing r"
  shows "account_inv (sh_account (bt_shared b)) \<and> identity (sh_account (bt_shared b)) = identity (sh_account sh) \<and>
    reservations (sh_account (bt_shared b)) = reservations (sh_account sh)"
proof -
  have inv: "reservations_inv (sh_account sh) b"
    using batch_reservations.reach_inv [OF run_batch_reach [OF assms(1,2)]] ready_batch_reservations [OF assms(3)] by blast
  have "held_by b i = None" for i
    using assms(4) [of i] by (auto simp: held_by_def held_def is_executing_def split: option.splits task_run.splits bind_splits)
  then have "held_ids b = {}" by (simp add: held_ids_def)
  then show ?thesis using reservations_invD [OF inv] by simp
qed

end
