(* ===== verification/Agent_Batch_Correct.thy ===== *)
theory Agent_Batch_Correct
  imports Agent_Scheduler_Correct
begin

text \<open>
  The tasks of a batch, under every order of the events: the attempts of a task follow its retry
  policy, the totals stay within the plan unless a task has failed for good, and the batch comes to
  an end.
\<close>

section \<open>Attempts and retries\<close>

definition codec_ok :: "plan_codec \<Rightarrow> bool" where
  "codec_ok cd \<longleftrightarrow> (\<forall>b. hex64 (pc_sha256 cd b))"

definition constructed_task :: "AgentTaskDefinition \<Rightarrow> bool" where
  "constructed_task t \<longleftrightarrow>
     AgentTaskDefinition_post_init t = Inr t \<and> AgentTaskRetryPolicy_post_init (ta_retry_policy t) = Inr (ta_retry_policy t)"

lemma constructed_task_ids:
  assumes "constructed_task t"
  shows "id_field 128 (ta_task_id t) = Inr (ta_task_id t)" "id_field 128 (ta_role_id t) = Inr (ta_role_id t)"
proof -
  have t: "AgentTaskDefinition_post_init t = Inr t" using assms by (simp add: constructed_task_def)
  then obtain i role where f: "id_field 128 (ta_task_id t) = Inr i" "id_field 128 (ta_role_id t) = Inr role"
    by (auto simp: AgentTaskDefinition_post_init_def result_simps)
  then have "ta_task_id t = i" "ta_role_id t = role"
    using t by (auto simp: AgentTaskDefinition_post_init_def result_simps Let_def
        dest: arg_cong [of _ _ ta_task_id] arg_cong [of _ _ ta_role_id])
  then show "id_field 128 (ta_task_id t) = Inr (ta_task_id t)" "id_field 128 (ta_role_id t) = Inr (ta_role_id t)"
    using f by simp_all
qed

lemma constructed_retry:
  assumes "constructed_task t"
  shows "1 \<le> retry_max_attempts (ta_retry_policy t)" "retry_max_attempts (ta_retry_policy t) \<le> MAX_TASK_RETRY_ATTEMPTS"
    "set (retryable_error_codes (ta_retry_policy t)) \<inter> set NON_RETRYABLE_ERROR_CODES = {}"
    "int (length (backoff_ms (ta_retry_policy t))) = retry_max_attempts (ta_retry_policy t) - 1"
proof -
  let ?p = "ta_retry_policy t"
  have p: "AgentTaskRetryPolicy_post_init ?p = Inr ?p" using assms by (simp add: constructed_task_def)
  then obtain codes where c: "sorted_texts 32 128 True (retryable_error_codes ?p) = Inr codes"
    "set codes \<inter> set NON_RETRYABLE_ERROR_CODES = {}" "1 \<le> retry_max_attempts ?p"
    "retry_max_attempts ?p \<le> MAX_TASK_RETRY_ATTEMPTS"
    "int (length (backoff_ms ?p)) = max 0 (retry_max_attempts ?p - 1)"
    by (auto simp: AgentTaskRetryPolicy_post_init_def result_simps positive_int_Inr)
  moreover have "retryable_error_codes ?p = codes"
    using p c(1) by (auto simp: AgentTaskRetryPolicy_post_init_def result_simps positive_int_Inr Let_def
        dest: arg_cong [of _ _ retryable_error_codes] split: if_splits)
  ultimately show "1 \<le> retry_max_attempts ?p" "retry_max_attempts ?p \<le> MAX_TASK_RETRY_ATTEMPTS"
    "set (retryable_error_codes ?p) \<inter> set NON_RETRYABLE_ERROR_CODES = {}"
    "int (length (backoff_ms ?p)) = retry_max_attempts ?p - 1" by simp_all
qed

text \<open>The outcome of attempt \<open>n\<close> of a task: its receipt names task, role and attempt and fits the output.\<close>

definition outcome_ok :: "plan_codec \<Rightarrow> AgentTaskDefinition \<Rightarrow> nat \<Rightarrow> TaskOutcome \<Rightarrow> bool" where
  "outcome_ok cd t n x \<longleftrightarrow>
     (let r = oc_receipt x
      in rt_task_id r = ta_task_id t \<and> rt_role_id r = ta_role_id t \<and> rt_attempt_no r = int n \<and> task_terminal (rt_state r) \<and>
         json_digest cd (output_dict (oc_output x)) = Inr (rt_output_sha256 r) \<and>
         json_size cd (output_dict (oc_output x)) = Inr (rt_output_size_bytes r) \<and>
         (rt_state r \<noteq> SUCCEEDED \<longrightarrow> id_field 128 (rt_error_code r) = Inr (rt_error_code r)))"

lemma optional_id_again: "optional_id_field n s = Inr c \<Longrightarrow> c \<noteq> [] \<Longrightarrow> id_field n c = Inr c"
  by (auto simp: optional_id_field_def Let_def split: if_splits dest: id_field_again)

lemma digest_normal:
  assumes "codec_ok cd" "json_digest cd j = Inr sha" "plan_sha256 True sha = Inr sha'"
  shows "sha' = sha"
proof -
  have "hex64 sha" using assms(1,2) by (auto simp: codec_ok_def json_digest_def result_simps)
  from plan_sha256_normal [OF this] this assms(3) show ?thesis
    by (auto simp: plan_sha256_def Let_def result_simps hex64_def split: if_splits)
qed

lemma task_receipt_spec:
  assumes "task_receipt cd t st out code n started finished duration res = Inr x" "constructed_task t" "codec_ok cd"
  shows "outcome_ok cd t (nat n) x \<and> rt_state (oc_receipt x) = st \<and> oc_output x = out \<and>
    optional_id_field 128 code = Inr (rt_error_code (oc_receipt x))"
proof -
  obtain sha m r where r: "json_digest cd (output_dict out) = Inr sha" "json_size cd (output_dict out) = Inr m"
    "AgentTaskExecutionReceipt_post_init cd
        \<lparr>rt_task_id = ta_task_id t, rt_role_id = ta_role_id t, rt_state = st, rt_attempt_no = n,
         rt_dependency_ids = ta_dependencies t, rt_output_sha256 = sha, rt_output_size_bytes = m, rt_error_code = code,
         rt_started_at = started, rt_finished_at = finished, rt_duration_ms = duration,
         rt_reservation_id = res, rt_receipt_sha256 = []\<rparr> = Inr r" "x = \<lparr>oc_receipt = r, oc_output = out\<rparr>"
    using assms(1) by (auto simp: task_receipt_def result_simps)
  note ids = constructed_task_ids [OF assms(2)]
  obtain sha' code' where s: "plan_sha256 True sha = Inr sha'" "optional_id_field 128 code = Inr code'"
    "task_terminal st" "1 \<le> n" "st \<noteq> SUCCEEDED \<longrightarrow> code' \<noteq> []"
    "rt_task_id r = ta_task_id t" "rt_role_id r = ta_role_id t" "rt_state r = st" "rt_attempt_no r = n"
    "rt_output_sha256 r = sha'" "rt_output_size_bytes r = m" "rt_error_code r = code'"
    using r(3) ids by (auto simp: AgentTaskExecutionReceipt_post_init_def result_simps positive_int_Inr Let_def)
  show ?thesis
    using s r(1,2,4) digest_normal [OF assms(3) r(1) s(1)] optional_id_again [OF s(2)]
    by (auto simp: outcome_ok_def)
qed

text \<open>
  The attempts of a task so far. Every attempt that another one follows has failed in a way that
  the retry policy lets be tried again; so has the last one while the task is not finished.
\<close>

definition attempts_ok :: "plan_codec \<Rightarrow> AgentTaskDefinition \<Rightarrow> bool \<Rightarrow> TaskOutcome list \<Rightarrow> bool" where
  "attempts_ok cd t ended os \<longleftrightarrow>
     (\<forall>k < length os. outcome_ok cd t (k + 1) (os ! k) \<and>
        (k + 1 < length os \<or> \<not> ended \<longrightarrow>
           rt_state (oc_receipt (os ! k)) \<noteq> SUCCEEDED \<and>
           permits (ta_retry_policy t) (rt_error_code (oc_receipt (os ! k))) (int k + 1)))"

definition run_ok :: "plan_codec \<Rightarrow> AgentTaskDefinition \<Rightarrow> task_run \<Rightarrow> bool" where
  "run_ok cd t r \<longleftrightarrow>
     (case r of
        Ready os \<Rightarrow> attempts_ok cd t False os
      | Executing os _ _ _ \<Rightarrow> attempts_ok cd t False os
      | Waiting os \<Rightarrow> attempts_ok cd t False os
      | Finished os \<Rightarrow> os \<noteq> [] \<and> attempts_ok cd t True os
      | Crashed \<Rightarrow> True)"

lemma attempts_ok_Nil [simp]: "attempts_ok cd t ended []"
  by (simp add: attempts_ok_def)

lemma attempts_ok_snoc:
  "attempts_ok cd t ended (os @ [x]) \<longleftrightarrow>
     attempts_ok cd t False os \<and> outcome_ok cd t (length os + 1) x \<and>
     (\<not> ended \<longrightarrow> rt_state (oc_receipt x) \<noteq> SUCCEEDED \<and>
        permits (ta_retry_policy t) (rt_error_code (oc_receipt x)) (int (length os) + 1))"
  unfolding attempts_ok_def by (auto simp: All_less_Suc nth_append)

lemma attempts_ok_closed: "attempts_ok cd t False os \<Longrightarrow> attempts_ok cd t True os"
  by (auto simp: attempts_ok_def)

lemma open_attempts_bound:
  assumes "attempts_ok cd t False os" "constructed_task t"
  shows "int (length os) < retry_max_attempts (ta_retry_policy t)"
proof (cases os rule: rev_cases)
  case Nil
  then show ?thesis using constructed_retry(1) [OF assms(2)] by simp
next
  case (snoc os' x)
  then show ?thesis using assms(1) by (simp add: attempts_ok_snoc permits_def)
qed

lemma finish_series_cases: "finish_series os = Crashed \<or> finish_series os = Finished os \<and> os \<noteq> []"
  by (auto simp: finish_series_def TaskSeries_post_init_def require_def)

lemma finish_series_ok: "attempts_ok cd t True os \<Longrightarrow> run_ok cd t (finish_series os)"
  using finish_series_cases [of os] by (auto simp: run_ok_def)

lemma after_attempt_ok:
  assumes "attempts_ok cd t False os" "\<And>x. r = Inr x \<Longrightarrow> outcome_ok cd t (length os + 1) x"
  shows "run_ok cd t (after_attempt bc t clock cancel os r)"
proof (cases r)
  case (Inr x)
  have closed: "attempts_ok cd t True (os @ [x])" using assms by (simp add: attempts_ok_snoc Inr)
  show ?thesis
  proof (cases "rt_state (oc_receipt x) = SUCCEEDED \<or> \<not> permits (ta_retry_policy t) (rt_error_code (oc_receipt x)) (int (length os) + 1)")
    case True
    then show ?thesis using finish_series_ok [OF closed] by (auto simp: after_attempt_def Inr Let_def)
  next
    case False
    then have "attempts_ok cd t False (os @ [x])" using assms by (simp add: attempts_ok_snoc Inr)
    then show ?thesis using finish_series_ok [OF closed] False
      by (auto simp: after_attempt_def Inr Let_def run_ok_def split: sum.splits)
  qed
qed (simp add: after_attempt_def run_ok_def)

lemma make_outcome_ok:
  "make_outcome cd t n ra st out code finished clock = Inr x \<Longrightarrow> constructed_task t \<Longrightarrow> codec_ok cd \<Longrightarrow>
     outcome_ok cd t n x \<and> rt_state (oc_receipt x) = st \<and> oc_output x = out \<and>
     optional_id_field 128 code = Inr (rt_error_code (oc_receipt x))"
  unfolding make_outcome_def using task_receipt_spec [of cd t st out code "int n"] by (metis nat_int)

lemma handle_error_ok:
  assumes "handle_error cd t n ra en e = Inr x" "constructed_task t" "codec_ok cd"
  shows "outcome_ok cd t n x \<and> rt_state (oc_receipt x) = fst (handled e) \<and>
    optional_id_field 128 (fst (snd (handled e))) = Inr (rt_error_code (oc_receipt x))"
  using assms(1) make_outcome_ok [OF _ assms(2,3)] by (auto simp: handle_error_def result_simps split: prod.splits)

lemma release_reservation_result: "release_reservation res r sh = (Inr x, sh') \<Longrightarrow> r = Inr x"
  by (auto simp: release_reservation_def split: option.splits prod.splits sum.splits)

lemma end_attempt_ok:
  assumes "end_attempt cd t n ra en r sh = (Inr x, sh')" "constructed_task t" "codec_ok cd"
    and "\<And>x. r = Inr x \<Longrightarrow> outcome_ok cd t n x"
  shows "outcome_ok cd t n x"
  using release_reservation_result [OF assms(1) [unfolded end_attempt_def]] assms(4) handle_error_ok [OF _ assms(2,3)]
  by (auto split: sum.splits)

lemma conclude_ok:
  assumes "conclude cd bc t os ra en r sh = (run, sh')" "constructed_task t" "codec_ok cd" "attempts_ok cd t False os"
    and "\<And>x. r = Inr x \<Longrightarrow> outcome_ok cd t (length os + 1) x"
  shows "run_ok cd t run"
proof -
  obtain x where x: "end_attempt cd t (length os + 1) ra en r sh = (x, sh')"
    "run = after_attempt bc t (en_retry_clock en) (sh_cancel sh') os x"
    using assms(1) by (auto simp: conclude_def split: prod.splits)
  show ?thesis unfolding x(2)
    by (rule after_attempt_ok [OF assms(4)]) (use end_attempt_ok [OF _ assms(2,3)] x(1) assms(5) in blast)
qed

lemma judge_output_ok:
  assumes "judge_output sd bc t n ra en out sh = (Inr x, sh')" "constructed_task t" "codec_ok (sd_codec sd)"
  shows "outcome_ok (sd_codec sd) t n x"
  using assms(1) make_outcome_ok [OF _ assms(2,3)]
  by (auto simp: judge_output_def plain_def split: if_splits sum.splits prod.splits)

lemma start_attempt_ok:
  assumes "start_attempt cd bc t os st en sh = (run, sh')" "constructed_task t" "codec_ok cd" "attempts_ok cd t False os"
  shows "run_ok cd t run"
proof -
  obtain r ra sh1 where b: "begin_attempt cd bc t os st sh = (r, ra, sh1)" by (metis prod_cases3)
  show ?thesis
  proof (cases r)
    case (Inl e)
    then have "conclude cd bc t os ra en (Inl e) sh1 = (run, sh')" using assms(1) by (simp add: start_attempt_def b)
    then show ?thesis by (rule conclude_ok [OF _ assms(2-4)]) simp
  next
    case (Inr cx)
    then show ?thesis using assms(1,4) by (cases cx) (auto simp: start_attempt_def b run_ok_def)
  qed
qed

lemma finish_attempt_ok:
  assumes "finish_attempt sd bc t os ra en w sh = (run, sh')" "constructed_task t" "codec_ok (sd_codec sd)"
    "attempts_ok (sd_codec sd) t False os"
  shows "run_ok (sd_codec sd) t run"
proof (cases "await_executor (sh_cancel sh \<noteq> None) w")
  case (Inl e)
  then have "conclude (sd_codec sd) bc t os ra en (Inl e) sh = (run, sh')" using assms(1) by (simp add: finish_attempt_def)
  then show ?thesis by (rule conclude_ok [OF _ assms(2-4)]) simp
next
  case (Inr out)
  obtain r sh1 where j: "judge_output sd bc t (length os + 1) ra en out sh = (r, sh1)" by fastforce
  show ?thesis
    by (rule conclude_ok [OF _ assms(2-4), of bc ra en r sh1])
      (use assms(1) Inr j judge_output_ok [OF _ assms(2,3)] in \<open>auto simp: finish_attempt_def\<close>)
qed

text \<open>Every run of the batch is one of a task of the plan.\<close>

definition tasks_constructed :: "batch_context \<Rightarrow> bool" where
  "tasks_constructed bc \<longleftrightarrow> list_all constructed_task (pl_tasks (rq_plan (bc_request bc)))"

lemma plan_task_constructed:
  assumes "tasks_constructed bc" "plan_task bc i = Some t"
  shows "constructed_task t" "ta_task_id t = i" "t \<in> set (pl_tasks (rq_plan (bc_request bc)))"
  using assms find_SomeD unfolding plan_task_def find_task_def tasks_constructed_def list_all_iff by fastforce+

definition series_inv :: "plan_codec \<Rightarrow> batch_context \<Rightarrow> batch \<Rightarrow> bool" where
  "series_inv cd bc b \<longleftrightarrow>
     codec_ok cd \<and> tasks_constructed bc \<and>
     (\<forall>i r. dict_get (bt_runs b) i = Some r \<longrightarrow> (\<exists>t. plan_task bc i = Some t \<and> run_ok cd t r))"

lemma series_invD:
  assumes "series_inv cd bc b"
  shows "codec_ok cd" "tasks_constructed bc"
    "dict_get (bt_runs b) i = Some r \<Longrightarrow> plan_task bc i = Some t \<Longrightarrow> run_ok cd t r"
    "dict_get (bt_runs b) i = Some r \<Longrightarrow> \<exists>t. plan_task bc i = Some t"
  using assms by (auto simp: series_inv_def) (metis option.inject)+

lemma series_inv_set:
  assumes "series_inv cd bc b" "plan_task bc i = Some t" "run_ok cd t (fst r)"
  shows "series_inv cd bc (set_run i r b)"
  using assms by (auto simp: series_inv_def set_run_def)

lemma batch_step_series:
  assumes "batch_step sd bc e b = Some b'" "series_inv (sd_codec sd) bc b"
  shows "series_inv (sd_codec sd) bc b'"
proof -
  note D = series_invD [OF assms(2)]
  show ?thesis
  proof (cases e)
    case (Attempt_starts i st en)
    then obtain t os where t: "plan_task bc i = Some t" "dict_get (bt_runs b) i = Some (Ready os)"
      "b' = set_run i (start_attempt (sd_codec sd) bc t os st en (bt_shared b)) b"
      using assms(1) by (auto split: option.splits task_run.splits)
    have "attempts_ok (sd_codec sd) t False os" using D(3) [OF t(2,1)] by (simp add: run_ok_def)
    from start_attempt_ok [OF surjective_pairing plan_task_constructed(1) [OF D(2) t(1)] D(1) this] show ?thesis
      unfolding t(3) by (rule series_inv_set [OF assms(2) t(1)])
  next
    case (Attempt_ends i w en)
    then obtain t os ra cx tm where t: "plan_task bc i = Some t" "dict_get (bt_runs b) i = Some (Executing os ra cx tm)"
      "b' = set_run i (finish_attempt sd bc t os ra en w (bt_shared b)) b"
      using assms(1) by (auto split: option.splits task_run.splits)
    have "attempts_ok (sd_codec sd) t False os" using D(3) [OF t(2,1)] by (simp add: run_ok_def)
    from finish_attempt_ok [OF surjective_pairing plan_task_constructed(1) [OF D(2) t(1)] D(1) this] show ?thesis
      unfolding t(3) by (rule series_inv_set [OF assms(2) t(1)])
  next
    case (Wait_ends i)
    then obtain os where w: "dict_get (bt_runs b) i = Some (Waiting os)"
      "b' = set_run i (if sh_cancel (bt_shared b) \<noteq> None then finish_series os else Ready os, bt_shared b) b"
      using assms(1) by (auto split: option.splits task_run.splits)
    obtain t where t: "plan_task bc i = Some t" using D(4) [OF w(1)] by blast
    have "attempts_ok (sd_codec sd) t False os" using D(3) [OF w(1) t] by (simp add: run_ok_def)
    then show ?thesis unfolding w(2)
      by (intro series_inv_set [OF assms(2) t]) (simp add: run_ok_def finish_series_ok [unfolded run_ok_def] attempts_ok_closed)
  next
    case (Cancel_requested reason)
    then show ?thesis using assms by (auto simp: series_inv_def)
  qed
qed

section \<open>The budget of the plan\<close>

definition fits :: "batch_context \<Rightarrow> shared \<Rightarrow> bool" where
  "fits bc sh \<longleftrightarrow> plan_exceeded (pl_budget (rq_plan (bc_request bc))) (sh_usage sh) = None"

definition failed_run :: "task_run \<Rightarrow> bool" where
  "failed_run r \<longleftrightarrow>
     (case r of Finished os \<Rightarrow> rt_state (oc_receipt (last os)) \<noteq> SUCCEEDED | Crashed \<Rightarrow> True | _ \<Rightarrow> False)"

text \<open>An attempt that fails with a code no policy retries ends its task.\<close>

lemma conclude_fatal:
  assumes "conclude cd bc t os ra en (Inl e) sh = (run, sh')" "constructed_task t" "codec_ok cd"
    and "handled e = (st, code, summary, action)" "st \<noteq> SUCCEEDED" "code \<in> set NON_RETRYABLE_ERROR_CODES"
    and "optional_id_field 128 code = Inr code"
  shows "failed_run run"
proof -
  obtain x where x: "end_attempt cd t (length os + 1) ra en (Inl e) sh = (x, sh')"
    "run = after_attempt bc t (en_retry_clock en) (sh_cancel sh') os x"
    using assms(1) by (auto simp: conclude_def split: prod.splits)
  show ?thesis
  proof (cases x)
    case (Inr y)
    have "handle_error cd t (length os + 1) ra en e = Inr y"
      using release_reservation_result x(1) unfolding end_attempt_def Inr by fastforce
    from handle_error_ok [OF this assms(2,3)] have y: "rt_state (oc_receipt y) \<noteq> SUCCEEDED"
      "rt_error_code (oc_receipt y) = code" using assms(4,5,7) by auto
    have "\<not> permits (ta_retry_policy t) (rt_error_code (oc_receipt y)) n" for n
      using constructed_retry(3) [OF assms(2)] assms(6) y(2) by (auto simp: permits_def)
    then show ?thesis
      using y(1) finish_series_cases [of "os @ [y]"] by (auto simp: x(2) Inr after_attempt_def Let_def failed_run_def)
  qed (simp add: x(2) after_attempt_def failed_run_def)
qed

lemma budget_codes:
  "optional_id_field 128 (lit ''runtime_budget_exceeded'') = Inr (lit ''runtime_budget_exceeded'')"
  "optional_id_field 128 (lit ''orchestration_budget_exceeded'') = Inr (lit ''orchestration_budget_exceeded'')"
  "lit ''runtime_budget_exceeded'' \<in> set NON_RETRYABLE_ERROR_CODES"
  "lit ''orchestration_budget_exceeded'' \<in> set NON_RETRYABLE_ERROR_CODES"
proof -
  show "optional_id_field 128 (lit ''runtime_budget_exceeded'') = Inr (lit ''runtime_budget_exceeded'')"
    "optional_id_field 128 (lit ''orchestration_budget_exceeded'') = Inr (lit ''orchestration_budget_exceeded'')"
    by (rule visible_optional_id; simp add: lit_def)+
qed (simp_all add: NON_RETRYABLE_ERROR_CODES_def)

text \<open>A refusal of a subagent's usage is always one for lack of budget.\<close>

lemma record_subagent_refusal:
  assumes "record_subagent_usage u mc tc t1 t2 a = (Inl e, b)" "0 \<le> mc" "0 \<le> tc"
  shows "\<exists>scope reason. e = BudgetExceeded scope reason"
  using assms
  by (auto simp: record_subagent_usage_def check_time_def check_subagent_time_def deny_def Let_def
      simp del: first_refusal.simps split: option.splits if_splits prod.splits)

lemma record_usage_over:
  assumes "record_task_usage cd (pl_budget (rq_plan (bc_request bc))) out t1 t2 sh = (r, sh')"
    "AgentTaskOutput_post_init cd raw = Inr out"
  shows "r = Inr () \<and> fits bc sh' \<or> r = Inl Attempt_budget \<or>
    (\<exists>name. r = Inl (Attempt_orchestration (lit ''orchestration_budget_exceeded'') (msg_over_plan @ name) msg_shrink_output))"
proof -
  note out = constructed_output [OF assms(2)]
  obtain n where n: "json_size cd (output_dict out) = Inr n" using out(4) by blast
  obtain q a where q: "record_subagent_usage (to_usage out) (to_model_calls out) (to_tool_calls out) t1 t2 (sh_account sh) = (q, a)"
    by fastforce
  show ?thesis
  proof (cases q)
    case (Inl e)
    then have "\<exists>scope reason. e = BudgetExceeded scope reason" using record_subagent_refusal q out(2,3) by blast
    then show ?thesis using assms(1) by (auto simp: record_task_usage_def n q Inl budget_failure_def Let_def)
  next
    case (Inr u)
    then show ?thesis using assms(1)
      by (auto simp: record_task_usage_def n q Let_def fits_def split: option.splits)
  qed
qed

lemma finish_attempt_fits:
  assumes "finish_attempt sd bc t os ra en w sh = (run, sh')" "constructed_task t" "codec_ok (sd_codec sd)"
    and "work_ok (sd_codec sd) w" "fits bc sh"
    and "account_inv (sh_account sh)" "ra_reservation ra = Some res" "outstanding (sh_account sh) res"
  shows "fits bc sh' \<or> failed_run run"
proof -
  have keep: "fits bc s'" if "conclude (sd_codec sd) bc t os ra en r s = (run', s')" "fits bc s" for r s run' s'
    using that by (auto simp: conclude_def end_attempt_def release_reservation_def fits_def
        split: prod.splits option.splits sum.splits)
  show ?thesis
  proof (cases "await_executor (sh_cancel sh \<noteq> None) w")
    case (Inl e)
    then show ?thesis using assms(1,5) keep by (auto simp: finish_attempt_def)
  next
    case (Inr out)
    then have "w = Work_returned out" by (auto simp: await_executor_def Let_def split: if_splits work.splits)
    then obtain raw where raw: "AgentTaskOutput_post_init (sd_codec sd) raw = Inr out" using assms(4) by (auto simp: work_ok_def)
    obtain r sh1 where j: "judge_output sd bc t (length os + 1) ra en out sh = (r, sh1)" by fastforce
    have c: "conclude (sd_codec sd) bc t os ra en r sh1 = (run, sh')"
      using assms(1) Inr j by (simp add: finish_attempt_def)
    show ?thesis
    proof (cases "output_accepted (sd_codec sd) t out")
      case False
      then show ?thesis using j keep [OF c] assms(5) by (simp add: judge_output_def)
    next
      case True
      obtain q sh2 where q: "record_task_usage (sd_codec sd) (pl_budget (rq_plan (bc_request bc))) out (fst (en_usage en))
          (snd (en_usage en)) sh = (q, sh2)" by fastforce
      from record_usage_over [OF q raw] show ?thesis
      proof (elim disjE exE)
        assume "q = Inr () \<and> fits bc sh2"
        then show ?thesis using j q True keep [OF c] by (auto simp: judge_output_def)
      next
        assume "q = Inl Attempt_budget"
        then have "r = Inl Attempt_budget" using j q True by (simp add: judge_output_def)
        then show ?thesis
          using conclude_fatal [OF c [unfolded \<open>r = _\<close>] assms(2,3), of FAILED "lit ''runtime_budget_exceeded''"] budget_codes
          by (auto simp: handled_def)
      next
        fix name
        assume "q = Inl (Attempt_orchestration (lit ''orchestration_budget_exceeded'') (msg_over_plan @ name) msg_shrink_output)"
        then have r: "r = Inl (Attempt_orchestration (lit ''orchestration_budget_exceeded'') (msg_over_plan @ name) msg_shrink_output)"
          using j q True by (simp add: judge_output_def)
        then show ?thesis
          using conclude_fatal [OF c [unfolded r] assms(2,3), of FAILED "lit ''orchestration_budget_exceeded''"] budget_codes
          by (auto simp: handled_def)
      qed
    qed
  qed
qed

text \<open>The totals are within the plan's budget, or a task of the batch has failed for good.\<close>

definition usage_inv :: "batch_context \<Rightarrow> batch \<Rightarrow> bool" where
  "usage_inv bc b \<longleftrightarrow> fits bc (bt_shared b) \<or> (\<exists>i r. dict_get (bt_runs b) i = Some r \<and> failed_run r)"

definition full_inv :: "plan_codec \<Rightarrow> batch_context \<Rightarrow> BudgetAccount \<Rightarrow> batch \<Rightarrow> bool" where
  "full_inv cd bc a0 b \<longleftrightarrow> reservations_inv a0 b \<and> series_inv cd bc b \<and> usage_inv bc b"

lemma usage_inv_set:
  assumes "usage_inv bc b" "\<not> failed_run r0" "dict_get (bt_runs b) i = Some r0" "fits bc (bt_shared b) \<Longrightarrow> fits bc (snd r) \<or> failed_run (fst r)"
  shows "usage_inv bc (set_run i r b)"
proof (cases "fits bc (bt_shared b)")
  case True
  then show ?thesis using assms(4) by (auto simp: usage_inv_def set_run_def)
next
  case False
  then obtain j r' where "dict_get (bt_runs b) j = Some r'" "failed_run r'" using assms(1) by (auto simp: usage_inv_def)
  moreover from this have "j \<noteq> i" using assms(2,3) by auto
  ultimately show ?thesis by (auto simp: usage_inv_def set_run_def)
qed

lemma failed_run_simps [simp]:
  "\<not> failed_run (Ready os)" "\<not> failed_run (Executing os ra cx tm)" "\<not> failed_run (Waiting os)" "failed_run Crashed"
  "failed_run (Finished os) \<longleftrightarrow> rt_state (oc_receipt (last os)) \<noteq> SUCCEEDED"
  by (simp_all add: failed_run_def)

lemma batch_step_full:
  assumes "batch_step sd bc e b = Some b'" "event_ok (sd_codec sd) e" "full_inv (sd_codec sd) bc a0 b"
  shows "full_inv (sd_codec sd) bc a0 b'"
proof -
  have inv: "reservations_inv a0 b" "series_inv (sd_codec sd) bc b" "usage_inv bc b"
    using assms(3) by (auto simp: full_inv_def)
  note R = reservations_invD [OF inv(1)] and S = series_invD [OF inv(2)]
  have "usage_inv bc b'"
  proof (cases e)
    case (Attempt_starts i st en)
    then obtain t os where t: "dict_get (bt_runs b) i = Some (Ready os)"
      "b' = set_run i (start_attempt (sd_codec sd) bc t os st en (bt_shared b)) b"
      using assms(1) by (auto split: option.splits task_run.splits)
    show ?thesis unfolding t(2)
      by (rule usage_inv_set [OF inv(3) _ t(1)]) (use start_attempt_holds [OF surjective_pairing R(1)] in \<open>auto simp: fits_def\<close>)
  next
    case (Attempt_ends i w en)
    then obtain t os ra cx tm where t: "plan_task bc i = Some t" "dict_get (bt_runs b) i = Some (Executing os ra cx tm)"
      "b' = set_run i (finish_attempt sd bc t os ra en w (bt_shared b)) b"
      using assms(1) by (auto split: option.splits task_run.splits)
    obtain res where res: "ra_reservation ra = Some res" using R(3) [OF t(2)] by auto
    then have by_i: "held_by b i = Some res" by (simp add: held_by_def t(2))
    have w: "work_ok (sd_codec sd) w" using assms(2) by (simp add: Attempt_ends)
    show ?thesis unfolding t(3)
      by (rule usage_inv_set [OF inv(3) _ t(2)])
        (use finish_attempt_fits [OF surjective_pairing plan_task_constructed(1) [OF S(2) t(1)] S(1) w _ R(1) res R(4) [OF by_i]]
         in auto)
  next
    case (Wait_ends i)
    then obtain os where w: "dict_get (bt_runs b) i = Some (Waiting os)"
      "b' = set_run i (if sh_cancel (bt_shared b) \<noteq> None then finish_series os else Ready os, bt_shared b) b"
      using assms(1) by (auto split: option.splits task_run.splits)
    show ?thesis unfolding w(2) by (rule usage_inv_set [OF inv(3) _ w(1)]) auto
  next
    case (Cancel_requested reason)
    then show ?thesis using assms(1) inv(3) by (auto simp: usage_inv_def fits_def)
  qed
  then show ?thesis
    using batch_step_reservations [OF assms(1,2) inv(1)] batch_step_series [OF assms(1) inv(2)] by (simp add: full_inv_def)
qed

interpretation batch_full: preserved_invariant "batch_moves sd bc" "full_inv (sd_codec sd) bc a0" for sd bc a0
  by unfold_locales (auto simp: batch_moves_def dest: batch_step_full)

lemma ready_batch_series:
  assumes "codec_ok cd" "tasks_constructed bc" "set ids \<subseteq> set (map ta_task_id (pl_tasks (rq_plan (bc_request bc))))"
  shows "series_inv cd bc (ready_batch sh ids)"
proof -
  have "\<exists>t. plan_task bc i = Some t" if i: "i \<in> set ids" for i
  proof -
    obtain t where "t \<in> set (pl_tasks (rq_plan (bc_request bc)))" "ta_task_id t = i" using assms(3) i by auto
    then show ?thesis unfolding plan_task_def find_task_def using find_ex [of t _ "\<lambda>t. ta_task_id t = i"] by blast
  qed
  then show ?thesis
    using assms(1,2) by (auto simp: series_inv_def ready_batch_runs run_ok_def split: if_splits)
qed

lemma ready_batch_full:
  "series_inv cd bc (ready_batch sh ids) \<Longrightarrow> account_inv (sh_account sh) \<Longrightarrow> fits bc sh \<Longrightarrow>
     full_inv cd bc (sh_account sh) (ready_batch sh ids)"
  using ready_batch_reservations [of sh ids] by (simp add: full_inv_def usage_inv_def) (simp add: ready_batch_def)

section \<open>A batch ends\<close>

text \<open>
  The events a task can still take part in: a start, an end and a wait for every attempt left.
\<close>

definition events_left :: "AgentTaskDefinition \<Rightarrow> task_run \<Rightarrow> nat" where
  "events_left t r =
     (let left = (\<lambda>os. nat (retry_max_attempts (ta_retry_policy t)) - length os)
      in case r of
           Ready os \<Rightarrow> 3 * left os | Executing os _ _ _ \<Rightarrow> 3 * left os - 1 | Waiting os \<Rightarrow> 3 * left os + 1
         | Finished _ \<Rightarrow> 0 | Crashed \<Rightarrow> 0)"

definition batch_events_left :: "batch_context \<Rightarrow> batch \<Rightarrow> nat" where
  "batch_events_left bc b =
     (\<Sum>i \<in> fst ` set (bt_runs b). events_left (the (plan_task bc i)) (the (dict_get (bt_runs b) i)))"

definition is_cancel :: "batch_event \<Rightarrow> bool" where
  "is_cancel e \<longleftrightarrow> (case e of Cancel_requested _ \<Rightarrow> True | _ \<Rightarrow> False)"

lemma events_left_set:
  assumes "dict_get (bt_runs b) i = Some r0" "events_left (the (plan_task bc i)) (fst r) < events_left (the (plan_task bc i)) r0"
  shows "batch_events_left bc (set_run i r b) < batch_events_left bc b"
proof -
  let ?f = "\<lambda>b i. events_left (the (plan_task bc i)) (the (dict_get (bt_runs b) i))"
  let ?b = "set_run i r b" and ?K = "fst ` set (bt_runs b)"
  have i: "i \<in> ?K" using assms(1) by (metis fst_conv image_eqI map_of_SomeD)
  have K: "fst ` set (bt_runs ?b) = ?K" using i by (auto simp: set_run_def dom_update)
  have less: "?f ?b i < ?f b i" using assms by (simp add: set_run_def)
  have le: "?f ?b j \<le> ?f b j" for j
  proof (cases "j = i")
    case True
    then show ?thesis using less by simp
  qed (simp add: set_run_def)
  show ?thesis unfolding batch_events_left_def K by (rule sum_strict_mono_ex1) (use i less le in blast)+
qed

lemma after_attempt_left:
  assumes "int (length os) < retry_max_attempts (ta_retry_policy t)"
  shows "events_left t (after_attempt bc t clock cancel os r) + 2 \<le> events_left t (Ready os)"
proof -
  have 1: "events_left t (Ready os) = 3 * (nat (retry_max_attempts (ta_retry_policy t)) - length os)"
    "length os < nat (retry_max_attempts (ta_retry_policy t))"
    using assms by (auto simp: events_left_def)
  have 2: "events_left t (finish_series os') = 0" for os' using finish_series_cases [of os'] by (auto simp: events_left_def)
  show ?thesis using 1 2 [of "os @ [x]" for x]
    by (auto simp: after_attempt_def Let_def events_left_def split: sum.splits)
qed

lemma conclude_shape: "\<exists>clock cancel x. fst (conclude cd bc t os ra en r sh) = after_attempt bc t clock cancel os x"
  by (cases "end_attempt cd t (length os + 1) ra en r sh") (auto simp: conclude_def)

lemma start_attempt_shape:
  "(\<exists>ra cx tm. fst (start_attempt cd bc t os st en sh) = Executing os ra cx tm) \<or>
   (\<exists>clock cancel r. fst (start_attempt cd bc t os st en sh) = after_attempt bc t clock cancel os r)"
proof -
  obtain r ra sh1 where b: "begin_attempt cd bc t os st sh = (r, ra, sh1)" by (metis prod_cases3)
  show ?thesis
  proof (cases r)
    case (Inl e)
    then show ?thesis using conclude_shape [of cd bc t os ra en "Inl e" sh1] by (simp add: start_attempt_def b)
  next
    case (Inr cx)
    then show ?thesis by (cases cx) (simp add: start_attempt_def b)
  qed
qed

lemma finish_attempt_shape:
  "\<exists>clock cancel r. fst (finish_attempt sd bc t os ra en w sh) = after_attempt bc t clock cancel os r"
proof (cases "await_executor (sh_cancel sh \<noteq> None) w")
  case (Inl e)
  then show ?thesis using conclude_shape [of "sd_codec sd" bc t os ra en "Inl e" sh] by (simp add: finish_attempt_def)
next
  case (Inr out)
  obtain r sh1 where "judge_output sd bc t (length os + 1) ra en out sh = (r, sh1)" by fastforce
  then show ?thesis using conclude_shape [of "sd_codec sd" bc t os ra en r sh1] Inr by (simp add: finish_attempt_def)
qed

lemma batch_step_left:
  assumes "batch_step sd bc e b = Some b'" "series_inv (sd_codec sd) bc b"
  shows "batch_events_left bc b' + (if is_cancel e then 0 else 1) \<le> batch_events_left bc b"
proof -
  note S = series_invD [OF assms(2)]
  show ?thesis
  proof (cases e)
    case (Attempt_starts i st en)
    then obtain t os where t: "plan_task bc i = Some t" "dict_get (bt_runs b) i = Some (Ready os)"
      "b' = set_run i (start_attempt (sd_codec sd) bc t os st en (bt_shared b)) b"
      using assms(1) by (auto split: option.splits task_run.splits)
    have "attempts_ok (sd_codec sd) t False os" using S(3) [OF t(2,1)] by (simp add: run_ok_def)
    from open_attempts_bound [OF this plan_task_constructed(1) [OF S(2) t(1)]]
    have n: "int (length os) < retry_max_attempts (ta_retry_policy t)" .
    consider cx tm ra where "fst (start_attempt (sd_codec sd) bc t os st en (bt_shared b)) = Executing os ra cx tm"
      | clock cancel r where "fst (start_attempt (sd_codec sd) bc t os st en (bt_shared b)) = after_attempt bc t clock cancel os r"
      using start_attempt_shape by blast
    then have "events_left t (fst (start_attempt (sd_codec sd) bc t os st en (bt_shared b))) < events_left t (Ready os)"
    proof cases
      case 1
      then show ?thesis using n by (simp add: events_left_def)
    next
      case (2 clock cancel r)
      then show ?thesis using after_attempt_left [OF n, of bc clock cancel r] by simp
    qed
    then show ?thesis using events_left_set [OF t(2), of bc] t(1) unfolding t(3) by (simp add: Attempt_starts is_cancel_def Suc_le_eq)
  next
    case (Attempt_ends i w en)
    then obtain t os ra cx tm where t: "plan_task bc i = Some t" "dict_get (bt_runs b) i = Some (Executing os ra cx tm)"
      "b' = set_run i (finish_attempt sd bc t os ra en w (bt_shared b)) b"
      using assms(1) by (auto split: option.splits task_run.splits)
    have "attempts_ok (sd_codec sd) t False os" using S(3) [OF t(2,1)] by (simp add: run_ok_def)
    from open_attempts_bound [OF this plan_task_constructed(1) [OF S(2) t(1)]]
    have n: "int (length os) < retry_max_attempts (ta_retry_policy t)" .
    obtain clock cancel r where "fst (finish_attempt sd bc t os ra en w (bt_shared b)) = after_attempt bc t clock cancel os r"
      using finish_attempt_shape by blast
    then have "events_left t (fst (finish_attempt sd bc t os ra en w (bt_shared b))) < events_left t (Executing os ra cx tm)"
      using after_attempt_left [OF n, of bc clock cancel r] by (simp add: events_left_def [of t "Executing _ _ _ _"] events_left_def [of t "Ready _"])
    then show ?thesis using events_left_set [OF t(2), of bc] t(1) unfolding t(3) by (simp add: Attempt_ends is_cancel_def Suc_le_eq)
  next
    case (Wait_ends i)
    then obtain os where w: "dict_get (bt_runs b) i = Some (Waiting os)"
      "b' = set_run i (if sh_cancel (bt_shared b) \<noteq> None then finish_series os else Ready os, bt_shared b) b"
      using assms(1) by (auto split: option.splits task_run.splits)
    have "events_left t (if sh_cancel (bt_shared b) \<noteq> None then finish_series os else Ready os) < events_left t (Waiting os)" for t
      using finish_series_cases [of os] by (auto simp: events_left_def)
    then show ?thesis using events_left_set [OF w(1), of bc] unfolding w(2) by (simp add: Wait_ends is_cancel_def Suc_le_eq)
  next
    case (Cancel_requested reason)
    then show ?thesis using assms(1) by (auto simp: batch_events_left_def is_cancel_def)
  qed
qed

lemma run_batch_left:
  assumes "run_batch sd bc es b = Some b'" "series_inv (sd_codec sd) bc b"
  shows "batch_events_left bc b' + length (filter (\<lambda>e. \<not> is_cancel e) es) \<le> batch_events_left bc b"
  using assms
proof (induction es arbitrary: b)
  case (Cons e es)
  then obtain b1 where b1: "batch_step sd bc e b = Some b1" "run_batch sd bc es b1 = Some b'"
    by (auto simp: bind_eq_Some_conv)
  from Cons.IH [OF b1(2) batch_step_series [OF b1(1) Cons.prems(2)]] batch_step_left [OF b1(1) Cons.prems(2)]
  show ?case by (auto split: if_splits)
qed simp

definition ended :: "task_run \<Rightarrow> bool" where
  "ended r \<longleftrightarrow> (case r of Finished _ \<Rightarrow> True | Crashed \<Rightarrow> True | _ \<Rightarrow> False)"

text \<open>A task that has not ended can take part in an event.\<close>

lemma batch_not_stuck:
  assumes "series_inv (sd_codec sd) bc b" "dict_get (bt_runs b) i = Some r" "\<not> ended r"
  shows "\<exists>e b'. event_ok (sd_codec sd) e \<and> \<not> is_cancel e \<and> batch_step sd bc e b = Some b'"
proof -
  obtain t where t: "plan_task bc i = Some t" using series_invD(4) [OF assms(1,2)] by blast
  consider st en where "batch_step sd bc (Attempt_starts i st en) b \<noteq> None"
    | en where "batch_step sd bc (Attempt_ends i (Work_running True) en) b \<noteq> None"
    | "batch_step sd bc (Wait_ends i) b \<noteq> None"
    using assms(2,3) t by (cases r) (auto simp: ended_def)
  then show ?thesis
  proof cases
    case (1 st en)
    then show ?thesis by (intro exI [of _ "Attempt_starts i st en"]) (auto simp: is_cancel_def)
  next
    case (2 en)
    then show ?thesis by (intro exI [of _ "Attempt_ends i (Work_running True) en"]) (auto simp: is_cancel_def work_ok_def)
  next
    case 3
    then show ?thesis by (intro exI [of _ "Wait_ends i"]) (auto simp: is_cancel_def)
  qed
qed

lemma batch_can_end:
  assumes "series_inv (sd_codec sd) bc b"
  shows "\<exists>es b'. list_all (event_ok (sd_codec sd)) es \<and> run_batch sd bc es b = Some b' \<and>
    (\<forall>i r. dict_get (bt_runs b') i = Some r \<longrightarrow> ended r)"
  using assms
proof (induction "batch_events_left bc b" arbitrary: b rule: less_induct)
  case less
  show ?case
  proof (cases "\<forall>i r. dict_get (bt_runs b) i = Some r \<longrightarrow> ended r")
    case True
    then show ?thesis by (intro exI [of _ "[]"] exI [of _ b]) simp
  next
    case False
    then obtain e b1 where e: "event_ok (sd_codec sd) e" "\<not> is_cancel e" "batch_step sd bc e b = Some b1"
      using batch_not_stuck [OF less.prems] by blast
    then have "batch_events_left bc b1 < batch_events_left bc b" using batch_step_left [OF e(3) less.prems] by simp
    from less.hyps [OF this batch_step_series [OF e(3) less.prems]] obtain es b' where
      "list_all (event_ok (sd_codec sd)) es" "run_batch sd bc es b1 = Some b'"
      "\<forall>i r. dict_get (bt_runs b') i = Some r \<longrightarrow> ended r" by blast
    then show ?thesis using e by (intro exI [of _ "e # es"] exI [of _ b']) simp
  qed
qed

lemma run_batch_series: "run_batch sd bc es b = Some b' \<Longrightarrow> series_inv (sd_codec sd) bc b \<Longrightarrow> series_inv (sd_codec sd) bc b'"
  by (induction es arbitrary: b) (auto simp: bind_eq_Some_conv dest: batch_step_series)

lemma ready_batch_left:
  "batch_events_left bc (ready_batch sh ids) =
     3 * (\<Sum>i \<in> set ids. nat (retry_max_attempts (ta_retry_policy (the (plan_task bc i)))))"
proof -
  have "fst ` set (bt_runs (ready_batch sh ids)) = set ids" by (force simp: ready_batch_def)
  then show ?thesis
    unfolding batch_events_left_def sum_distrib_left by (intro sum.cong) (simp_all add: ready_batch_runs events_left_def)
qed

text \<open>
  C40. The batch of a barrier comes to an end under every order of its events: the events that are
  not cancellations are at most three for each attempt its tasks may make, whatever the executor
  does, and from every state it can reach the tasks that have not ended can be led to their end.
\<close>

theorem batch_ends:
  assumes "codec_ok (sd_codec sd)" "list_all constructed_task (pl_tasks (rq_plan (bc_request bc)))"
    and "set ids \<subseteq> set (map ta_task_id (pl_tasks (rq_plan (bc_request bc))))"
    and "run_batch sd bc es (ready_batch sh ids) = Some b"
  shows "length (filter (\<lambda>e. \<not> is_cancel e) es) \<le>
      3 * (\<Sum>i \<in> set ids. nat (retry_max_attempts (ta_retry_policy (the (plan_task bc i))))) \<and>
    (\<exists>es' b'. list_all (event_ok (sd_codec sd)) es' \<and> run_batch sd bc es' b = Some b' \<and>
       (\<forall>i r. dict_get (bt_runs b') i = Some r \<longrightarrow> ended r))"
proof -
  have inv: "series_inv (sd_codec sd) bc (ready_batch sh ids)"
    using assms(1-3) by (intro ready_batch_series) (simp_all add: tasks_constructed_def)
  have "series_inv (sd_codec sd) bc b" by (rule run_batch_series [OF assms(4) inv])
  then show ?thesis
    using run_batch_left [OF assms(4) inv] batch_can_end [of sd bc b] by (auto simp: ready_batch_left)
qed

end
