(* ===== verification/Agent_Orchestrator.thy ===== *)
theory Agent_Orchestrator
  imports Agent_Scheduler
begin

text \<open>
  \<open>AgentDagOrchestrator.execute\<close> (\<open>core/agent_orchestration/scheduler.py\<close>): the checks before a run,
  the loop over the barriers of the plan, the checkpoint after each of them, the result, and the
  answer to a request whose orchestration has already left checkpoints. The store is the one in
  memory. What happens during each barrier is a \<open>script\<close>; a script that does not lead its batch
  to an end gives \<open>None\<close>.
\<close>

section \<open>Admission\<close>

datatype execute_error = Raised_orchestration pystr | Raised_other

datatype FeatureDecisionCode = ENABLED | NOT_REQUESTED | RETIRED | UNSUPPORTED_SCOPE | MISSING_GATES

record FeatureEnablementDecision =
  fd_feature_id :: pystr
  fd_enabled :: bool
  fd_code :: FeatureDecisionCode

definition MULTI_AGENT_FEATURE_ID :: pystr where
  "MULTI_AGENT_FEATURE_ID = lit ''multi_agent_orchestration_v1''"

definition within_parent :: "AgentOrchestrationBudget \<Rightarrow> RuntimeBudgetLimit \<Rightarrow> bool" where
  "within_parent b parent \<longleftrightarrow>
     list_all (\<lambda>(requested, limit). 0 < limit \<and> requested \<le> limit)
       [(max_tasks b, step_limit parent), (max_concurrency b, concurrency_limit parent),
        (max_model_calls b, model_call_limit parent), (max_tokens b, token_limit parent),
        (max_cost_microunits b, cost_limit_microunits parent), (max_elapsed_ms b, time_limit_ms parent)]"

definition admit ::
  "AgentOrchestrationRequest \<Rightarrow> FeatureEnablementDecision \<Rightarrow> int \<Rightarrow> BudgetAccount \<Rightarrow> execute_error + unit" where
  "admit req fd depth a =
     (let b = pl_budget (rq_plan req); parent = be_subagent (budgets (governance a));
          denied = Raised_orchestration (lit ''subagent_budget_denied'')
      in require (fd_feature_id fd = MULTI_AGENT_FEATURE_ID \<and> fd_enabled fd \<and> fd_code fd = ENABLED)
           (Raised_orchestration (lit ''multi_agent_disabled''))
         (require (rq_identity req = identity a) (Raised_orchestration (lit ''budget_identity_mismatch''))
         (require (rq_nesting_depth req = 0 \<and> depth = 0) (Raised_orchestration (lit ''recursive_spawn_denied''))
         (require (within_parent b parent) denied
         (require (maximum_attempts (rq_plan req) + max_tool_calls b \<le> step_limit parent) denied (Inr ()))))))"

section \<open>A barrier\<close>

record execution =
  ex_states :: "(pystr, AgentTaskState) dict"
  ex_outputs :: "(pystr, AgentTaskOutput) dict"
  ex_receipts :: "AgentTaskExecutionReceipt list"
  ex_by_id :: "(pystr, AgentTaskExecutionReceipt) dict"
  ex_shared :: shared
  ex_latest :: pystr
  ex_store :: checkpoint_store

text \<open>
  What happens around a barrier: cancellations before it, the clock at its start, the wall clock
  for each task that is not executed, the events of its batch, and the time of its checkpoint.
\<close>

record script =
  sr_cancels :: "pystr list"
  sr_clock :: rat
  sr_now :: "pystr \<Rightarrow> datetime"
  sr_events :: "batch_event list"
  sr_created_at :: datetime

definition cancelled_by :: "pystr list \<Rightarrow> shared \<Rightarrow> shared" where
  "cancelled_by reasons sh = sh\<lparr>sh_cancel := foldl (\<lambda>c reason. snd (request_cancel reason c)) (sh_cancel sh) reasons\<rparr>"

definition terminal_series ::
  "plan_codec \<Rightarrow> AgentOrchestrationPlan \<Rightarrow> AgentTaskState \<Rightarrow> pystr \<Rightarrow> (pystr \<Rightarrow> datetime) \<Rightarrow> pystr \<Rightarrow> TaskOutcome list checked" where
  "terminal_series cd p st code now i =
     (case find_task (pl_tasks p) i of
        None \<Rightarrow> Inl PlanValueError
      | Some t \<Rightarrow> bind_result (terminal_outcome cd t st code (now i)) (\<lambda>x. TaskSeries_post_init [x]))"

definition blocked :: "AgentOrchestrationPlan \<Rightarrow> (pystr, AgentTaskState) dict \<Rightarrow> pystr \<Rightarrow> bool" where
  "blocked p states i \<longleftrightarrow> list_ex (\<lambda>d. dict_get states d \<noteq> Some SUCCEEDED) (dependencies_of (pl_tasks p) i)"

definition finished_series :: "task_run \<Rightarrow> TaskOutcome list option" where
  "finished_series r = (case r of Finished s \<Rightarrow> Some s | _ \<Rightarrow> None)"

text \<open>\<open>gather\<close> raises as soon as one of the tasks has raised, else waits for all of them.\<close>

definition gathered :: "(pystr, task_run) dict \<Rightarrow> TaskOutcome list list checked option" where
  "gathered runs =
     (if Crashed \<in> snd ` set runs then Some (Inl PlanValueError)
      else if list_all (\<lambda>kv. finished_series (snd kv) \<noteq> None) runs
           then Some (Inr (map (\<lambda>kv. case snd kv of Finished s \<Rightarrow> s | _ \<Rightarrow> []) runs))
           else None)"

definition execute_batch ::
  "scheduler \<Rightarrow> AgentOrchestrationRequest \<Rightarrow> rat \<Rightarrow> AgentTaskBarrier \<Rightarrow> script \<Rightarrow> execution
     \<Rightarrow> (TaskOutcome list list checked \<times> shared) option" where
  "execute_batch sd req deadline ba sc ex =
     (let p = rq_plan req; stuck = filter (blocked p (ex_states ex)) (ba_task_ids ba);
          pending = filter (\<lambda>i. \<not> blocked p (ex_states ex) i) (ba_task_ids ba);
          bc = \<lparr>bc_request = req, bc_outputs = ex_outputs ex, bc_receipts = ex_by_id ex, bc_deadline = deadline\<rparr>
      in case map_result (terminal_series (sd_codec sd) p BLOCKED (lit ''dependency_not_succeeded'') (sr_now sc)) stuck of
           Inl e \<Rightarrow> Some (Inl e, ex_shared ex)
         | Inr immediate \<Rightarrow>
             (case run_batch sd bc (sr_events sc)
                     \<lparr>bt_shared = ex_shared ex, bt_runs = map (\<lambda>i. (i, Ready [])) pending\<rparr> of
                None \<Rightarrow> None
              | Some b \<Rightarrow>
                  map_option (\<lambda>r. (bind_result r (\<lambda>completed. Inr (immediate @ completed)), bt_shared b))
                    (gathered (bt_runs b))))"

definition barrier_series ::
  "scheduler \<Rightarrow> AgentOrchestrationRequest \<Rightarrow> rat \<Rightarrow> AgentTaskBarrier \<Rightarrow> script \<Rightarrow> execution
     \<Rightarrow> (TaskOutcome list list checked \<times> shared) option" where
  "barrier_series sd req deadline ba sc ex =
     (let sh = ex_shared ex; cd = sd_codec sd; p = rq_plan req
      in if sh_cancel sh \<noteq> None
         then Some (map_result (terminal_series cd p CANCELLED (cancel_reason (sh_cancel sh)) (sr_now sc)) (ba_task_ids ba), sh)
         else if sr_clock sc \<ge> deadline
         then Some (map_result (terminal_series cd p TIMED_OUT (lit ''orchestration_time_limit'') (sr_now sc)) (ba_task_ids ba), sh)
         else execute_batch sd req deadline ba sc ex)"

definition commit_outcome :: "execution \<Rightarrow> TaskOutcome \<Rightarrow> execution" where
  "commit_outcome ex x =
     ex\<lparr>ex_receipts := ex_receipts ex @ [oc_receipt x],
        ex_shared := (ex_shared ex)\<lparr>sh_usage := (sh_usage (ex_shared ex))
          \<lparr>ut_task_attempts := ut_task_attempts (sh_usage (ex_shared ex)) + 1\<rparr>\<rparr>\<rparr>"

definition commit_series :: "execution \<Rightarrow> TaskOutcome list \<Rightarrow> execution" where
  "commit_series ex s =
     (let ex' = foldl commit_outcome ex s; receipt = oc_receipt (last s); i = rt_task_id receipt
      in ex'\<lparr>ex_states := dict_set i (rt_state receipt) (ex_states ex'),
             ex_outputs := dict_set i (oc_output (last s)) (ex_outputs ex'),
             ex_by_id := dict_set i receipt (ex_by_id ex')\<rparr>)"

definition commit_barrier :: "TaskOutcome list list \<Rightarrow> execution \<Rightarrow> execution" where
  "commit_barrier series ex =
     foldl commit_series ex (sort_key (\<lambda>s. rt_task_id (oc_receipt (last s))) series)"

section \<open>Checkpoints\<close>

definition checkpoint_id_of :: "AgentOrchestrationRequest \<Rightarrow> int \<Rightarrow> pystr" where
  "checkpoint_id_of req n = lit ''orchestration:'' @ rq_orchestration_id req @ lit '':checkpoint:'' @ dump_int n"

text \<open>The left value is the failure code of the result: \<open>checkpoint_store_failed\<close> unless the error has its own.\<close>

definition make_checkpoint ::
  "plan_codec \<Rightarrow> AgentOrchestrationRequest \<Rightarrow> AgentTaskBarrier \<Rightarrow> datetime \<Rightarrow> execution \<Rightarrow> pystr + AgentOrchestrationCheckpoint" where
  "make_checkpoint cd req ba created ex =
     (let p = rq_plan req; store_failed = lit ''checkpoint_store_failed''
      in require (ba_sequence ba \<le> max_checkpoints (pl_budget p)) (lit ''checkpoint_budget_exceeded'')
         (case usage_snapshot (sh_usage (ex_shared ex)) of
            Inl _ \<Rightarrow> Inl store_failed
          | Inr usage \<Rightarrow>
              (case AgentOrchestrationCheckpoint_post_init cd
                 \<lparr>ck_checkpoint_id = checkpoint_id_of req (ba_sequence ba), ck_orchestration_id = rq_orchestration_id req,
                  ck_identity = rq_identity req, ck_plan_id = pl_plan_id p, ck_plan_revision = pl_revision p,
                  ck_plan_sha256 = pl_content_sha256 p, ck_freeze_id = fz_freeze_id (rq_freeze req),
                  ck_sequence = ba_sequence ba, ck_parent_checkpoint_id = ex_latest ex, ck_barrier_id = ba_barrier_id ba,
                  ck_task_states = ex_states ex, ck_outputs = ex_outputs ex, ck_receipts = ex_receipts ex,
                  ck_cumulative_usage = usage, ck_created_at = created, ck_state_sha256 = []\<rparr> of
                 Inl _ \<Rightarrow> Inl store_failed
               | Inr c \<Rightarrow>
                   (case checkpoint_size cd c of
                      Inl _ \<Rightarrow> Inl store_failed
                    | Inr n \<Rightarrow>
                        require (n \<le> max_output_bytes (pl_budget p)) (lit ''checkpoint_size_exceeded'') (Inr c)))))"

definition save_checkpoint ::
  "plan_codec \<Rightarrow> AgentOrchestrationRequest \<Rightarrow> AgentTaskBarrier \<Rightarrow> datetime \<Rightarrow> execution
     \<Rightarrow> (pystr + AgentOrchestrationCheckpoint) \<times> checkpoint_store" where
  "save_checkpoint cd req ba created ex =
     (case make_checkpoint cd req ba created ex of
        Inl code \<Rightarrow> (Inl code, ex_store ex)
      | Inr c \<Rightarrow>
          (case store_save c (ex_store ex) of
             (Inl _, s) \<Rightarrow> (Inl (lit ''checkpoint_store_failed''), s)
           | (Inr saved, s) \<Rightarrow> (Inr saved, s)))"

definition orchestration_result ::
  "AgentOrchestrationRequest \<Rightarrow> AgentOrchestrationState \<Rightarrow> AgentTaskExecutionReceipt list \<Rightarrow> (pystr, AgentTaskOutput) dict
     \<Rightarrow> AgentTaskOutput option \<Rightarrow> pystr \<Rightarrow> pystr \<Rightarrow> execute_error + AgentOrchestrationResult" where
  "orchestration_result req st receipts outputs aggregate latest code =
     (case AgentOrchestrationResult_post_init
        \<lparr>re_orchestration_id = rq_orchestration_id req, re_state = st, re_plan_sha256 = pl_content_sha256 (rq_plan req),
         re_receipts = receipts, re_outputs = outputs, re_aggregate_output = aggregate,
         re_latest_checkpoint_id = latest, re_failure_code = code\<rparr> of
        Inl _ \<Rightarrow> Inl Raised_other
      | Inr r \<Rightarrow> Inr r)"

section \<open>The loop\<close>

text \<open>How a part of the run ends: it goes on, or the call returns or raises.\<close>

datatype progress = Continues execution | Ends "execute_error + AgentOrchestrationResult" execution

definition run_barrier ::
  "scheduler \<Rightarrow> AgentOrchestrationRequest \<Rightarrow> rat \<Rightarrow> AgentTaskBarrier \<Rightarrow> script \<Rightarrow> execution \<Rightarrow> progress option" where
  "run_barrier sd req deadline ba sc ex0 =
     (let ex = ex0\<lparr>ex_shared := cancelled_by (sr_cancels sc) (ex_shared ex0)\<rparr>
      in case barrier_series sd req deadline ba sc ex of
           None \<Rightarrow> None
         | Some (Inl _, sh) \<Rightarrow> Some (Ends (Inl Raised_other) (ex\<lparr>ex_shared := sh\<rparr>))
         | Some (Inr series, sh) \<Rightarrow>
             let ex1 = commit_barrier series (ex\<lparr>ex_shared := sh\<rparr>)
             in Some (case save_checkpoint (sd_codec sd) req ba (sr_created_at sc) ex1 of
                  (Inl code, s) \<Rightarrow>
                    Ends (orchestration_result req ORCH_FAILED (ex_receipts ex1) (ex_outputs ex1) None (ex_latest ex1) code)
                      (ex1\<lparr>ex_store := s\<rparr>)
                | (Inr c, s) \<Rightarrow> Continues (ex1\<lparr>ex_store := s, ex_latest := ck_checkpoint_id c\<rparr>)))"

fun run_barriers ::
  "scheduler \<Rightarrow> AgentOrchestrationRequest \<Rightarrow> rat \<Rightarrow> AgentTaskBarrier list \<Rightarrow> script list \<Rightarrow> execution \<Rightarrow> progress option" where
  "run_barriers sd req deadline [] scripts ex = Some (Continues ex)"
| "run_barriers sd req deadline (ba # bas) [] ex = None"
| "run_barriers sd req deadline (ba # bas) (sc # scs) ex =
     (case run_barrier sd req deadline ba sc ex of
        Some (Continues ex') \<Rightarrow> run_barriers sd req deadline bas scs ex'
      | r \<Rightarrow> r)"

definition all_succeeded :: "AgentTaskExecutionReceipt list \<Rightarrow> bool" where
  "all_succeeded receipts = list_all (\<lambda>r. rt_state r = SUCCEEDED) receipts"

definition first_failure :: "AgentTaskExecutionReceipt list \<Rightarrow> pystr" where
  "first_failure receipts =
     (case find (\<lambda>r. rt_state r \<noteq> SUCCEEDED) receipts of
        Some r \<Rightarrow> rt_error_code r | None \<Rightarrow> lit ''completion_condition_failed'')"

definition final_result :: "AgentOrchestrationRequest \<Rightarrow> execution \<Rightarrow> execute_error + AgentOrchestrationResult" where
  "final_result req ex =
     (let p = rq_plan req; i = pl_aggregation_task_id p; receipts = map snd (ex_by_id ex); cancel = sh_cancel (ex_shared ex);
          result = (\<lambda>st aggregate code.
            orchestration_result req st (ex_receipts ex) (ex_outputs ex) aggregate (ex_latest ex) code)
      in if cancel \<noteq> None then result ORCH_CANCELLED None (cancel_reason cancel)
         else if (case dict_get (ex_by_id ex) i of None \<Rightarrow> False | Some r \<Rightarrow> rt_state r = SUCCEEDED) \<and>
                 length receipts = length (pl_tasks p) \<and> all_succeeded receipts
         then result ORCH_SUCCEEDED (dict_get (ex_outputs ex) i) []
         else result ORCH_FAILED None (first_failure receipts))"

section \<open>Replay\<close>

definition checkpoint_matches ::
  "AgentOrchestrationRequest \<Rightarrow> AgentTaskBarrier list \<Rightarrow> AgentOrchestrationCheckpoint \<Rightarrow> bool" where
  "checkpoint_matches req barriers c \<longleftrightarrow>
     ck_orchestration_id c = rq_orchestration_id req \<and> ck_identity c = rq_identity req \<and>
     ck_plan_id c = pl_plan_id (rq_plan req) \<and> ck_plan_revision c = pl_revision (rq_plan req) \<and>
     ck_plan_sha256 c = pl_content_sha256 (rq_plan req) \<and> ck_freeze_id c = fz_freeze_id (rq_freeze req) \<and>
     ck_sequence c \<le> int (length barriers) \<and> ck_barrier_id c = ba_barrier_id (barriers ! nat (ck_sequence c - 1))"

definition receipt_planned :: "AgentOrchestrationPlan \<Rightarrow> AgentTaskExecutionReceipt \<Rightarrow> bool" where
  "receipt_planned p r \<longleftrightarrow>
     (case find_task (pl_tasks p) (rt_task_id r) of
        None \<Rightarrow> False
      | Some t \<Rightarrow> rt_role_id r = ta_role_id t \<and> rt_attempt_no r \<le> retry_max_attempts (ta_retry_policy t))"

text \<open>The last attempt of each task, in the order of the first ones.\<close>

definition keep_final ::
  "(pystr, AgentTaskExecutionReceipt) dict \<Rightarrow> AgentTaskExecutionReceipt \<Rightarrow> (pystr, AgentTaskExecutionReceipt) dict" where
  "keep_final d r =
     (case dict_get d (rt_task_id r) of
        None \<Rightarrow> dict_set (rt_task_id r) r d
      | Some previous \<Rightarrow> if rt_attempt_no r > rt_attempt_no previous then dict_set (rt_task_id r) r d else d)"

definition replayed_result ::
  "AgentOrchestrationRequest \<Rightarrow> AgentOrchestrationCheckpoint \<Rightarrow> (pystr, AgentTaskExecutionReceipt) dict
     \<Rightarrow> execute_error + AgentOrchestrationResult" where
  "replayed_result req c final_receipts =
     (let receipts = map snd final_receipts; aggregate = dict_get (ck_outputs c) (pl_aggregation_task_id (rq_plan req));
          result = (\<lambda>st aggregate code.
            orchestration_result req st (ck_receipts c) (ck_outputs c) aggregate (ck_checkpoint_id c) code)
      in if all_succeeded receipts \<and> aggregate \<noteq> None then result ORCH_SUCCEEDED aggregate []
         else case find (\<lambda>r. rt_state r = CANCELLED) receipts of
                Some r \<Rightarrow> result ORCH_CANCELLED None (rt_error_code r)
              | None \<Rightarrow> result ORCH_FAILED None (first_failure receipts))"

definition existing_checkpoint_result ::
  "AgentOrchestrationRequest \<Rightarrow> AgentTaskBarrier list \<Rightarrow> AgentOrchestrationCheckpoint
     \<Rightarrow> execute_error + AgentOrchestrationResult" where
  "existing_checkpoint_result req barriers c =
     (let ids = set (map ta_task_id (pl_tasks (rq_plan req))); raised = (\<lambda>code. Raised_orchestration (lit code));
          final_receipts = foldl keep_final [] (ck_receipts c)
      in require (checkpoint_matches req barriers c) (raised ''checkpoint_identity_mismatch'')
         (require (ck_sequence c = int (length barriers)) (raised ''plan_repair_required'')
         (require (fst ` set (ck_task_states c) = ids \<and> list_all (\<lambda>kv. task_terminal (snd kv)) (ck_task_states c))
            (raised ''checkpoint_state_invalid'')
         (require (list_all (receipt_planned (rq_plan req)) (ck_receipts c)) (raised ''checkpoint_receipt_invalid'')
         (require (fst ` set final_receipts = ids) (raised ''checkpoint_receipt_invalid'')
           (replayed_result req c final_receipts))))))"

section \<open>The whole call\<close>

definition first_execution ::
  "AgentOrchestrationRequest \<Rightarrow> BudgetAccount \<Rightarrow> cancellation \<Rightarrow> checkpoint_store \<Rightarrow> execution" where
  "first_execution req a cancel store =
     \<lparr>ex_states = map (\<lambda>t. (ta_task_id t, PENDING)) (pl_tasks (rq_plan req)), ex_outputs = [], ex_receipts = [],
      ex_by_id = [], ex_shared = \<lparr>sh_account = a, sh_usage = no_usage, sh_cancel = cancel\<rparr>, ex_latest = [],
      ex_store = store\<rparr>"

text \<open>
  \<open>late\<close> are the cancellations that arrive while the last checkpoint is saved. \<open>None\<close> also stands
  for barriers that are never computed.
\<close>

definition execute ::
  "scheduler \<Rightarrow> AgentOrchestrationRequest \<Rightarrow> FeatureEnablementDecision \<Rightarrow> int \<Rightarrow> rat \<Rightarrow> script list \<Rightarrow> pystr list
     \<Rightarrow> BudgetAccount \<Rightarrow> cancellation \<Rightarrow> checkpoint_store
     \<Rightarrow> ((execute_error + AgentOrchestrationResult) \<times> execution) option" where
  "execute sd req fd depth started scripts late a cancel store =
     (let ex = first_execution req a cancel store;
          deadline = started + of_int (max_elapsed_ms (pl_budget (rq_plan req))) / 1000
      in case admit req fd depth a of
           Inl e \<Rightarrow> Some (Inl e, ex)
         | Inr _ \<Rightarrow>
             (case load_latest (rq_orchestration_id req) (canonical_id (ri_owner (rq_identity req))) store of
                Inl _ \<Rightarrow> Some (Inl (Raised_orchestration (lit ''checkpoint_store_failed'')), ex)
              | Inr existing \<Rightarrow>
                  (case execution_barriers (sd_codec sd) (rq_plan req) of
                     None \<Rightarrow> None
                   | Some (Inl _) \<Rightarrow> Some (Inl Raised_other, ex)
                   | Some (Inr barriers) \<Rightarrow>
                       (case existing of
                          Some c \<Rightarrow> Some (existing_checkpoint_result req barriers c, ex)
                        | None \<Rightarrow>
                            (case run_barriers sd req deadline barriers scripts ex of
                               None \<Rightarrow> None
                             | Some (Ends r ex') \<Rightarrow> Some (r, ex')
                             | Some (Continues ex') \<Rightarrow>
                                 let ex2 = ex'\<lparr>ex_shared := cancelled_by late (ex_shared ex')\<rparr>
                                 in Some (final_result req ex2, ex2))))))"

end
