(* ===== verification/Agent_Orchestrator_Correct.thy ===== *)
theory Agent_Orchestrator_Correct
  imports Agent_Batch_Correct Agent_Orchestrator
begin

text \<open>
  The whole run of a plan: what it commits barrier by barrier, what its result says, what it leaves
  of the budget account and of the checkpoint store, and that executing it again gives the same
  result.
\<close>

section \<open>What a run has committed\<close>

text \<open>The series of a task: its last receipt and the task it belongs to.\<close>

definition final_receipt :: "TaskOutcome list \<Rightarrow> AgentTaskExecutionReceipt" where
  "final_receipt s = oc_receipt (last s)"

definition series_task :: "TaskOutcome list \<Rightarrow> pystr" where
  "series_task s = rt_task_id (final_receipt s)"

definition series_ok :: "plan_codec \<Rightarrow> AgentOrchestrationPlan \<Rightarrow> TaskOutcome list \<Rightarrow> bool" where
  "series_ok cd p s \<longleftrightarrow> s \<noteq> [] \<and> (\<exists>t \<in> set (pl_tasks p). series_task s = ta_task_id t \<and> attempts_ok cd t True s)"

definition state_in :: "AgentOrchestrationPlan \<Rightarrow> TaskOutcome list list \<Rightarrow> pystr \<Rightarrow> AgentTaskState option" where
  "state_in p S i =
     (case find (\<lambda>s. series_task s = i) S of
        Some s \<Rightarrow> Some (rt_state (final_receipt s))
      | None \<Rightarrow> if i \<in> ta_task_id ` set (pl_tasks p) then Some PENDING else None)"

text \<open>The fields of an execution after the series \<open>S\<close> have been committed in this order.\<close>

definition committed :: "AgentOrchestrationPlan \<Rightarrow> TaskOutcome list list \<Rightarrow> execution \<Rightarrow> bool" where
  "committed p S ex \<longleftrightarrow>
     ex_receipts ex = concat (map (map oc_receipt) S) \<and>
     ex_by_id ex = map (\<lambda>s. (series_task s, final_receipt s)) S \<and>
     ex_outputs ex = map (\<lambda>s. (series_task s, oc_output (last s))) S \<and>
     map fst (ex_states ex) = map ta_task_id (pl_tasks p) \<and> dict_get (ex_states ex) = state_in p S \<and>
     ut_task_attempts (sh_usage (ex_shared ex)) = int (length (ex_receipts ex))"

lemma commit_outcomes:
  "foldl commit_outcome ex s =
     ex\<lparr>ex_receipts := ex_receipts ex @ map oc_receipt s,
        ex_shared := (ex_shared ex)\<lparr>sh_usage := (sh_usage (ex_shared ex))
          \<lparr>ut_task_attempts := ut_task_attempts (sh_usage (ex_shared ex)) + int (length s)\<rparr>\<rparr>\<rparr>"
  by (induction s arbitrary: ex) (simp_all add: commit_outcome_def)

lemma update_keys: "k \<in> fst ` set d \<Longrightarrow> map fst (dict_set k v d) = map fst d"
  by (induction d) auto

lemma commit_series_committed:
  assumes "committed p S ex" "series_task s \<in> ta_task_id ` set (pl_tasks p)" "series_task s \<notin> series_task ` set S"
  shows "committed p (S @ [s]) (commit_series ex s)"
proof -
  have c: "ex_receipts ex = concat (map (map oc_receipt) S)" "ex_by_id ex = map (\<lambda>s. (series_task s, final_receipt s)) S"
    "ex_outputs ex = map (\<lambda>s. (series_task s, oc_output (last s))) S" "map fst (ex_states ex) = map ta_task_id (pl_tasks p)"
    "dict_get (ex_states ex) = state_in p S" "ut_task_attempts (sh_usage (ex_shared ex)) = int (length (ex_receipts ex))"
    using assms(1) by (auto simp: committed_def)
  have task: "rt_task_id (oc_receipt (last s)) = series_task s" by (simp add: series_task_def final_receipt_def)
  have fresh: "series_task s \<notin> fst ` set (map (\<lambda>s. (series_task s, f s)) S)" for f :: "TaskOutcome list \<Rightarrow> 'c"
    using assms(3) by auto
  have "find (\<lambda>s'. series_task s' = series_task s) S = None"
    using assms(3) by (auto simp: find_None_iff) (metis image_eqI)
  then have "dict_get (dict_set (series_task s) (rt_state (oc_receipt (last s))) (ex_states ex)) = state_in p (S @ [s])"
    unfolding update_conv' c(5) by (intro ext) (auto simp: state_in_def find_snoc final_receipt_def split: option.splits)
  moreover have "series_task s \<in> fst ` set (ex_states ex)" using assms(2) by (metis c(4) image_set)
  ultimately show ?thesis
    using c by (simp add: committed_def commit_series_def Let_def commit_outcomes task dict_set_new [OF fresh] update_keys)
      (simp add: final_receipt_def)
qed

lemma commit_frame [simp]:
  "ex_latest (commit_series ex s) = ex_latest ex" "ex_store (commit_series ex s) = ex_store ex"
  "sh_account (ex_shared (commit_series ex s)) = sh_account (ex_shared ex)"
  "sh_cancel (ex_shared (commit_series ex s)) = sh_cancel (ex_shared ex)"
  "plan_exceeded b (sh_usage (ex_shared (commit_series ex s))) = plan_exceeded b (sh_usage (ex_shared ex))"
  by (simp_all add: commit_series_def Let_def commit_outcomes plan_exceeded_def ut_tokens_def)

lemma commit_all:
  assumes "committed p S ex" "distinct (map series_task L)" "set (map series_task L) \<subseteq> ta_task_id ` set (pl_tasks p)"
    "series_task ` set S \<inter> series_task ` set L = {}"
  shows "committed p (S @ L) (foldl commit_series ex L) \<and>
    ex_latest (foldl commit_series ex L) = ex_latest ex \<and> ex_store (foldl commit_series ex L) = ex_store ex \<and>
    sh_account (ex_shared (foldl commit_series ex L)) = sh_account (ex_shared ex) \<and>
    sh_cancel (ex_shared (foldl commit_series ex L)) = sh_cancel (ex_shared ex) \<and>
    (\<forall>b. plan_exceeded b (sh_usage (ex_shared (foldl commit_series ex L))) = plan_exceeded b (sh_usage (ex_shared ex)))"
  using assms
proof (induction L arbitrary: S ex)
  case (Cons s L)
  have "committed p (S @ [s]) (commit_series ex s)"
    using Cons.prems by (intro commit_series_committed) auto
  from Cons.IH [OF this] Cons.prems show ?case by auto
qed simp

lemma series_key: "(\<lambda>s. rt_task_id (oc_receipt (last s))) = series_task"
  by (simp add: fun_eq_iff series_task_def final_receipt_def)

section \<open>The series of a barrier\<close>

definition plan_tasks_constructed :: "AgentOrchestrationPlan \<Rightarrow> bool" where
  "plan_tasks_constructed p \<longleftrightarrow> list_all constructed_task (pl_tasks p) \<and> distinct (map ta_task_id (pl_tasks p))"

lemma find_task_spec: "find_task tasks i = Some t \<Longrightarrow> t \<in> set tasks \<and> ta_task_id t = i"
  unfolding find_task_def by (rule find_SomeD)

lemma terminal_series_ok:
  assumes "terminal_series cd p st code now i = Inr s" "plan_tasks_constructed p" "codec_ok cd"
  shows "series_ok cd p s \<and> series_task s = i \<and> rt_state (final_receipt s) = st"
proof -
  obtain t x out where t: "find_task (pl_tasks p) i = Some t" "s = [x]"
    "task_receipt cd t st out code 1 (now i) (now i) 0 [] = Inr x"
    using assms(1) by (auto simp: terminal_series_def terminal_outcome_def result_simps TaskSeries_post_init_def
        split: option.splits)
  note find = find_task_spec [OF t(1)]
  have "constructed_task t" using assms(2) find by (auto simp: plan_tasks_constructed_def list_all_iff)
  from task_receipt_spec [OF t(3) this assms(3)] have x: "outcome_ok cd t 1 x" "rt_state (oc_receipt x) = st" by auto
  then have "attempts_ok cd t True s" using attempts_ok_snoc [of cd t True "[]" x] t(2) by simp
  moreover have "series_task s = ta_task_id t" using x(1) t(2) by (auto simp: series_task_def final_receipt_def outcome_ok_def Let_def)
  ultimately show ?thesis using find x(2) t(2) by (auto simp: series_ok_def final_receipt_def intro!: bexI [of _ t])
qed

lemma terminal_series_all:
  assumes "map_result (terminal_series cd p st code now) ids = Inr series" "plan_tasks_constructed p" "codec_ok cd"
  shows "map series_task series = ids \<and> (\<forall>s \<in> set series. series_ok cd p s \<and> rt_state (final_receipt s) = st)"
proof -
  have "list_all2 (\<lambda>i s. terminal_series cd p st code now i = Inr s) ids series" using assms(1) by (simp add: map_result_Inr_all)
  then show ?thesis
  proof (induction rule: list_all2_induct)
    case (Cons i ids s series)
    then show ?case using terminal_series_ok [OF Cons(1) assms(2,3)] by simp
  qed simp
qed

lemma set_run_keys: "dict_get (bt_runs b) i = Some r0 \<Longrightarrow> map fst (bt_runs (set_run i r b)) = map fst (bt_runs b)"
  unfolding set_run_def by (simp, rule update_keys) (metis fst_conv image_eqI map_of_SomeD)

lemma batch_step_keys: "batch_step sd bc e b = Some b' \<Longrightarrow> map fst (bt_runs b') = map fst (bt_runs b)"
  by (cases e) (auto simp: set_run_keys split: option.splits task_run.splits)

lemma run_batch_keys: "run_batch sd bc es b = Some b' \<Longrightarrow> map fst (bt_runs b') = map fst (bt_runs b)"
  by (induction es arbitrary: b) (auto simp: bind_eq_Some_conv dest: batch_step_keys)

text \<open>What a batch hands over when all its tasks have finished.\<close>

lemma gathered_ok:
  assumes "gathered (bt_runs b) = Some (Inr completed)" "series_inv cd bc b" "distinct (map fst (bt_runs b))"
  shows "map series_task completed = map fst (bt_runs b) \<and>
    (\<forall>s \<in> set completed. series_ok cd (rq_plan (bc_request bc)) s \<and>
       (\<exists>i. dict_get (bt_runs b) i = Some (Finished s))) \<and>
    (\<forall>i r. dict_get (bt_runs b) i = Some r \<longrightarrow> (\<exists>s \<in> set completed. r = Finished s))"
proof -
  let ?f = "\<lambda>kv. case snd kv of Finished s \<Rightarrow> s | _ \<Rightarrow> []"
  have fin: "\<forall>kv \<in> set (bt_runs b). \<exists>s. snd kv = Finished s" and completed: "completed = map ?f (bt_runs b)"
    using assms(1) by (auto simp: gathered_def list_all_iff finished_series_def split: if_splits task_run.splits)
      (metis option.discI snd_conv task_run.exhaust)?
  have ok: "series_ok cd (rq_plan (bc_request bc)) s \<and> series_task s = i \<and> dict_get (bt_runs b) i = Some (Finished s)"
    if kv: "(i, Finished s) \<in> set (bt_runs b)" for i s
  proof -
    have get: "dict_get (bt_runs b) i = Some (Finished s)" using assms(3) kv by (rule map_of_is_SomeI)
    then obtain t where t: "plan_task bc i = Some t" "run_ok cd t (Finished s)"
      using assms(2) by (auto simp: series_inv_def)
    note task = find_task_spec [OF t(1) [unfolded plan_task_def]]
    have s: "s \<noteq> []" "attempts_ok cd t True s" using t(2) by (auto simp: run_ok_def)
    then have "outcome_ok cd t (length s) (last s)"
      by (cases s rule: rev_cases) (auto simp: attempts_ok_snoc)
    then have "series_task s = ta_task_id t" by (simp add: series_task_def final_receipt_def outcome_ok_def Let_def)
    then show ?thesis using s task get by (auto simp: series_ok_def intro!: bexI [of _ t])
  qed
  have "series_task (?f kv) = fst kv" if "kv \<in> set (bt_runs b)" for kv
    using fin ok that by (cases kv) fastforce
  then have "map series_task completed = map fst (bt_runs b)" unfolding completed by simp
  moreover have "series_ok cd (rq_plan (bc_request bc)) s \<and> (\<exists>i. dict_get (bt_runs b) i = Some (Finished s))"
    if "s \<in> set completed" for s
    using that fin ok unfolding completed by fastforce
  moreover have "\<exists>s \<in> set completed. r = Finished s" if "dict_get (bt_runs b) i = Some r" for i r
    using map_of_SomeD [OF that] fin unfolding completed by force
  ultimately show ?thesis by blast
qed

text \<open>The number of attempts in the totals is only changed by the commit.\<close>

lemma conclude_usage: "sh_usage (snd (conclude cd bc t os ra en r sh)) = sh_usage sh"
  by (auto simp: conclude_def end_attempt_def release_reservation_def split: prod.splits option.splits sum.splits)

lemma begin_attempt_usage: "begin_attempt cd bc t os st sh = (r, ra, sh') \<Longrightarrow> sh_usage sh' = sh_usage sh"
  by (auto simp: begin_attempt_def Let_def split: prod.splits sum.splits)

lemma start_attempt_usage: "sh_usage (snd (start_attempt cd bc t os st en sh)) = sh_usage sh"
proof -
  obtain r ra sh1 where b: "begin_attempt cd bc t os st sh = (r, ra, sh1)" by (metis prod_cases3)
  show ?thesis
  proof (cases r)
    case (Inl e)
    then show ?thesis using begin_attempt_usage [OF b] by (simp add: start_attempt_def b conclude_usage)
  next
    case (Inr cx)
    then show ?thesis using begin_attempt_usage [OF b] by (cases cx) (simp add: start_attempt_def b)
  qed
qed

lemma judge_output_attempts:
  "judge_output sd bc t n ra en out sh = (r, sh') \<Longrightarrow> ut_task_attempts (sh_usage sh') = ut_task_attempts (sh_usage sh)"
  by (auto simp: judge_output_def record_task_usage_def added_usage_def Let_def split: if_splits sum.splits prod.splits)

lemma finish_attempt_attempts:
  "ut_task_attempts (sh_usage (snd (finish_attempt sd bc t os ra en w sh))) = ut_task_attempts (sh_usage sh)"
proof (cases "await_executor (sh_cancel sh \<noteq> None) w")
  case (Inr out)
  obtain r sh1 where j: "judge_output sd bc t (length os + 1) ra en out sh = (r, sh1)" by fastforce
  then show ?thesis using judge_output_attempts [OF j] Inr by (simp add: finish_attempt_def conclude_usage)
qed (simp add: finish_attempt_def conclude_usage)

lemma batch_step_attempts:
  "batch_step sd bc e b = Some b' \<Longrightarrow> ut_task_attempts (sh_usage (bt_shared b')) = ut_task_attempts (sh_usage (bt_shared b))"
  by (cases e) (auto simp: set_run_def start_attempt_usage finish_attempt_attempts split: option.splits task_run.splits)

lemma run_batch_attempts:
  "run_batch sd bc es b = Some b' \<Longrightarrow> ut_task_attempts (sh_usage (bt_shared b')) = ut_task_attempts (sh_usage (bt_shared b))"
  by (induction es arbitrary: b) (auto simp: bind_eq_Some_conv dest: batch_step_attempts)

text \<open>
  What a barrier hands over: a finished series for each of its tasks, none successful unless all
  dependencies of its task were; the account as it was apart from what was charged; and totals
  within the plan unless a task has failed.
\<close>

definition hands_over ::
  "plan_codec \<Rightarrow> AgentOrchestrationRequest \<Rightarrow> execution \<Rightarrow> pystr list \<Rightarrow> TaskOutcome list list \<Rightarrow> shared \<Rightarrow> bool" where
  "hands_over cd req ex ids series sh \<longleftrightarrow>
     (let p = rq_plan req; a = sh_account (ex_shared ex); a' = sh_account sh
      in mset (map series_task series) = mset ids \<and>
         (\<forall>s \<in> set series. series_ok cd p s \<and>
            (rt_state (final_receipt s) = SUCCEEDED \<longrightarrow> \<not> blocked p (ex_states ex) (series_task s))) \<and>
         account_inv a' \<and> identity a' = identity a \<and> reservations a' = reservations a \<and>
         ut_task_attempts (sh_usage sh) = ut_task_attempts (sh_usage (ex_shared ex)) \<and>
         (plan_exceeded (pl_budget p) (sh_usage (ex_shared ex)) = None \<longrightarrow>
            plan_exceeded (pl_budget p) (sh_usage sh) = None \<or>
            (\<exists>s \<in> set series. rt_state (final_receipt s) \<noteq> SUCCEEDED)))"

definition script_ok :: "plan_codec \<Rightarrow> script \<Rightarrow> bool" where
  "script_ok cd sc \<longleftrightarrow> list_all (event_ok cd) (sr_events sc)"

lemma terminal_hands_over:
  assumes "map_result (terminal_series cd (rq_plan req) st code now) ids = Inr series" "plan_tasks_constructed (rq_plan req)"
    "codec_ok cd" "st \<noteq> SUCCEEDED" "account_inv (sh_account (ex_shared ex))"
  shows "hands_over cd req ex ids series (ex_shared ex)"
  using terminal_series_all [OF assms(1-3)] assms(4,5) by (auto simp: hands_over_def)

lemma execute_batch_hands_over:
  assumes "execute_batch sd req deadline ba sc ex = Some (Inr series, sh)"
    and "plan_tasks_constructed (rq_plan req)" "codec_ok (sd_codec sd)" "script_ok (sd_codec sd) sc"
    and "account_inv (sh_account (ex_shared ex))" "distinct (ba_task_ids ba)"
    and "set (ba_task_ids ba) \<subseteq> ta_task_id ` set (pl_tasks (rq_plan req))"
  shows "hands_over (sd_codec sd) req ex (ba_task_ids ba) series sh"
proof -
  let ?p = "rq_plan req" and ?cd = "sd_codec sd"
  let ?stuck = "filter (blocked ?p (ex_states ex)) (ba_task_ids ba)"
  let ?pending = "filter (\<lambda>i. \<not> blocked ?p (ex_states ex) i) (ba_task_ids ba)"
  define bc where "bc = \<lparr>bc_request = req, bc_outputs = ex_outputs ex, bc_receipts = ex_by_id ex, bc_deadline = deadline\<rparr>"
  obtain immediate b completed where
    im: "map_result (terminal_series ?cd ?p BLOCKED (lit ''dependency_not_succeeded'') (sr_now sc)) ?stuck = Inr immediate"
    and run: "run_batch sd bc (sr_events sc) (ready_batch (ex_shared ex) ?pending) = Some b"
    and g: "gathered (bt_runs b) = Some (Inr completed)" and series: "series = immediate @ completed" "sh = bt_shared b"
    using assms(1)
    by (auto simp: execute_batch_def Let_def bc_def ready_batch_def result_simps split: sum.splits option.splits)
  have req: "bc_request bc = req" by (simp add: bc_def)
  have sinv0: "series_inv ?cd bc (ready_batch (ex_shared ex) ?pending)"
    by (rule ready_batch_series) (use assms(2,3,7) in \<open>auto simp: tasks_constructed_def req plan_tasks_constructed_def\<close>)
  note sinv = run_batch_series [OF run sinv0]
  have keys: "map fst (bt_runs b) = ?pending" using run_batch_keys [OF run] by (simp add: ready_batch_def comp_def)
  note fin = gathered_ok [OF g sinv, unfolded keys req]
  have dist: "distinct ?pending" using assms(6) by simp
  note fin = fin [OF dist]
  note imm = terminal_series_all [OF im assms(2,3)]
  have "\<not> is_executing r" if "dict_get (bt_runs b) i = Some r" for i r using fin that by (metis held_simps(9))
  note acc = batch_releases [OF run assms(4) [unfolded script_ok_def] assms(5) this]
  have "mset (map series_task series) = mset (ba_task_ids ba)"
    using imm fin by (simp add: series(1))
  moreover have "\<not> blocked ?p (ex_states ex) (series_task s)" if "s \<in> set series" "rt_state (final_receipt s) = SUCCEEDED" for s
  proof -
    have "s \<in> set completed" using that imm by (auto simp: series(1))
    then have "series_task s \<in> set (map series_task completed)" by simp
    then show ?thesis unfolding conjunct1 [OF fin] by simp
  qed
  moreover have "plan_exceeded (pl_budget ?p) (sh_usage sh) = None \<or> (\<exists>s \<in> set series. rt_state (final_receipt s) \<noteq> SUCCEEDED)"
    if ok: "plan_exceeded (pl_budget ?p) (sh_usage (ex_shared ex)) = None"
  proof -
    have "full_inv ?cd bc (sh_account (ex_shared ex)) (ready_batch (ex_shared ex) ?pending)"
      by (rule ready_batch_full [OF sinv0 assms(5)]) (use ok in \<open>simp add: fits_def req\<close>)
    then have "full_inv ?cd bc (sh_account (ex_shared ex)) b"
      by (rule batch_full.reach_inv [OF run_batch_reach [OF run assms(4) [unfolded script_ok_def]]])
    then have "usage_inv bc b" by (simp add: full_inv_def)
    then show ?thesis using fin
      by (fastforce simp: usage_inv_def fits_def req series final_receipt_def)
  qed
  ultimately show ?thesis
    using acc imm fin run_batch_attempts [OF run] unfolding hands_over_def Let_def series
    by (auto simp: ready_batch_def)
qed

lemma barrier_hands_over:
  assumes "barrier_series sd req deadline ba sc ex = Some (Inr series, sh)"
    and "plan_tasks_constructed (rq_plan req)" "codec_ok (sd_codec sd)" "script_ok (sd_codec sd) sc"
    and "account_inv (sh_account (ex_shared ex))" "distinct (ba_task_ids ba)"
    and "set (ba_task_ids ba) \<subseteq> ta_task_id ` set (pl_tasks (rq_plan req))"
  shows "hands_over (sd_codec sd) req ex (ba_task_ids ba) series sh"
  using assms(1) execute_batch_hands_over [OF _ assms(2-7)] terminal_hands_over [OF _ assms(2,3) _ assms(5)]
  by (auto simp: barrier_series_def Let_def split: if_splits)

section \<open>The run\<close>

definition exec_inv ::
  "plan_codec \<Rightarrow> AgentOrchestrationRequest \<Rightarrow> BudgetAccount \<Rightarrow> TaskOutcome list list \<Rightarrow> execution \<Rightarrow> bool" where
  "exec_inv cd req a0 S ex \<longleftrightarrow>
     (let p = rq_plan req; a = sh_account (ex_shared ex)
      in committed p S ex \<and> (\<forall>s \<in> set S. series_ok cd p s) \<and> distinct (map series_task S) \<and>
         account_inv a \<and> identity a = identity a0 \<and> reservations a = reservations a0 \<and>
         (plan_exceeded (pl_budget p) (sh_usage (ex_shared ex)) = None \<or>
          (\<exists>s \<in> set S. rt_state (final_receipt s) \<noteq> SUCCEEDED)) \<and>
         (\<forall>s \<in> set S. rt_state (final_receipt s) = SUCCEEDED \<longrightarrow>
            (\<forall>d \<in> set (dependencies_of (pl_tasks p) (series_task s)). state_in p S d = Some SUCCEEDED)))"

lemma exec_invD:
  assumes "exec_inv cd req a0 S ex"
  shows "committed (rq_plan req) S ex" "\<And>s. s \<in> set S \<Longrightarrow> series_ok cd (rq_plan req) s" "distinct (map series_task S)"
    "account_inv (sh_account (ex_shared ex))" "identity (sh_account (ex_shared ex)) = identity a0"
    "reservations (sh_account (ex_shared ex)) = reservations a0"
    "plan_exceeded (pl_budget (rq_plan req)) (sh_usage (ex_shared ex)) = None \<or>
       (\<exists>s \<in> set S. rt_state (final_receipt s) \<noteq> SUCCEEDED)"
    "\<And>s d. s \<in> set S \<Longrightarrow> rt_state (final_receipt s) = SUCCEEDED \<Longrightarrow>
       d \<in> set (dependencies_of (pl_tasks (rq_plan req)) (series_task s)) \<Longrightarrow> state_in (rq_plan req) S d = Some SUCCEEDED"
  using assms unfolding exec_inv_def Let_def by blast+

lemma exec_inv_frame:
  assumes "exec_inv cd req a0 S ex" "ex_states ex' = ex_states ex" "ex_outputs ex' = ex_outputs ex"
    "ex_receipts ex' = ex_receipts ex" "ex_by_id ex' = ex_by_id ex" "sh_account (ex_shared ex') = sh_account (ex_shared ex)"
    "sh_usage (ex_shared ex') = sh_usage (ex_shared ex)"
  shows "exec_inv cd req a0 S ex'"
  using assms(1) unfolding exec_inv_def committed_def Let_def assms(2-7) .

lemma state_in_grows: "state_in p S d = Some SUCCEEDED \<Longrightarrow> state_in p (S @ L) d = Some SUCCEEDED"
  by (induction S) (auto simp: state_in_def split: if_splits option.splits)

lemma commit_barrier_inv:
  assumes inv: "exec_inv cd req a0 S ex" and h: "hands_over cd req ex ids series sh"
    and "distinct ids" "set ids \<inter> series_task ` set S = {}"
  obtains L where "exec_inv cd req a0 (S @ L) (commit_barrier series (ex\<lparr>ex_shared := sh\<rparr>))"
    "mset (map series_task L) = mset ids" "ex_latest (commit_barrier series (ex\<lparr>ex_shared := sh\<rparr>)) = ex_latest ex"
    "ex_store (commit_barrier series (ex\<lparr>ex_shared := sh\<rparr>)) = ex_store ex"
    "sh_cancel (ex_shared (commit_barrier series (ex\<lparr>ex_shared := sh\<rparr>))) = sh_cancel sh"
proof -
  let ?p = "rq_plan req" and ?ex = "ex\<lparr>ex_shared := sh\<rparr>"
  define L where "L = sort_key series_task series"
  note I = exec_invD [OF inv]
  have H: "mset (map series_task series) = mset ids" "\<And>s. s \<in> set series \<Longrightarrow> series_ok cd ?p s"
    "\<And>s. s \<in> set series \<Longrightarrow> rt_state (final_receipt s) = SUCCEEDED \<Longrightarrow> \<not> blocked ?p (ex_states ex) (series_task s)"
    "account_inv (sh_account sh)" "identity (sh_account sh) = identity (sh_account (ex_shared ex))"
    "reservations (sh_account sh) = reservations (sh_account (ex_shared ex))"
    "ut_task_attempts (sh_usage sh) = ut_task_attempts (sh_usage (ex_shared ex))"
    "plan_exceeded (pl_budget ?p) (sh_usage (ex_shared ex)) = None \<Longrightarrow>
       plan_exceeded (pl_budget ?p) (sh_usage sh) = None \<or> (\<exists>s \<in> set series. rt_state (final_receipt s) \<noteq> SUCCEEDED)"
    using h unfolding hands_over_def Let_def by blast+
  have m: "mset (map series_task L) = mset ids" using H(1) by (simp add: L_def)
  have setL: "set L = set series" by (simp add: L_def)
  have tasks: "series_task ` set L = set ids" using m by (metis image_set set_mset_mset)
  have dist: "distinct (map series_task L)" using m assms(3) mset_eq_imp_distinct_iff by blast
  have plan: "set (map series_task L) \<subseteq> ta_task_id ` set (pl_tasks ?p)"
    using H(2) by (auto simp: setL series_ok_def)
  have com: "committed ?p S ?ex" using I(1) H(7) by (simp add: committed_def)
  have disj: "series_task ` set S \<inter> series_task ` set L = {}" using tasks assms(4) by blast
  note all = commit_all [OF com dist plan disj]
  have barrier: "commit_barrier series ?ex = foldl commit_series ?ex L" by (simp add: commit_barrier_def series_key L_def)
  have "exec_inv cd req a0 (S @ L) (commit_barrier series ?ex)"
    unfolding exec_inv_def Let_def barrier
  proof (intro conjI ballI impI)
    show "distinct (map series_task (S @ L))" using I(3) dist disj by auto
    show "plan_exceeded (pl_budget ?p) (sh_usage (ex_shared (foldl commit_series ?ex L))) = None \<or>
        (\<exists>s \<in> set (S @ L). rt_state (final_receipt s) \<noteq> SUCCEEDED)"
      using I(7) H(8) all by (auto simp: setL)
    fix s d
    assume s: "s \<in> set (S @ L)" "rt_state (final_receipt s) = SUCCEEDED" "d \<in> set (dependencies_of (pl_tasks ?p) (series_task s))"
    show "state_in ?p (S @ L) d = Some SUCCEEDED"
    proof (cases "s \<in> set S")
      case True
      then show ?thesis using state_in_grows I(8) s by blast
    next
      case False
      then have "\<not> blocked ?p (ex_states ex) (series_task s)" using s H(3) setL by auto
      then have "dict_get (ex_states ex) d = Some SUCCEEDED" using s(3) by (auto simp: blocked_def list_ex_iff)
      then show ?thesis using I(1) state_in_grows by (simp add: committed_def)
    qed
  qed (use all H I in \<open>auto simp: setL\<close>)
  then show ?thesis using that [of L] m all by (simp add: barrier)
qed

text \<open>A barrier either raises, or commits a series for each of its tasks and then saves a checkpoint.\<close>

lemma run_barrier_commits:
  assumes "run_barrier sd req deadline ba sc ex = Some pr" "exec_inv (sd_codec sd) req a0 S ex"
    and "plan_tasks_constructed (rq_plan req)" "codec_ok (sd_codec sd)" "script_ok (sd_codec sd) sc"
    and "distinct (ba_task_ids ba)" "set (ba_task_ids ba) \<subseteq> ta_task_id ` set (pl_tasks (rq_plan req))"
    and "set (ba_task_ids ba) \<inter> series_task ` set S = {}"
  obtains (raises) ex' where "pr = Ends (Inl Raised_other) ex'"
  | (commits) L ex1 where "exec_inv (sd_codec sd) req a0 (S @ L) ex1" "mset (map series_task L) = mset (ba_task_ids ba)"
      "ex_latest ex1 = ex_latest ex" "ex_store ex1 = ex_store ex"
      "pr = (case save_checkpoint (sd_codec sd) req ba (sr_created_at sc) ex1 of
           (Inl code, s) \<Rightarrow>
             Ends (orchestration_result req ORCH_FAILED (ex_receipts ex1) (ex_outputs ex1) None (ex_latest ex1) code)
               (ex1\<lparr>ex_store := s\<rparr>)
         | (Inr c, s) \<Rightarrow> Continues (ex1\<lparr>ex_store := s, ex_latest := ck_checkpoint_id c\<rparr>))"
proof -
  define ex0 where "ex0 = ex\<lparr>ex_shared := cancelled_by (sr_cancels sc) (ex_shared ex)\<rparr>"
  have inv: "exec_inv (sd_codec sd) req a0 S ex0"
    by (rule exec_inv_frame [OF assms(2)]) (simp_all add: ex0_def cancelled_by_def)
  obtain r sh where b: "barrier_series sd req deadline ba sc ex0 = Some (r, sh)"
    using assms(1) by (auto simp: run_barrier_def Let_def ex0_def split: option.splits)
  show thesis
  proof (cases r)
    case (Inl e)
    then show thesis using assms(1) b raises by (auto simp: run_barrier_def Let_def ex0_def)
  next
    case (Inr series)
    have h: "hands_over (sd_codec sd) req ex0 (ba_task_ids ba) series sh"
      by (rule barrier_hands_over [OF b [unfolded Inr] assms(3-5) exec_invD(4) [OF inv] assms(6,7)])
    obtain L where L: "exec_inv (sd_codec sd) req a0 (S @ L) (commit_barrier series (ex0\<lparr>ex_shared := sh\<rparr>))"
      "mset (map series_task L) = mset (ba_task_ids ba)"
      "ex_latest (commit_barrier series (ex0\<lparr>ex_shared := sh\<rparr>)) = ex_latest ex0"
      "ex_store (commit_barrier series (ex0\<lparr>ex_shared := sh\<rparr>)) = ex_store ex0"
      by (rule commit_barrier_inv [OF inv h assms(6,8)])
    show thesis
      by (rule commits [OF L(1,2)])
        (use L(3,4) assms(1) b Inr in \<open>simp_all add: run_barrier_def Let_def flip: ex0_def\<close>, simp_all add: ex0_def)
  qed
qed

lemma run_barriers_commit:
  assumes "run_barriers sd req deadline bas scs ex = Some pr" "exec_inv (sd_codec sd) req a0 S ex"
    and "plan_tasks_constructed (rq_plan req)" "codec_ok (sd_codec sd)" "list_all (script_ok (sd_codec sd)) scs"
    and "distinct (concat (map ba_task_ids bas))"
    and "set (concat (map ba_task_ids bas)) \<subseteq> ta_task_id ` set (pl_tasks (rq_plan req))"
    and "set (concat (map ba_task_ids bas)) \<inter> series_task ` set S = {}"
  obtains (raises) ex' where "pr = Ends (Inl Raised_other) ex'"
  | (continues) L ex' where "pr = Continues ex'" "exec_inv (sd_codec sd) req a0 (S @ L) ex'"
      "mset (map series_task L) = mset (concat (map ba_task_ids bas))"
  | (stopped) L ex' code where "exec_inv (sd_codec sd) req a0 (S @ L) ex'"
      "pr = Ends (orchestration_result req ORCH_FAILED (ex_receipts ex') (ex_outputs ex') None (ex_latest ex') code) ex'"
  using assms
proof (induction bas arbitrary: scs ex S thesis)
  case Nil
  then show ?case using Nil.prems(2) [of ex "[]"] by simp
next
  case (Cons ba bas)
  obtain sc scs' where scs: "scs = sc # scs'" using Cons.prems(4) by (cases scs) auto
  obtain pr1 where pr1: "run_barrier sd req deadline ba sc ex = Some pr1" "pr1 = pr \<or> (\<exists>ex1. pr1 = Continues ex1)"
    using Cons.prems(4) by (auto simp: scs split: option.splits progress.splits)
  have script: "script_ok (sd_codec sd) sc" using Cons.prems(8) by (simp add: scs)
  have ids: "distinct (ba_task_ids ba)" "set (ba_task_ids ba) \<subseteq> ta_task_id ` set (pl_tasks (rq_plan req))"
    "set (ba_task_ids ba) \<inter> series_task ` set S = {}" using Cons.prems(9-11) by auto
  show ?case
  proof (rule run_barrier_commits [OF pr1(1) Cons.prems(5-7) script ids])
    fix ex' assume "pr1 = Ends (Inl Raised_other) ex'"
    then show ?case using Cons.prems(1,4) pr1 by (auto simp: scs)
  next
    fix L ex1
    assume L: "exec_inv (sd_codec sd) req a0 (S @ L) ex1" "mset (map series_task L) = mset (ba_task_ids ba)"
      and pr1': "pr1 = (case save_checkpoint (sd_codec sd) req ba (sr_created_at sc) ex1 of
           (Inl code, s) \<Rightarrow>
             Ends (orchestration_result req ORCH_FAILED (ex_receipts ex1) (ex_outputs ex1) None (ex_latest ex1) code)
               (ex1\<lparr>ex_store := s\<rparr>)
         | (Inr c, s) \<Rightarrow> Continues (ex1\<lparr>ex_store := s, ex_latest := ck_checkpoint_id c\<rparr>))"
    obtain r s where save: "save_checkpoint (sd_codec sd) req ba (sr_created_at sc) ex1 = (r, s)" by fastforce
    show ?case
    proof (cases r)
      case (Inl code)
      let ?ex = "ex1\<lparr>ex_store := s\<rparr>"
      have "exec_inv (sd_codec sd) req a0 (S @ L) ?ex" by (rule exec_inv_frame [OF L(1)]) simp_all
      moreover have "pr = Ends (orchestration_result req ORCH_FAILED (ex_receipts ?ex) (ex_outputs ?ex) None (ex_latest ?ex) code) ?ex"
        using pr1' pr1(2) save Inl by auto
      ultimately show ?thesis by (rule Cons.prems(3))
    next
      case (Inr c)
      let ?ex = "ex1\<lparr>ex_store := s, ex_latest := ck_checkpoint_id c\<rparr>"
      have inv: "exec_inv (sd_codec sd) req a0 (S @ L) ?ex" by (rule exec_inv_frame [OF L(1)]) simp_all
      have rest: "run_barriers sd req deadline bas scs' ?ex = Some pr"
        using Cons.prems(4) pr1(1) pr1' save Inr by (simp add: scs)
      have tasks: "series_task ` set L = set (ba_task_ids ba)" using L(2) by (metis image_set set_mset_mset)
      have later: "distinct (concat (map ba_task_ids bas))" "list_all (script_ok (sd_codec sd)) scs'"
        "set (concat (map ba_task_ids bas)) \<subseteq> ta_task_id ` set (pl_tasks (rq_plan req))"
        "set (concat (map ba_task_ids bas)) \<inter> series_task ` set (S @ L) = {}"
        using Cons.prems(8-11) unfolding set_append image_Un tasks by (simp_all add: scs Int_Un_distrib Int_Un_distrib2 Int_commute)
      show ?thesis
      proof (rule Cons.IH [OF _ _ _ rest inv Cons.prems(6,7) later(2,1,3,4)])
        fix ex' assume "pr = Ends (Inl Raised_other) ex'"
        then show ?thesis by (rule Cons.prems(1))
      next
        fix L' ex'
        assume "pr = Continues ex'" "exec_inv (sd_codec sd) req a0 ((S @ L) @ L') ex'"
          "mset (map series_task L') = mset (concat (map ba_task_ids bas))"
        then show ?thesis using Cons.prems(2) [of ex' "L @ L'"] L(2) by simp
      next
        fix L' ex' code
        assume "exec_inv (sd_codec sd) req a0 ((S @ L) @ L') ex'"
          "pr = Ends (orchestration_result req ORCH_FAILED (ex_receipts ex') (ex_outputs ex') None (ex_latest ex') code) ex'"
        then show ?thesis using Cons.prems(3) [of "L @ L'" ex'] by simp
      qed
    qed
  qed
qed

section \<open>Results\<close>

text \<open>A request whose parts come from their constructors.\<close>

definition constructed_request :: "plan_codec \<Rightarrow> AgentOrchestrationRequest \<Rightarrow> bool" where
  "constructed_request cd req \<longleftrightarrow>
     codec_ok cd \<and> AgentOrchestrationPlan_post_init cd (rq_plan req) = Some (Inr (rq_plan req)) \<and>
     list_all constructed_task (pl_tasks (rq_plan req)) \<and>
     AgentOrchestrationBudget_post_init (pl_budget (rq_plan req)) = Inr (pl_budget (rq_plan req)) \<and>
     AgentOrchestrationFreeze_post_init (rq_freeze req) = Inr (rq_freeze req) \<and>
     id_field 160 (rq_orchestration_id req) = Inr (rq_orchestration_id req) \<and>
     py_strip (canonical_id (ri_owner (rq_identity req))) = canonical_id (ri_owner (rq_identity req))"

lemma constructed_request_plan:
  assumes "constructed_request cd req"
  obtains bs where "execution_barriers cd (rq_plan req) = Some (Inr bs)"
    "mset (concat (map ba_task_ids bs)) = mset (map ta_task_id (pl_tasks (rq_plan req)))"
    "distinct (concat (map ba_task_ids bs))" "plan_tasks_constructed (rq_plan req)"
    "schedule (dependencies_of (pl_tasks (rq_plan req))) (nat (max_concurrency (pl_budget (rq_plan req)))) [] 0 bs"
proof -
  let ?p = "rq_plan req"
  have p: "AgentOrchestrationPlan_post_init cd ?p = Some (Inr ?p)" "list_all constructed_task (pl_tasks ?p)"
    using assms by (simp_all add: constructed_request_def)
  then have "constructed_tasks ?p" by (auto simp: constructed_tasks_def list_all_iff constructed_task_def)
  from barriers_schedule [OF p(1) this] obtain bs where bs: "execution_barriers cd ?p = Some (Inr bs)"
    "mset (concat (map ba_task_ids bs)) = mset (map ta_task_id (pl_tasks ?p))"
    "schedule (dependencies_of (pl_tasks ?p)) (nat (max_concurrency (pl_budget ?p))) [] 0 bs" by blast
  obtain q0 digest where q0: "plan_fields ?p = Inr q0" "?p = q0\<lparr>pl_content_sha256 := digest\<rparr>"
    by (rule plan_post_init_Inr [OF p(1)])
  have dist: "distinct (map ta_task_id (pl_tasks ?p))" using plan_fields_spec(9) [OF q0(1)] by (subst q0(2)) simp
  then have "distinct (concat (map ba_task_ids bs))" using mset_eq_imp_distinct_iff [OF bs(2)] by blast
  then show ?thesis using that [of bs] bs p(2) dist by (simp add: plan_tasks_constructed_def)
qed

lemma orchestration_result_fields:
  assumes "orchestration_result req st receipts outputs aggregate latest code = Inr r"
  shows "re_state r = st" "re_receipts r = receipts" "re_outputs r = sort_key fst outputs" "re_aggregate_output r = aggregate"
  using assms by (auto simp: orchestration_result_def AgentOrchestrationResult_post_init_def result_simps split: sum.splits)

lemma final_result_fields:
  assumes "final_result req ex = Inr r"
  shows "re_receipts r = ex_receipts ex" "re_outputs r = sort_key fst (ex_outputs ex)"
    "re_state r = ORCH_SUCCEEDED \<Longrightarrow> re_aggregate_output r = dict_get (ex_outputs ex) (pl_aggregation_task_id (rq_plan req)) \<and>
       all_succeeded (map snd (ex_by_id ex)) \<and> length (ex_by_id ex) = length (pl_tasks (rq_plan req)) \<and>
       re_aggregate_output r \<noteq> None"
proof -
  have post: "re_aggregate_output r \<noteq> None"
    if "orchestration_result req ORCH_SUCCEEDED receipts outputs aggregate latest code = Inr r" for receipts outputs aggregate latest code
    using that by (auto simp: orchestration_result_def AgentOrchestrationResult_post_init_def result_simps split: sum.splits)
  show "re_receipts r = ex_receipts ex" "re_outputs r = sort_key fst (ex_outputs ex)"
    using assms orchestration_result_fields by (auto simp: final_result_def Let_def split: if_splits)
  show "re_aggregate_output r = dict_get (ex_outputs ex) (pl_aggregation_task_id (rq_plan req)) \<and>
       all_succeeded (map snd (ex_by_id ex)) \<and> length (ex_by_id ex) = length (pl_tasks (rq_plan req)) \<and>
       re_aggregate_output r \<noteq> None" if "re_state r = ORCH_SUCCEEDED"
    using assms that orchestration_result_fields post unfolding final_result_def Let_def
    by (auto split: if_splits)
qed

lemma constant_map: "dict_get (map (\<lambda>t. (f t, c)) ts) k = (if k \<in> f ` set ts then Some c else None)"
  by (induction ts) auto

lemma first_execution_inv:
  assumes "account_inv a" "constructed_request cd req"
  shows "exec_inv cd req a [] (first_execution req a cancel store)"
proof -
  have "plan_exceeded (pl_budget (rq_plan req)) no_usage = None"
    using assms(2) by (simp add: constructed_request_def AgentOrchestrationBudget_post_init_def result_simps in_range_def
        plan_exceeded_def no_usage_def ut_tokens_def)
  then show ?thesis
    using assms(1)
    by (simp add: exec_inv_def committed_def first_execution_def comp_def state_in_def fun_eq_iff constant_map)
      (simp add: no_usage_def)
qed

text \<open>A call that finds no checkpoint and returns: what it has committed, and where it ended.\<close>

lemma execute_commits:
  assumes "execute sd req fd depth started scripts late a cancel store = Some (Inr result, ex)"
    and "constructed_request (sd_codec sd) req" "account_inv a" "list_all (script_ok (sd_codec sd)) scripts"
    and "load_latest (rq_orchestration_id req) (canonical_id (ri_owner (rq_identity req))) store = Inr None"
  obtains S where "exec_inv (sd_codec sd) req a S ex" "re_receipts result = ex_receipts ex"
    "re_outputs result = sort_key fst (ex_outputs ex)"
    "re_state result = ORCH_SUCCEEDED \<Longrightarrow>
       mset (map series_task S) = mset (map ta_task_id (pl_tasks (rq_plan req))) \<and> final_result req ex = Inr result"
proof -
  obtain bs where bs: "execution_barriers (sd_codec sd) (rq_plan req) = Some (Inr bs)"
    "mset (concat (map ba_task_ids bs)) = mset (map ta_task_id (pl_tasks (rq_plan req)))"
    "distinct (concat (map ba_task_ids bs))" "plan_tasks_constructed (rq_plan req)"
    by (rule constructed_request_plan [OF assms(2)])
  have ids: "set (concat (map ba_task_ids bs)) \<subseteq> ta_task_id ` set (pl_tasks (rq_plan req))"
    using mset_eq_setD [OF bs(2)] by simp
  have cd: "codec_ok (sd_codec sd)" using assms(2) by (simp add: constructed_request_def)
  let ?deadline = "started + of_int (max_elapsed_ms (pl_budget (rq_plan req))) / 1000"
  obtain pr where pr: "run_barriers sd req ?deadline bs scripts (first_execution req a cancel store) = Some pr"
    and ends: "(case pr of Ends r ex' \<Rightarrow> (r, ex')
       | Continues ex' \<Rightarrow> let ex2 = ex'\<lparr>ex_shared := cancelled_by late (ex_shared ex')\<rparr> in (final_result req ex2, ex2)) =
       (Inr result, ex)"
    using assms(1,5) bs(1) by (auto simp: execute_def Let_def split: sum.splits option.splits progress.splits)
  show ?thesis
  proof (rule run_barriers_commit [OF pr first_execution_inv [OF assms(3,2)] bs(4) cd assms(4) bs(3) ids])
    show "set (concat (map ba_task_ids bs)) \<inter> series_task ` set [] = {}" by simp
  next
    fix ex' assume "pr = Ends (Inl Raised_other) ex'"
    then show ?thesis using ends by simp
  next
    fix L ex'
    assume L: "pr = Continues ex'" "exec_inv (sd_codec sd) req a ([] @ L) ex'"
      "mset (map series_task L) = mset (concat (map ba_task_ids bs))"
    then have fin: "final_result req ex = Inr result" "ex = ex'\<lparr>ex_shared := cancelled_by late (ex_shared ex')\<rparr>"
      using ends by (auto simp: Let_def)
    have "exec_inv (sd_codec sd) req a L ex"
      by (rule exec_inv_frame [OF L(2) [simplified]]) (simp_all add: fin(2) cancelled_by_def)
    then show ?thesis by (rule that) (use final_result_fields [OF fin(1)] L(3) bs(2) fin(1) in simp_all)
  next
    fix L ex' code
    assume L: "exec_inv (sd_codec sd) req a ([] @ L) ex'"
      "pr = Ends (orchestration_result req ORCH_FAILED (ex_receipts ex') (ex_outputs ex') None (ex_latest ex') code) ex'"
    then have r: "orchestration_result req ORCH_FAILED (ex_receipts ex') (ex_outputs ex') None (ex_latest ex') code = Inr result" "ex = ex'"
      using ends by auto
    show ?thesis by (rule that [of L]) (use L(1) orchestration_result_fields [OF r(1)] r(2) in simp_all)
  qed
qed

lemma get_sorted: "distinct (map fst d) \<Longrightarrow> dict_get (sort_key fst d) = dict_get d"
proof -
  assume d: "distinct (map fst d)"
  have "mset (map fst (sort_key fst d)) = mset (map fst d)" by simp
  then have "distinct (map fst (sort_key fst d))" using d mset_eq_imp_distinct_iff by blast
  then show ?thesis using d by (simp add: map_of_inject_set)
qed

lemma series_receipts: "series_ok cd p s \<Longrightarrow> x \<in> set s \<Longrightarrow> rt_task_id (oc_receipt x) = series_task s"
  by (auto simp: series_ok_def attempts_ok_def outcome_ok_def Let_def in_set_conv_nth)

lemma attempts_of_series:
  "series_ok cd p s \<Longrightarrow> attempts_of i (map oc_receipt s) = (if series_task s = i then map oc_receipt s else [])"
  using series_receipts [of cd p s] by (auto simp: attempts_of_def filter_map comp_def filter_empty_conv filter_id_conv)

lemma attempts_of_committed:
  assumes "\<And>s. s \<in> set S \<Longrightarrow> series_ok cd p s" "distinct (map series_task S)"
  shows "attempts_of i (concat (map (map oc_receipt) S)) =
    (case find (\<lambda>s. series_task s = i) S of Some s \<Rightarrow> map oc_receipt s | None \<Rightarrow> [])"
  using assms
proof (induction S)
  case (Cons s S)
  have split: "attempts_of i (concat (map (map oc_receipt) (s # S))) =
      attempts_of i (map oc_receipt s) @ attempts_of i (concat (map (map oc_receipt) S))"
    by (simp add: attempts_of_def)
  have ok: "series_ok cd p s" using Cons.prems(1) by simp
  show ?case
  proof (cases "series_task s = i")
    case True
    then have "find (\<lambda>s. series_task s = i) S = None" using Cons.prems(2) by (auto simp: find_None_iff image_iff)
    then show ?thesis unfolding split attempts_of_series [OF ok] using Cons.IH Cons.prems True by simp
  next
    case False
    then show ?thesis unfolding split attempts_of_series [OF ok] using Cons.IH Cons.prems by simp
  qed
qed (simp add: attempts_of_def)

lemma series_task_unique:
  assumes "plan_tasks_constructed p" "series_ok cd p s" "find_task (pl_tasks p) (series_task s) = Some t"
  shows "attempts_ok cd t True s"
proof -
  obtain t' where t': "t' \<in> set (pl_tasks p)" "series_task s = ta_task_id t'" "attempts_ok cd t' True s"
    using assms(2) by (auto simp: series_ok_def)
  then have "t' = t" using assms(1,3) find_distinct [of ta_task_id "pl_tasks p" t']
    by (simp add: plan_tasks_constructed_def find_task_def)
  then show ?thesis using t'(3) by simp
qed

lemma attempts_numbers:
  assumes "attempts_ok cd t True s"
  shows "map rt_attempt_no (map oc_receipt s) = map int [1..<Suc (length s)]"
  by (rule nth_equalityI) (use assms in \<open>auto simp: attempts_ok_def outcome_ok_def Let_def simp del: upt_Suc\<close>)

lemma attempts_bound:
  assumes "attempts_ok cd t True s" "constructed_task t" "s \<noteq> []"
  shows "int (length s) \<le> retry_max_attempts (ta_retry_policy t)"
proof -
  obtain os x where s: "s = os @ [x]" using assms(3) by (cases s rule: rev_cases) auto
  then have "attempts_ok cd t False os" using assms(1) by (simp add: attempts_ok_snoc)
  from open_attempts_bound [OF this assms(2)] show ?thesis by (simp add: s)
qed

lemma earlier_attempts:
  assumes "attempts_ok cd t True s" "r \<in> set (butlast (map oc_receipt s))"
  shows "rt_state r \<noteq> SUCCEEDED \<and> rt_error_code r \<in> set (retryable_error_codes (ta_retry_policy t))"
proof -
  obtain k where "k < length s - 1" "r = oc_receipt (s ! k)"
    using assms(2) by (auto simp: in_set_conv_nth nth_butlast map_butlast)
  then show ?thesis using assms(1) by (auto simp: attempts_ok_def permits_def)
qed

lemma state_in_succeeded:
  assumes "state_in p S d = Some SUCCEEDED"
  shows "\<exists>s \<in> set S. series_task s = d \<and> rt_state (final_receipt s) = SUCCEEDED"
  using assms by (auto simp: state_in_def split: option.splits if_splits dest!: find_SomeD)

lemma final_receipt_committed:
  "s \<in> set S \<Longrightarrow> s \<noteq> [] \<Longrightarrow> final_receipt s \<in> set (concat (map (map oc_receipt) S))"
  by (auto simp: final_receipt_def intro!: bexI [of _ s])


text \<open>
  C2. The receipts of a run's result follow the plan: those of a task are numbered without a gap from
  one, there are no more of them than its retry policy allows, an attempt that another one follows
  has failed with an error the policy retries, and the last one is successful only if every
  dependency of the task has succeeded.
\<close>

theorem receipts_follow_plan:
  assumes "execute sd req fd depth started scripts late a cancel store = Some (Inr result, ex)"
    and "constructed_request (sd_codec sd) req" "account_inv a" "list_all (script_ok (sd_codec sd)) scripts"
    and "load_latest (rq_orchestration_id req) (canonical_id (ri_owner (rq_identity req))) store = Inr None"
    and "receipts = attempts_of i (re_receipts result)" "receipts \<noteq> []"
  shows "\<exists>t. find_task (pl_tasks (rq_plan req)) i = Some t \<and>
    map rt_attempt_no receipts = map int [1..<Suc (length receipts)] \<and>
    int (length receipts) \<le> retry_max_attempts (ta_retry_policy t) \<and>
    (\<forall>r \<in> set (butlast receipts). rt_state r \<noteq> SUCCEEDED \<and>
       rt_error_code r \<in> set (retryable_error_codes (ta_retry_policy t))) \<and>
    (rt_state (last receipts) = SUCCEEDED \<longrightarrow>
       (\<forall>d \<in> set (ta_dependencies t). \<exists>r \<in> set (re_receipts result). rt_task_id r = d \<and> rt_state r = SUCCEEDED))"
proof -
  let ?p = "rq_plan req"
  obtain S where S: "exec_inv (sd_codec sd) req a S ex" "re_receipts result = ex_receipts ex"
    by (rule execute_commits [OF assms(1-5)])
  note I = exec_invD [OF S(1)]
  have plan: "plan_tasks_constructed ?p" by (rule constructed_request_plan [OF assms(2)])
  have all: "ex_receipts ex = concat (map (map oc_receipt) S)" using I(1) by (simp add: committed_def)
  have "receipts = (case find (\<lambda>s. series_task s = i) S of Some s \<Rightarrow> map oc_receipt s | None \<Rightarrow> [])"
    unfolding assms(6) S(2) all by (rule attempts_of_committed [OF I(2,3)])
  then obtain s where s: "find (\<lambda>s. series_task s = i) S = Some s" "receipts = map oc_receipt s"
    using assms(7) by (auto split: option.splits)
  note sS = find_SomeD [OF s(1)]
  have ok: "series_ok (sd_codec sd) ?p s" using sS I(2) by blast
  then obtain t0 where "t0 \<in> set (pl_tasks ?p)" "ta_task_id t0 = i" using sS unfolding series_ok_def by metis
  then obtain t where t: "find_task (pl_tasks ?p) i = Some t" unfolding find_task_def
    using find_ex [of t0 "pl_tasks ?p" "\<lambda>t. ta_task_id t = i"] by blast
  have att: "attempts_ok (sd_codec sd) t True s" using series_task_unique [OF plan ok] t sS by blast
  have ct: "constructed_task t" using plan find_task_spec [OF t] by (auto simp: plan_tasks_constructed_def list_all_iff)
  have last: "last receipts = final_receipt s" using assms(7) s(2) by (simp add: last_map final_receipt_def)
  have "\<exists>r \<in> set (re_receipts result). rt_task_id r = d \<and> rt_state r = SUCCEEDED"
    if succ: "rt_state (final_receipt s) = SUCCEEDED" and d: "d \<in> set (ta_dependencies t)" for d
  proof -
    have "d \<in> set (dependencies_of (pl_tasks ?p) (series_task s))"
      using d t sS by (simp add: dependencies_of_def find_task_def)
    then obtain s' where s': "s' \<in> set S" "series_task s' = d" "rt_state (final_receipt s') = SUCCEEDED"
      using I(8) [of s d] succ sS state_in_succeeded by blast
    then have "final_receipt s' \<in> set (re_receipts result)"
      unfolding S(2) all by (intro final_receipt_committed) (use I(2) in \<open>auto simp: series_ok_def\<close>)
    then show ?thesis using s' by (auto simp: series_task_def)
  qed
  then show ?thesis
    using t attempts_numbers [OF att] attempts_bound [OF att ct] earlier_attempts [OF att] assms(7) last
    by (intro exI [of _ t]) (auto simp: s(2))
qed

text \<open>
  C3. A run that reports success has succeeded in every task of its plan, its totals are within the
  budget of the plan, and the output it reports is the one of the aggregation task.
\<close>

theorem success_is_complete:
  assumes "execute sd req fd depth started scripts late a cancel store = Some (Inr result, ex)"
    and "constructed_request (sd_codec sd) req" "account_inv a" "list_all (script_ok (sd_codec sd)) scripts"
    and "load_latest (rq_orchestration_id req) (canonical_id (ri_owner (rq_identity req))) store = Inr None"
    and "re_state result = ORCH_SUCCEEDED"
  shows "(\<forall>t \<in> set (pl_tasks (rq_plan req)). \<exists>r \<in> set (re_receipts result).
      rt_task_id r = ta_task_id t \<and> rt_state r = SUCCEEDED) \<and>
    plan_exceeded (pl_budget (rq_plan req)) (sh_usage (ex_shared ex)) = None \<and>
    re_aggregate_output result \<noteq> None \<and>
    re_aggregate_output result = dict_get (re_outputs result) (pl_aggregation_task_id (rq_plan req))"
proof -
  let ?p = "rq_plan req"
  obtain S where S: "exec_inv (sd_codec sd) req a S ex" "re_receipts result = ex_receipts ex"
    "re_outputs result = sort_key fst (ex_outputs ex)" "mset (map series_task S) = mset (map ta_task_id (pl_tasks ?p))"
    "final_result req ex = Inr result"
    by (rule execute_commits [OF assms(1-5)]) (use assms(6) in blast)
  note I = exec_invD [OF S(1)] and F = final_result_fields(3) [OF S(5) assms(6)]
  have com: "ex_receipts ex = concat (map (map oc_receipt) S)" "ex_by_id ex = map (\<lambda>s. (series_task s, final_receipt s)) S"
    "ex_outputs ex = map (\<lambda>s. (series_task s, oc_output (last s))) S" using I(1) by (simp_all add: committed_def)
  have succ: "rt_state (final_receipt s) = SUCCEEDED" if "s \<in> set S" for s
    using F that by (auto simp: com(2) all_succeeded_def list_all_iff)
  have "\<exists>r \<in> set (re_receipts result). rt_task_id r = ta_task_id t \<and> rt_state r = SUCCEEDED" if "t \<in> set (pl_tasks ?p)" for t
  proof -
    have "ta_task_id t \<in> series_task ` set S" using that mset_eq_setD [OF S(4)] by auto
    then obtain s where s: "s \<in> set S" "series_task s = ta_task_id t" by auto
    then have "final_receipt s \<in> set (re_receipts result)"
      unfolding S(2) com(1) by (intro final_receipt_committed) (use I(2) in \<open>auto simp: series_ok_def\<close>)
    then show ?thesis using s succ by (auto simp: series_task_def)
  qed
  moreover have "plan_exceeded (pl_budget ?p) (sh_usage (ex_shared ex)) = None" using I(7) succ by blast
  moreover have "distinct (map fst (ex_outputs ex))" using I(3) by (simp add: com(3) comp_def)
  then have "dict_get (sort_key fst (ex_outputs ex)) = dict_get (ex_outputs ex)"
    by (rule get_sorted)
  ultimately show ?thesis unfolding S(3) using F by metis
qed

section \<open>The store\<close>

text \<open>Every record is filed under its own id and listed for its orchestration.\<close>

abbreviation order_of :: "checkpoint_store \<Rightarrow> pystr \<Rightarrow> pystr list" where
  "order_of s i \<equiv> dict_get_default (cs_order s) i []"

definition store_inv :: "checkpoint_store \<Rightarrow> bool" where
  "store_inv s \<longleftrightarrow>
     (\<forall>k c. dict_get (cs_records s) k = Some c \<longrightarrow> ck_checkpoint_id c = k \<and> k \<in> set (order_of s (ck_orchestration_id c)))"

definition filed_up_to :: "pystr \<Rightarrow> nat \<Rightarrow> checkpoint_store \<Rightarrow> bool" where
  "filed_up_to i n s \<longleftrightarrow>
     store_inv s \<and> (\<forall>k \<in> set (order_of s i). \<exists>c. dict_get (cs_records s) k = Some c \<and> ck_sequence c \<le> int n)"

definition latest_is :: "checkpoint_store \<Rightarrow> AgentOrchestrationCheckpoint \<Rightarrow> bool" where
  "latest_is s c \<longleftrightarrow>
     order_of s (ck_orchestration_id c) \<noteq> [] \<and> last (order_of s (ck_orchestration_id c)) = ck_checkpoint_id c \<and>
     dict_get (cs_records s) (ck_checkpoint_id c) = Some c"

lemma store_save_new:
  assumes "store_save c s = (Inr c', s')" "filed_up_to (ck_orchestration_id c) n s" "ck_sequence c = int n + 1"
  shows "c' = c \<and> latest_is s' c \<and> filed_up_to (ck_orchestration_id c) (n + 1) s'"
proof -
  let ?i = "ck_orchestration_id c" and ?k = "ck_checkpoint_id c"
  have inv: "\<And>k c. dict_get (cs_records s) k = Some c \<Longrightarrow> ck_checkpoint_id c = k \<and> k \<in> set (order_of s (ck_orchestration_id c))"
    "\<And>k. k \<in> set (order_of s ?i) \<Longrightarrow> \<exists>c. dict_get (cs_records s) k = Some c \<and> ck_sequence c \<le> int n"
    using assms(2) unfolding filed_up_to_def store_inv_def by blast+
  have "dict_get (cs_records s) ?k \<noteq> Some c"
  proof
    assume "dict_get (cs_records s) ?k = Some c"
    with inv(1) [OF this] inv(2) [of ?k] show False using assms(3) by auto
  qed
  then have new: "dict_get (cs_records s) ?k = None"
    using assms(1) by (auto simp: store_save_def split: option.splits if_splits)
  then have s': "c' = c" "cs_records s' = dict_set ?k c (cs_records s)" "cs_order s' = dict_set ?i (order_of s ?i @ [?k]) (cs_order s)"
    using assms(1) by (auto simp: store_save_def Let_def split: option.splits if_splits sum.splits)
  have order: "order_of s' j = (if j = ?i then order_of s ?i @ [?k] else order_of s j)" for j
    by (simp add: s'(3))
  have rec: "dict_get (cs_records s') j = (if j = ?k then Some c else dict_get (cs_records s) j)" for j
    by (simp add: s'(2))
  have "store_inv s'"
    unfolding store_inv_def rec order using inv(1) by (auto split: if_splits) metis
  moreover have "\<exists>c'. dict_get (cs_records s') j = Some c' \<and> ck_sequence c' \<le> int (n + 1)" if "j \<in> set (order_of s' ?i)" for j
    using that inv(2) [of j] assms(3) unfolding rec order by (cases "j = ?k") fastforce+
  moreover have "latest_is s' c" unfolding latest_is_def rec order by simp
  ultimately show ?thesis using s'(1) by (auto simp: filed_up_to_def)
qed

section \<open>Checkpoints\<close>

lemma id_field_known: "id_field n s = Inr s \<Longrightarrow> id_field n s = Inr t \<Longrightarrow> t = s"
  by simp

lemma named_states_same:
  assumes "\<And>i. i \<in> fst ` set d \<Longrightarrow> id_field 128 i = Inr i" "distinct (map fst d)"
  shows "named_states d = Inr d"
proof -
  have "map_result (\<lambda>kv. bind_result (id_field 128 (fst kv)) (\<lambda>k. Inr (k, snd kv))) d = Inr d"
    unfolding map_result_Inr_all using assms(1) by (auto simp: list_all2_same)
  moreover have "foldl (\<lambda>d kv. dict_set (fst kv) (snd kv) d) acc d = acc @ d"
    if "distinct (map fst (acc @ d))" for acc :: "(pystr, AgentTaskState) dict"
    using that
  proof (induction d arbitrary: acc)
    case (Cons kv d)
    then have "dict_set (fst kv) (snd kv) acc = acc @ [kv]" using dict_set_new [of "fst kv" acc "snd kv"] by auto
    then show ?case using Cons.IH [of "acc @ [kv]"] Cons.prems by simp
  qed simp
  ultimately show ?thesis using assms(2) by (simp add: named_states_def)
qed

definition shows_execution :: "AgentOrchestrationRequest \<Rightarrow> AgentTaskBarrier \<Rightarrow> execution \<Rightarrow> AgentOrchestrationCheckpoint \<Rightarrow> bool" where
  "shows_execution req ba ex c \<longleftrightarrow>
     ck_orchestration_id c = rq_orchestration_id req \<and> ck_identity c = rq_identity req \<and>
     ck_plan_id c = pl_plan_id (rq_plan req) \<and> ck_plan_revision c = pl_revision (rq_plan req) \<and>
     ck_plan_sha256 c = pl_content_sha256 (rq_plan req) \<and> ck_freeze_id c = fz_freeze_id (rq_freeze req) \<and>
     ck_sequence c = ba_sequence ba \<and> ck_barrier_id c = ba_barrier_id ba \<and> ck_task_states c = sort_key fst (ex_states ex) \<and>
     ck_outputs c = sort_key fst (ex_outputs ex) \<and> ck_receipts c = ex_receipts ex"

lemma constructed_request_ids:
  assumes "constructed_request cd req"
  shows "id_field 160 (rq_orchestration_id req) = Inr (rq_orchestration_id req)"
    "id_field 160 (pl_plan_id (rq_plan req)) = Inr (pl_plan_id (rq_plan req))"
    "id_field 160 (fz_freeze_id (rq_freeze req)) = Inr (fz_freeze_id (rq_freeze req))"
    "plan_sha256 False (pl_content_sha256 (rq_plan req)) = Inr (pl_content_sha256 (rq_plan req))"
    "i \<in> ta_task_id ` set (pl_tasks (rq_plan req)) \<Longrightarrow> id_field 128 i = Inr i"
proof -
  let ?p = "rq_plan req" and ?f = "rq_freeze req"
  have c: "codec_ok cd" "AgentOrchestrationPlan_post_init cd ?p = Some (Inr ?p)" "list_all constructed_task (pl_tasks ?p)"
    "AgentOrchestrationFreeze_post_init ?f = Inr ?f"
    "id_field 160 (rq_orchestration_id req) = Inr (rq_orchestration_id req)"
    using assms by (simp_all add: constructed_request_def)
  then show "id_field 160 (rq_orchestration_id req) = Inr (rq_orchestration_id req)" by simp
  obtain q0 digest where q0: "plan_fields ?p = Inr q0" "declared_digest cd (plan_dict q0) (pl_content_sha256 ?p) = Inr digest"
    "?p = q0\<lparr>pl_content_sha256 := digest\<rparr>"
    by (rule plan_post_init_Inr [OF c(2)])
  have "pl_plan_id ?p = pl_plan_id q0" by (subst q0(3)) simp
  then show "id_field 160 (pl_plan_id ?p) = Inr (pl_plan_id ?p)" using plan_fields_spec(14) [OF q0(1)] by simp
  have "pl_content_sha256 ?p = digest" by (subst q0(3)) simp
  moreover have "hex64 digest"
    using q0(2) c(1) by (auto simp: declared_digest_def Let_def result_simps json_digest_def codec_ok_def split: if_splits)
  ultimately show "plan_sha256 False (pl_content_sha256 ?p) = Inr (pl_content_sha256 ?p)"
    using plan_sha256_normal [of digest] by (simp add: plan_sha256_def)
  obtain i where i: "id_field 160 (fz_freeze_id ?f) = Inr i"
    using c(4) by (auto simp: AgentOrchestrationFreeze_post_init_def result_simps)
  moreover have "fz_freeze_id ?f = i"
    using c(4) i by (auto simp: AgentOrchestrationFreeze_post_init_def result_simps dest: arg_cong [of _ _ fz_freeze_id])
  ultimately show "id_field 160 (fz_freeze_id ?f) = Inr (fz_freeze_id ?f)" by simp
  show "id_field 128 i = Inr i" if "i \<in> ta_task_id ` set (pl_tasks ?p)" for i
    using that c(3) constructed_task_ids(1) by (auto simp: list_all_iff)
qed

lemma make_checkpoint_shows:
  assumes "make_checkpoint cd req ba created ex = Inr c" "constructed_request cd req" "committed (rq_plan req) S ex"
    and "id_field 200 (ba_barrier_id ba) = Inr (ba_barrier_id ba)" "distinct (map ta_task_id (pl_tasks (rq_plan req)))"
  shows "shows_execution req ba ex c"
proof -
  note ids = constructed_request_ids [OF assms(2)]
  have keys: "map fst (ex_states ex) = map ta_task_id (pl_tasks (rq_plan req))" using assms(3) by (simp add: committed_def)
  have "fst ` set (ex_states ex) = ta_task_id ` set (pl_tasks (rq_plan req))" using keys by (metis image_set)
  then have states: "named_states (ex_states ex) = Inr (ex_states ex)"
    using named_states_same [of "ex_states ex"] ids(5) keys assms(5) by simp
  show ?thesis
    using assms(1,4) ids(1-4) states
    by (auto simp: make_checkpoint_def Let_def result_simps AgentOrchestrationCheckpoint_post_init_def shows_execution_def
        positive_int_Inr split: sum.splits)
qed

lemma slice_named:
  assumes "slice_barriers cd step ready completed bs = Inr (completed', bs')"
    and "\<forall>b \<in> set bs. id_field 200 (ba_barrier_id b) = Inr (ba_barrier_id b)"
  shows "\<forall>b \<in> set bs'. id_field 200 (ba_barrier_id b) = Inr (ba_barrier_id b)"
  using assms
proof (induction cd step ready completed bs rule: slice_barriers.induct)
  case (1 cd step ready completed bs)
  show ?case
  proof (cases "ready = []")
    case False
    then obtain b where b: "step \<noteq> 0" "make_barrier cd (length bs + 1) (take step ready) completed = Inr b"
      "slice_barriers cd step (drop step ready) (completed @ take step ready) (bs @ [b]) = Inr (completed', bs')"
      using "1.prems"(1) by (auto simp: slice_barriers.simps [of cd step ready] result_simps split: if_splits)
    obtain s where "id_field 200 s = Inr (ba_barrier_id b)"
      using b(2) by (auto simp: make_barrier_def AgentTaskBarrier_post_init_def result_simps)
    then have "id_field 200 (ba_barrier_id b) = Inr (ba_barrier_id b)" by (rule id_field_again)
    then have "\<forall>b \<in> set (bs @ [b]). id_field 200 (ba_barrier_id b) = Inr (ba_barrier_id b)" using "1.prems"(2) by simp
    then show ?thesis by (rule "1.IH" [OF b(1) False b(3)])
  qed (use "1.prems" in \<open>auto simp: slice_barriers.simps split: if_splits\<close>)
qed

lemma loop_named:
  assumes "barrier_loop cd step tasks remaining completed bs = Some r"
  shows "\<forall>bs'. r = Inr bs' \<longrightarrow> (\<forall>b \<in> set bs. id_field 200 (ba_barrier_id b) = Inr (ba_barrier_id b)) \<longrightarrow>
    (\<forall>b \<in> set bs'. id_field 200 (ba_barrier_id b) = Inr (ba_barrier_id b))"
proof (rule barrier_loop.raw_induct [OF _ assms])
  fix loop :: "plan_codec \<Rightarrow> nat \<Rightarrow> AgentTaskDefinition list \<Rightarrow> pystr list \<Rightarrow> pystr list \<Rightarrow> AgentTaskBarrier list
     \<Rightarrow> AgentTaskBarrier list checked option"
  fix cd step tasks remaining completed bs y
  assume IH: "\<And>cd step tasks remaining completed bs y. loop cd step tasks remaining completed bs = Some y \<Longrightarrow>
      \<forall>bs'. y = Inr bs' \<longrightarrow> (\<forall>b \<in> set bs. id_field 200 (ba_barrier_id b) = Inr (ba_barrier_id b)) \<longrightarrow>
        (\<forall>b \<in> set bs'. id_field 200 (ba_barrier_id b) = Inr (ba_barrier_id b))"
    and y: "(if remaining = [] then Some (Inr bs)
      else let ready = ready_tasks tasks remaining completed
           in case slice_barriers cd step ready completed bs of
                Inl e \<Rightarrow> Some (Inl e)
              | Inr (completed', barriers') \<Rightarrow>
                  loop cd step tasks (filter (\<lambda>i. i \<notin> set ready) remaining) completed' barriers') = Some y"
  show "\<forall>bs'. y = Inr bs' \<longrightarrow> (\<forall>b \<in> set bs. id_field 200 (ba_barrier_id b) = Inr (ba_barrier_id b)) \<longrightarrow>
        (\<forall>b \<in> set bs'. id_field 200 (ba_barrier_id b) = Inr (ba_barrier_id b))"
    using y IH slice_named by (fastforce simp: Let_def split: if_splits sum.splits)
qed

lemma barriers_named:
  "execution_barriers cd p = Some (Inr bs) \<Longrightarrow> b \<in> set bs \<Longrightarrow> id_field 200 (ba_barrier_id b) = Inr (ba_barrier_id b)"
  using loop_named unfolding execution_barriers_def by fastforce

lemma schedule_sequence: "schedule deps width past n bs \<Longrightarrow> k < length bs \<Longrightarrow> ba_sequence (bs ! k) = int (n + k + 1)"
  by (induction bs arbitrary: past n k) (auto simp: nth_Cons split: nat.splits)

text \<open>After the last barrier the newest checkpoint in the store shows the final state of the run.\<close>

lemma run_barriers_stored:
  assumes "run_barriers sd req deadline bas scs ex = Some (Continues ex')" "exec_inv (sd_codec sd) req a0 S ex"
    and "constructed_request (sd_codec sd) req" "plan_tasks_constructed (rq_plan req)" "list_all (script_ok (sd_codec sd)) scs"
    and "distinct (concat (map ba_task_ids bas))"
    and "set (concat (map ba_task_ids bas)) \<subseteq> ta_task_id ` set (pl_tasks (rq_plan req))"
    and "set (concat (map ba_task_ids bas)) \<inter> series_task ` set S = {}"
    and "schedule deps width past n bas" "\<And>b. b \<in> set bas \<Longrightarrow> id_field 200 (ba_barrier_id b) = Inr (ba_barrier_id b)"
    and "filed_up_to (rq_orchestration_id req) n (ex_store ex)" "bas \<noteq> []"
  shows "\<exists>c. latest_is (ex_store ex') c \<and> shows_execution req (last bas) ex' c \<and> ex_latest ex' = ck_checkpoint_id c"
  using assms
proof (induction bas arbitrary: scs ex S past n)
  case (Cons ba bas)
  obtain sc scs' where scs: "scs = sc # scs'" using Cons.prems(1) by (cases scs) auto
  obtain ex1 where ex1: "run_barrier sd req deadline ba sc ex = Some (Continues ex1)"
    "run_barriers sd req deadline bas scs' ex1 = Some (Continues ex')"
    using Cons.prems(1) by (auto simp: scs split: option.splits progress.splits)
  have cd: "codec_ok (sd_codec sd)" using Cons.prems(3) by (simp add: constructed_request_def)
  have script: "script_ok (sd_codec sd) sc" using Cons.prems(5) by (simp add: scs)
  have ids: "distinct (ba_task_ids ba)" "set (ba_task_ids ba) \<subseteq> ta_task_id ` set (pl_tasks (rq_plan req))"
    "set (ba_task_ids ba) \<inter> series_task ` set S = {}" using Cons.prems(6-8) by auto
  obtain L ex0 c where L: "exec_inv (sd_codec sd) req a0 (S @ L) ex0" "mset (map series_task L) = mset (ba_task_ids ba)"
      "ex_store ex0 = ex_store ex"
    and save: "save_checkpoint (sd_codec sd) req ba (sr_created_at sc) ex0 = (Inr c, ex_store ex1)"
    and ex1': "ex1 = ex0\<lparr>ex_store := ex_store ex1, ex_latest := ck_checkpoint_id c\<rparr>"
  proof (rule run_barrier_commits [OF ex1(1) Cons.prems(2,4) cd script ids])
    fix L ex2
    assume "exec_inv (sd_codec sd) req a0 (S @ L) ex2" "mset (map series_task L) = mset (ba_task_ids ba)"
      "ex_store ex2 = ex_store ex" "Continues ex1 = (case save_checkpoint (sd_codec sd) req ba (sr_created_at sc) ex2 of
           (Inl code, s) \<Rightarrow>
             Ends (orchestration_result req ORCH_FAILED (ex_receipts ex2) (ex_outputs ex2) None (ex_latest ex2) code)
               (ex2\<lparr>ex_store := s\<rparr>)
         | (Inr c, s) \<Rightarrow> Continues (ex2\<lparr>ex_store := s, ex_latest := ck_checkpoint_id c\<rparr>))"
    then show thesis
      using that [of L ex2] by (auto split: prod.splits sum.splits)
  qed simp
  obtain c0 where c0: "make_checkpoint (sd_codec sd) req ba (sr_created_at sc) ex0 = Inr c0"
    "store_save c0 (ex_store ex0) = (Inr c, ex_store ex1)"
    using save by (auto simp: save_checkpoint_def split: sum.splits prod.splits)
  have sh0: "shows_execution req ba ex0 c0"
    by (rule make_checkpoint_shows [OF c0(1) Cons.prems(3) exec_invD(1) [OF L(1)]])
      (use Cons.prems(4,10) in \<open>auto simp: plan_tasks_constructed_def\<close>)
  have "ck_sequence c0 = int n + 1" "ck_orchestration_id c0 = rq_orchestration_id req"
    using sh0 Cons.prems(9) by (auto simp: shows_execution_def)
  from store_save_new [OF c0(2)] this Cons.prems(11) L(3)
  have stored: "c = c0" "latest_is (ex_store ex1) c" "filed_up_to (rq_orchestration_id req) (n + 1) (ex_store ex1)" by auto
  have fields: "ex_states ex1 = ex_states ex0" "ex_outputs ex1 = ex_outputs ex0" "ex_receipts ex1 = ex_receipts ex0"
    "ex_by_id ex1 = ex_by_id ex0" "ex_shared ex1 = ex_shared ex0" "ex_latest ex1 = ck_checkpoint_id c"
    by (subst ex1', simp)+
  show ?case
  proof (cases "bas = []")
    case True
    then have "ex' = ex1" using ex1(2) by simp
    then show ?thesis using stored sh0 fields True by (auto simp: shows_execution_def)
  next
    case False
    have inv: "exec_inv (sd_codec sd) req a0 (S @ L) ex1" by (rule exec_inv_frame [OF L(1)]) (simp_all add: fields)
    have tasks: "series_task ` set L = set (ba_task_ids ba)" using L(2) by (metis image_set set_mset_mset)
    have later: "distinct (concat (map ba_task_ids bas))" "list_all (script_ok (sd_codec sd)) scs'"
      "set (concat (map ba_task_ids bas)) \<subseteq> ta_task_id ` set (pl_tasks (rq_plan req))"
      "set (concat (map ba_task_ids bas)) \<inter> series_task ` set (S @ L) = {}"
      using Cons.prems(5-8) unfolding set_append image_Un tasks by (simp_all add: scs Int_Un_distrib Int_Un_distrib2 Int_commute)
    have "schedule deps width (past @ ba_task_ids ba) (n + 1) bas" using Cons.prems(9) by simp
    from Cons.IH [OF ex1(2) inv Cons.prems(3,4) later(2,1,3,4) this _ stored(3) False] Cons.prems(10) False
    show ?thesis by simp
  qed
qed simp

section \<open>Replay\<close>

text \<open>Picking the last attempt of each task out of the receipts gives back what the run had at its end.\<close>

lemma keep_final_series:
  assumes "attempts_ok cd t True s" "series_task s \<notin> fst ` set d" "s \<noteq> []" "series_task s = ta_task_id t"
  shows "foldl keep_final d (map oc_receipt s) = d @ [(series_task s, final_receipt s)]"
proof -
  have "foldl keep_final d (map oc_receipt os) = (if os = [] then d else d @ [(ta_task_id t, oc_receipt (last os))])"
    if "attempts_ok cd t e os" for e os
    using that
  proof (induction os arbitrary: e rule: rev_induct)
    case (snoc x os)
    have ok: "attempts_ok cd t False os" "outcome_ok cd t (length os + 1) x" using snoc.prems by (auto simp: attempts_ok_snoc)
    have x: "rt_task_id (oc_receipt x) = ta_task_id t" "rt_attempt_no (oc_receipt x) = int (length os + 1)"
      using ok(2) by (auto simp: outcome_ok_def Let_def)
    have new: "ta_task_id t \<notin> fst ` set d" using assms(2,4) by simp
    show ?case
    proof (cases os rule: rev_cases)
      case Nil
      have "dict_get d (ta_task_id t) = None" using new by (simp add: map_of_eq_None_iff)
      then show ?thesis using dict_set_new [OF new] x by (simp add: Nil keep_final_def)
    next
      case (snoc os' y)
      have "outcome_ok cd t (length os' + 1) y" using ok(1) by (simp add: snoc attempts_ok_snoc)
      then have y: "rt_attempt_no (oc_receipt y) = int (length os' + 1)" by (auto simp: outcome_ok_def Let_def)
      let ?d = "d @ [(ta_task_id t, oc_receipt y)]"
      have prev: "foldl keep_final d (map oc_receipt os) = ?d" using snoc.IH [OF ok(1)] by (simp add: snoc)
      have get: "dict_get ?d (ta_task_id t) = Some (oc_receipt y)"
        using get_appended [OF new, of "oc_receipt y" "ta_task_id t"] by simp
      have set: "dict_set (ta_task_id t) (oc_receipt x) ?d = d @ [(ta_task_id t, oc_receipt x)]"
        using new by (induction d) auto
      have "foldl keep_final d (map oc_receipt (os @ [x])) = keep_final ?d (oc_receipt x)" by (simp add: prev)
      also have "\<dots> = d @ [(ta_task_id t, oc_receipt x)]"
        unfolding keep_final_def x(1) get option.case using x(2) y set by (simp add: snoc)
      finally show ?thesis by simp
    qed
  qed simp
  from this [OF assms(1)] show ?thesis using assms(3,4) by (simp add: final_receipt_def)
qed

lemma keep_final_committed:
  assumes "\<And>s. s \<in> set S \<Longrightarrow> series_ok cd p s" "distinct (map series_task S)"
  shows "foldl keep_final [] (concat (map (map oc_receipt) S)) = map (\<lambda>s. (series_task s, final_receipt s)) S"
  using assms
proof (induction S rule: rev_induct)
  case (snoc s S)
  obtain t where t: "series_task s = ta_task_id t" "attempts_ok cd t True s" "s \<noteq> []"
    using snoc.prems(1) [of s] by (auto simp: series_ok_def)
  have "series_task s \<notin> fst ` set (map (\<lambda>s. (series_task s, final_receipt s)) S)" using snoc.prems(2) by auto
  from keep_final_series [OF t(2) this t(3,1)] show ?case using snoc by simp
qed simp

lemma orchestration_result_sorted:
  "orchestration_result req st receipts (sort_key fst outputs) aggregate latest code =
     orchestration_result req st receipts outputs aggregate latest code"
proof -
  have "AgentOrchestrationResult_post_init (r\<lparr>re_outputs := sort_key fst outputs\<rparr>) =
      AgentOrchestrationResult_post_init (r\<lparr>re_outputs := outputs\<rparr>)" for r :: AgentOrchestrationResult
    by (simp add: AgentOrchestrationResult_post_init_def cong: if_cong)
  from this [of "\<lparr>re_orchestration_id = rq_orchestration_id req, re_state = st, re_plan_sha256 = pl_content_sha256 (rq_plan req),
      re_receipts = receipts, re_outputs = [], re_aggregate_output = aggregate, re_latest_checkpoint_id = latest,
      re_failure_code = code\<rparr>"]
  show ?thesis by (simp add: orchestration_result_def)
qed

text \<open>The checkpoint of a finished run that was not cancelled gives the result of the run.\<close>

lemma replay_final:
  assumes "exec_inv cd req a0 S ex" "mset (map series_task S) = mset (map ta_task_id (pl_tasks (rq_plan req)))"
    and "shows_execution req (last bs) ex c" "ex_latest ex = ck_checkpoint_id c" "sh_cancel (ex_shared ex) = None"
    and "\<forall>r \<in> set (ex_receipts ex). rt_state r \<noteq> CANCELLED" "plan_tasks_constructed (rq_plan req)"
    and "ck_sequence c = int (length bs)" "bs \<noteq> []" "pl_aggregation_task_id (rq_plan req) \<in> ta_task_id ` set (pl_tasks (rq_plan req))"
  shows "existing_checkpoint_result req bs c = final_result req ex"
proof -
  let ?p = "rq_plan req"
  note I = exec_invD [OF assms(1)]
  have com: "ex_receipts ex = concat (map (map oc_receipt) S)" "ex_by_id ex = map (\<lambda>s. (series_task s, final_receipt s)) S"
    "ex_outputs ex = map (\<lambda>s. (series_task s, oc_output (last s))) S" "map fst (ex_states ex) = map ta_task_id (pl_tasks ?p)"
    "dict_get (ex_states ex) = state_in ?p S"
    using I(1) by (simp_all add: committed_def)
  have ids: "series_task ` set S = ta_task_id ` set (pl_tasks ?p)" using mset_eq_setD [OF assms(2)] by simp
  have c: "ck_receipts c = ex_receipts ex" "ck_outputs c = sort_key fst (ex_outputs ex)" "ck_task_states c = sort_key fst (ex_states ex)"
    using assms(3) by (simp_all add: shows_execution_def)
  have fin: "foldl keep_final [] (ck_receipts c) = ex_by_id ex"
    unfolding c(1) com(1,2) by (rule keep_final_committed [OF I(2,3)])
  have keys: "fst ` set (ex_states ex) = ta_task_id ` set (pl_tasks ?p)" using com(4) by (metis image_set)
  have "task_terminal st" if "(i, st) \<in> set (ex_states ex)" for i st
  proof -
    have "distinct (map fst (ex_states ex))" using assms(7) by (simp add: com(4) plan_tasks_constructed_def)
    then have st: "state_in ?p S i = Some st" using map_of_is_SomeI that unfolding com(5) [symmetric] by fast
    have "i \<in> series_task ` set S" using that keys ids by force
    then obtain s where find: "find (\<lambda>s. series_task s = i) S = Some s" using find_ex [of _ S "\<lambda>s. series_task s = i"] by blast
    then have s: "s \<in> set S" "rt_state (final_receipt s) = st" using find_SomeD [OF find] st by (simp_all add: state_in_def)
    then obtain t where "attempts_ok cd t True s" "s \<noteq> []" using I(2) by (auto simp: series_ok_def)
    then have "outcome_ok cd t (length s) (last s)" by (cases s rule: rev_cases) (auto simp: attempts_ok_snoc)
    then show ?thesis using s(2) by (simp add: outcome_ok_def Let_def final_receipt_def)
  qed
  then have states: "fst ` set (ck_task_states c) = ta_task_id ` set (pl_tasks ?p)"
    "list_all (\<lambda>kv. task_terminal (snd kv)) (ck_task_states c)"
    unfolding c(3) using keys by (auto simp: list_all_iff)
  have planned: "receipt_planned ?p (oc_receipt x)" if s: "s \<in> set S" and x: "x \<in> set s" for s x
  proof -
    have ok: "series_ok cd ?p s" using I(2) s .
    then obtain t where t: "t \<in> set (pl_tasks ?p)" "series_task s = ta_task_id t" "attempts_ok cd t True s" "s \<noteq> []"
      by (auto simp: series_ok_def)
    have find: "find_task (pl_tasks ?p) (ta_task_id t) = Some t"
      unfolding find_task_def using find_distinct [of ta_task_id "pl_tasks ?p" t] t(1) assms(7) by (simp add: plan_tasks_constructed_def)
    have ct: "constructed_task t" using assms(7) t(1) by (auto simp: plan_tasks_constructed_def list_all_iff)
    obtain k where k: "k < length s" "x = s ! k" using x by (auto simp: in_set_conv_nth)
    then have "outcome_ok cd t (k + 1) x" using t(3) by (auto simp: attempts_ok_def)
    then show ?thesis using find attempts_bound [OF t(3) ct t(4)] k(1) by (simp add: receipt_planned_def outcome_ok_def Let_def)
  qed
  have nth: "bs ! nat (ck_sequence c - 1) = last bs"
    unfolding assms(8) using assms(9) last_conv_nth [of bs] by (metis nat_int nat_minus_as_int of_nat_1)
  have "list_all (receipt_planned ?p) (ck_receipts c)" unfolding c(1) com(1) using planned by (auto simp: list_all_iff)
  moreover have "checkpoint_matches req bs c"
    using assms(3) eq_refl [OF assms(8)] unfolding checkpoint_matches_def shows_execution_def nth by blast
  moreover have "fst ` set (ex_by_id ex) = ta_task_id ` set (pl_tasks ?p)" unfolding com(2) ids [symmetric] by (simp add: image_image)
  ultimately have replay: "existing_checkpoint_result req bs c = replayed_result req c (ex_by_id ex)"
    using assms(8) states by (simp add: existing_checkpoint_result_def fin)
  let ?i = "pl_aggregation_task_id ?p" and ?rs = "map snd (ex_by_id ex)"
  have out: "dict_get (ck_outputs c) ?i = dict_get (ex_outputs ex) ?i"
    unfolding c(2) using get_sorted [of "ex_outputs ex"] I(3) by (simp add: com(3) comp_def)
  obtain s where s: "s \<in> set S" "series_task s = ?i" using assms(10) ids by (metis imageE)
  have dist: "distinct (map fst (ex_by_id ex))" "distinct (map fst (ex_outputs ex))" using I(3) by (simp_all add: com(2,3) comp_def)
  have "(?i, final_receipt s) \<in> set (ex_by_id ex)" "(?i, oc_output (last s)) \<in> set (ex_outputs ex)"
    unfolding com(2,3) using s by (metis (no_types, lifting) image_eqI list.set_map)+
  then have agg: "dict_get (ex_by_id ex) ?i = Some (final_receipt s)" "dict_get (ex_outputs ex) ?i = Some (oc_output (last s))"
    by (simp_all add: map_of_is_SomeI dist)
  have len: "length ?rs = length (pl_tasks ?p)" using mset_eq_length [OF assms(2)] by (simp add: com(2))
  have "rt_state (final_receipt s) \<noteq> CANCELLED" if "s \<in> set S" for s
    using assms(6) final_receipt_committed [OF that] I(2) [OF that] unfolding com(1) series_ok_def by blast
  then have none: "find (\<lambda>r. rt_state r = CANCELLED) ?rs = None" unfolding com(2) find_None_iff by auto
  have same: "orchestration_result req st (ck_receipts c) (ck_outputs c) aggregate (ck_checkpoint_id c) code =
      orchestration_result req st (ex_receipts ex) (ex_outputs ex) aggregate (ex_latest ex) code" for st aggregate code
    unfolding c assms(4) by (rule orchestration_result_sorted)
  have succ: "all_succeeded ?rs \<Longrightarrow> rt_state (final_receipt s) = SUCCEEDED"
    using s(1) by (auto simp: all_succeeded_def list_all_iff com(2))
  show ?thesis
    unfolding replay replayed_result_def final_result_def Let_def same out agg none assms(5)
    using len succ by (cases "all_succeeded ?rs") auto
qed

lemma store_codes:
  assumes "save_checkpoint cd req ba created ex = (Inl code, s)"
  shows "code \<in> set (map lit [''checkpoint_store_failed'', ''checkpoint_budget_exceeded'', ''checkpoint_size_exceeded''])"
  using assms by (auto simp: save_checkpoint_def make_checkpoint_def Let_def require_def split: sum.splits prod.splits if_splits)

lemma stopped_code:
  assumes "run_barriers sd req deadline bas scs ex = Some (Ends (Inr result) ex')"
  shows "re_failure_code result \<in> set (map lit [''checkpoint_store_failed'', ''checkpoint_budget_exceeded'', ''checkpoint_size_exceeded''])"
  using assms
proof (induction bas arbitrary: scs ex)
  case (Cons ba bas)
  obtain sc scs' where scs: "scs = sc # scs'" using Cons.prems by (cases scs) auto
  show ?case
  proof (cases "run_barrier sd req deadline ba sc ex = Some (Ends (Inr result) ex')")
    case True
    then obtain ex1 code s where code: "save_checkpoint (sd_codec sd) req ba (sr_created_at sc) ex1 = (Inl code, s)"
      "orchestration_result req ORCH_FAILED (ex_receipts ex1) (ex_outputs ex1) None (ex_latest ex1) code = Inr result"
      by (auto simp: run_barrier_def Let_def split: option.splits sum.splits prod.splits)
    note known = store_codes [OF code(1)]
    then have "optional_id_field 128 code = Inr code"
      by (auto intro!: visible_optional_id simp: lit_def)
    then have "re_failure_code result = code"
      using code(2) by (auto simp: orchestration_result_def AgentOrchestrationResult_post_init_def result_simps split: sum.splits)
    then show ?thesis using known by simp
  next
    case False
    then show ?thesis using Cons by (auto simp: scs split: option.splits progress.splits)
  qed
qed simp

lemma load_latest_stored:
  assumes "latest_is s c" "ck_orchestration_id c = i" "py_strip i = i" "i \<noteq> []"
    "py_strip (canonical_id (ri_owner (ck_identity c))) = canonical_id (ri_owner (ck_identity c))"
  shows "load_latest i (canonical_id (ri_owner (ck_identity c))) s = Inr (Some c)"
  using assms by (cases "order_of s i") (auto simp: load_latest_def latest_is_def canonical_id_def)

lemma nothing_filed:
  assumes "load_latest i owner s = Inr None" "py_strip i = i" "store_inv s"
  shows "filed_up_to i 0 s"
  using assms by (auto simp: load_latest_def filed_up_to_def Let_def result_simps split: list.splits option.splits)

lemma id_field_strip: "id_field n s = Inr s \<Longrightarrow> py_strip s = s \<and> s \<noteq> []"
  by (auto simp: id_field_def plan_text_def Let_def result_simps)


end
