(* ===== verification/Agent_Plan_Demo.thy ===== *)
theory Agent_Plan_Demo
  imports Agent_Plan_Correct
begin

text \<open>A plan with a worker's task and the aggregation, on which the properties of plans are evaluated.\<close>

definition demo_codec :: plan_codec where
  "demo_codec = \<lparr>pc_sha256 = (\<lambda>_. replicate 64 48), pc_float_repr = (\<lambda>_. [])\<rparr>"

lemma demo_hex: "hex64 (pc_sha256 demo_codec b)"
  by (simp add: demo_codec_def hex64_def hex_digit_def list_all_iff)

definition no_keys :: JsonObjectContract where
  "no_keys = \<lparr>required_keys = [], optional_keys = [], jc_max_bytes = 100\<rparr>"

definition one_key :: JsonObjectContract where
  "one_key = \<lparr>required_keys = [[120]], optional_keys = [], jc_max_bytes = 100\<rparr>"

definition any_output :: AgentTaskCompletionCondition where
  "any_output = \<lparr>accepted_statuses = [SUCCESS], required_data_keys = [], minimum_artifacts = 0\<rparr>"

definition once :: AgentTaskRetryPolicy where
  "once = \<lparr>retry_max_attempts = 1, retryable_error_codes = [], backoff_ms = [], idempotency_key = []\<rparr>"

definition demo_work :: AgentTaskDefinition where
  "demo_work =
     \<lparr>ta_task_id = [49], ta_role_id = [119], ta_description = [100], ta_dependencies = [], ta_input_contract = no_keys,
      ta_input_bindings = [], ta_output_contract = one_key, ta_completion = any_output, ta_timeout_ms = 1000,
      ta_runtime_policy = None, ta_retry_policy = once\<rparr>"

definition demo_sum :: AgentTaskDefinition where
  "demo_sum =
     \<lparr>ta_task_id = [50], ta_role_id = [97], ta_description = [100], ta_dependencies = [[49]], ta_input_contract = one_key,
      ta_input_bindings = [\<lparr>ib_target_key = [120], ib_source_key = [120], ib_source_task_id = [49], ib_required = True\<rparr>],
      ta_output_contract = no_keys, ta_completion = any_output, ta_timeout_ms = 1000, ta_runtime_policy = None,
      ta_retry_policy = once\<rparr>"

definition demo_role :: "nat \<Rightarrow> AgentRoleKind \<Rightarrow> AgentRoleDefinition" where
  "demo_role i kind = \<lparr>ro_id = [i], ro_kind = kind, ro_description = [100], ro_capabilities = []\<rparr>"

definition demo_plan_budget :: AgentOrchestrationBudget where
  "demo_plan_budget =
     \<lparr>max_tasks = 2, max_concurrency = 1, max_model_calls = 2, max_tokens = 40, max_cost_microunits = 100,
      max_elapsed_ms = 1000, max_output_bytes = 4000, max_checkpoints = 2, max_spawn_depth = 1, max_tool_calls = 0\<rparr>"

definition demo_plan :: AgentOrchestrationPlan where
  "demo_plan =
     \<lparr>pl_plan_id = [112], pl_revision = 1,
      pl_roles = [demo_role 97 AGGREGATOR, demo_role 99 COORDINATOR, demo_role 119 WORKER],
      pl_tasks = [demo_work, demo_sum], pl_root_input_contract = no_keys, pl_aggregation_task_id = [50],
      pl_budget = demo_plan_budget, pl_content_sha256 = []\<rparr>"

lemmas demo_defs = demo_work_def demo_sum_def demo_role_def no_keys_def one_key_def any_output_def once_def

lemma demo_digest: "json_ascii j \<Longrightarrow> json_digest demo_codec j = Inr (replicate 64 48)"
  using utf8_encode_ascii [OF dumps_ascii, of j]
  by (simp add: json_digest_def canonical_json_bytes_def demo_codec_def)

lemma binding_sources_simps:
  "binding_sources [] = {}"
  "binding_sources (b # bs) = (if ib_source_task_id b = [] then {} else {ib_source_task_id b}) \<union> binding_sources bs"
  by (auto simp: binding_sources_def)

lemma demo_fields: "plan_fields demo_plan = Inr demo_plan"
proof -
  have order: "sort_key ta_task_id [demo_work, demo_sum] = [demo_work, demo_sum]"
    "sort_key ro_id [demo_role 97 AGGREGATOR, demo_role 99 COORDINATOR, demo_role 119 WORKER] =
       [demo_role 97 AGGREGATOR, demo_role 99 COORDINATOR, demo_role 119 WORKER]"
    by (simp_all add: demo_work_def demo_sum_def demo_role_def)
  let ?roles = "[demo_role 97 AGGREGATOR, demo_role 99 COORDINATOR, demo_role 119 WORKER]"
  let ?tasks = "[demo_work, demo_sum]"
  have ids: "map ta_task_id ?tasks = [[49], [50]]" by (simp add: demo_work_def demo_sum_def)
  have "validate_acyclic ?tasks = Inr ()"
    by (simp add: validate_acyclic_def validate_acyclic_loop.simps ready_tasks_def dependencies_of_def demo_work_def
        demo_sum_def)
  moreover have "roles_valid ?roles" by (simp add: roles_valid_def demo_role_def)
  moreover have "list_all (task_valid ?roles [[49], [50]] no_keys) ?tasks"
    by (simp add: task_valid_def find_role_def demo_role_def demo_work_def demo_sum_def from_root_def)
  moreover have "aggregation_valid ?roles ?tasks [50]"
    by (simp add: aggregation_valid_def find_role_def find_task_def demo_role_def demo_work_def demo_sum_def binding_sources_simps
        insert_Diff_if)
  moreover have "runtime_valid ?roles ?tasks demo_plan_budget"
    by (simp add: runtime_valid_def demo_work_def demo_sum_def)
  moreover have "max_tasks demo_plan_budget = 2" by (simp add: demo_plan_budget_def)
  moreover have plan: "pl_roles demo_plan = ?roles" "pl_tasks demo_plan = ?tasks" "pl_root_input_contract demo_plan = no_keys"
    "pl_budget demo_plan = demo_plan_budget" "pl_plan_id demo_plan = [112]" "pl_revision demo_plan = 1"
    "pl_aggregation_task_id demo_plan = [50]" by (simp_all add: demo_plan_def)
  moreover have "demo_plan\<lparr>pl_plan_id := [112], pl_revision := 1, pl_roles := ?roles, pl_tasks := ?tasks,
      pl_aggregation_task_id := [50]\<rparr> = demo_plan" by (simp add: demo_plan_def)
  moreover have "id_field 160 [112] = Inr [112]" "id_field 128 [50] = Inr [50]" by (simp_all add: visible_id)
  ultimately show ?thesis
    unfolding plan_fields_def plan order Let_def ids by (simp add: positive_int_def)
qed

lemma demo_task: "AgentTaskDefinition_post_init demo_work = Inr demo_work" "AgentTaskDefinition_post_init demo_sum = Inr demo_sum"
  by (simp_all add: AgentTaskDefinition_post_init_def demo_defs visible_id visible_text sorted_texts_def text_tuple_def
      positive_int_def allowed_keys_def binding_sources_simps Collect_conv_if)

definition demo_barrier :: "nat \<Rightarrow> pystr list \<Rightarrow> pystr list \<Rightarrow> AgentTaskBarrier" where
  "demo_barrier n ids past =
     \<lparr>ba_barrier_id = lit ''barrier-'' @ [48, 48, 48, 48 + n] @ lit ''-'' @ replicate 16 48, ba_sequence = int n,
      ba_task_ids = ids, ba_completed_before = past\<rparr>"

lemma demo_make_barrier:
  assumes "n \<in> {1, 2}" "ids = [[i]]" "past = [] \<or> past = [[49]]" "i \<in> {49, 50}" "[i] \<notin> set past"
  shows "make_barrier demo_codec n ids past = Inr (demo_barrier n ids past)"
proof -
  have "json_digest demo_codec (strs ids) = Inr (replicate 64 48)"
    by (rule demo_digest) (use assms(2,4) in \<open>auto simp: strs_def\<close>)
  moreover have "id_field 200 (lit ''barrier-'' @ [48, 48, 48, 48 + n] @ lit ''-'' @ replicate 16 48) =
      Inr (lit ''barrier-'' @ [48, 48, 48, 48 + n] @ lit ''-'' @ replicate 16 48)"
    by (rule visible_id) (use assms(1) in \<open>auto simp: lit_def\<close>)
  moreover have "py_digits n = [48 + n]" using assms(1) by (simp add: py_digits.simps [of n]) linarith
  then have "zero_padded 4 (int n) = [48, 48, 48, 48 + n]" by (simp add: zero_padded_def numeral_3_eq_3)
  moreover have "plan_text 128 [i] = Inr [i]" "plan_text 128 [49] = Inr [49]"
    using assms(4) by (auto intro!: visible_text)
  ultimately show ?thesis
    using assms by (auto simp: make_barrier_def AgentTaskBarrier_post_init_def demo_barrier_def sorted_texts_def
        text_tuple_def positive_int_def result_simps)
qed

lemma demo_barriers:
  "execution_barriers demo_codec demo_plan = Some (Inr [demo_barrier 1 [[49]] [], demo_barrier 2 [[50]] [[49]]])"
proof -
  let ?tasks = "[demo_work, demo_sum]"
  have b1: "slice_barriers demo_codec 1 [[49]] [] [] = Inr ([[49]], [demo_barrier 1 [[49]] []])"
    using demo_make_barrier [of 1 "[[49]]" 49 "[]"] by (simp add: slice_barriers.simps)
  have b2: "slice_barriers demo_codec 1 [[50]] [[49]] [demo_barrier 1 [[49]] []] =
      Inr ([[49], [50]], [demo_barrier 1 [[49]] [], demo_barrier 2 [[50]] [[49]]])"
    using demo_make_barrier [of 2 "[[50]]" 50 "[[49]]"] by (simp add: slice_barriers.simps numeral_2_eq_2)
  have deps: "dependencies_of ?tasks [49] = []" "dependencies_of ?tasks [50] = [[49]]"
    by (simp_all add: dependencies_of_def demo_work_def demo_sum_def)
  have r1: "ready_tasks ?tasks [[49], [50]] [] = [[49]]" and r2: "ready_tasks ?tasks [[50]] [[49]] = [[50]]"
    by (simp_all add: ready_tasks_def deps)
  have "barrier_loop demo_codec 1 ?tasks [[50]] [[49]] [demo_barrier 1 [[49]] []] =
      Some (Inr [demo_barrier 1 [[49]] [], demo_barrier 2 [[50]] [[49]]])"
    by (subst barrier_loop.simps) (simp add: r2 b2 barrier_loop.simps Let_def del: One_nat_def)
  then have "barrier_loop demo_codec 1 ?tasks [[49], [50]] [] [] =
      Some (Inr [demo_barrier 1 [[49]] [], demo_barrier 2 [[50]] [[49]]])"
    by (subst barrier_loop.simps) (simp add: r1 b1 Let_def del: One_nat_def)
  then show ?thesis
    by (simp add: execution_barriers_def demo_plan_def demo_plan_budget_def demo_work_def demo_sum_def)
qed

definition demo_frozen :: AgentOrchestrationPlan where
  "demo_frozen = demo_plan\<lparr>pl_content_sha256 := replicate 64 48\<rparr>"

lemma demo_ascii: "json_ascii (plan_dict demo_plan)"
  by (simp add: plan_dict_def demo_plan_def demo_defs demo_plan_budget_def role_dict_def task_dict_def contract_dict_def
      completion_dict_def retry_dict_def binding_dict_def orchestration_budget_dict_def strs_def role_kind_value_def
      output_status_value_def lit_def)

lemma demo_constructed: "AgentOrchestrationPlan_post_init demo_codec demo_plan = Some (Inr demo_frozen)"
proof -
  have "declared_digest demo_codec (plan_dict demo_plan) (pl_content_sha256 demo_plan) = Inr (replicate 64 48)"
    by (simp add: declared_digest_def demo_digest [OF demo_ascii]) (simp add: demo_plan_def py_lower_def)
  moreover have "max_checkpoints (pl_budget demo_plan) = 2" by (simp add: demo_plan_def demo_plan_budget_def)
  ultimately show ?thesis
    by (simp add: AgentOrchestrationPlan_post_init_def demo_fields demo_barriers demo_frozen_def)
qed

lemma demo_constructed_tasks: "constructed_tasks demo_plan"
  using demo_task by (simp add: constructed_tasks_def demo_plan_def)

theorem cycle_check_exact_witness: "([50], [50]) \<notin> (depends [demo_work, demo_sum])\<^sup>+"
proof -
  have closed: "closed_tasks [demo_work, demo_sum]" by (simp add: closed_tasks_def demo_work_def demo_sum_def)
  have "validate_acyclic [demo_work, demo_sum] = Inr ()"
    using plan_fields_spec(13) [OF demo_fields] by (simp add: demo_plan_def)
  then show ?thesis using cycle_check_exact [OF closed] by blast
qed

theorem plan_barriers_schedule_witness:
  "\<exists>bs. execution_barriers demo_codec demo_frozen = Some (Inr bs) \<and> ba_task_ids (last bs) = [[50]] \<and>
     schedule (dependencies_of (pl_tasks demo_frozen)) 1 [] 0 bs"
proof -
  have "nat (max_concurrency (pl_budget demo_frozen)) = 1" "pl_aggregation_task_id demo_frozen = [50]"
    by (simp_all add: demo_frozen_def demo_plan_def demo_plan_budget_def)
  then show ?thesis using plan_barriers_schedule [OF demo_constructed demo_constructed_tasks] by metis
qed

theorem constructed_plan_type_witness:
  "AgentOrchestrationPlan_post_init demo_codec demo_frozen = Some (Inr demo_frozen) \<and> acyclic (depends (pl_tasks demo_frozen))"
  using constructed_plan_type [OF demo_hex demo_constructed] by blast

end
