(* ===== verification/Agent_Run_Demo.thy ===== *)
theory Agent_Run_Demo
  imports Agent_Orchestrator_Correct Agent_Plan_Demo Runtime_Budget_Properties
begin

text \<open>
  A whole run of a plan of one task, on which the properties of the scheduler are evaluated: the task
  reserves a subagent, its executor returns an output without usage, the reservation is released, the
  checkpoint is saved and the result reports success. All clocks stand still. The digest is constant;
  the sizes of the JSON texts are bounded, not computed.
\<close>

section \<open>How long a JSON text can be\<close>

fun json_weight :: "json \<Rightarrow> nat" where
  "json_weight (JInt n) = length (dump_int n)"
| "json_weight (JStr s) = 6 * length s + 2"
| "json_weight (JList xs) = 2 + sum_list (map (\<lambda>x. json_weight x + 1) xs)"
| "json_weight (JObject d) = 2 + sum_list (map (\<lambda>kv. 6 * length (fst kv) + 4 + json_weight (snd kv)) d)"
| "json_weight j = 5"

lemma dump_string_length: "length (dump_string s) \<le> 6 * length s + 2"
proof -
  have "length (concat (map escape_char s)) \<le> 6 * length s"
    by (induction s) (auto simp: escape_char_def)
  then show ?thesis by (simp add: dump_string_def)
qed

lemma join_char_length: "length (join_char c xs) \<le> sum_list (map (\<lambda>x. length x + 1) xs)"
  by (induction c xs rule: join_char.induct) auto

lemma sum_list_sort_key: "sum_list (map g (sort_key f xs)) = (sum_list (map g xs) :: nat)"
  by (simp flip: sum_mset_sum_list)

lemma dumps_length: "json_ascii j \<Longrightarrow> length (dumps fr j) \<le> json_weight j"
proof (induction j rule: json_ascii.induct)
  case (2 xs)
  have "sum_list (map (\<lambda>x. length (dumps fr x) + 1) xs) \<le> sum_list (map (\<lambda>x. json_weight x + 1) xs)"
    using 2 by (intro sum_list_mono) auto
  then show ?case using join_char_length [of 44 "map (dumps fr) xs"] by (simp add: o_def)
next
  case (3 d)
  let ?d = "map (\<lambda>kv. (fst kv, dumps fr (snd kv))) d" and ?g = "\<lambda>kv. length (dump_string (fst kv) @ 58 # snd kv) + 1"
  have "length (join_char 44 (map (\<lambda>kv. dump_string (fst kv) @ 58 # snd kv) (sort_key fst ?d))) \<le>
      sum_list (map ?g (sort_key fst ?d))"
    using join_char_length [of 44 "map (\<lambda>kv. dump_string (fst kv) @ 58 # snd kv) (sort_key fst ?d)"] by (simp add: o_def)
  also have "\<dots> = sum_list (map ?g ?d)" by (rule sum_list_sort_key)
  also have "\<dots> = sum_list (map (\<lambda>kv. ?g (fst kv, dumps fr (snd kv))) d)" by (simp add: o_def)
  also have "\<dots> \<le> sum_list (map (\<lambda>kv. 6 * length (fst kv) + 4 + json_weight (snd kv)) d)"
  proof (rule sum_list_mono)
    fix kv assume kv: "kv \<in> set d"
    then have "length (dumps fr (snd kv)) \<le> json_weight (snd kv)" using 3 by auto
    then show "?g (fst kv, dumps fr (snd kv)) \<le> 6 * length (fst kv) + 4 + json_weight (snd kv)"
      using dump_string_length [of "fst kv"] by simp
  qed
  finally show ?case by simp
next
  case (1 s)
  show ?case using dump_string_length [of s] by simp
qed (auto simp: lit_def)

lemma digits_length: "0 < k \<Longrightarrow> n < 10 ^ k \<Longrightarrow> length (py_digits n) \<le> k"
proof (induction k arbitrary: n)
  case (Suc k)
  show ?case
  proof (cases "n < 10")
    case True
    then show ?thesis by (simp add: py_digits.simps)
  next
    case False
    then have "0 < k" using Suc.prems(2) by (cases k) auto
    moreover have "n div 10 < 10 ^ k" using Suc.prems(2) by (simp add: less_mult_imp_div_less mult.commute)
    ultimately show ?thesis using Suc.IH [of "n div 10"] False by (simp add: py_digits.simps [of n])
  qed
qed simp

lemma demo_size:
  assumes "json_ascii j"
  shows "\<exists>n. json_size demo_codec j = Inr n \<and> 0 \<le> n \<and> n \<le> int (json_weight j)"
  using utf8_encode_ascii [OF dumps_ascii, OF assms] dumps_length [OF assms]
  by (simp add: json_size_def canonical_json_bytes_def)

lemma epoch: "isoformat 0 = lit ''1970-01-01T00:00:00+00:00''"
proof -
  have day: "civil_from_days 0 = (1970, 1, 1)" by code_simp
  have d0: "py_digits 0 = [48]" by (subst py_digits.simps) simp
  have d1: "py_digits 1 = [49]" by (subst py_digits.simps) simp
  have d2: "py_digits 19 = [49, 57]" by (subst py_digits.simps) (simp add: d1 del: One_nat_def)
  have d3: "py_digits 197 = [49, 57, 55]" by (subst py_digits.simps) (simp add: d2)
  have d4: "py_digits 1970 = [49, 57, 55, 48]" by (subst py_digits.simps) (simp add: d3)
  have pad: "zero_padded 4 1970 = [49, 57, 55, 48]" "zero_padded 2 1 = [48, 49]" "zero_padded 2 0 = [48, 48]"
    using d0 d1 d4 by (simp_all add: zero_padded_def)
  show ?thesis by (simp add: isoformat_def Let_def day pad lit_def)
qed

section \<open>An account at the start of the clock\<close>

definition fresh_account :: "BudgetAccount \<Rightarrow> bool" where
  "fresh_account a \<longleftrightarrow> account_inv a \<and> governance a = demo_governance \<and> (\<forall>scope. us_started (state_of a scope) = 0)"

lemma fresh_demo: "fresh_account demo_account"
  using new_account_inv [OF demo_governance_ok] demo_state
  by (simp add: fresh_account_def new_account_fields new_usage_def)

lemma fresh_time:
  assumes "fresh_account a"
  shows "check_time 0 k a = k a" "check_subagent_time 0 op' resource k a = k a"
proof -
  have "limit_of a scope = demo_limit scope" for scope
    using assms by (cases scope) (simp_all add: limit_of_def fresh_account_def envelope_limit_def demo_governance_def)
  then have "\<not> time_exhausted 0 a scope" for scope
    using assms by (simp add: time_exhausted_def fresh_account_def elapsed_ms_def demo_limit_def)
  then show "check_time 0 k a = k a" "check_subagent_time 0 op' resource k a = k a"
    by (simp_all add: check_time_def check_subagent_time_def)
qed

lemma fresh_slots:
  assumes "on_slots a scopes (consume x) b" "fresh_account a" "account_inv c"
    "governance c = governance b" "state_of c = state_of b"
  shows "fresh_account c"
proof -
  have cur: "current_turn_ok a" using assms(2) account_invD(1) by (simp add: fresh_account_def)
  have "us_started (state_of b scope) = 0" for scope
    using on_slots_state [OF assms(1) cur, of scope] assms(2) by (auto simp: fresh_account_def consume_def)
  moreover have "governance b = governance a" using assms(1) by (simp add: on_slots_def same_frame_def)
  ultimately show ?thesis using assms(2-5) by (simp add: fresh_account_def)
qed

lemma demo_subagent:
  "\<exists>res a1. reserve_subagent name 0 0 demo_account = (Inr res, a1) \<and> fresh_account a1 \<and>
     br_id res = lit ''budget-reservation:r:1'' \<and> br_turn_id res = ri_turn_id (identity a1) \<and>
     identity a1 = demo_identity \<and> dict_get (reservations a1) (br_id res) = Some res"
proof -
  let ?scopes = "[RUN_SCOPE, TURN_SCOPE, SUBAGENT_SCOPE]"
  have none: "first_refusal (exceeds demo_account call_amount) ?scopes = None" by (rule demo_fits) (simp add: nothing_def)
  obtain agent where agent: "reserve_subagent name 0 0 demo_account =
      reserve_call SUBAGENT_SCOPE (lit ''subagent_reservation'') agent demo_account"
    using none by (simp add: reserve_subagent_def fresh_time [OF fresh_demo] Let_def del: first_refusal.simps)
  let ?a0 = "demo_account\<lparr>reservation_sequence := reservation_sequence demo_account + 1\<rparr>"
  have inv: "account_inv demo_account" using fresh_demo by (simp add: fresh_account_def)
  have fresh0: "fresh_account ?a0"
    using fresh_demo account_inv_sequence [OF inv, of "reservation_sequence demo_account + 1"]
    by (simp add: fresh_account_def state_of_def split: RuntimeBudgetScope.splits)
  obtain res a1 where r: "reserve_subagent name 0 0 demo_account = (Inr res, a1)"
    unfolding agent by (simp add: reserve_call_def Let_def)
  have inv1: "account_inv a1" by (rule reserve_subagent_inv [OF r inv])
  note app = reserve_subagent_appends [OF inv r]
  have id1: "identity a1 = demo_identity" using same_identity(1) [OF r] by (simp add: new_account_fields)
  let ?c = "charge ?scopes (lit ''subagent_reservation'') (lit ''within_limit'') agent call_amount ?a0"
  have cur: "current_turn_ok ?a0" using fresh0 account_invD(1) by (simp add: fresh_account_def)
  have ch: "on_slots ?a0 ?scopes (consume call_amount) ?c"
    by (rule conjunct1 [OF charge_on_slots [OF cur]]) simp
  have seq: "reservation_sequence demo_account = 0" by (simp add: new_account_def Let_def emit_def)
  have a1: "a1 = ?c\<lparr>reservations := reservations a1\<rparr>" "br_id res = lit ''budget-reservation:'' @ ri_run_id demo_identity @ lit '':'' @ py_digits 1"
    using r unfolding agent by (auto simp: reserve_call_def Let_def new_account_fields seq)
  have "governance a1 = governance ?c" by (subst a1(1)) simp
  moreover have "state_of a1 = state_of ?c" by (subst a1(1)) (auto simp: state_of_def fun_eq_iff split: RuntimeBudgetScope.splits)
  ultimately have "fresh_account a1" by (rule fresh_slots [OF ch fresh0 inv1])
  moreover have "br_id res = lit ''budget-reservation:r:1''"
    unfolding a1(2) by (subst py_digits.simps) (simp add: demo_identity_def lit_def)
  ultimately show ?thesis
    using r app id1 by (auto simp: new_account_fields)
qed

lemma fresh_remaining: "fresh_account a \<Longrightarrow> \<exists>s. subagent_remaining_time_seconds 0 0 0 0 0 a = (Inr s, a)"
  by (simp add: subagent_remaining_time_seconds_def remaining_time_seconds_def fresh_time)

lemma fresh_no_usage:
  assumes "fresh_account a"
  shows "\<exists>b. record_subagent_usage zero_usage 0 0 0 0 a = (Inr (), b) \<and> account_inv b \<and> identity b = identity a \<and>
    reservations b = reservations a"
proof -
  have inv: "account_inv a" using assms by (simp add: fresh_account_def)
  let ?x = "\<lparr>am_calls = 0, am_tokens = total_tokens zero_usage, am_cost = cost_microunits zero_usage, am_steps = 0, am_concurrency = 0\<rparr>"
  have "exceeds a ?x scope = []" for scope
    using account_invD(4) [OF inv, of scope]
    by (simp add: exceeds_def not_exceeding usage_ok_def numeric_policy_def zero_usage_def total_tokens_def)
  then have "first_refusal (exceeds a ?x) [RUN_SCOPE, TURN_SCOPE, SUBAGENT_SCOPE] = None" by (simp add: first_refusal_None)
  then obtain b where b: "record_subagent_usage zero_usage 0 0 0 0 a = (Inr (), b)"
    by (simp add: record_subagent_usage_def fresh_time [OF assms] del: first_refusal.simps)
  have "RuntimeUsage_valid zero_usage" by (simp add: RuntimeUsage_valid_def zero_usage_def)
  then have "account_inv b" using record_subagent_usage_inv [OF b inv] by simp
  then show ?thesis using b same_identity(2) [OF b] record_subagent_reservations [OF b] by blast
qed

section \<open>A plan of one task\<close>

definition zeros :: pystr where
  "zeros = replicate 64 48"

definition solo_task :: AgentTaskDefinition where
  "solo_task =
     \<lparr>ta_task_id = [49], ta_role_id = [97], ta_description = [100], ta_dependencies = [], ta_input_contract = no_keys,
      ta_input_bindings = [], ta_output_contract = no_keys, ta_completion = any_output, ta_timeout_ms = 1000,
      ta_runtime_policy = None, ta_retry_policy = once\<rparr>"

definition solo_budget :: AgentOrchestrationBudget where
  "solo_budget =
     \<lparr>max_tasks = 1, max_concurrency = 1, max_model_calls = 2, max_tokens = 40, max_cost_microunits = 100,
      max_elapsed_ms = 1000, max_output_bytes = 100000, max_checkpoints = 1, max_spawn_depth = 1, max_tool_calls = 0\<rparr>"

definition solo_plan :: AgentOrchestrationPlan where
  "solo_plan =
     \<lparr>pl_plan_id = [112], pl_revision = 1, pl_roles = [demo_role 97 AGGREGATOR, demo_role 99 COORDINATOR],
      pl_tasks = [solo_task], pl_root_input_contract = no_keys, pl_aggregation_task_id = [49], pl_budget = solo_budget,
      pl_content_sha256 = zeros\<rparr>"

definition solo_request :: AgentOrchestrationRequest where
  "solo_request =
     \<lparr>rq_orchestration_id = [111], rq_identity = demo_identity, rq_plan = solo_plan,
      rq_approval = \<lparr>ap_approval_id = [97], ap_plan_id = [112], ap_plan_revision = 1, ap_plan_sha256 = zeros,
        ap_approved_by = [117], ap_approved_at = 0\<rparr>,
      rq_freeze = \<lparr>fz_freeze_id = [102], fz_approval_id = [97], fz_plan_id = [112], fz_plan_revision = 1,
        fz_plan_sha256 = zeros, fz_frozen_by = [117], fz_frozen_at = 0\<rparr>,
      rq_root_input = [], rq_nesting_depth = 0\<rparr>"

lemma solo_find: "find_task [solo_task] [49] = Some solo_task"
  by (simp add: find_task_def solo_task_def)

lemma solo_role: "find_role [demo_role 97 AGGREGATOR, demo_role 99 COORDINATOR] [97] = Some (demo_role 97 AGGREGATOR)"
  by (simp add: find_role_def demo_role_def)

lemma solo_fields: "plan_fields solo_plan = Inr solo_plan"
proof -
  let ?roles = "[demo_role 97 AGGREGATOR, demo_role 99 COORDINATOR]" and ?tasks = "[solo_task]"
  have order: "sort_key ta_task_id ?tasks = ?tasks" "sort_key ro_id ?roles = ?roles"
    by (simp_all add: demo_role_def)
  have ids: "map ta_task_id ?tasks = [[49]]" by (simp add: solo_task_def)
  have "validate_acyclic ?tasks = Inr ()"
    by (simp add: validate_acyclic_def validate_acyclic_loop.simps ready_tasks_def dependencies_of_def solo_task_def)
  moreover have "roles_valid ?roles" by (simp add: roles_valid_def demo_role_def)
  moreover have "list_all (task_valid ?roles [[49]] no_keys) ?tasks"
    by (simp add: task_valid_def find_role_def demo_role_def solo_task_def)
  moreover have "aggregation_valid ?roles ?tasks [49]"
    unfolding aggregation_valid_def solo_find
    by (simp add: find_role_def demo_role_def solo_task_def binding_sources_simps)
  moreover have "runtime_valid ?roles ?tasks solo_budget" by (simp add: runtime_valid_def solo_task_def)
  moreover have "max_tasks solo_budget = 1" by (simp add: solo_budget_def)
  moreover have plan: "pl_roles solo_plan = ?roles" "pl_tasks solo_plan = ?tasks" "pl_root_input_contract solo_plan = no_keys"
    "pl_budget solo_plan = solo_budget" "pl_plan_id solo_plan = [112]" "pl_revision solo_plan = 1"
    "pl_aggregation_task_id solo_plan = [49]" by (simp_all add: solo_plan_def)
  moreover have "solo_plan\<lparr>pl_plan_id := [112], pl_revision := 1, pl_roles := ?roles, pl_tasks := ?tasks,
      pl_aggregation_task_id := [49]\<rparr> = solo_plan" by (simp add: solo_plan_def)
  moreover have "id_field 160 [112] = Inr [112]" "id_field 128 [49] = Inr [49]" by (simp_all add: visible_id)
  ultimately show ?thesis
    unfolding plan_fields_def plan order Let_def ids by (simp add: positive_int_def)
qed

lemma solo_barriers: "execution_barriers demo_codec solo_plan = Some (Inr [demo_barrier 1 [[49]] []])"
proof -
  have slice: "slice_barriers demo_codec 1 [[49]] [] [] = Inr ([[49]], [demo_barrier 1 [[49]] []])"
    using demo_make_barrier [of 1 "[[49]]" 49 "[]"] by (simp add: slice_barriers.simps)
  have ready: "ready_tasks [solo_task] [[49]] [] = [[49]]"
    by (simp add: ready_tasks_def dependencies_of_def solo_task_def)
  have "barrier_loop demo_codec 1 [solo_task] [[49]] [] [] = Some (Inr [demo_barrier 1 [[49]] []])"
    by (subst barrier_loop.simps) (simp add: ready slice barrier_loop.simps Let_def del: One_nat_def)
  then show ?thesis by (simp add: execution_barriers_def solo_plan_def solo_budget_def) (simp add: solo_task_def)
qed

lemma solo_plan_ascii: "json_ascii (plan_dict solo_plan)"
  by (simp add: plan_dict_def solo_plan_def demo_defs solo_task_def solo_budget_def role_dict_def task_dict_def
      contract_dict_def completion_dict_def retry_dict_def binding_dict_def orchestration_budget_dict_def strs_def
      role_kind_value_def output_status_value_def lit_def)

lemma zeros_hex: "hex64 zeros"
  using demo_hex by (simp add: demo_codec_def zeros_def)

lemma zeros_ascii: "\<forall>c \<in> set zeros. c < 128"
  by (simp add: zeros_def)

lemma zero_sha: "plan_sha256 e zeros = Inr zeros" "zeros \<noteq> []" "py_lower (py_strip zeros) = zeros" "length zeros = 64"
  using plan_sha256_normal [OF zeros_hex] zeros_hex
  by (simp_all add: plan_sha256_def Let_def) (simp_all add: zeros_def)

lemma zero_digest: "json_ascii j \<Longrightarrow> json_digest demo_codec j = Inr zeros"
  unfolding zeros_def by (rule demo_digest)

lemma solo_constructed: "AgentOrchestrationPlan_post_init demo_codec solo_plan = Some (Inr solo_plan)"
proof -
  have sha: "pl_content_sha256 solo_plan = zeros" by (simp add: solo_plan_def)
  have "declared_digest demo_codec (plan_dict solo_plan) zeros = Inr zeros"
    by (simp add: declared_digest_def zero_digest [OF solo_plan_ascii] zero_sha)
  moreover have "max_checkpoints (pl_budget solo_plan) = 1" by (simp add: solo_plan_def solo_budget_def)
  moreover have "solo_plan\<lparr>pl_content_sha256 := zeros\<rparr> = solo_plan" using sha by simp
  ultimately show ?thesis
    by (simp add: AgentOrchestrationPlan_post_init_def solo_fields solo_barriers sha)
qed

lemma solo_task_constructed: "constructed_task solo_task"
proof -
  have "AgentTaskDefinition_post_init solo_task = Inr solo_task"
    by (simp add: AgentTaskDefinition_post_init_def solo_task_def demo_defs visible_id visible_text sorted_texts_def
        text_tuple_def positive_int_def allowed_keys_def binding_sources_simps)
  moreover have "AgentTaskRetryPolicy_post_init once = Inr once"
    by (simp add: AgentTaskRetryPolicy_post_init_def once_def positive_int_def sorted_texts_def text_tuple_def)
  ultimately show ?thesis by (simp add: constructed_task_def solo_task_def)
qed

lemma demo_owner: "canonical_id (ri_owner demo_identity) = [113, 58, 117, 115, 101, 114, 58, 111]"
  "py_strip (canonical_id (ri_owner demo_identity)) = canonical_id (ri_owner demo_identity)"
proof -
  show "canonical_id (ri_owner demo_identity) = [113, 58, 117, 115, 101, 114, 58, 111]"
    by (simp add: canonical_id_def demo_identity_def lit_def)
  then show "py_strip (canonical_id (ri_owner demo_identity)) = canonical_id (ri_owner demo_identity)"
    by (simp add: py_strip_visible py_isspace_def)
qed

lemma solo_request_constructed: "constructed_request demo_codec solo_request"
  using solo_constructed solo_task_constructed demo_hex demo_owner(2)
  by (simp add: constructed_request_def codec_ok_def solo_request_def visible_id AgentOrchestrationFreeze_post_init_def zero_sha
      positive_int_def AgentOrchestrationBudget_post_init_def)
    (simp add: solo_plan_def solo_budget_def in_range_def)

section \<open>The task runs\<close>

definition demo_scheduler :: scheduler where
  "demo_scheduler = \<lparr>sd_codec = demo_codec, sd_container_str = (\<lambda>_. [])\<rparr>"

definition solo_output :: AgentTaskOutput where
  "solo_output =
     \<lparr>to_status = SUCCESS, to_summary = [115], to_next_actions = [], to_artifacts = [], to_data = [], to_usage = zero_usage,
      to_model_calls = 0, to_tool_calls = 0\<rparr>"

definition start_now :: start_readings where
  "start_now = \<lparr>st_now = 0, st_clock = 0, st_reserve = (0, 0), st_deadline = 0, st_remaining = (0, 0, 0, 0, 0)\<rparr>"

definition end_now :: end_readings where
  "end_now = \<lparr>en_usage = (0, 0), en_now = 0, en_clock = 0, en_handler_now = 0, en_handler_clock = 0, en_retry_clock = 0\<rparr>"

definition solo_events :: "batch_event list" where
  "solo_events = [Attempt_starts [49] start_now end_now, Attempt_ends [49] (Work_returned solo_output) end_now]"

definition solo_receipt :: "int \<Rightarrow> AgentTaskExecutionReceipt" where
  "solo_receipt n =
     \<lparr>rt_task_id = [49], rt_role_id = [97], rt_state = SUCCEEDED, rt_attempt_no = 1, rt_dependency_ids = [],
      rt_output_sha256 = zeros, rt_output_size_bytes = n, rt_error_code = [], rt_started_at = 0, rt_finished_at = 0,
      rt_duration_ms = 0, rt_reservation_id = lit ''budget-reservation:r:1'', rt_receipt_sha256 = zeros\<rparr>"

definition solo_outcome :: "int \<Rightarrow> TaskOutcome" where
  "solo_outcome n = \<lparr>oc_receipt = solo_receipt n, oc_output = solo_output\<rparr>"

lemma solo_output_ascii: "json_ascii (output_dict solo_output)"
  by (simp add: output_dict_def solo_output_def usage_dict_def zero_usage_def strs_def output_status_value_def lit_def)

lemma small_int: "0 \<le> n \<Longrightarrow> n < 10000 \<Longrightarrow> length (dump_int n) \<le> 4"
  using digits_length [of 4 "nat n"] by (simp add: dump_int_def)

lemma zero_int: "length (dump_int 0) = 1" "length (dump_int 1) = 1" "length (dump_int 3) = 1"
  by (simp_all add: dump_int_def py_digits.simps [of 0] py_digits.simps [of "Suc 0"] py_digits.simps [of 3])

lemma solo_output_size: "\<exists>n. json_size demo_codec (output_dict solo_output) = Inr n \<and> 0 \<le> n \<and> n < 10000"
proof -
  have "json_weight (output_dict solo_output) < 10000"
    by (simp add: output_dict_def solo_output_def usage_dict_def zero_usage_def strs_def output_status_value_def lit_def zero_int)
  then show ?thesis using demo_size [OF solo_output_ascii] by fastforce
qed

lemma freeze_nothing: "freeze_object [] = Inr []"
  by (simp add: freeze_object_def freeze_json.simps)

lemma validate_nothing: "validate_object demo_codec no_keys [] = Inr []"
proof -
  obtain n where "json_size demo_codec (JObject []) = Inr n" "n \<le> 2" using demo_size [of "JObject []"] by auto
  then show ?thesis by (simp add: validate_object_def freeze_nothing no_keys_def)
qed

lemma solo_output_constructed: "AgentTaskOutput_post_init demo_codec solo_output = Inr solo_output"
proof -
  obtain n where "json_size demo_codec (output_dict solo_output) = Inr n" "n < 10000" using solo_output_size by blast
  then show ?thesis
    by (simp add: AgentTaskOutput_post_init_def visible_text text_tuple_def freeze_nothing solo_output_def RuntimeUsage_valid_def
        zero_usage_def in_range_def)
qed

lemma solo_context:
  assumes "bc_request bc = solo_request"
  shows "\<exists>c. attempt_context demo_codec bc solo_task [] = Inr c"
proof -
  have plan: "pl_roles (rq_plan solo_request) = [demo_role 97 AGGREGATOR, demo_role 99 COORDINATOR]" "rq_orchestration_id solo_request = [111]"
    by (simp_all add: solo_request_def solo_plan_def)
  have task: "ta_input_contract solo_task = no_keys" "ta_input_bindings solo_task = []" "ta_dependencies solo_task = []"
    "ta_role_id solo_task = [97]" "retry_max_attempts (ta_retry_policy solo_task) = 1"
    by (simp_all add: solo_task_def once_def)
  show ?thesis
    by (simp add: attempt_context_def resolve_inputs_def task validate_nothing plain_def assms plan solo_role visible_id
        AgentTaskExecutionContext_post_init_def positive_int_def) (simp add: demo_role_def)
qed

lemma solo_task_receipt:
  assumes "json_size demo_codec (output_dict solo_output) = Inr n" "0 \<le> n" "n < 10000"
  shows "task_receipt demo_codec solo_task SUCCEEDED solo_output [] 1 0 0 0 (lit ''budget-reservation:r:1'') = Inr (solo_outcome n)"
proof -
  let ?r = "(solo_receipt n)\<lparr>rt_receipt_sha256 := []\<rparr>"
  have "json_ascii (JObject (receipt_fields ?r))"
    by (simp add: receipt_fields_def solo_receipt_def strs_def epoch task_state_value_def zeros_ascii) (simp add: lit_def)
  then have "json_digest demo_codec (JObject (receipt_fields ?r)) = Inr zeros" by (rule zero_digest)
  then have digest: "declared_digest demo_codec (JObject (receipt_fields ?r)) [] = Inr zeros"
    by (simp add: declared_digest_def py_lower_def)
  have "optional_id_field 200 (lit ''budget-reservation:r:1'') = Inr (lit ''budget-reservation:r:1'')"
    by (rule visible_optional_id) (simp_all add: lit_def)
  moreover have "optional_id_field 128 [] = Inr []" by (simp add: optional_id_field_def)
  ultimately have "AgentTaskExecutionReceipt_post_init demo_codec ?r = Inr (solo_receipt n)"
    using digest assms(2)
    by (simp add: AgentTaskExecutionReceipt_post_init_def solo_receipt_def visible_id task_terminal_def positive_int_def
        sorted_texts_def text_tuple_def zero_sha)
  then show ?thesis
    using assms(1) zero_digest [OF solo_output_ascii]
    by (simp add: task_receipt_def solo_receipt_def solo_outcome_def solo_task_def)
qed

lemma solo_begins:
  assumes "bc_request bc = solo_request" "sh_account sh = demo_account"
  shows "\<exists>res a1 c s. begin_attempt demo_codec bc solo_task [] start_now sh =
      (Inr (c, s), \<lparr>ra_started_at = 0, ra_started_clock = 0, ra_reservation = Some res\<rparr>, sh\<lparr>sh_account := a1\<rparr>) \<and>
    fresh_account a1 \<and> br_id res = lit ''budget-reservation:r:1'' \<and> br_turn_id res = ri_turn_id (identity a1) \<and>
    dict_get (reservations a1) (br_id res) = Some res"
proof -
  let ?name = "ta_task_id solo_task @ lit '':attempt:'' @ py_digits 1"
  obtain res a1 where r: "reserve_subagent ?name 0 0 demo_account = (Inr res, a1)" "fresh_account a1"
    "br_id res = lit ''budget-reservation:r:1''" "br_turn_id res = ri_turn_id (identity a1)"
    "dict_get (reservations a1) (br_id res) = Some res"
    using demo_subagent [of ?name] by blast
  obtain c where c: "attempt_context demo_codec bc solo_task [] = Inr c" using solo_context [OF assms(1)] by blast
  obtain s where "subagent_remaining_time_seconds 0 0 0 0 0 a1 = (Inr s, a1)" using fresh_remaining [OF r(2)] by blast
  then show ?thesis
    using r c assms(2) by (intro exI [of _ res] exI [of _ a1]) (simp add: begin_attempt_def start_now_def)
qed

lemma solo_judged:
  assumes "json_size demo_codec (output_dict solo_output) = Inr n" "0 \<le> n" "n < 10000" "bc_request bc = solo_request"
    "ra = \<lparr>ra_started_at = 0, ra_started_clock = 0, ra_reservation = Some res\<rparr>" "br_id res = lit ''budget-reservation:r:1''"
    "fresh_account (sh_account sh)" "sh_usage sh = no_usage"
  shows "\<exists>a2. judge_output demo_scheduler bc solo_task 1 ra end_now solo_output sh =
      (Inr (solo_outcome n), sh\<lparr>sh_usage := no_usage\<lparr>ut_output_bytes := n\<rparr>, sh_account := a2\<rparr>) \<and> account_inv a2 \<and>
    identity a2 = identity (sh_account sh) \<and> reservations a2 = reservations (sh_account sh)"
proof -
  have out: "to_usage solo_output = zero_usage" "to_model_calls solo_output = 0" "to_tool_calls solo_output = 0"
    "to_status solo_output = SUCCESS" "to_data solo_output = []"
    by (simp_all add: solo_output_def)
  have accepted: "output_accepted demo_codec solo_task solo_output"
    using validate_nothing by (simp add: output_accepted_def out) (simp add: solo_task_def)
  have matches: "completion_matches (ta_completion solo_task) solo_output"
    by (simp add: completion_matches_def out solo_task_def any_output_def)
  obtain a2 where a2: "record_subagent_usage zero_usage 0 0 0 0 (sh_account sh) = (Inr (), a2)" "account_inv a2"
    "identity a2 = identity (sh_account sh)" "reservations a2 = reservations (sh_account sh)"
    using fresh_no_usage [OF assms(7)] by blast
  have added: "added_usage no_usage solo_output n = no_usage\<lparr>ut_output_bytes := n\<rparr>"
    by (simp add: added_usage_def no_usage_def out zero_usage_def)
  have fits: "plan_exceeded solo_budget (no_usage\<lparr>ut_output_bytes := n\<rparr>) = None"
    using assms(3) by (simp add: plan_exceeded_def no_usage_def solo_budget_def ut_tokens_def)
  have budget: "pl_budget (rq_plan (bc_request bc)) = solo_budget" by (simp add: assms(4) solo_request_def solo_plan_def)
  have "record_task_usage demo_codec solo_budget solo_output 0 0 sh =
      (Inr (), sh\<lparr>sh_usage := no_usage\<lparr>ut_output_bytes := n\<rparr>, sh_account := a2\<rparr>)"
    using assms(1) a2(1) fits by (simp add: record_task_usage_def assms(8) added out)
  then show ?thesis
    using a2 accepted matches solo_task_receipt [OF assms(1-3)] assms(5,6)
    by (intro exI [of _ a2]) (simp add: judge_output_def demo_scheduler_def end_now_def budget make_outcome_def plain_def)
qed

lemma solo_batch:
  assumes "json_size demo_codec (output_dict solo_output) = Inr n" "0 \<le> n" "n < 10000" "bc_request bc = solo_request"
    "sh = \<lparr>sh_account = demo_account, sh_usage = no_usage, sh_cancel = None\<rparr>"
  shows "\<exists>a3. run_batch demo_scheduler bc solo_events (ready_batch sh [[49]]) =
      Some \<lparr>bt_shared = \<lparr>sh_account = a3, sh_usage = no_usage\<lparr>ut_output_bytes := n\<rparr>, sh_cancel = None\<rparr>,
            bt_runs = [([49], Finished [solo_outcome n])]\<rparr>"
proof -
  let ?u = "no_usage\<lparr>ut_output_bytes := n\<rparr>"
  have acc: "sh_account sh = demo_account" by (simp add: assms(5))
  obtain res a1 c s where b: "begin_attempt demo_codec bc solo_task [] start_now sh =
      (Inr (c, s), \<lparr>ra_started_at = 0, ra_started_clock = 0, ra_reservation = Some res\<rparr>, sh\<lparr>sh_account := a1\<rparr>)"
    "fresh_account a1" "br_id res = lit ''budget-reservation:r:1''" "br_turn_id res = ri_turn_id (identity a1)"
    "dict_get (reservations a1) (br_id res) = Some res"
    using solo_begins [OF assms(4) acc] by blast
  let ?ra = "\<lparr>ra_started_at = 0, ra_started_clock = 0, ra_reservation = Some res\<rparr>" and ?sh = "sh\<lparr>sh_account := a1\<rparr>"
  have "fresh_account (sh_account ?sh)" "sh_usage ?sh = no_usage" using b(2) by (simp_all add: assms(5))
  from solo_judged [OF assms(1-4) refl b(3) this] obtain a2 where
    j: "judge_output demo_scheduler bc solo_task 1 ?ra end_now solo_output ?sh =
      (Inr (solo_outcome n), ?sh\<lparr>sh_usage := ?u, sh_account := a2\<rparr>)" "account_inv a2" "identity a2 = identity a1"
    "reservations a2 = reservations a1" by auto
  obtain a3 where a3: "release res a2 = (Inr (), a3)"
    using release_outstanding [OF j(2), of res] b(4,5) j(3,4) by auto
  have succ: "rt_state (oc_receipt (solo_outcome n)) = SUCCEEDED" by (simp add: solo_outcome_def solo_receipt_def)
  have "TaskSeries_post_init [solo_outcome n] = Inr [solo_outcome n]"
    by (simp add: TaskSeries_post_init_def solo_outcome_def solo_receipt_def)
  then have fin: "finish_series [solo_outcome n] = Finished [solo_outcome n]" by (simp add: finish_series_def)
  have start: "start_attempt demo_codec bc solo_task [] start_now end_now sh = (Executing [] ?ra c s, ?sh)"
    by (simp add: start_attempt_def b(1))
  have finish: "finish_attempt demo_scheduler bc solo_task [] ?ra end_now (Work_returned solo_output) ?sh =
      (Finished [solo_outcome n], \<lparr>sh_account = a3, sh_usage = ?u, sh_cancel = None\<rparr>)"
    using j(1) a3 succ fin
    by (simp add: finish_attempt_def await_executor_def assms(5) conclude_def end_attempt_def release_reservation_def
        after_attempt_def Let_def)
  have task: "plan_task bc [49] = Some solo_task"
    using solo_find by (simp add: plan_task_def assms(4) solo_request_def solo_plan_def)
  have "sd_codec demo_scheduler = demo_codec" by (simp add: demo_scheduler_def)
  then show ?thesis
    by (simp add: solo_events_def ready_batch_def task start finish set_run_def)
qed

section \<open>The checkpoint and the result\<close>

definition solo_script :: script where
  "solo_script = \<lparr>sr_cancels = [], sr_clock = 0, sr_now = (\<lambda>_. 0), sr_events = solo_events, sr_created_at = 0\<rparr>"

definition demo_store :: checkpoint_store where
  "demo_store = \<lparr>cs_max_records = 10, cs_records = [], cs_order = []\<rparr>"

definition demo_decision :: FeatureEnablementDecision where
  "demo_decision = \<lparr>fd_feature_id = MULTI_AGENT_FEATURE_ID, fd_enabled = True, fd_code = ENABLED\<rparr>"

abbreviation solo_barrier :: AgentTaskBarrier where
  "solo_barrier \<equiv> demo_barrier 1 [[49]] []"

definition solo_usage :: "int \<Rightarrow> AgentOrchestrationUsage" where
  "solo_usage n =
     \<lparr>ou_usage = zero_usage, ou_model_calls = 0, ou_tool_calls = 0, ou_task_attempts = 1, ou_output_bytes = n\<rparr>"

definition solo_checkpoint :: "int \<Rightarrow> AgentOrchestrationCheckpoint" where
  "solo_checkpoint n =
     \<lparr>ck_checkpoint_id = lit ''orchestration:o:checkpoint:1'', ck_orchestration_id = [111], ck_identity = demo_identity,
      ck_plan_id = [112], ck_plan_revision = 1, ck_plan_sha256 = zeros, ck_freeze_id = [102], ck_sequence = 1,
      ck_parent_checkpoint_id = [], ck_barrier_id = ba_barrier_id solo_barrier, ck_task_states = [([49], SUCCEEDED)],
      ck_outputs = [([49], solo_output)], ck_receipts = [solo_receipt n], ck_cumulative_usage = solo_usage n,
      ck_created_at = 0, ck_state_sha256 = zeros\<rparr>"

lemma solo_barrier_id:
  "length (ba_barrier_id solo_barrier) = 29" "\<forall>c \<in> set (ba_barrier_id solo_barrier). 32 < c \<and> c < 127"
  by (simp_all add: demo_barrier_def lit_def)

lemma demo_run: "ri_run_id demo_identity = [114]"
  by (simp add: demo_identity_def)

lemma ascii_parts:
  "json_ascii (JObject (receipt_fields (solo_receipt n)))" "json_ascii (receipt_dict (solo_receipt n))"
  "json_ascii (identity_dict demo_identity)" "json_ascii (orchestration_usage_dict (solo_usage n))"
  by (simp add: receipt_fields_def solo_receipt_def strs_def epoch task_state_value_def zeros_ascii, simp add: lit_def)
    (simp add: receipt_dict_def receipt_fields_def solo_receipt_def strs_def epoch task_state_value_def zeros_ascii, simp add: lit_def,
     simp add: identity_dict_def demo_identity_def lit_def,
     simp add: orchestration_usage_dict_def solo_usage_def usage_dict_def lit_def)

lemma checkpoint_ascii:
  "json_ascii (JObject (checkpoint_fields (solo_checkpoint n)))"
  "json_ascii (JObject (checkpoint_fields (solo_checkpoint n) @ [(lit ''state_sha256'', JStr zeros)]))"
proof -
  have b: "\<forall>c \<in> set (ba_barrier_id solo_barrier). c < 128" using solo_barrier_id(2) by fastforce
  show fields: "json_ascii (JObject (checkpoint_fields (solo_checkpoint n)))"
    by (simp add: checkpoint_fields_def solo_checkpoint_def ascii_parts solo_output_ascii b epoch task_state_value_def zeros_ascii
        demo_owner(1) demo_run del: One_nat_def) (simp add: lit_def)
  show "json_ascii (JObject (checkpoint_fields (solo_checkpoint n) @ [(lit ''state_sha256'', JStr zeros)]))"
    using fields zeros_ascii by (auto simp: lit_def)
qed

lemma weight_parts:
  assumes "0 \<le> n" "n < 10000"
  shows "json_weight (receipt_dict (solo_receipt n)) \<le> 3000" "json_weight (identity_dict demo_identity) \<le> 2000"
    "json_weight (orchestration_usage_dict (solo_usage n)) \<le> 2000" "json_weight (output_dict solo_output) \<le> 2000"
    using small_int [OF assms]
  by (simp_all add: receipt_dict_def receipt_fields_def solo_receipt_def strs_def epoch task_state_value_def zero_sha
    zero_int lit_def identity_dict_def demo_identity_def orchestration_usage_dict_def solo_usage_def usage_dict_def zero_usage_def
    output_dict_def solo_output_def output_status_value_def)

lemma checkpoint_weight:
  assumes "0 \<le> n" "n < 10000"
  shows "json_weight (JObject (checkpoint_fields (solo_checkpoint n) @ [(lit ''state_sha256'', JStr zeros)])) \<le> 50000"
  using weight_parts [OF assms]
  by (simp add: checkpoint_fields_def solo_checkpoint_def solo_barrier_id epoch task_state_value_def zero_sha zero_int
      demo_owner(1) demo_run lit_def del: One_nat_def)

lemma solo_made:
  assumes "json_size demo_codec (output_dict solo_output) = Inr n" "0 \<le> n" "n < 10000"
  shows "AgentOrchestrationCheckpoint_post_init demo_codec ((solo_checkpoint n)\<lparr>ck_state_sha256 := []\<rparr>) = Inr (solo_checkpoint n)"
    "\<exists>m. checkpoint_size demo_codec (solo_checkpoint n) = Inr m \<and> m \<le> 50000"
proof -
  let ?c = "(solo_checkpoint n)\<lparr>ck_state_sha256 := []\<rparr>"
  obtain m where m: "json_size demo_codec (JObject (checkpoint_fields (solo_checkpoint n) @ [(lit ''state_sha256'', JStr zeros)])) = Inr m"
    "m \<le> int (json_weight (JObject (checkpoint_fields (solo_checkpoint n) @ [(lit ''state_sha256'', JStr zeros)])))"
    using demo_size [OF checkpoint_ascii(2) [of n]] by blast
  have le: "m \<le> 50000"
    by (rule order_trans [OF m(2)]) (use of_nat_mono [OF checkpoint_weight [OF assms(2,3)], where ?'a = int] in simp)
  have "json_size demo_codec (JObject (checkpoint_fields (solo_checkpoint n) @ [(lit ''state_sha256'', JStr zeros)])) =
      checkpoint_size demo_codec (solo_checkpoint n)"
    by (simp add: checkpoint_size_def) (simp add: solo_checkpoint_def)
  then show size: "\<exists>m. checkpoint_size demo_codec (solo_checkpoint n) = Inr m \<and> m \<le> 50000"
    using m(1) le by metis
  have same: "checkpoint_fields ?c = checkpoint_fields (solo_checkpoint n)" by (simp add: checkpoint_fields_def)
  have digest: "declared_digest demo_codec (JObject (checkpoint_fields ?c)) [] = Inr zeros"
    by (simp add: declared_digest_def same zero_digest [OF checkpoint_ascii(1)] py_lower_def)
  have "id_field 200 (lit ''orchestration:o:checkpoint:1'') = Inr (lit ''orchestration:o:checkpoint:1'')"
    by (rule visible_id) (simp_all add: lit_def)
  moreover have "id_field 200 (ba_barrier_id solo_barrier) = Inr (ba_barrier_id solo_barrier)"
    using solo_barrier_id by (intro visible_id) (auto simp del: One_nat_def)
  ultimately have ids: "id_field 200 (lit ''orchestration:o:checkpoint:1'') = Inr (lit ''orchestration:o:checkpoint:1'')"
    "id_field 200 (ba_barrier_id solo_barrier) = Inr (ba_barrier_id solo_barrier)"
    "id_field 160 [111] = Inr [111]" "id_field 160 [112] = Inr [112]" "id_field 160 [102] = Inr [102]"
    "id_field 128 [49] = Inr [49]" "optional_id_field 200 [] = Inr []"
    by (simp_all add: visible_id optional_id_field_def del: One_nat_def)
  have attempts: "attempts_valid demo_codec [([49], SUCCEEDED)] [([49], solo_output)] [solo_receipt n] [49]"
    using assms(1) zero_digest [OF solo_output_ascii]
    by (simp add: attempts_valid_def attempts_of_def) (simp add: solo_receipt_def)
  have parts: "ck_checkpoint_id ?c = lit ''orchestration:o:checkpoint:1''" "ck_orchestration_id ?c = [111]" "ck_plan_id ?c = [112]"
    "ck_plan_revision ?c = 1" "ck_plan_sha256 ?c = zeros" "ck_freeze_id ?c = [102]" "ck_sequence ?c = 1"
    "ck_parent_checkpoint_id ?c = []" "ck_barrier_id ?c = ba_barrier_id solo_barrier" "ck_task_states ?c = [([49], SUCCEEDED)]"
    "ck_outputs ?c = [([49], solo_output)]" "ck_receipts ?c = [solo_receipt n]" "ck_cumulative_usage ?c = solo_usage n"
    "ck_state_sha256 ?c = []"
    by (simp_all add: solo_checkpoint_def)
  have receipt: "rt_task_id (solo_receipt n) = [49]" "ou_task_attempts (solo_usage n) = 1"
    by (simp_all add: solo_receipt_def solo_usage_def)
  have states: "named_states [([49], SUCCEEDED)] = Inr [([49], SUCCEEDED)]" by (simp add: named_states_def ids)
  have whole: "?c\<lparr>ck_checkpoint_id := lit ''orchestration:o:checkpoint:1'', ck_orchestration_id := [111], ck_plan_id := [112],
      ck_plan_revision := 1, ck_plan_sha256 := zeros, ck_freeze_id := [102], ck_sequence := 1, ck_parent_checkpoint_id := [],
      ck_barrier_id := ba_barrier_id solo_barrier, ck_task_states := [([49], SUCCEEDED)], ck_outputs := [([49], solo_output)]\<rparr> = ?c"
    by (simp add: solo_checkpoint_def)
  have terminal: "{kv. kv = ([49], SUCCEEDED) \<and> snd kv \<noteq> PENDING \<and> snd kv \<noteq> RUNNING} = {([49 :: nat], SUCCEEDED)}" by auto
  have again: "(solo_checkpoint n)\<lparr>ck_checkpoint_id := lit ''orchestration:o:checkpoint:1'', ck_orchestration_id := [111], ck_plan_id := [112],
      ck_plan_revision := 1, ck_plan_sha256 := zeros, ck_freeze_id := [102], ck_sequence := 1, ck_parent_checkpoint_id := [],
      ck_barrier_id := ba_barrier_id solo_barrier, ck_task_states := [([49], SUCCEEDED)], ck_outputs := [([49], solo_output)],
      ck_state_sha256 := zeros\<rparr> = solo_checkpoint n"
    by (simp add: solo_checkpoint_def)
  have final: "?c\<lparr>ck_state_sha256 := zeros\<rparr> = solo_checkpoint n" by (simp add: solo_checkpoint_def)
  obtain m where "checkpoint_size demo_codec (solo_checkpoint n) = Inr m" "m \<le> 50000" using size by blast
  then show "AgentOrchestrationCheckpoint_post_init demo_codec ?c = Inr (solo_checkpoint n)"
    using digest final attempts
    unfolding AgentOrchestrationCheckpoint_post_init_def parts ids states
    by (simp add: zero_sha positive_int_def task_terminal_def receipt states whole again terminal Let_def del: One_nat_def)
qed

definition solo_execution :: "BudgetAccount \<Rightarrow> int \<Rightarrow> execution" where
  "solo_execution a n =
     \<lparr>ex_states = [([49], SUCCEEDED)], ex_outputs = [([49], solo_output)], ex_receipts = [solo_receipt n],
      ex_by_id = [([49], solo_receipt n)],
      ex_shared = \<lparr>sh_account = a, sh_usage = no_usage\<lparr>ut_output_bytes := n, ut_task_attempts := 1\<rparr>, sh_cancel = None\<rparr>,
      ex_latest = lit ''orchestration:o:checkpoint:1'',
      ex_store = \<lparr>cs_max_records = 10, cs_records = [(lit ''orchestration:o:checkpoint:1'', solo_checkpoint n)],
        cs_order = [([111], [lit ''orchestration:o:checkpoint:1''])]\<rparr>\<rparr>"

definition solo_result :: "int \<Rightarrow> AgentOrchestrationResult" where
  "solo_result n =
     \<lparr>re_orchestration_id = [111], re_state = ORCH_SUCCEEDED, re_plan_sha256 = zeros, re_receipts = [solo_receipt n],
      re_outputs = [([49], solo_output)], re_aggregate_output = Some solo_output,
      re_latest_checkpoint_id = lit ''orchestration:o:checkpoint:1'', re_failure_code = []\<rparr>"

lemma solo_admitted: "admit solo_request demo_decision 0 demo_account = Inr ()"
proof -
  have plan: "pl_budget (rq_plan solo_request) = solo_budget" "rq_identity solo_request = demo_identity" "rq_nesting_depth solo_request = 0"
    "maximum_attempts (rq_plan solo_request) = 1"
    by (simp_all add: solo_request_def solo_plan_def maximum_attempts_def solo_task_def once_def)
  have parent: "be_subagent (budgets (governance demo_account)) = demo_limit SUBAGENT_SCOPE" "identity demo_account = demo_identity"
    by (simp_all add: new_account_fields demo_governance_def)
  show ?thesis
    unfolding admit_def plan parent Let_def
    by (simp add: demo_decision_def within_parent_def solo_budget_def demo_limit_def)
qed

lemma solo_unsaved: "load_latest (rq_orchestration_id solo_request) (canonical_id (ri_owner (rq_identity solo_request))) demo_store = Inr None"
proof -
  have "py_strip [111] = [111]" by (rule py_strip_visible) (simp add: py_isspace_def)
  then show ?thesis using demo_owner by (simp add: load_latest_def solo_request_def demo_store_def Let_def dict_get_default_def)
qed

lemma solo_series:
  assumes "json_size demo_codec (output_dict solo_output) = Inr n" "0 \<le> n" "n < 10000"
  shows "\<exists>a. barrier_series demo_scheduler solo_request 1 solo_barrier solo_script
      (first_execution solo_request demo_account None demo_store) =
    Some (Inr [[solo_outcome n]], \<lparr>sh_account = a, sh_usage = no_usage\<lparr>ut_output_bytes := n\<rparr>, sh_cancel = None\<rparr>)"
proof -
  let ?ex = "first_execution solo_request demo_account None demo_store"
  let ?sh = "\<lparr>sh_account = demo_account, sh_usage = no_usage, sh_cancel = None\<rparr>"
  let ?bc = "\<lparr>bc_request = solo_request, bc_outputs = [], bc_receipts = [], bc_deadline = 1\<rparr>"
  have ex: "ex_shared ?ex = ?sh" "ex_outputs ?ex = []" "ex_by_id ?ex = []"
    "ex_states ?ex = [([49], PENDING)]"
    by (simp_all add: first_execution_def solo_request_def solo_plan_def solo_task_def)
  have bc: "bc_request ?bc = solo_request" by simp
  obtain a where a: "run_batch demo_scheduler ?bc solo_events (ready_batch ?sh [[49]]) =
      Some \<lparr>bt_shared = \<lparr>sh_account = a, sh_usage = no_usage\<lparr>ut_output_bytes := n\<rparr>, sh_cancel = None\<rparr>,
            bt_runs = [([49], Finished [solo_outcome n])]\<rparr>"
    using solo_batch [OF assms bc refl] by blast
  have "\<not> blocked (rq_plan solo_request) [([49], PENDING)] [49]"
    by (simp add: blocked_def dependencies_of_def solo_request_def solo_plan_def solo_task_def)
  moreover have "ba_task_ids solo_barrier = [[49]]" by (simp add: demo_barrier_def)
  ultimately have "execute_batch demo_scheduler solo_request 1 solo_barrier solo_script ?ex =
      Some (Inr [[solo_outcome n]], \<lparr>sh_account = a, sh_usage = no_usage\<lparr>ut_output_bytes := n\<rparr>, sh_cancel = None\<rparr>)"
    using a unfolding execute_batch_def ex Let_def
    by (simp add: solo_script_def gathered_def finished_series_def ready_batch_def del: One_nat_def)
  then show ?thesis by (simp add: barrier_series_def ex solo_script_def del: One_nat_def)
qed

lemma solo_saved:
  assumes "json_size demo_codec (output_dict solo_output) = Inr n" "0 \<le> n" "n < 10000"
    and "ex = (solo_execution a n)\<lparr>ex_latest := [], ex_store := demo_store\<rparr>"
  shows "save_checkpoint demo_codec solo_request solo_barrier 0 ex = (Inr (solo_checkpoint n), ex_store (solo_execution a n))"
proof -
  obtain m where m: "checkpoint_size demo_codec (solo_checkpoint n) = Inr m" "m \<le> 50000" using solo_made(2) [OF assms(1-3)] by blast
  have usage: "usage_snapshot (sh_usage (ex_shared ex)) = Inr (solo_usage n)"
    using assms(2,3)
    by (simp add: usage_snapshot_def assms(4) solo_execution_def no_usage_def RuntimeUsage_valid_def
        AgentOrchestrationUsage_post_init_def in_range_def solo_usage_def zero_usage_def)
  have req: "pl_budget (rq_plan solo_request) = solo_budget" "rq_orchestration_id solo_request = [111]"
    "rq_identity solo_request = demo_identity" "pl_plan_id (rq_plan solo_request) = [112]" "pl_revision (rq_plan solo_request) = 1"
    "pl_content_sha256 (rq_plan solo_request) = zeros" "fz_freeze_id (rq_freeze solo_request) = [102]"
    by (simp_all add: solo_request_def solo_plan_def)
  have ba: "ba_sequence solo_barrier = 1" by (simp add: demo_barrier_def)
  have id: "checkpoint_id_of solo_request 1 = lit ''orchestration:o:checkpoint:1''"
    by (simp add: checkpoint_id_of_def req dump_int_def py_digits.simps [of "Suc 0"] lit_def)
  have ex: "ex_latest ex = []" "ex_states ex = [([49], SUCCEEDED)]" "ex_outputs ex = [([49], solo_output)]" "ex_receipts ex = [solo_receipt n]"
    "ex_store ex = demo_store"
    by (simp_all add: assms(4) solo_execution_def)
  have "make_checkpoint demo_codec solo_request solo_barrier 0 ex = Inr (solo_checkpoint n)"
    using solo_made(1) [OF assms(1-3), unfolded solo_checkpoint_def] m
    unfolding make_checkpoint_def req ba id ex usage Let_def
    by (simp add: solo_checkpoint_def solo_budget_def del: One_nat_def)
  then show ?thesis
    by (simp add: save_checkpoint_def ex store_save_def demo_store_def dict_get_default_def solo_execution_def)
      (simp add: solo_checkpoint_def)
qed

lemma solo_runs:
  "\<exists>a n. execute demo_scheduler solo_request demo_decision 0 0 [solo_script] [] demo_account None demo_store =
     Some (Inr (solo_result n), solo_execution a n)"
proof -
  obtain n where n: "json_size demo_codec (output_dict solo_output) = Inr n" "0 \<le> n" "n < 10000" using solo_output_size by blast
  let ?ex = "first_execution solo_request demo_account None demo_store"
  obtain a where a: "barrier_series demo_scheduler solo_request 1 solo_barrier solo_script ?ex =
      Some (Inr [[solo_outcome n]], \<lparr>sh_account = a, sh_usage = no_usage\<lparr>ut_output_bytes := n\<rparr>, sh_cancel = None\<rparr>)"
    using solo_series [OF n] by blast
  let ?ex1 = "(solo_execution a n)\<lparr>ex_latest := [], ex_store := demo_store\<rparr>"
  have commit: "commit_barrier [[solo_outcome n]]
      (?ex\<lparr>ex_shared := \<lparr>sh_account = a, sh_usage = no_usage\<lparr>ut_output_bytes := n\<rparr>, sh_cancel = None\<rparr>\<rparr>) = ?ex1"
    by (simp add: commit_barrier_def commit_series_def commit_outcome_def solo_outcome_def solo_execution_def first_execution_def
        solo_request_def solo_plan_def solo_task_def solo_receipt_def no_usage_def Let_def)
  have cd: "sd_codec demo_scheduler = demo_codec" by (simp add: demo_scheduler_def)
  have quiet: "?ex\<lparr>ex_shared := cancelled_by (sr_cancels solo_script) (ex_shared ?ex)\<rparr> = ?ex" "sr_created_at solo_script = 0"
    by (simp_all add: cancelled_by_def solo_script_def)
  have "run_barrier demo_scheduler solo_request 1 solo_barrier solo_script ?ex = Some (Continues (solo_execution a n))"
    using a solo_saved [OF n refl, of a] unfolding run_barrier_def quiet Let_def
    by (simp add: commit cd del: One_nat_def) (simp add: solo_execution_def solo_checkpoint_def)
  then have "run_barriers demo_scheduler solo_request 1 [solo_barrier] [solo_script] ?ex = Some (Continues (solo_execution a n))"
    by (simp del: One_nat_def)
  moreover have "final_result solo_request (solo_execution a n) = Inr (solo_result n)"
  proof -
    have "optional_id_field 200 (lit ''orchestration:o:checkpoint:1'') = Inr (lit ''orchestration:o:checkpoint:1'')"
      by (rule visible_optional_id) (simp_all add: lit_def)
    moreover have "rt_state (solo_receipt n) = SUCCEEDED" by (simp add: solo_receipt_def)
    ultimately show ?thesis
      by (simp add: final_result_def solo_execution_def solo_request_def solo_plan_def all_succeeded_def orchestration_result_def
          AgentOrchestrationResult_post_init_def visible_id orchestration_terminal_def zero_sha optional_id_field_def solo_result_def)
  qed
  moreover have "(solo_execution a n)\<lparr>ex_shared := cancelled_by [] (ex_shared (solo_execution a n))\<rparr> = solo_execution a n"
    by (simp add: cancelled_by_def)
  moreover have "0 + of_int (max_elapsed_ms (pl_budget (rq_plan solo_request))) / 1000 = (1 :: rat)"
    "execution_barriers demo_codec (rq_plan solo_request) = Some (Inr [solo_barrier])"
    using solo_barriers by (simp_all add: solo_request_def) (simp add: solo_plan_def solo_budget_def)
  ultimately have "execute demo_scheduler solo_request demo_decision 0 0 [solo_script] [] demo_account None demo_store =
     Some (Inr (solo_result n), solo_execution a n)"
    unfolding execute_def Let_def solo_admitted solo_unsaved cd by simp
  then show ?thesis by blast
qed

section \<open>The properties on this run\<close>

lemma solo_script_ok: "list_all (script_ok (sd_codec demo_scheduler)) [solo_script]"
  using solo_output_constructed
  by (auto simp: script_ok_def solo_script_def solo_events_def work_ok_def demo_scheduler_def)

lemma solo_hypotheses: "constructed_request (sd_codec demo_scheduler) solo_request" "account_inv demo_account" "store_inv demo_store"
  using solo_request_constructed new_account_inv [OF demo_governance_ok]
  by (simp_all add: demo_scheduler_def store_inv_def demo_store_def)

abbreviation solo_run :: "((execute_error + AgentOrchestrationResult) \<times> execution) option" where
  "solo_run \<equiv> execute demo_scheduler solo_request demo_decision 0 0 [solo_script] [] demo_account None demo_store"

definition solo_batch_context :: batch_context where
  "solo_batch_context = \<lparr>bc_request = solo_request, bc_outputs = [], bc_receipts = [], bc_deadline = 1\<rparr>"

definition solo_shared :: shared where
  "solo_shared = \<lparr>sh_account = demo_account, sh_usage = no_usage, sh_cancel = None\<rparr>"

theorem batch_ends_witness:
  "\<exists>b es b'. run_batch demo_scheduler solo_batch_context solo_events (ready_batch solo_shared [[49]]) = Some b \<and>
     length (filter (\<lambda>e. \<not> is_cancel e) solo_events) \<le> 3 \<and> run_batch demo_scheduler solo_batch_context es b = Some b' \<and>
     \<not> (\<exists>i r. dict_get (bt_runs b') i = Some r \<and> \<not> ended r)"
proof -
  obtain n where n: "json_size demo_codec (output_dict solo_output) = Inr n" "0 \<le> n" "n < 10000" using solo_output_size by blast
  have bc: "bc_request solo_batch_context = solo_request" by (simp add: solo_batch_context_def)
  obtain b where b: "run_batch demo_scheduler solo_batch_context solo_events (ready_batch solo_shared [[49]]) = Some b"
    using solo_batch [OF n bc solo_shared_def] by blast
  have tasks: "pl_tasks (rq_plan (bc_request solo_batch_context)) = [solo_task]" by (simp add: bc solo_request_def solo_plan_def)
  have "codec_ok (sd_codec demo_scheduler)" using solo_hypotheses(1) by (simp add: constructed_request_def)
  moreover have "list_all constructed_task (pl_tasks (rq_plan (bc_request solo_batch_context)))"
    "set [[49]] \<subseteq> set (map ta_task_id (pl_tasks (rq_plan (bc_request solo_batch_context))))"
    unfolding tasks using solo_task_constructed by (simp_all add: solo_task_def)
  moreover have "retry_max_attempts (ta_retry_policy (the (plan_task solo_batch_context [49]))) = 1"
    unfolding plan_task_def tasks solo_find by (simp add: solo_task_def once_def)
  ultimately have "length (filter (\<lambda>e. \<not> is_cancel e) solo_events) \<le> 3 \<and>
      (\<exists>es b'. run_batch demo_scheduler solo_batch_context es b = Some b' \<and>
      \<not> (\<exists>i r. dict_get (bt_runs b') i = Some r \<and> \<not> ended r))"
    using batch_ends [of demo_scheduler solo_batch_context "[[49]]" solo_events solo_shared b] b by simp blast
  then show ?thesis using b by blast
qed


theorem receipts_follow_plan_witness:
  "\<exists>result ex. solo_run = Some (Inr result, ex) \<and> map rt_attempt_no (attempts_of [49] (re_receipts result)) = [1]"
proof -
  obtain a n where r: "solo_run = Some (Inr (solo_result n), solo_execution a n)" using solo_runs by blast
  have one: "attempts_of [49] (re_receipts (solo_result n)) \<noteq> []" "length (attempts_of [49] (re_receipts (solo_result n))) = 1"
    by (simp_all add: attempts_of_def solo_result_def solo_receipt_def)
  have "map rt_attempt_no (attempts_of [49] (re_receipts (solo_result n))) = [1]"
    using receipts_follow_plan [OF r solo_hypotheses(1,2) solo_script_ok solo_unsaved refl one(1)] one(2) by auto
  then show ?thesis by (intro exI conjI) (rule r)
qed

theorem success_is_complete_witness:
  "\<exists>result ex. solo_run = Some (Inr result, ex) \<and> re_state result = ORCH_SUCCEEDED \<and>
     plan_exceeded solo_budget (sh_usage (ex_shared ex)) = None \<and> re_aggregate_output result = dict_get (re_outputs result) [49]"
proof -
  obtain a n where r: "solo_run = Some (Inr (solo_result n), solo_execution a n)" using solo_runs by blast
  have st: "re_state (solo_result n) = ORCH_SUCCEEDED" by (simp add: solo_result_def)
  have plan: "pl_budget (rq_plan solo_request) = solo_budget" "pl_aggregation_task_id (rq_plan solo_request) = [49]"
    by (simp_all add: solo_request_def solo_plan_def)
  show ?thesis
    using r st success_is_complete [OF r solo_hypotheses(1,2) solo_script_ok solo_unsaved st] unfolding plan by blast
qed


end
