(* ===== verification/Spec2Isabelle.thy ===== *)
theory Spec2Isabelle
  imports Unified_Patch_Correct Sandbox_Concurrency Process_Output Registry_Correct
    Durable_Tasks_Correct Run_Ledger_Properties Durable_Reconciler_Correct Outbound_Control_Correct Job_Kernel_Properties
    Runtime_Budget_Properties Agent_Run_Demo
begin

text \<open>
  Verification of the core of nanobot, a chat-agent platform: an agent runtime with durable
  runs, a run ledger, outbound delivery, a sandbox daemon for tool execution and registries of
  capabilities. The development follows the code file by file; all paths are under \<open>src/\<close>.

  \<^bold>\<open>Conventions.\<close> A Python \<open>str\<close> is a list of code points (\<open>pystr\<close>), \<open>bytes\<close> a list of numbers
  below 256, an \<open>int\<close> an \<open>int\<close>, a finite \<open>float\<close> a \<open>rat\<close> with NaN and the infinities apart
  (\<open>pyfloat\<close>), a \<open>dict\<close> an association list in insertion order, a naive UTC \<open>datetime\<close> a number of
  microseconds. An exception is the left value of a sum; an operation that changes state takes
  the state and returns it, on error paths too where the code has already changed it. A database
  table is a dictionary from its primary key; its CHECK and UNIQUE constraints are part of the
  INSERT and UPDATE operations, and a violated constraint is an error value. SHA-256, and the
  printing and reading of floats, are parameters; what the proofs need of them is a named
  hypothesis (the digest has 64 hexadecimal digits) that a witness discharges.

  \<^bold>\<open>Shared theories.\<close>
  \<^item> \<open>Prelude\<close>: strings, decimal numerals, dictionaries, results; the collection \<open>result_simps\<close>.
  \<^item> \<open>Utf8\<close>, \<open>Text_Lines\<close>, \<open>Python_Text\<close>, \<open>Py_Values\<close>: the parts of Python's standard library the
    code uses (UTF-8, \<open>splitlines\<close>, \<open>split\<close>, \<open>strip\<close>, \<open>timedelta\<close> rounding, values).
  \<^item> \<open>Json_Text\<close>: \<open>json.dumps\<close> with sorted keys and \<open>json.loads\<close>. The parser has fuel; \<open>loads_fuel\<close>
    shows that the length of the text is always enough, \<open>loads_dumps\<close> is the round trip.
  \<^item> \<open>Protocols\<close>: the contracts that stored state machines share, as locales over a step
    relation (\<open>preserved_invariant\<close>, \<open>write_once\<close>, \<open>monotone_counter\<close>). They are interpreted on the
    durable task table, the run ledger, the outbound control, the job repository, the budget
    account and the batches of the scheduler.

  \<^bold>\<open>Components.\<close>
  \<^item> \<open>Sandbox_Concurrency\<close> (\<open>sandboxd/concurrency.py\<close>): permits of a profile and of a lease. Every
    interleaving of acquisitions and releases keeps the limits; the outcome of an acquisition is
    determined by the permits that are out; releases never underflow.
  \<^item> \<open>Process_Output\<close> (\<open>sandboxd/process_output.py\<close>): ring buffers and cursors. Polling resumes
    exactly where the last cursor ended; cursors parse back; memory is bounded.
  \<^item> \<open>Unified_Patch\<close>, \<open>Unified_Patch_Correct\<close> (\<open>sandboxd/unified_patch.py\<close>, path validation of
    \<open>core/sandbox/paths.py\<close>): an accepted patch is an edit script of the file, and every printed
    edit script is accepted; an accepted path cannot leave the workspace.
  \<^item> \<open>Registry_Kernel\<close>, \<open>Registry_Correct\<close> (\<open>core/registry\<close>): dependency order, freezing, and
    publishing of generations by concurrent rebuilds.
  \<^item> \<open>Durable_Tasks\<close>, \<open>Durable_Tasks_Correct\<close> (\<open>core/durable_tasks/contracts.py\<close>, \<open>service.py\<close>,
    \<open>core/db/models/durable_task.py\<close>): the lease table of agent runs. Each call may have read any
    older table (\<open>seen\<close>) before it writes (\<open>db\<close>); \<open>row_step\<close> is the abstract behaviour of a row and
    every call refines it. A run executes at most once, outcomes are permanent, writes are fenced
    by the lease, a cancellation stops the execution.
  \<^item> \<open>Durable_Reconciler\<close>, \<open>Durable_Reconciler_Correct\<close> (\<open>core/durable_tasks/reconciler.py\<close>, the
    terminal event of \<open>core/run_ledger/adapters.py\<close>): the pass that ends expired runs in five tables
    and the ledger, with the commits of other processes as the argument \<open>env\<close>. Alone it ends
    exactly the expired runs; with a concurrent owner it can replace a recorded outcome.
  \<^item> \<open>Run_Ledger\<close>, \<open>Run_Ledger_View\<close>, \<open>Run_Ledger_Correct\<close>, \<open>Run_Ledger_Properties\<close>
    (\<open>core/run_ledger/contracts.py\<close>, \<open>persistence.py\<close>, \<open>projection.py\<close>, \<open>read_model.py\<close>): the
    append-only, digest-linked event stream of each run. Appending is idempotent, streams have
    the shape of a run's life, reading back gives what was appended, the projection adds up, and
    an uncertain commit is resolved by reading back. The page loop of the read model terminates
    because every page advances (\<open>ledger_read_progress\<close>).
  \<^item> \<open>Outbound_Control\<close>, \<open>Outbound_Control_Correct\<close> (\<open>core/outbound/control.py\<close>,
    \<open>control_transitions.py\<close>, checks and fingerprints of \<open>policy.py\<close>): writer leases of a source and
    its cutover between direct delivery and the outbox. Writers are fenced, epochs and versions
    grow, a cutover waits for unfinished work, and the routing of an occurrence is known for each
    of the four cutovers.
  \<^item> \<open>Job_Kernel\<close>, \<open>Job_Kernel_Correct\<close>, \<open>Job_Kernel_Properties\<close> (\<open>core/jobs\<close>): the repository of
    background jobs with leases, retries and recovery, and the step that runs one job. The
    repository refines the abstract job \<open>attempt_step\<close>; attempts are bounded, share a side-effect
    key and are fenced by generation; an undisturbed step settles the oldest due job.
  \<^item> \<open>Runtime_Budget\<close>, \<open>Runtime_Budget_Correct\<close>, \<open>Runtime_Budget_Properties\<close>
    (\<open>core/agent_runtime/governance.py\<close>, the limits and grants of \<open>governance_contracts.py\<close>): the
    budget of a run. \<open>account_inv\<close> relates the counters of each slot to the limits and to the
    outstanding reservations; every call keeps it. So limits are never passed, releases and
    settlements balance, a settled model call costs what it used, and a refusal has no effect.
  \<^item> \<open>Agent_Plan\<close>, \<open>Agent_Plan_Correct\<close>, \<open>Agent_Plan_Demo\<close> (the plan, approval and request classes of
    \<open>core/agent_orchestration/contracts.py\<close>): the frozen plan of a multi-agent run. The loop that
    derives barriers does not return on a cycle (\<open>partial_function\<close>), but constructing a plan
    always returns; the cycle check is exact, a constructed plan is a fixed point of its checks,
    and its barriers are a schedule.
  \<^item> \<open>Agent_Records\<close> (the receipt, usage, checkpoint and result classes of \<open>contracts.py\<close>, the store in
    memory of \<open>checkpoint_store.py\<close>), \<open>Agent_Scheduler\<close> and \<open>Agent_Orchestrator\<close> (\<open>scheduler.py\<close>, all in
    \<open>core/agent_orchestration\<close>): the run of such a plan. The tasks of a barrier are coroutines that
    share one budget account; a barrier is a list of events (\<open>batch_step\<close>: an attempt starts, ends,
    a wait ends, a cancellation arrives) in any order, with the readings of the clocks and the
    behaviour of the executor in the events. \<open>execute\<close> is the whole call, with admission, barriers,
    checkpoints, result and replay.
  \<^item> \<open>Agent_Scheduler_Correct\<close> (reservations: \<open>reservations_inv\<close> relates the account to the attempts
    that are executing), \<open>Agent_Batch_Correct\<close> (attempts, totals, termination) and
    \<open>Agent_Orchestrator_Correct\<close> (whole runs, replay): every run gives back its reservations, its
    receipts follow the plan, success means that every task succeeded within the budget, executing
    a finished orchestration again gives the same result, and every batch ends. \<open>Agent_Run_Demo\<close>
    evaluates them on a complete run.

  \<^bold>\<open>How they interact.\<close> A run is admitted by the durable task service, its events go to the run
  ledger, and the reconciler ends both together. The sandbox daemon's limiter, output buffer and
  patch applier serve the tools of a run. The registry kernel freezes the descriptors the runtime
  consults. The outbound control decides which delivery path an occurrence takes.
  The scheduler runs the barriers of a constructed plan and charges its tasks to the budget
  account of the parent run: its proofs rest on \<open>account_inv\<close> and on \<open>barriers_schedule\<close>.

  \<^bold>\<open>Fuel and bounds.\<close> Only the JSON parser uses fuel, and its adequacy is proved. The other loops
  are structural or have a termination proof (dependency resolution, hunks, ledger pages), but for
  the loop that derives barriers (\<open>partial_function\<close>), which is proved to return. A run of the
  scheduler is given one script for each barrier; a script that stops before its batch has ended
  gives \<open>None\<close>, and \<open>batch_ends\<close> shows that every batch has an end, within a bound. Python
  integers are unbounded, as are the model's; the limits the code states (sizes, counts, 63-bit
  cursors, 4300-digit integer literals) are written out.

  \<^bold>\<open>Not modelled.\<close> The HTTP and admin APIs (\<open>api\<close>), the application services (\<open>app\<close>), the desktop and
  web clients, bootstrap, workers and scripts are glue around the core or pure I/O. Of the core,
  the agent runtimes, model providers, prompts, memory and semantic search depend on model
  services; schema migrations are SQL text. Of outbound delivery, run claims, generation,
  delivery claims, settlement and replay are the next components of the plan, then ledger
  governance, run recovery, and of agent orchestration the store in the database, plan revisions
  and the executor of child runtimes (an argument of the scheduler). Of the scheduler, the
  cancellation of the coordinator's own coroutine, and what the other tasks of a barrier do once
  one of them has raised, are left out. Time zones, logging, metrics and the
  presentation methods (\<open>to_dict\<close>) of modelled classes are left out.
\<close>

end
